(* ===== verification/Prelude.thy ===== *)
theory Prelude
  imports Complex_Main "HOL-Library.AList" "HOL-Library.Multiset"
begin

text \<open>
  What every component theory shares: the numeric conventions (Python floats as exact
  rationals, \<open>round\<close> and \<open>int\<close> on them), insertion-ordered dictionaries as
  association lists, unrendered f-strings, the exceptions, and a generic invariant principle
  for labelled step relations. Lemmas the component proofs use over and over are declared
  \<open>[simp]\<close> or put into one of the collections below.
\<close>

named_theorems dict_simps \<open>rewriting of ordered dictionaries\<close>
named_theorems frame_simps \<open>fields that an operation leaves alone\<close>

section \<open>Numbers\<close>

text \<open>
  A Python \<open>float\<close> is modelled by the exact rational it denotes; binary64 rounding of
  intermediate results, infinities and NaN are not modelled. \<open>round(x, n)\<close> rounds half to
  even, \<open>int(x)\<close> truncates towards zero.
\<close>

type_synonym pyfloat = rat

definition round_half_even :: "pyfloat \<Rightarrow> int" where
  "round_half_even x =
     (let f = \<lfloor>x\<rfloor>; d = x - of_int f
      in if d < 1/2 then f else if 1/2 < d then f + 1 else if even f then f else f + 1)"

definition py_round :: "nat \<Rightarrow> pyfloat \<Rightarrow> pyfloat" where
  "py_round n x = of_int (round_half_even (x * 10 ^ n)) / 10 ^ n"

definition py_int :: "pyfloat \<Rightarrow> int" where
  "py_int x = (if x < 0 then \<lceil>x\<rceil> else \<lfloor>x\<rfloor>)"

lemma rat_floor_numeral [simp]:
  "\<lfloor>(numeral a :: rat) / numeral b\<rfloor> = numeral a div numeral b"
  using floor_divide_of_int_eq [where 'a = rat, of "numeral a" "numeral b"] by simp

lemma rat_floor_one_numeral [simp]: "\<lfloor>(1 :: rat) / numeral b\<rfloor> = 1 div numeral b"
  using floor_divide_of_int_eq [where 'a = rat, of 1 "numeral b"] by simp

lemma round_half_even_near: "\<bar>of_int (round_half_even x) - x\<bar> \<le> 1/2"
proof -
  have "of_int \<lfloor>x\<rfloor> \<le> x" "x < of_int \<lfloor>x\<rfloor> + 1"
    by (simp, linarith)
  then show ?thesis
    unfolding round_half_even_def Let_def abs_if by (simp split: if_split; linarith)
qed

lemma round_half_even_int [simp]: "round_half_even (of_int k) = k"
  by (simp add: round_half_even_def)

lemma round_half_even_nonneg: "0 \<le> x \<Longrightarrow> 0 \<le> round_half_even x"
  by (auto simp: round_half_even_def Let_def)

lemma py_round_near: "\<bar>py_round n x - x\<bar> \<le> 1 / (2 * 10 ^ n)"
proof -
  let ?p = "10 ^ n :: rat"
  have "py_round n x - x = (of_int (round_half_even (x * ?p)) - x * ?p) / ?p"
    by (simp add: py_round_def field_simps)
  then have "\<bar>py_round n x - x\<bar> = \<bar>of_int (round_half_even (x * ?p)) - x * ?p\<bar> / ?p"
    by simp
  also have "\<dots> \<le> (1/2) / ?p"
    by (rule divide_right_mono [OF round_half_even_near]) simp
  finally show ?thesis by simp
qed

lemma py_round_nonneg: "0 \<le> x \<Longrightarrow> 0 \<le> py_round n x"
  by (simp add: py_round_def round_half_even_nonneg)

lemma py_round_grid: "\<exists>k. py_round n x * 10 ^ n = of_int k"
  by (simp add: py_round_def)

lemma py_int_le: "0 \<le> x \<Longrightarrow> of_int (py_int x) \<le> x"
  by (simp add: py_int_def)

lemma py_int_nonneg: "0 \<le> x \<Longrightarrow> 0 \<le> py_int x"
  by (simp add: py_int_def)

section \<open>Ordered dictionaries\<close>

text \<open>
  A Python dict keeps insertion order and \<open>d[k] = v\<close> on a present key keeps its place:
  this is \<open>AList.update\<close>. \<open>map_of\<close> is \<open>d.get\<close>, \<open>map snd\<close> is \<open>d.values()\<close>,
  \<open>AList.delete\<close> is \<open>del d[k]\<close>.
\<close>

type_synonym ('k, 'v) pydict = "('k \<times> 'v) list"

definition dict_values :: "('k, 'v) pydict \<Rightarrow> 'v list" where
  "dict_values d = map snd d"

definition dict_keys :: "('k, 'v) pydict \<Rightarrow> 'k list" where
  "dict_keys d = map fst d"

definition dict_default :: "('k, 'v) pydict \<Rightarrow> 'k \<Rightarrow> 'v \<Rightarrow> 'v" where
  "dict_default d k v = (case map_of d k of None \<Rightarrow> v | Some w \<Rightarrow> w)"

definition wf_dict :: "('k, 'v) pydict \<Rightarrow> bool" where
  "wf_dict d \<longleftrightarrow> distinct (map fst d)"

lemma wf_dict_empty [simp, dict_simps]: "wf_dict []"
  by (simp add: wf_dict_def)

lemma wf_dict_update [simp, dict_simps]: "wf_dict d \<Longrightarrow> wf_dict (AList.update k v d)"
  by (simp add: wf_dict_def distinct_update)

lemma wf_dict_delete [simp, dict_simps]: "wf_dict d \<Longrightarrow> wf_dict (AList.delete k d)"
  by (simp add: wf_dict_def distinct_delete)

lemma map_of_update [simp, dict_simps]:
  "map_of (AList.update k v d) k' = (if k' = k then Some v else map_of d k')"
  by (simp add: update_conv)

lemma keys_update [dict_simps]: "set (map fst (AList.update k v d)) = insert k (set (map fst d))"
  by (auto simp: update_keys)

lemma in_values_iff: "wf_dict d \<Longrightarrow> v \<in> set (dict_values d) \<longleftrightarrow> (\<exists>k. map_of d k = Some v)"
  by (force simp: dict_values_def wf_dict_def map_of_eq_Some_iff)

lemma values_update_subset: "set (dict_values (AList.update k v d)) \<subseteq> insert v (set (dict_values d))"
  by (induction d) (auto simp: dict_values_def)

text \<open>A dictionary of objects stored under their own id: \<open>orders\<close>, \<open>positions\<close>.\<close>

definition keyed_by :: "('v \<Rightarrow> 'k) \<Rightarrow> ('k, 'v) pydict \<Rightarrow> bool" where
  "keyed_by ident d \<longleftrightarrow> wf_dict d \<and> (\<forall>k v. map_of d k = Some v \<longrightarrow> ident v = k)"

lemma keyed_by_empty [simp]: "keyed_by ident []"
  by (simp add: keyed_by_def)

lemma keyed_by_update: "keyed_by ident d \<Longrightarrow> ident v = k \<Longrightarrow> keyed_by ident (AList.update k v d)"
  by (auto simp: keyed_by_def)

lemma keyed_byD: "keyed_by ident d \<Longrightarrow> map_of d k = Some v \<Longrightarrow> ident v = k"
  by (simp add: keyed_by_def)

lemma find_SomeD: "List.find P xs = Some x \<Longrightarrow> x \<in> set xs \<and> P x"
  by (auto simp: find_Some_iff)

lemma find_NoneD: "List.find P xs = None \<Longrightarrow> \<forall>x \<in> set xs. \<not> P x"
  by (auto simp: find_None_iff)

section \<open>Text, identifiers, exceptions\<close>

text \<open>
  Identifiers made by \<open>uuid4()\<close> are numbers; the fresh identifier of an operation is an
  argument of it. An f-string is kept unrendered: its template, with a hole and format
  specification for each argument, and the list of its arguments.
\<close>

type_synonym uuid = nat

datatype fstr = Fstr string "farg list"
and farg = FStr string | FInt int | FFloat pyfloat | FId uuid | FBool bool | FNone
  | FTime int | FMsg fstr | FList "farg list"

definition lit :: "string \<Rightarrow> fstr" where
  "lit s = Fstr s []"

datatype py_error = Value_Error fstr | Validation_Error string | Type_Error string
  | Key_Error string | Connection_Error string | Broker_Error string | Zero_Division_Error string
  | Runtime_Error fstr

definition opt_arg :: "('a \<Rightarrow> farg) \<Rightarrow> 'a option \<Rightarrow> farg" where
  "opt_arg f x = (case x of None \<Rightarrow> FNone | Some v \<Rightarrow> f v)"

text \<open>Truth value of an optional string: neither \<open>None\<close> nor empty.\<close>

definition truthy :: "string option \<Rightarrow> bool" where
  "truthy x = (case x of None \<Rightarrow> False | Some s \<Rightarrow> s \<noteq> [])"

lemma truthy_Some [simp]: "truthy (Some s) \<longleftrightarrow> s \<noteq> []"
  by (simp add: truthy_def)

lemma truthy_None [simp]: "\<not> truthy None"
  by (simp add: truthy_def)

lemma truthyE: "truthy x \<Longrightarrow> (\<And>s. x = Some s \<Longrightarrow> s \<noteq> [] \<Longrightarrow> P) \<Longrightarrow> P"
  by (cases x) auto

text \<open>Sequencing of computations that may raise.\<close>

definition try_bind :: "'e + 'a \<Rightarrow> ('a \<Rightarrow> 'e + 'b) \<Rightarrow> 'e + 'b" where
  "try_bind x f = (case x of Inl e \<Rightarrow> Inl e | Inr v \<Rightarrow> f v)"

lemma try_bind_simps [simp]: "try_bind (Inl e) f = Inl e" "try_bind (Inr v) f = f v"
  by (simp_all add: try_bind_def)

lemma try_bind_eq_Inr: "try_bind x f = Inr r \<longleftrightarrow> (\<exists>v. x = Inr v \<and> f v = Inr r)"
  by (cases x) simp_all

section \<open>Invariants of labelled step relations\<close>

text \<open>
  Every stateful component is a step relation over labelled operations. This interface says
  what has to be shown of an invariant once (it holds initially, each operation keeps it), and
  what follows for every run.
\<close>

locale step_invariant =
  fixes init :: "'s \<Rightarrow> bool"
    and step :: "'s \<Rightarrow> 's \<Rightarrow> bool"
    and inv :: "'s \<Rightarrow> bool"
  assumes inv_init: "init s \<Longrightarrow> inv s"
    and inv_step: "inv s \<Longrightarrow> step s t \<Longrightarrow> inv t"
begin

lemma inv_steps: "step\<^sup>*\<^sup>* s t \<Longrightarrow> inv s \<Longrightarrow> inv t"
  by (induction rule: rtranclp_induct) (auto intro: inv_step)

lemma inv_reachable: "init s \<Longrightarrow> step\<^sup>*\<^sup>* s t \<Longrightarrow> inv t"
  by (blast intro: inv_steps inv_init)

end

end
