(* ===== verification/Core_Model.thy ===== *)
theory Core_Model
  imports Prelude
begin

text \<open>
  The typed domain objects of \<^verbatim>\<open>src/core/enums.py\<close> and \<^verbatim>\<open>src/core/models.py\<close>: one
  datatype per enumeration, one record per pydantic model, and for each model the field
  constraints its constructor enforces, as a predicate. The \<open>metadata\<close> dictionaries are
  modelled by the keys the code reads. A time the system produces itself is the number of
  microseconds since the epoch (UTC); the times of quotes, and the times risk checks compare
  them with, keep Python's distinction between aware and naive datetimes.
\<close>

section \<open>Enumerations\<close>

datatype order_status = NEW | RISK_CHECKED | SUBMITTED | PARTIALLY_FILLED | FILLED
  | CANCEL_PENDING | CANCELLED | REJECTED | ERROR

datatype position_status = OPENING | OPEN | PARTIALLY_CLOSED | CLOSED | FORCE_CLOSED

datatype order_side = BUY | SELL

datatype option_right = CALL | PUT

datatype trading_mode = PAPER | LIVE | DISABLED

datatype decision_status = APPROVED | DECISION_REJECTED

datatype signal_direction = LONG | SHORT

text \<open>The two partitions of the order states that the whole system tests for.\<close>

definition terminal_status :: "order_status \<Rightarrow> bool" where
  "terminal_status s \<longleftrightarrow> s \<in> {FILLED, CANCELLED, REJECTED, ERROR}"

definition active_status :: "order_status \<Rightarrow> bool" where
  "active_status s \<longleftrightarrow> s \<in> {NEW, RISK_CHECKED, SUBMITTED, PARTIALLY_FILLED, CANCEL_PENDING}"

lemma active_iff_not_terminal: "active_status s \<longleftrightarrow> \<not> terminal_status s"
  by (cases s) (simp_all add: active_status_def terminal_status_def)

lemma terminal_simps [simp]:
  "terminal_status FILLED" "terminal_status CANCELLED" "terminal_status REJECTED"
  "terminal_status ERROR" "\<not> terminal_status NEW" "\<not> terminal_status RISK_CHECKED"
  "\<not> terminal_status SUBMITTED" "\<not> terminal_status PARTIALLY_FILLED"
  "\<not> terminal_status CANCEL_PENDING"
  by (simp_all add: terminal_status_def)

definition opposite_side :: "order_side \<Rightarrow> order_side" where
  "opposite_side s = (if s = BUY then SELL else BUY)"

lemma opposite_side_simps [simp]: "opposite_side BUY = SELL" "opposite_side SELL = BUY"
  by (simp_all add: opposite_side_def)

lemma opposite_side_neq [simp]: "opposite_side s \<noteq> s"
  by (cases s) simp_all

definition side_sign :: "order_side \<Rightarrow> int" where
  "side_sign s = (if s = BUY then 1 else -1)"

lemma side_sign_simps [simp]: "side_sign BUY = 1" "side_sign SELL = -1"
  by (simp_all add: side_sign_def)

section \<open>Times\<close>

text \<open>
  \<open>Aware t off\<close> is the instant \<open>t\<close> shown at UTC offset \<open>off\<close>; \<open>Naive w\<close> is a
  wall-clock reading without a zone. All numbers are microseconds. Subtracting an aware from a
  naive datetime raises TypeError, \<open>astimezone\<close> reads a naive one in the machine's local zone
  (the parameter \<open>local\<close>, its UTC offset).
\<close>

type_synonym instant = int

datatype datetime = Aware instant int | Naive int

definition utc :: "instant \<Rightarrow> datetime" where
  "utc t = Aware t 0"

fun wall_clock :: "datetime \<Rightarrow> int" where
  "wall_clock (Aware t off) = t + off"
| "wall_clock (Naive w) = w"

fun is_naive :: "datetime \<Rightarrow> bool" where
  "is_naive (Naive w) = True"
| "is_naive (Aware t off) = False"

definition to_naive :: "datetime \<Rightarrow> datetime" where
  "to_naive d = Naive (wall_clock d)"

fun to_aware :: "int \<Rightarrow> datetime \<Rightarrow> datetime" where
  "to_aware local (Naive w) = Aware (w - local) local"
| "to_aware local (Aware t off) = Aware t off"

fun total_seconds_between :: "datetime \<Rightarrow> datetime \<Rightarrow> py_error + pyfloat" where
  "total_seconds_between (Aware t _) (Aware u _) = Inr (of_int (t - u) / 1000000)"
| "total_seconds_between (Naive t) (Naive u) = Inr (of_int (t - u) / 1000000)"
| "total_seconds_between _ _ =
     Inl (Type_Error ''can't subtract offset-naive and offset-aware datetimes'')"

lemma total_seconds_aware: "\<not> is_naive a \<Longrightarrow> \<not> is_naive b \<Longrightarrow> \<exists>s. total_seconds_between a b = Inr s"
proof -
  assume "\<not> is_naive a" "\<not> is_naive b"
  then have "\<not> isl (total_seconds_between a b)" by (cases a; cases b) simp_all
  then show ?thesis by (cases "total_seconds_between a b") simp_all
qed

definition seconds_between :: "instant \<Rightarrow> instant \<Rightarrow> pyfloat" where
  "seconds_between t u = of_int (t - u) / 1000000"

definition us_per_minute :: int where
  "us_per_minute = 60000000"

definition us_per_day :: int where
  "us_per_day = 86400000000"

text \<open>Time of day of a datetime, in microseconds after midnight on its own wall clock.\<close>

definition time_of_day :: "datetime \<Rightarrow> int" where
  "time_of_day d = wall_clock d mod us_per_day"

section \<open>Contracts and quotes\<close>

record option_contract =
  oc_symbol :: string
  oc_expiry :: string
  oc_strike :: pyfloat
  oc_right :: option_right
  oc_multiplier :: int

definition is_digit_char :: "char \<Rightarrow> bool" where
  "is_digit_char c \<longleftrightarrow> c \<in> set ''0123456789''"

definition valid_contract :: "option_contract \<Rightarrow> bool" where
  "valid_contract c \<longleftrightarrow> oc_symbol c \<noteq> [] \<and> length (oc_expiry c) = 8
     \<and> list_all is_digit_char (oc_expiry c) \<and> 0 < oc_strike c \<and> 0 < oc_multiplier c"

text \<open>
  Quotes are looked up by a text key: the underlying symbol, or the text that
  \<open>to_quote_symbol\<close> builds from a contract. The text is kept structured.
\<close>

datatype quote_key = Symbol_Key string | Option_Key string string pyfloat option_right

definition to_quote_symbol :: "option_contract \<Rightarrow> quote_key" where
  "to_quote_symbol c = Option_Key (oc_symbol c) (oc_expiry c) (oc_strike c) (oc_right c)"

record quote_snapshot =
  q_symbol :: quote_key
  q_bid :: "pyfloat option"
  q_ask :: "pyfloat option"
  q_last :: "pyfloat option"
  q_volume :: "int option"
  q_delta :: "pyfloat option"
  q_close :: "pyfloat option"
  q_timestamp :: datetime

definition bid_not_greater_than_ask :: "quote_snapshot \<Rightarrow> bool" where
  "bid_not_greater_than_ask q \<longleftrightarrow>
     (case (q_bid q, q_ask q) of (Some b, Some a) \<Rightarrow> b \<le> a | _ \<Rightarrow> True)"

definition mk_quote :: "quote_snapshot \<Rightarrow> py_error + quote_snapshot" where
  "mk_quote q =
     (if (case q_volume q of Some v \<Rightarrow> v < 0 | None \<Rightarrow> False) then Inl (Validation_Error ''volume'')
      else if \<not> bid_not_greater_than_ask q
        then Inl (Validation_Error ''bid must not be greater than ask'')
      else Inr q)"

section \<open>Signals, risk decisions, intents and plans\<close>

record strategy_signal =
  sg_id :: uuid
  sg_strategy :: string
  sg_direction :: signal_direction
  sg_contract :: option_contract
  sg_quantity :: int
  sg_limit :: "pyfloat option"
  sg_stop :: "pyfloat option"
  sg_take_profit :: "pyfloat option"
  sg_time_exit :: "instant option"
  sg_timestamp :: instant

definition opt_pos :: "pyfloat option \<Rightarrow> bool" where
  "opt_pos x = (case x of None \<Rightarrow> True | Some v \<Rightarrow> 0 < v)"

definition valid_signal :: "strategy_signal \<Rightarrow> bool" where
  "valid_signal s \<longleftrightarrow> sg_strategy s \<noteq> [] \<and> valid_contract (sg_contract s) \<and> 0 < sg_quantity s
     \<and> opt_pos (sg_limit s) \<and> opt_pos (sg_stop s) \<and> opt_pos (sg_take_profit s)"

record account_state =
  ac_id :: string
  ac_net_liquidation :: pyfloat
  ac_available_funds :: pyfloat
  ac_buying_power :: pyfloat
  ac_daily_pnl :: pyfloat

record risk_decision =
  rd_id :: uuid
  rd_signal_id :: uuid
  rd_status :: decision_status
  rd_allowed :: int
  rd_blocking :: "fstr list"
  rd_warnings :: "fstr list"

definition approved :: "risk_decision \<Rightarrow> bool" where
  "approved d \<longleftrightarrow> rd_status d = APPROVED"

record order_intent =
  oi_id :: uuid
  oi_signal_id :: uuid
  oi_decision_id :: uuid
  oi_position_id :: "uuid option"
  oi_is_entry :: bool
  oi_strategy :: string
  oi_contract :: option_contract
  oi_side :: order_side
  oi_quantity :: int
  oi_limit :: pyfloat
  oi_timestamp :: instant
  oi_batch :: "string option" \<comment> \<open>\<open>metadata["entry_batch"]\<close>\<close>

definition mk_intent :: "order_intent \<Rightarrow> py_error + order_intent" where
  "mk_intent i =
     (if oi_strategy i = [] then Inl (Validation_Error ''strategy_id'')
      else if oi_quantity i \<le> 0 then Inl (Validation_Error ''quantity must be positive'')
      else if oi_limit i \<le> 0 then Inl (Validation_Error ''limit_price'')
      else Inr i)"

text \<open>The audit reference \<open>{strategy}:{position_id|new}:{leg}:{side}:{unix_ms}\<close>.\<close>

datatype order_leg = CE | PE

datatype order_ref = Order_Ref string "uuid option" order_leg order_side int

record order_plan =
  op_id :: uuid
  op_intent_id :: uuid
  op_position_id :: "uuid option"
  op_is_entry :: bool
  op_strategy :: string
  op_contract :: option_contract
  op_side :: order_side
  op_quantity :: int
  op_order_type :: string
  op_limit :: pyfloat
  op_ref :: "order_ref option"
  op_algo :: "string option"
  op_timestamp :: instant

definition mk_plan :: "order_plan \<Rightarrow> py_error + order_plan" where
  "mk_plan p =
     (if op_strategy p = [] then Inl (Validation_Error ''strategy_id'')
      else if op_quantity p \<le> 0 then Inl (Validation_Error ''quantity must be positive'')
      else if op_limit p \<le> 0 then Inl (Validation_Error ''limit_price'')
      else Inr p)"

section \<open>Orders, fills and positions\<close>

record order_state =
  os_id :: uuid
  os_plan_id :: uuid
  os_position_id :: "uuid option"
  os_is_entry :: bool
  os_strategy :: string
  os_contract :: option_contract
  os_side :: order_side
  os_quantity :: int
  os_filled :: int
  os_limit :: pyfloat
  os_first_limit :: "pyfloat option"
  os_ref :: "order_ref option"
  os_superseded_by :: "uuid option"
  os_status :: order_status
  os_broker_id :: "string option"
  os_error :: "string option"
  os_created :: instant
  os_updated :: instant
  os_hard_cancel :: bool \<comment> \<open>\<open>metadata["hard_cancel"]\<close>\<close>
  os_algo :: "string option" \<comment> \<open>\<open>metadata["algo"]\<close>\<close>
  os_batch :: "string option" \<comment> \<open>\<open>metadata["entry_batch"]\<close>\<close>

record order_event =
  oe_order_id :: uuid
  oe_previous :: "order_status option"
  oe_new :: order_status
  oe_message :: fstr
  oe_timestamp :: instant

record fill_event =
  fe_order_id :: uuid
  fe_strategy :: string
  fe_contract :: option_contract
  fe_side :: order_side
  fe_quantity :: int
  fe_price :: pyfloat
  fe_commission :: "pyfloat option"
  fe_timestamp :: instant
  fe_broker_id :: "string option" \<comment> \<open>\<open>metadata["broker_order_id"]\<close>\<close>

definition valid_fill :: "fill_event \<Rightarrow> bool" where
  "valid_fill f \<longleftrightarrow> fe_strategy f \<noteq> [] \<and> valid_contract (fe_contract f)
     \<and> 0 < fe_quantity f \<and> 0 < fe_price f
     \<and> (case fe_commission f of None \<Rightarrow> True | Some c \<Rightarrow> 0 \<le> c)"

record position =
  ps_id :: uuid
  ps_strategy :: string
  ps_contract :: option_contract
  ps_side :: order_side
  ps_quantity :: int
  ps_filled :: int
  ps_avg_entry :: pyfloat
  ps_current :: "pyfloat option"
  ps_unrealized :: "pyfloat option"
  ps_realized :: pyfloat
  ps_status :: position_status
  ps_entry_order :: uuid
  ps_exit_orders :: "uuid list"
  ps_entry_time :: "instant option"
  ps_exit_time :: "instant option"
  ps_stop :: "pyfloat option"
  ps_target :: "pyfloat option"
  ps_time_exit :: "instant option"
  ps_use_mid :: bool
  ps_created :: instant
  ps_updated :: instant
  ps_commission_paid :: pyfloat \<comment> \<open>\<open>metadata["commission_paid"]\<close>\<close>

section \<open>Reports\<close>

record recon_report =
  rr_matches :: nat
  rr_mismatches :: nat
  rr_internal_only :: "uuid list"
  rr_broker_only :: "fstr list"
  rr_details :: "(string \<times> fstr) list"
  rr_is_clean :: bool

record manual_override =
  mo_command :: string
  mo_target :: "fstr option"
  mo_parameters :: "(string \<times> farg) list"
  mo_operator :: string
  mo_result :: "fstr option"

end
