(* ===== verification/Config.thy ===== *)
theory Config
  imports Core_Model
begin

text \<open>
  The configuration models of \<^verbatim>\<open>src/core/config.py\<close>: the parser of \<open>HH:MM\<close> times with
  Python's \<open>strip\<close>, \<open>split\<close> and \<open>int\<close>, the typed sections, and the validators their
  constructors run. Reading the YAML files (a library call) is not modelled; what a validator
  accepts or refuses is.
\<close>

section \<open>Text functions of the language\<close>

definition is_space_char :: "char \<Rightarrow> bool" where
  "is_space_char c \<longleftrightarrow> c = CHR '' '' \<or> (9 \<le> (of_char c :: nat) \<and> (of_char c :: nat) \<le> 13)
     \<or> (28 \<le> (of_char c :: nat) \<and> (of_char c :: nat) \<le> 31)"

definition py_strip :: "string \<Rightarrow> string" where
  "py_strip s = rev (dropWhile is_space_char (rev (dropWhile is_space_char s)))"

text \<open>\<open>s.split(c)\<close> for a one-character separator.\<close>

fun py_split :: "char \<Rightarrow> string \<Rightarrow> string list" where
  "py_split sep [] = [[]]"
| "py_split sep (c # cs) =
     (if c = sep then [] # py_split sep cs
      else case py_split sep cs of [] \<Rightarrow> [[c]] | w # ws \<Rightarrow> (c # w) # ws)"

text \<open>\<open>s.upper()\<close> on ASCII text; \<open>s.split()\<close> at runs of white space.\<close>

definition upper_char :: "char \<Rightarrow> char" where
  "upper_char c = (let n = of_char c :: nat in if 97 \<le> n \<and> n \<le> 122 then char_of (n - 32) else c)"

definition py_upper :: "string \<Rightarrow> string" where
  "py_upper s = map upper_char s"

definition lower_char :: "char \<Rightarrow> char" where
  "lower_char c = (if 65 \<le> (of_char c :: nat) \<and> (of_char c :: nat) \<le> 90 then char_of ((of_char c :: nat) + 32) else c)"

text \<open>\<open>x in s\<close> on texts.\<close>

definition occurs_in :: "string \<Rightarrow> string \<Rightarrow> bool" where
  "occurs_in x s \<longleftrightarrow> list_ex (\<lambda>k. take (length x) (drop k s) = x) [0..<Suc (length s)]"

fun py_words :: "string \<Rightarrow> string list" where
  "py_words [] = []"
| "py_words (c # cs) =
     (if is_space_char c then py_words cs
      else case cs of [] \<Rightarrow> [[c]]
        | d # ds \<Rightarrow> if is_space_char d then [c] # py_words cs
                   else (case py_words cs of [] \<Rightarrow> [[c]] | w # ws \<Rightarrow> (c # w) # ws))"

definition digit_value :: "char \<Rightarrow> int" where
  "digit_value c = int (of_char c) - 48"

text \<open>The digits of an integer literal; single underscores may stand between digits.\<close>

fun parse_digits :: "int \<Rightarrow> string \<Rightarrow> int option" where
  "parse_digits acc [] = Some acc"
| "parse_digits acc (c # cs) =
     (if is_digit_char c then parse_digits (10 * acc + digit_value c) cs
      else case (c, cs) of
        (CHR ''_'', d # ds) \<Rightarrow>
          if is_digit_char d then parse_digits (10 * acc + digit_value d) ds else None
      | _ \<Rightarrow> None)"

definition parse_unsigned :: "string \<Rightarrow> int option" where
  "parse_unsigned s = (case s of [] \<Rightarrow> None
     | c # cs \<Rightarrow> if is_digit_char c then parse_digits (digit_value c) cs else None)"

text \<open>\<open>int(s)\<close> on ASCII text.\<close>

definition py_parse_int :: "string \<Rightarrow> int option" where
  "py_parse_int s = (case py_strip s of
       [] \<Rightarrow> None
     | c # cs \<Rightarrow> if c = CHR ''-'' then map_option uminus (parse_unsigned cs)
                else if c = CHR ''+'' then parse_unsigned cs
                else parse_unsigned (c # cs))"

section \<open>Times of day\<close>

type_synonym py_time = "int \<times> int" \<comment> \<open>hour and minute\<close>

definition minute_of_day :: "py_time \<Rightarrow> int" where
  "minute_of_day t = fst t * 60 + snd t"

definition parse_hhmm :: "string \<Rightarrow> string \<Rightarrow> py_error + py_time" where
  "parse_hhmm s field =
     (case py_split CHR '':'' (py_strip s) of
        [a, b] \<Rightarrow>
          (case (py_parse_int a, py_parse_int b) of
             (Some h, Some m) \<Rightarrow>
               if 0 \<le> h \<and> h \<le> 23 \<and> 0 \<le> m \<and> m \<le> 59 then Inr (h, m)
               else Inl (Value_Error (Fstr ''{} has invalid time components: hour={}, minute={}''
                                        [FStr field, FInt h, FInt m]))
           | _ \<Rightarrow> Inl (Value_Error (Fstr ''{} must be in HH:MM format, got {}'' [FStr field, FStr s])))
      | _ \<Rightarrow> Inl (Value_Error (Fstr ''{} must be in HH:MM format, got {}'' [FStr field, FStr s])))"

section \<open>Risk configuration\<close>

record kill_switch_config =
  ks_enabled :: bool
  ks_trigger_on_daily_loss :: bool
  ks_trigger_on_disconnect_seconds :: int

record per_strategy_risk =
  pr_max_daily_loss :: pyfloat
  pr_max_positions :: int

record global_risk =
  gr_trading_mode :: string
  gr_daily_loss_limit :: pyfloat
  gr_max_open_positions :: int
  gr_max_open_orders :: int
  gr_max_contracts :: int
  gr_max_premium :: pyfloat
  gr_reserve_pct :: pyfloat
  gr_cutoff :: string
  gr_flatten :: "string option"
  gr_cooldown_after_loss :: int

definition cutoff_time :: "global_risk \<Rightarrow> py_error + py_time" where
  "cutoff_time g = parse_hhmm (gr_cutoff g) ''no_new_trades_cutoff_utc''"

definition flatten_time :: "global_risk \<Rightarrow> py_error + py_time option" where
  "flatten_time g = (case gr_flatten g of None \<Rightarrow> Inr None
     | Some s \<Rightarrow> try_bind (parse_hhmm s ''force_flatten_time_utc'') (\<lambda>t. Inr (Some t)))"

text \<open>The validator that runs after the fields: a flatten time lies after the cutoff.\<close>

definition flatten_after_cutoff :: "global_risk \<Rightarrow> py_error + global_risk" where
  "flatten_after_cutoff g = try_bind (flatten_time g) (\<lambda>f. case f of None \<Rightarrow> Inr g
     | Some ft \<Rightarrow> try_bind (cutoff_time g) (\<lambda>ct.
         if minute_of_day ft \<le> minute_of_day ct
         then Inl (Value_Error (Fstr ''force_flatten_time_utc ({}) must be after no_new_trades_cutoff_utc ({})''
                [opt_arg FStr (gr_flatten g), FStr (gr_cutoff g)]))
         else Inr g))"

definition mk_global_risk :: "global_risk \<Rightarrow> py_error + global_risk" where
  "mk_global_risk g =
     (if gr_trading_mode g \<notin> {''paper'', ''live'', ''disabled''}
        then Inl (Validation_Error ''trading_mode'')
      else if gr_daily_loss_limit g \<le> 0 then Inl (Validation_Error ''daily_loss_limit'')
      else if gr_max_open_positions g \<le> 0 then Inl (Validation_Error ''max_open_positions'')
      else if gr_max_open_orders g \<le> 0 then Inl (Validation_Error ''max_open_orders'')
      else if gr_max_contracts g \<le> 0 then Inl (Validation_Error ''max_contracts_per_trade'')
      else if gr_max_premium g \<le> 0 then Inl (Validation_Error ''max_premium_per_trade'')
      else if gr_reserve_pct g < 0 \<or> 100 < gr_reserve_pct g
        then Inl (Validation_Error ''buying_power_reserve_pct'')
      else if gr_cooldown_after_loss g < 0 then Inl (Validation_Error ''cooldown_after_loss_seconds'')
      else try_bind (cutoff_time g) (\<lambda>_. try_bind (flatten_time g) (\<lambda>_. flatten_after_cutoff g)))"

record full_risk =
  fr_global :: global_risk
  fr_per_strategy :: per_strategy_risk
  fr_underlying_max_positions :: int \<comment> \<open>\<open>per_underlying.max_positions\<close>\<close>
  fr_max_spread_pct :: pyfloat \<comment> \<open>\<open>spread_limits.max_spread_pct\<close>\<close>
  fr_max_age :: pyfloat \<comment> \<open>\<open>quote_freshness.max_age_seconds\<close>\<close>
  fr_exit_max_age :: pyfloat \<comment> \<open>\<open>quote_freshness.exit_max_age_seconds\<close>\<close>
  fr_kill_switch :: kill_switch_config

definition mk_full_risk :: "full_risk \<Rightarrow> py_error + full_risk" where
  "mk_full_risk r = try_bind (mk_global_risk (fr_global r)) (\<lambda>_.
     if pr_max_daily_loss (fr_per_strategy r) \<le> 0 then Inl (Validation_Error ''max_daily_loss'')
     else if pr_max_positions (fr_per_strategy r) \<le> 0 then Inl (Validation_Error ''max_positions'')
     else if fr_underlying_max_positions r \<le> 0 then Inl (Validation_Error ''max_positions'')
     else if fr_max_spread_pct r \<le> 0 then Inl (Validation_Error ''max_spread_pct'')
     else if fr_max_age r \<le> 0 then Inl (Validation_Error ''max_age_seconds'')
     else if fr_exit_max_age r \<le> 0 then Inl (Validation_Error ''exit_max_age_seconds'')
     else if ks_trigger_on_disconnect_seconds (fr_kill_switch r) \<le> 0
       then Inl (Validation_Error ''trigger_on_disconnect_seconds'')
     else Inr r)"

section \<open>Strategies, symbols, overrides\<close>

record entry_config =
  en_signal_source :: string
  en_max_contracts :: int
  en_limit_offset :: pyfloat
  en_timeout_seconds :: int
  en_entry_time :: "string option"
  en_trigger_pct :: "pyfloat option"
  en_strike_selection :: string
  en_target_delta :: "pyfloat option"

record exit_config =
  ex_stop_loss_pct :: "pyfloat option"
  ex_take_profit_pct :: "pyfloat option"
  ex_time_exit :: "string option"
  ex_max_hold_seconds :: "int option"
  ex_trailing_stop :: bool
  ex_use_mid :: bool

datatype partial_fill_behavior = Cancel_Remainder | Leave_Open

record strategy_config =
  sc_id :: string
  sc_enabled :: bool
  sc_underlying :: string
  sc_option_type :: string
  sc_direction :: string
  sc_dte_target :: int
  sc_entry :: entry_config
  sc_exit :: exit_config
  sc_partial_entry :: partial_fill_behavior
  sc_partial_exit :: partial_fill_behavior
  sc_cooldown :: int
  sc_leverage :: "pyfloat option"
  sc_sizing_pct :: "pyfloat option"
  sc_allow_reentry :: bool

text \<open>\<open>entry_time\<close> must match two digits, a colon, two digits.\<close>

definition hhmm_pattern :: "string \<Rightarrow> bool" where
  "hhmm_pattern s \<longleftrightarrow> (case s of [a, b, c, d, e] \<Rightarrow>
      is_digit_char a \<and> is_digit_char b \<and> c = CHR '':'' \<and> is_digit_char d \<and> is_digit_char e
    | _ \<Rightarrow> False)"

definition mk_entry_config :: "entry_config \<Rightarrow> py_error + entry_config" where
  "mk_entry_config e =
     (if en_signal_source e = [] then Inl (Validation_Error ''signal_source'')
      else if en_max_contracts e \<le> 0 then Inl (Validation_Error ''max_contracts'')
      else if en_limit_offset e < 0 then Inl (Validation_Error ''limit_price_offset'')
      else if en_timeout_seconds e \<le> 0 then Inl (Validation_Error ''order_timeout_seconds'')
      else if (case en_entry_time e of None \<Rightarrow> False | Some s \<Rightarrow> \<not> hhmm_pattern s)
        then Inl (Validation_Error ''entry_time'')
      else if \<not> opt_pos (en_trigger_pct e) then Inl (Validation_Error ''trigger_pct'')
      else if en_strike_selection e \<notin> {''premium_target'', ''delta_target''}
        then Inl (Validation_Error ''strike_selection'')
      else if \<not> opt_pos (en_target_delta e) \<or> (case en_target_delta e of None \<Rightarrow> False | Some d \<Rightarrow> 1 \<le> d)
        then Inl (Validation_Error ''target_delta'')
      else Inr e)"

definition mk_exit_config :: "exit_config \<Rightarrow> py_error + exit_config" where
  "mk_exit_config e =
     (if \<not> opt_pos (ex_stop_loss_pct e) then Inl (Validation_Error ''stop_loss_pct'')
      else if \<not> opt_pos (ex_take_profit_pct e) then Inl (Validation_Error ''take_profit_pct'')
      else if (case ex_max_hold_seconds e of None \<Rightarrow> False | Some n \<Rightarrow> n \<le> 0)
        then Inl (Validation_Error ''max_hold_seconds'')
      else case ex_time_exit e of None \<Rightarrow> Inr e
        | Some s \<Rightarrow> try_bind (parse_hhmm s ''time_exit_utc'') (\<lambda>_. Inr e))"

definition mk_strategy_config :: "strategy_config \<Rightarrow> py_error + strategy_config" where
  "mk_strategy_config c =
     (if sc_id c = [] then Inl (Validation_Error ''strategy_id'')
      else if sc_underlying c = [] then Inl (Validation_Error ''underlying'')
      else if sc_option_type c \<notin> {''spread'', ''single''} then Inl (Validation_Error ''option_type'')
      else if sc_direction c \<notin> {''long'', ''short''} then Inl (Validation_Error ''direction'')
      else if sc_dte_target c < 0 \<or> 1 < sc_dte_target c then Inl (Validation_Error ''dte_target'')
      else if sc_cooldown c < 0 then Inl (Validation_Error ''cooldown_seconds'')
      else if \<not> opt_pos (sc_leverage c) then Inl (Validation_Error ''leverage'')
      else if \<not> opt_pos (sc_sizing_pct c) then Inl (Validation_Error ''position_sizing_pct'')
      else try_bind (mk_entry_config (sc_entry c)) (\<lambda>_.
           try_bind (mk_exit_config (sc_exit c)) (\<lambda>_. Inr c)))"

text \<open>The loop both uniqueness validators run: what was seen before is a duplicate.\<close>

fun find_duplicates :: "'a list \<Rightarrow> 'a list \<Rightarrow> 'a list" where
  "find_duplicates seen [] = []"
| "find_duplicates seen (x # xs) =
     (if x \<in> set seen then x # find_duplicates seen xs else find_duplicates (x # seen) xs)"

definition no_duplicate_strategy_ids :: "strategy_config list \<Rightarrow> py_error + strategy_config list" where
  "no_duplicate_strategy_ids cs =
     (let dups = find_duplicates [] (map sc_id cs)
      in if dups = [] then Inr cs
         else Inl (Value_Error (Fstr ''Duplicate strategy_id(s) found: {}'' [FList (map FStr dups)])))"

record trading_hours =
  th_open :: string
  th_close :: string

definition open_before_close :: "trading_hours \<Rightarrow> py_error + trading_hours" where
  "open_before_close t = try_bind (parse_hhmm (th_open t) ''open'') (\<lambda>o'.
     try_bind (parse_hhmm (th_close t) ''close'') (\<lambda>c'.
       if minute_of_day c' \<le> minute_of_day o'
       then Inl (Value_Error (Fstr ''Trading hours close ({}) must be after open ({})''
              [FStr (th_close t), FStr (th_open t)]))
       else Inr t))"

record symbol_config =
  sy_symbol :: string
  sy_exchange :: string
  sy_security_type :: string
  sy_option_exchange :: string
  sy_enabled :: bool
  sy_max_age :: pyfloat
  sy_hours :: trading_hours
  sy_multiplier :: int

definition mk_symbol_config :: "symbol_config \<Rightarrow> py_error + symbol_config" where
  "mk_symbol_config s =
     (if sy_symbol s = [] then Inl (Validation_Error ''symbol'')
      else if sy_exchange s = [] then Inl (Validation_Error ''exchange'')
      else if sy_security_type s \<notin> {''IND'', ''STK'', ''ETF''} then Inl (Validation_Error ''security_type'')
      else if sy_option_exchange s = [] then Inl (Validation_Error ''option_exchange'')
      else if sy_max_age s \<le> 0 then Inl (Validation_Error ''max_age_seconds'')
      else if sy_multiplier s \<le> 0 then Inl (Validation_Error ''option_multiplier'')
      else try_bind (open_before_close (sy_hours s)) (\<lambda>_. Inr s))"

definition no_duplicate_symbols :: "symbol_config list \<Rightarrow> py_error + symbol_config list" where
  "no_duplicate_symbols cs =
     (let dups = find_duplicates [] (map sy_symbol cs)
      in if dups = [] then Inr cs
         else Inl (Value_Error (Fstr ''Duplicate symbol(s) found: {}'' [FList (map FStr dups)])))"

record overrides_config =
  ov_paused :: "string list"
  ov_disabled_symbols :: "string list"
  ov_reduce_only :: bool
  ov_system_locked :: bool
  ov_reduce_only_strategies :: "string list"

definition default_overrides :: overrides_config where
  "default_overrides = \<lparr>ov_paused = [], ov_disabled_symbols = [], ov_reduce_only = False,
     ov_system_locked = False, ov_reduce_only_strategies = []\<rparr>"

section \<open>Broker and dashboard\<close>

record connection_config =
  cn_host :: string
  cn_port :: int
  cn_client_id :: int
  cn_timeout_seconds :: int
  cn_readonly :: bool

record account_config =
  at_account_id :: string
  at_allowlist :: "string list"

record reconnection_config =
  rn_enabled :: bool
  rn_max_retries :: int
  rn_retry_delay_seconds :: int
  rn_stale_on_disconnect :: bool

record order_defaults_config =
  od_order_type :: string
  od_time_in_force :: string
  od_transmit :: bool
  od_adaptive_priority :: "string option"

record broker_config =
  bc_live_trading :: bool \<comment> \<open>\<open>live_trading.enabled\<close>\<close>
  bc_connection :: connection_config
  bc_account :: account_config
  bc_reconnection :: reconnection_config
  bc_order_defaults :: order_defaults_config

definition default_broker_config :: broker_config where
  "default_broker_config = \<lparr>bc_live_trading = False,
     bc_connection = \<lparr>cn_host = ''127.0.0.1'', cn_port = 7497, cn_client_id = 1, cn_timeout_seconds = 30, cn_readonly = False\<rparr>,
     bc_account = \<lparr>at_account_id = [], at_allowlist = []\<rparr>,
     bc_reconnection = \<lparr>rn_enabled = True, rn_max_retries = 5, rn_retry_delay_seconds = 10, rn_stale_on_disconnect = True\<rparr>,
     bc_order_defaults = \<lparr>od_order_type = ''LMT'', od_time_in_force = ''DAY'', od_transmit = True,
       od_adaptive_priority = Some ''Urgent''\<rparr>\<rparr>"

definition mk_connection_config :: "connection_config \<Rightarrow> py_error + connection_config" where
  "mk_connection_config c =
     (if cn_port c < 1 \<or> 65535 < cn_port c then Inl (Validation_Error ''port'')
      else if cn_client_id c < 0 then Inl (Validation_Error ''client_id'')
      else if cn_timeout_seconds c \<le> 0 then Inl (Validation_Error ''timeout_seconds'')
      else Inr c)"

definition mk_reconnection_config :: "reconnection_config \<Rightarrow> py_error + reconnection_config" where
  "mk_reconnection_config r =
     (if rn_max_retries r < 0 then Inl (Validation_Error ''max_retries'')
      else if rn_retry_delay_seconds r \<le> 0 then Inl (Validation_Error ''retry_delay_seconds'')
      else Inr r)"

definition mk_broker_config :: "broker_config \<Rightarrow> py_error + broker_config" where
  "mk_broker_config b = try_bind (mk_connection_config (bc_connection b)) (\<lambda>_.
     try_bind (mk_reconnection_config (bc_reconnection b)) (\<lambda>_. Inr b))"

record dashboard_config =
  dc_host :: string
  dc_port :: int
  dc_refresh_interval_seconds :: int
  dc_panels :: "string list"
  dc_auth_enabled :: bool \<comment> \<open>\<open>auth.enabled\<close>\<close>
  dc_auth_password_hash :: string \<comment> \<open>\<open>auth.password_hash\<close>\<close>

definition mk_dashboard_config :: "dashboard_config \<Rightarrow> py_error + dashboard_config" where
  "mk_dashboard_config d =
     (if dc_port d < 1 \<or> 65535 < dc_port d then Inl (Validation_Error ''port'')
      else if dc_refresh_interval_seconds d \<le> 0 then Inl (Validation_Error ''refresh_interval_seconds'')
      else Inr d)"

section \<open>Lemmas\<close>

lemma parse_hhmm_range:
  "parse_hhmm s f = Inr (h, m) \<Longrightarrow> 0 \<le> h \<and> h \<le> 23 \<and> 0 \<le> m \<and> m \<le> 59"
  unfolding parse_hhmm_def by (auto split: list.splits option.splits if_splits)

lemma find_duplicates_iff:
  "find_duplicates seen xs = [] \<longleftrightarrow> distinct xs \<and> set xs \<inter> set seen = {}"
  by (induction xs arbitrary: seen) auto

text \<open>Rendering a time of day as \<open>HH:MM\<close>, the form every configured time has.\<close>

definition digit_char :: "int \<Rightarrow> char" where
  "digit_char d = char_of (nat d + 48)"

definition render_hhmm :: "int \<Rightarrow> int \<Rightarrow> string" where
  "render_hhmm h m = [digit_char (h div 10), digit_char (h mod 10), CHR '':'',
                      digit_char (m div 10), digit_char (m mod 10)]"

definition good_digit :: "int \<Rightarrow> bool" where
  "good_digit d \<longleftrightarrow> is_digit_char (digit_char d) \<and> digit_value (digit_char d) = d
     \<and> digit_char d \<noteq> CHR '':'' \<and> \<not> is_space_char (digit_char d)
     \<and> digit_char d \<noteq> CHR ''-'' \<and> digit_char d \<noteq> CHR ''+''"

lemma good_digit_table: "list_all good_digit [0, 1, 2, 3, 4, 5, 6, 7, 8, 9]"
  by code_simp

lemma digit_char_props:
  assumes "0 \<le> d" "d < 10"
  shows "is_digit_char (digit_char d)" "digit_value (digit_char d) = d"
    "digit_char d \<noteq> CHR '':''" "\<not> is_space_char (digit_char d)"
    "digit_char d \<noteq> CHR ''-''" "digit_char d \<noteq> CHR ''+''"
proof -
  have "d \<in> set [0, 1, 2, 3, 4, 5, 6, 7, 8, 9]"
    using assms by simp arith
  then have "good_digit d"
    using good_digit_table by (simp only: list_all_iff)
  then show "is_digit_char (digit_char d)" "digit_value (digit_char d) = d"
    "digit_char d \<noteq> CHR '':''" "\<not> is_space_char (digit_char d)"
    "digit_char d \<noteq> CHR ''-''" "digit_char d \<noteq> CHR ''+''"
    unfolding good_digit_def by blast+
qed

lemma parse_two_digits:
  assumes "0 \<le> a" "a < 10" "0 \<le> b" "b < 10"
  shows "py_parse_int [digit_char a, digit_char b] = Some (10 * a + b)"
  using digit_char_props [OF assms(1,2)] digit_char_props [OF assms(3,4)]
  by (simp add: py_parse_int_def py_strip_def parse_unsigned_def)

text \<open>Every time of day written as two-digit hour, colon, two-digit minute parses back to
  the hour and the minute it was written from, whichever field is being read.\<close>

lemma parse_hhmm_roundtrip:
  assumes "0 \<le> h" "h \<le> 23" "0 \<le> m" "m \<le> 59"
  shows "parse_hhmm (render_hhmm h m) field = Inr (h, m)"
proof -
  have hd: "0 \<le> h div 10" "h div 10 < 10" "0 \<le> h mod 10" "h mod 10 < 10"
    and md: "0 \<le> m div 10" "m div 10 < 10" "0 \<le> m mod 10" "m mod 10 < 10"
    using assms by auto
  note ds = digit_char_props [OF hd(1,2)] digit_char_props [OF hd(3,4)]
    digit_char_props [OF md(1,2)] digit_char_props [OF md(3,4)]
  have "py_strip (render_hhmm h m) = render_hhmm h m"
    using ds by (simp add: py_strip_def render_hhmm_def)
  moreover have "py_split CHR '':'' (render_hhmm h m) =
      [[digit_char (h div 10), digit_char (h mod 10)], [digit_char (m div 10), digit_char (m mod 10)]]"
    using ds by (simp add: render_hhmm_def)
  ultimately show ?thesis
    using assms parse_two_digits [OF hd] parse_two_digits [OF md]
    by (simp add: parse_hhmm_def)
qed

theorem parse_hhmm_roundtrip_witness:
  "parse_hhmm (render_hhmm 9 5) ''open'' = Inr (9, 5)"
  using parse_hhmm_roundtrip [of 9 5] by simp

text \<open>A global risk section that the constructor accepts is returned unchanged, has
  positive limits and a known trading mode, its cutoff parses, and a force-flatten time, when
  there is one, parses to a time strictly after the cutoff.\<close>

lemma mk_global_risk_sound:
  assumes "mk_global_risk g = Inr g'"
  shows "g' = g \<and> gr_trading_mode g \<in> {''paper'', ''live'', ''disabled''}
    \<and> 0 < gr_daily_loss_limit g \<and> 0 < gr_max_open_positions g \<and> 0 < gr_max_open_orders g
    \<and> 0 < gr_max_contracts g \<and> 0 < gr_max_premium g
    \<and> (\<exists>ct. cutoff_time g = Inr ct \<and>
         (\<forall>s. gr_flatten g = Some s \<longrightarrow>
            (\<exists>ft. flatten_time g = Inr (Some ft) \<and> minute_of_day ct < minute_of_day ft)))"
  using assms
  by (cases "gr_flatten g"; cases "cutoff_time g"; cases "flatten_time g")
    (auto simp: mk_global_risk_def flatten_after_cutoff_def flatten_time_def try_bind_eq_Inr
      split: if_splits option.splits)

definition sample_global_risk :: global_risk where
  "sample_global_risk = \<lparr>gr_trading_mode = ''paper'', gr_daily_loss_limit = 500,
     gr_max_open_positions = 5, gr_max_open_orders = 10, gr_max_contracts = 4,
     gr_max_premium = 1000, gr_reserve_pct = 20, gr_cutoff = ''19:30'',
     gr_flatten = Some ''19:55'', gr_cooldown_after_loss = 120\<rparr>"

lemma sample_global_risk_ok: "mk_global_risk sample_global_risk = Inr sample_global_risk"
  by code_simp

theorem mk_global_risk_sound_witness:
  "cutoff_time sample_global_risk = Inr (19, 30) \<and> 0 < gr_max_premium sample_global_risk"
proof
  show "cutoff_time sample_global_risk = Inr (19, 30)" by code_simp
  show "0 < gr_max_premium sample_global_risk"
    using mk_global_risk_sound [OF sample_global_risk_ok] by blast
qed

text \<open>The uniqueness validator of the strategies file accepts a list of strategies exactly
  when no two of them have the same \<open>strategy_id\<close>, and it then returns the list as it was.\<close>

lemma no_duplicate_strategy_ids_iff:
  "no_duplicate_strategy_ids cs = Inr ds \<longleftrightarrow> ds = cs \<and> distinct (map sc_id cs)"
  by (auto simp: no_duplicate_strategy_ids_def Let_def find_duplicates_iff)

end
