(* ===== verification/Event_Log.thy ===== *)
theory Event_Log
  imports Config
begin

text \<open>
  \<^verbatim>\<open>src/storage/event_log.py\<close>: the audit log. \<open>log_callback\<close> appends to a bounded in-memory
  list and to the queue of the background writer; the writer moves the queue to the database in
  batches of at most 100, \<open>stop\<close> sends it a sentinel and waits. A queue entry is \<open>Some\<close> event or
  the sentinel \<open>None\<close>. The database table is the list of its rows in insertion order; whether an
  insert succeeds is a field (a failed batch is logged and dropped).
\<close>

datatype payload = P_Order_Event order_event | P_Order_State order_state | P_Fill fill_event
  | P_Signal strategy_signal | P_Decision risk_decision | P_Report recon_report
  | P_Override manual_override | P_Dict "(string \<times> farg) list"

fun payload_strategy :: "payload \<Rightarrow> string option" where
  "payload_strategy (P_Order_State o') = Some (os_strategy o')"
| "payload_strategy (P_Fill f) = Some (fe_strategy f)"
| "payload_strategy (P_Signal s) = Some (sg_strategy s)"
| "payload_strategy (P_Dict kvs) = (case map_of kvs ''strategy_id'' of Some (FStr s) \<Rightarrow> Some s | _ \<Rightarrow> None)"
| "payload_strategy _ = None"

record log_entry =
  le_type :: string
  le_time :: instant
  le_strategy :: "string option"
  le_payload :: payload

record event_store =
  es_events :: "log_entry list"
  es_queue :: "log_entry option list"
  es_db :: "log_entry list"
  es_repo_open :: bool
  es_writes_succeed :: bool
  es_writer_running :: bool
  es_running :: bool

definition new_store :: event_store where
  "new_store = \<lparr>es_events = [], es_queue = [], es_db = [], es_repo_open = False,
     es_writes_succeed = True, es_writer_running = False, es_running = False\<rparr>"

definition start_store :: "event_store \<Rightarrow> event_store" where
  "start_store s = s\<lparr>es_repo_open := True, es_running := True, es_writer_running := True\<rparr>"

definition trim_events :: "'a list \<Rightarrow> 'a list" where
  "trim_events xs = (if 20000 < length xs then drop 10000 xs else xs)"

lemma trim_events_code [code]:
  "trim_events xs = (if 20000 < int (length xs) then drop 10000 xs else xs)"
  by (simp add: trim_events_def)

definition log_callback :: "string \<Rightarrow> payload \<Rightarrow> instant \<Rightarrow> event_store \<Rightarrow> event_store" where
  "log_callback typ p now s =
     (let e = \<lparr>le_type = typ, le_time = now, le_strategy = payload_strategy p, le_payload = p\<rparr>
      in s\<lparr>es_events := trim_events (es_events s @ [e]), es_queue := es_queue s @ [Some e]\<rparr>)"

section \<open>The writer\<close>

definition write_batch :: "log_entry list \<Rightarrow> event_store \<Rightarrow> event_store" where
  "write_batch batch s = (if \<not> es_repo_open s then s
     else if es_writes_succeed s then s\<lparr>es_db := es_db s @ batch\<rparr> else s)"

definition drain_remaining :: "event_store \<Rightarrow> event_store" where
  "drain_remaining s = (let items = [e. Some e \<leftarrow> es_queue s] in
     (if es_repo_open s \<and> es_writes_succeed s then s\<lparr>es_db := es_db s @ items\<rparr> else s)\<lparr>es_queue := []\<rparr>)"

text \<open>At most \<open>n\<close> further events for the batch; the flag says that the sentinel was met.\<close>

fun gather :: "nat \<Rightarrow> 'a option list \<Rightarrow> 'a list \<times> bool \<times> 'a option list" where
  "gather 0 q = ([], False, q)"
| "gather (Suc n) [] = ([], False, [])"
| "gather (Suc n) (None # q) = ([], True, q)"
| "gather (Suc n) (Some e # q) = (case gather n q of (b, sentinel, rest) \<Rightarrow> (e # b, sentinel, rest))"

definition drain_iteration :: "event_store \<Rightarrow> event_store" where
  "drain_iteration s = (case es_queue s of
       [] \<Rightarrow> s
     | None # q \<Rightarrow> (drain_remaining (s\<lparr>es_queue := q\<rparr>))\<lparr>es_writer_running := False\<rparr>
     | Some e # q \<Rightarrow> (case gather 99 q of (b, sentinel, rest) \<Rightarrow>
         let s' = write_batch (e # b) (s\<lparr>es_queue := rest\<rparr>)
         in if sentinel then (drain_remaining s')\<lparr>es_writer_running := False\<rparr> else s'))"

lemma gather_length: "length (snd (snd (gather n q))) \<le> length q"
  by (induction n q rule: gather.induct) (auto split: prod.splits)

lemma drain_remaining_queue [simp]: "es_queue (drain_remaining s) = []"
  by (simp add: drain_remaining_def Let_def)

lemma write_batch_queue [simp]: "es_queue (write_batch b s) = es_queue s"
  by (simp add: write_batch_def)

lemma drain_iteration_decreases:
  "es_queue s \<noteq> [] \<Longrightarrow> length (es_queue (drain_iteration s)) < length (es_queue s)"
proof (cases "es_queue s")
  case (Cons x q)
  then show ?thesis
    using gather_length [of 99 q]
    by (cases x; cases "gather 99 q") (simp_all add: drain_iteration_def Let_def)
qed simp

text \<open>The writer loop, run until the queue is empty (it then waits for the next event) or the
  sentinel has ended it.\<close>

function drain_queue :: "event_store \<Rightarrow> event_store" where
  "drain_queue s = (if es_queue s = [] \<or> \<not> es_writer_running s then s else drain_queue (drain_iteration s))"
  by pat_completeness auto
termination
  by (relation "measure (\<lambda>s. length (es_queue s))") (auto dest: drain_iteration_decreases)

declare drain_queue.simps [simp del]

definition stop_store :: "event_store \<Rightarrow> event_store" where
  "stop_store s =
     (let s1 = s\<lparr>es_running := False\<rparr>;
          s2 = (if es_writer_running s1 then drain_queue (s1\<lparr>es_queue := es_queue s1 @ [None]\<rparr>) else s1)
      in s2\<lparr>es_repo_open := False\<rparr>)"

text \<open>The queries: \<open>ORDER BY timestamp\<close>, whose texts are ordered like the instants; rows of equal
  times stay in insertion order.\<close>

definition select_events :: "(log_entry \<Rightarrow> bool) \<Rightarrow> event_store \<Rightarrow> log_entry list" where
  "select_events P s = (if es_repo_open s then sort_key le_time (filter P (es_db s)) else [])"

definition query_by_type :: "string \<Rightarrow> event_store \<Rightarrow> log_entry list" where
  "query_by_type typ = select_events (\<lambda>e. le_type e = typ)"

definition query_by_strategy :: "string \<Rightarrow> event_store \<Rightarrow> log_entry list" where
  "query_by_strategy sid = select_events (\<lambda>e. le_strategy e = Some sid)"

definition query_by_time_range :: "instant \<Rightarrow> instant \<Rightarrow> event_store \<Rightarrow> log_entry list" where
  "query_by_time_range t1 t2 = select_events (\<lambda>e. t1 \<le> le_time e \<and> le_time e \<le> t2)"

definition query_by_type_and_strategy :: "string \<Rightarrow> string \<Rightarrow> event_store \<Rightarrow> log_entry list" where
  "query_by_type_and_strategy typ sid = select_events (\<lambda>e. le_type e = typ \<and> le_strategy e = Some sid)"

definition query_all :: "event_store \<Rightarrow> log_entry list" where
  "query_all = select_events (\<lambda>e. True)"

section \<open>Lemmas\<close>

definition pending_events :: "event_store \<Rightarrow> log_entry list" where
  "pending_events s = [e. Some e \<leftarrow> es_queue s]"

lemma gather_events:
  "gather n q = (b, sentinel, rest) \<Longrightarrow> b @ [e. Some e \<leftarrow> rest] = [e. Some e \<leftarrow> q]"
  by (induction n q arbitrary: b rest rule: gather.induct) (auto split: prod.splits)

definition store_healthy :: "event_store \<Rightarrow> bool" where
  "store_healthy s \<longleftrightarrow> es_repo_open s \<and> es_writes_succeed s"

lemma drain_iteration_preserves:
  assumes "store_healthy s"
  shows "es_db (drain_iteration s) @ pending_events (drain_iteration s) = es_db s @ pending_events s
    \<and> store_healthy (drain_iteration s)"
proof (cases "es_queue s")
  case Nil
  then show ?thesis using assms by (simp add: drain_iteration_def)
next
  case (Cons x q)
  obtain b sentinel rest where g: "gather 99 q = (b, sentinel, rest)" by (cases "gather 99 q")
  have "[e. Some e \<leftarrow> q] = b @ [e. Some e \<leftarrow> rest]" using gather_events [OF g] by simp
  then show ?thesis
    using Cons g assms
    by (cases x; cases sentinel)
      (simp_all add: drain_iteration_def write_batch_def drain_remaining_def pending_events_def
        store_healthy_def Let_def)
qed

lemma drain_iteration_writer:
  assumes "es_writer_running s" "None \<in> set (es_queue s)"
  shows "es_writer_running (drain_iteration s) \<and> None \<in> set (es_queue (drain_iteration s))
    \<or> es_queue (drain_iteration s) = []"
proof (cases "es_queue s")
  case Nil
  then show ?thesis using assms by simp
next
  case (Cons x q)
  have gn: "gather n q = (b, False, rest) \<Longrightarrow> None \<in> set q \<Longrightarrow> None \<in> set rest"
    for n :: nat and q :: "log_entry option list" and b rest
    by (induction n q arbitrary: b rest rule: gather.induct) (auto split: prod.splits)
  obtain b sentinel rest where g: "gather 99 q = (b, sentinel, rest)" by (cases "gather 99 q")
  from Cons g gn [of 99 q b rest] assms show ?thesis
    by (cases x; cases sentinel) (auto simp: drain_iteration_def write_batch_def Let_def)
qed

lemma drain_queue_flushes:
  "store_healthy s \<Longrightarrow> es_writer_running s \<Longrightarrow> es_queue s = [] \<or> None \<in> set (es_queue s) \<Longrightarrow>
     es_db (drain_queue s) = es_db s @ pending_events s \<and> es_queue (drain_queue s) = []"
proof (induction s rule: drain_queue.induct)
  case (1 s)
  show ?case
  proof (cases "es_queue s = []")
    case True
    then show ?thesis by (simp add: drain_queue.simps [of s] pending_events_def)
  next
    case False
    let ?t = "drain_iteration s"
    have step: "drain_queue s = drain_queue ?t"
      using False "1.prems" by (simp add: drain_queue.simps [of s])
    have pres: "es_db ?t @ pending_events ?t = es_db s @ pending_events s" "store_healthy ?t"
      using drain_iteration_preserves [OF "1.prems"(1)] by simp_all
    consider (more) "es_writer_running ?t" "None \<in> set (es_queue ?t)" | (finished) "es_queue ?t = []"
      using drain_iteration_writer [of s] "1.prems" False by blast
    then show ?thesis
    proof cases
      case more
      then show ?thesis using "1.IH" [of] False "1.prems" pres step by simp
    next
      case finished
      then show ?thesis
        using pres step by (simp add: drain_queue.simps [of ?t] pending_events_def)
    qed
  qed
qed

text \<open>\<open>stop\<close> loses nothing: when the database accepts the writes, every event that was logged
  and still queued is in the table afterwards, in the order it was logged and exactly once, after
  the rows that were there before; the queue is empty.\<close>

lemma stop_store_flushes:
  assumes "es_repo_open s" and "es_writes_succeed s" and "es_writer_running s"
  shows "es_db (stop_store s) = es_db s @ pending_events s \<and> es_queue (stop_store s) = []"
proof -
  let ?s = "s\<lparr>es_running := False, es_queue := es_queue s @ [None]\<rparr>"
  have "store_healthy ?s" "es_writer_running ?s" "None \<in> set (es_queue ?s)"
    using assms by (simp_all add: store_healthy_def)
  from drain_queue_flushes [OF this(1,2)] this(3)
  have "es_db (drain_queue ?s) = es_db ?s @ pending_events ?s \<and> es_queue (drain_queue ?s) = []"
    by blast
  then show ?thesis
    using assms by (simp add: stop_store_def Let_def pending_events_def)
qed

definition sample_payload :: payload where
  "sample_payload = P_Dict [(''action'', FStr ''starting'')]"

definition sample_store :: event_store where
  "sample_store = log_callback ''error'' sample_payload 5 (log_callback ''signal'' sample_payload 4
     (start_store new_store))"

theorem stop_store_flushes_witness:
  "map le_time (es_db (stop_store sample_store)) = [4, 5]"
proof -
  have h: "es_repo_open sample_store" "es_writes_succeed sample_store" "es_writer_running sample_store"
    by (simp_all add: sample_store_def log_callback_def start_store_def new_store_def Let_def)
  have "map le_time (es_db sample_store @ pending_events sample_store) = [4, 5]" by code_simp
  with stop_store_flushes [OF h] show ?thesis by simp
qed

fun log_all :: "(string \<times> payload \<times> instant) list \<Rightarrow> event_store \<Rightarrow> event_store" where
  "log_all [] s = s"
| "log_all ((t, p, n) # xs) s = log_all xs (log_callback t p n s)"

definition entry_of :: "string \<times> payload \<times> instant \<Rightarrow> log_entry" where
  "entry_of = (\<lambda>(t, p, n). \<lparr>le_type = t, le_time = n, le_strategy = payload_strategy p, le_payload = p\<rparr>)"

lemma trim_events_suffix: "\<exists>k. trim_events xs = drop k xs"
  by (metis drop0 trim_events_def)

lemma trim_events_length: "length xs \<le> 20001 \<Longrightarrow> length (trim_events xs) \<le> 20000"
  unfolding trim_events_def by (simp split: if_split; arith)

lemma log_all_suffix:
  assumes "es_events s = drop k h" "k \<le> length h"
  shows "\<exists>k'. es_events (log_all xs s) = drop k' (h @ map entry_of xs) \<and> k' \<le> length (h @ map entry_of xs)"
  using assms
proof (induction xs s arbitrary: h k rule: log_all.induct)
  case (1 s)
  then show ?case by auto
next
  case (2 t p n xs s)
  let ?e = "entry_of (t, p, n)"
  obtain j where j: "es_events (log_callback t p n s) = drop j (drop k h @ [?e])"
    using trim_events_suffix [of "es_events s @ [?e]"] "2.prems"
    by (auto simp: log_callback_def Let_def entry_of_def)
  let ?k = "min (j + k) (length (h @ [?e]))"
  have "drop j (drop k h @ [?e]) = drop (j + k) (h @ [?e])"
    using "2.prems"(2) by (simp add: drop_append add.commute)
  also have "\<dots> = drop ?k (h @ [?e])" by (simp add: min_def)
  finally have "es_events (log_callback t p n s) = drop ?k (h @ [?e])" using j by simp
  from "2.IH" [OF this] show ?case by simp
qed

text \<open>The in-memory event list is bounded and is always a suffix of the full history: after
  any sequence of callbacks it has at most 20000 entries, ends with the newest events, and what it
  has dropped are the oldest ones.\<close>

lemma log_all_bounded_suffix:
  assumes "length (es_events s) \<le> 20000"
  shows "length (es_events (log_all xs s)) \<le> 20000
    \<and> (\<exists>k. es_events (log_all xs s) = drop k (es_events s @ map entry_of xs))"
proof
  show "length (es_events (log_all xs s)) \<le> 20000"
    using assms
    by (induction xs s rule: log_all.induct) (simp_all add: log_callback_def Let_def trim_events_length)
  show "\<exists>k. es_events (log_all xs s) = drop k (es_events s @ map entry_of xs)"
    using log_all_suffix [of s 0 "es_events s" xs] by auto
qed

theorem log_all_bounded_suffix_witness:
  "length (es_events (log_all [(''error'', sample_payload, 3)] new_store)) \<le> 20000"
proof -
  have "length (es_events new_store) \<le> 20000" by (simp add: new_store_def)
  from log_all_bounded_suffix [OF this] show ?thesis by blast
qed

section \<open>Queries and restarts\<close>

lemma select_events_spec:
  assumes "es_repo_open s"
  shows "mset (select_events P s) = mset (filter P (es_db s))" "sorted (map le_time (select_events P s))"
  using assms by (simp_all add: select_events_def)

lemma query_by_type_and_strategy_both:
  "query_by_type_and_strategy typ sid s = filter (\<lambda>e. le_strategy e = Some sid) (query_by_type typ s)"
  by (simp add: query_by_type_and_strategy_def query_by_type_def select_events_def filter_sort conj_commute)

lemma log_all_frame:
  "es_db (log_all xs s) = es_db s \<and> es_repo_open (log_all xs s) = es_repo_open s
   \<and> es_writes_succeed (log_all xs s) = es_writes_succeed s
   \<and> es_writer_running (log_all xs s) = es_writer_running s
   \<and> pending_events (log_all xs s) = pending_events s @ map entry_of xs"
  by (induction xs s rule: log_all.induct) (simp_all add: log_callback_def pending_events_def entry_of_def Let_def)

text \<open>What was logged before an orderly stop is what a query over a time range finds after the next
  start: all rows of the range, old and new, none twice, oldest first.\<close>

lemma history_survives_restart:
  assumes "es_repo_open s" "es_writes_succeed s" "es_writer_running s"
  shows "query_by_time_range t1 t2 (start_store (stop_store (log_all xs s)))
    = sort_key le_time (filter (\<lambda>e. t1 \<le> le_time e \<and> le_time e \<le> t2)
        (es_db s @ pending_events s @ map entry_of xs))"
proof -
  have "es_db (stop_store (log_all xs s)) = es_db s @ pending_events s @ map entry_of xs"
    using stop_store_flushes [of "log_all xs s"] assms log_all_frame [of xs s] by simp
  then show ?thesis by (simp add: query_by_time_range_def select_events_def start_store_def)
qed

end
