(* ===== verification/Position_Manager.thy ===== *)
theory Position_Manager
  imports Event_Log
begin

text \<open>
  \<^verbatim>\<open>src/portfolio/position_manager.py\<close>: positions driven by fills. The book is the dictionary
  \<open>positions\<close> (insertion order) with the event store it logs to; operations that return a
  position return it beside the new book. \<open>fresh\<close> is the \<open>uuid4()\<close> of a new position, \<open>now\<close> the
  clock at the call. The lemmas at the end give the accounting identity of a fill, the book
  invariant, and its interface to every run of operations.
\<close>

record position_book =
  pb_positions :: "(uuid, position) pydict"
  pb_store :: event_store

definition get_position :: "uuid \<Rightarrow> position_book \<Rightarrow> position option" where
  "get_position pid b = map_of (pb_positions b) pid"

definition open_status :: "position_status \<Rightarrow> bool" where
  "open_status st \<longleftrightarrow> st = OPENING \<or> st = OPEN"

definition get_open_positions :: "position_book \<Rightarrow> position list" where
  "get_open_positions b = filter (\<lambda>p. open_status (ps_status p)) (dict_values (pb_positions b))"

definition right_arg :: "option_right \<Rightarrow> farg" where
  "right_arg r = FStr (case r of CALL \<Rightarrow> ''CALL'' | PUT \<Rightarrow> ''PUT'')"

definition side_arg :: "order_side \<Rightarrow> farg" where
  "side_arg s = FStr (case s of BUY \<Rightarrow> ''BUY'' | SELL \<Rightarrow> ''SELL'')"

definition contract_arg :: "option_contract \<Rightarrow> farg" where
  "contract_arg c = FMsg (Fstr ''{} {} {} {}''
     [FStr (oc_symbol c), FStr (oc_expiry c), FFloat (oc_strike c), right_arg (oc_right c)])"

definition log_book :: "string \<Rightarrow> (string \<times> farg) list \<Rightarrow> instant \<Rightarrow> position_book \<Rightarrow> position_book" where
  "log_book kind kvs now b = b\<lparr>pb_store := log_callback kind (P_Dict kvs) now (pb_store b)\<rparr>"

definition put_position :: "position \<Rightarrow> position_book \<Rightarrow> position_book" where
  "put_position p b = b\<lparr>pb_positions := AList.update (ps_id p) p (pb_positions b)\<rparr>"

text \<open>The profit of \<open>q\<close> contracts of a position leaving at \<open>price\<close>.\<close>

definition exit_pnl :: "order_side \<Rightarrow> pyfloat \<Rightarrow> pyfloat \<Rightarrow> int \<Rightarrow> int \<Rightarrow> pyfloat" where
  "exit_pnl side avg price q m =
     (if side = BUY then (price - avg) * of_int q * of_int m
      else (avg - price) * of_int q * of_int m)"

definition matches_fill :: "fill_event \<Rightarrow> position \<Rightarrow> bool" where
  "matches_fill f p \<longleftrightarrow> ps_strategy p = fe_strategy f
     \<and> oc_symbol (ps_contract p) = oc_symbol (fe_contract f)
     \<and> oc_strike (ps_contract p) = oc_strike (fe_contract f)
     \<and> oc_right (ps_contract p) = oc_right (fe_contract f)
     \<and> oc_expiry (ps_contract p) = oc_expiry (fe_contract f)"

definition fill_target :: "fill_event \<Rightarrow> uuid option \<Rightarrow> position_book \<Rightarrow> position option" where
  "fill_target f pid b = (case pid of
       Some i \<Rightarrow> map_of (pb_positions b) i
     | None \<Rightarrow> (case filter (matches_fill f) (get_open_positions b) of [] \<Rightarrow> None | p # _ \<Rightarrow> Some p))"

definition open_position :: "fill_event \<Rightarrow> uuid \<Rightarrow> position" where
  "open_position f i = \<lparr>ps_id = i, ps_strategy = fe_strategy f, ps_contract = fe_contract f,
     ps_side = fe_side f, ps_quantity = fe_quantity f, ps_filled = fe_quantity f,
     ps_avg_entry = fe_price f, ps_current = None, ps_unrealized = None, ps_realized = 0,
     ps_status = OPEN, ps_entry_order = fe_order_id f, ps_exit_orders = [],
     ps_entry_time = Some (fe_timestamp f), ps_exit_time = None, ps_stop = None, ps_target = None,
     ps_time_exit = None, ps_use_mid = False, ps_created = fe_timestamp f,
     ps_updated = fe_timestamp f, ps_commission_paid = 0\<rparr>"

definition add_exit_order :: "uuid \<Rightarrow> uuid list \<Rightarrow> uuid list" where
  "add_exit_order i xs = (if i \<in> set xs then xs else xs @ [i])"

text \<open>The three updates of an existing position.\<close>

definition add_to_position :: "fill_event \<Rightarrow> position \<Rightarrow> position" where
  "add_to_position f p =
     (let new_qty = ps_quantity p + fe_quantity f;
          total_cost = ps_avg_entry p * of_int (ps_quantity p) + fe_price f * of_int (fe_quantity f)
      in p\<lparr>ps_avg_entry := total_cost / of_int new_qty, ps_quantity := new_qty,
           ps_filled := new_qty, ps_updated := fe_timestamp f\<rparr>)"

definition reduce_position :: "fill_event \<Rightarrow> position \<Rightarrow> position" where
  "reduce_position f p =
     p\<lparr>ps_quantity := ps_quantity p - fe_quantity f,
       ps_realized := ps_realized p + exit_pnl (ps_side p) (ps_avg_entry p) (fe_price f)
         (fe_quantity f) (oc_multiplier (fe_contract f)),
       ps_exit_orders := add_exit_order (fe_order_id f) (ps_exit_orders p),
       ps_updated := fe_timestamp f\<rparr>"

definition close_position :: "fill_event \<Rightarrow> position \<Rightarrow> position" where
  "close_position f p =
     p\<lparr>ps_realized := ps_realized p + exit_pnl (ps_side p) (ps_avg_entry p) (fe_price f)
         (ps_quantity p) (oc_multiplier (fe_contract f)),
       ps_quantity := 0, ps_status := CLOSED, ps_exit_time := Some (fe_timestamp f),
       ps_exit_orders := add_exit_order (fe_order_id f) (ps_exit_orders p),
       ps_updated := fe_timestamp f\<rparr>"

definition apply_fill :: "fill_event \<Rightarrow> position \<Rightarrow> position" where
  "apply_fill f p =
     (if fe_side f = ps_side p then add_to_position f p
      else if fe_quantity f < ps_quantity p then reduce_position f p
      else close_position f p)"

definition fill_log :: "fill_event \<Rightarrow> position \<Rightarrow> position \<Rightarrow> string \<times> (string \<times> farg) list" where
  "fill_log f p p' =
     (if fe_side f = ps_side p then
        (''position_added'', [(''position_id'', FId (ps_id p)), (''added_quantity'', FInt (fe_quantity f)),
           (''new_quantity'', FInt (ps_quantity p')), (''average_price'', FFloat (ps_avg_entry p')),
           (''timestamp'', FTime (fe_timestamp f))])
      else if fe_quantity f < ps_quantity p then
        (''position_partial_exit'', [(''position_id'', FId (ps_id p)), (''exited_quantity'', FInt (fe_quantity f)),
           (''remaining_quantity'', FInt (ps_quantity p')), (''exit_price'', FFloat (fe_price f)),
           (''realized_pnl'', FFloat (exit_pnl (ps_side p) (ps_avg_entry p) (fe_price f)
              (fe_quantity f) (oc_multiplier (fe_contract f)))),
           (''timestamp'', FTime (fe_timestamp f))])
      else
        (''position_closed'', [(''position_id'', FId (ps_id p)), (''exit_price'', FFloat (fe_price f)),
           (''realized_pnl'', FFloat (ps_realized p')), (''timestamp'', FTime (fe_timestamp f))]))"

definition handle_fill ::
  "instant \<Rightarrow> uuid \<Rightarrow> fill_event \<Rightarrow> uuid option \<Rightarrow> position_book \<Rightarrow> position \<times> position_book" where
  "handle_fill now fresh f pid b =
     (case fill_target f pid b of
        None \<Rightarrow>
          let p = open_position f (case pid of Some i \<Rightarrow> i | None \<Rightarrow> fresh)
          in (p, log_book ''position_opened''
                [(''position_id'', FId (ps_id p)), (''strategy_id'', FStr (ps_strategy p)),
                 (''contract'', contract_arg (ps_contract p)), (''side'', side_arg (ps_side p)),
                 (''quantity'', FInt (ps_quantity p)), (''entry_price'', FFloat (ps_avg_entry p)),
                 (''timestamp'', FTime (fe_timestamp f))] now (put_position p b))
      | Some p \<Rightarrow>
          let p' = apply_fill f p
          in (p', log_book (fst (fill_log f p p')) (snd (fill_log f p p')) now (put_position p' b)))"

definition force_closed :: "pyfloat \<Rightarrow> instant \<Rightarrow> position \<Rightarrow> position" where
  "force_closed price ts p =
     p\<lparr>ps_realized := ps_realized p + exit_pnl (ps_side p) (ps_avg_entry p) price (ps_quantity p)
         (oc_multiplier (ps_contract p)),
       ps_quantity := 0, ps_status := CLOSED, ps_exit_time := Some ts, ps_updated := ts\<rparr>"

definition force_close_position ::
  "instant \<Rightarrow> uuid \<Rightarrow> pyfloat \<Rightarrow> instant \<Rightarrow> position_book \<Rightarrow> position option \<times> position_book" where
  "force_close_position now pid price ts b =
     (case map_of (pb_positions b) pid of
        None \<Rightarrow> (None, b)
      | Some p \<Rightarrow>
          if ps_status p = CLOSED then (Some p, b)
          else let p' = force_closed price ts p
               in (Some p', log_book ''position_forced_closed''
                    [(''position_id'', FId pid), (''exit_price'', FFloat price),
                     (''realized_pnl'', FFloat (exit_pnl (ps_side p) (ps_avg_entry p) price
                        (ps_quantity p) (oc_multiplier (ps_contract p)))),
                     (''timestamp'', FTime ts)] now (put_position p' b)))"

definition set_exit_rules ::
  "instant \<Rightarrow> uuid \<Rightarrow> pyfloat option \<Rightarrow> pyfloat option \<Rightarrow> instant option \<Rightarrow> bool
     \<Rightarrow> position_book \<Rightarrow> position_book" where
  "set_exit_rules now pid stop target time_exit use_mid b =
     (case map_of (pb_positions b) pid of
        None \<Rightarrow> b
      | Some p \<Rightarrow> put_position (p\<lparr>ps_stop := stop, ps_target := target, ps_time_exit := time_exit,
                    ps_use_mid := use_mid, ps_updated := now\<rparr>) b)"

text \<open>The quote of a contract: under its option key when there is one, else its symbol's.\<close>

definition contract_quote ::
  "(quote_key, quote_snapshot) pydict \<Rightarrow> option_contract \<Rightarrow> quote_snapshot option" where
  "contract_quote quotes c = (case map_of quotes (to_quote_symbol c) of
       Some q \<Rightarrow> Some q | None \<Rightarrow> map_of quotes (Symbol_Key (oc_symbol c)))"

definition valuation_price :: "quote_snapshot \<Rightarrow> pyfloat option" where
  "valuation_price q = (case q_bid q of
       Some b \<Rightarrow> (case q_ask q of Some a \<Rightarrow> Some ((b + a) / 2) | None \<Rightarrow> Some b)
     | None \<Rightarrow> q_ask q)"

definition mark_position ::
  "instant \<Rightarrow> (quote_key, quote_snapshot) pydict \<Rightarrow> position \<Rightarrow> position" where
  "mark_position now quotes p =
     (if \<not> open_status (ps_status p) then p
      else case Option.bind (contract_quote quotes (ps_contract p)) valuation_price of
        None \<Rightarrow> p
      | Some price \<Rightarrow> p\<lparr>ps_current := Some price,
          ps_unrealized := Some (exit_pnl (ps_side p) (ps_avg_entry p) price (ps_quantity p)
             (oc_multiplier (ps_contract p))), ps_updated := now\<rparr>)"

definition update_position_prices ::
  "instant \<Rightarrow> (quote_key, quote_snapshot) pydict \<Rightarrow> position_book \<Rightarrow> position_book" where
  "update_position_prices now quotes b =
     b\<lparr>pb_positions := map (\<lambda>(i, p). (i, mark_position now quotes p)) (pb_positions b)\<rparr>"

definition new_book :: "event_store \<Rightarrow> position_book" where
  "new_book es = \<lparr>pb_positions = [], pb_store = es\<rparr>"

section \<open>One fill\<close>

lemma book_simps [simp, frame_simps]:
  "pb_positions (log_book kind kvs now b) = pb_positions b"
  "pb_positions (put_position p b) = AList.update (ps_id p) p (pb_positions b)"
  "pb_store (put_position p b) = pb_store b"
  by (simp_all add: log_book_def put_position_def)

lemma apply_fill_frame [simp, frame_simps]:
  "ps_id (apply_fill f p) = ps_id p" "ps_side (apply_fill f p) = ps_side p"
  "ps_contract (apply_fill f p) = ps_contract p" "ps_strategy (apply_fill f p) = ps_strategy p"
  by (simp_all add: apply_fill_def add_to_position_def reduce_position_def close_position_def Let_def)

lemma mark_frame [simp, frame_simps]:
  "ps_id (mark_position now qs p) = ps_id p" "ps_side (mark_position now qs p) = ps_side p"
  "ps_contract (mark_position now qs p) = ps_contract p"
  "ps_quantity (mark_position now qs p) = ps_quantity p" "ps_status (mark_position now qs p) = ps_status p"
  "ps_avg_entry (mark_position now qs p) = ps_avg_entry p" "ps_realized (mark_position now qs p) = ps_realized p"
  by (simp_all add: mark_position_def split: option.split)

text \<open>A position that the manager can hold: the average entry price is positive, the quantity is
  never negative, and what counts as open has something left.\<close>

definition position_ok :: "position \<Rightarrow> bool" where
  "position_ok p \<longleftrightarrow> 0 < ps_avg_entry p \<and> 0 \<le> ps_quantity p \<and> 0 < oc_multiplier (ps_contract p)
     \<and> (open_status (ps_status p) \<longrightarrow> 0 < ps_quantity p)"

text \<open>The cash the position has taken in, less what its remainder cost: \<open>side\<close> pays at entry.\<close>

definition cost_basis :: "position \<Rightarrow> pyfloat" where
  "cost_basis p = of_int (side_sign (ps_side p)) * ps_avg_entry p * of_int (ps_quantity p)
     * of_int (oc_multiplier (ps_contract p))"

definition fill_cash :: "fill_event \<Rightarrow> pyfloat" where
  "fill_cash f = - of_int (side_sign (fe_side f)) * fe_price f * of_int (fe_quantity f)
     * of_int (oc_multiplier (fe_contract f))"

text \<open>A fill that reduces a position by more than the position holds.\<close>

definition overshoots :: "fill_event \<Rightarrow> position \<Rightarrow> bool" where
  "overshoots f p \<longleftrightarrow> fe_side f \<noteq> ps_side p \<and> ps_quantity p < fe_quantity f"

lemma apply_fill_accounting:
  assumes "valid_fill f" and ok: "0 \<le> ps_quantity p" and "\<not> overshoots f p" and m: "fe_contract f = ps_contract p"
  shows "ps_realized (apply_fill f p) - cost_basis (apply_fill f p)
    = ps_realized p - cost_basis p + fill_cash f"
proof -
  let ?q = "of_int (ps_quantity p) :: rat" and ?n = "of_int (fe_quantity f) :: rat"
  have n: "0 < fe_quantity f" using assms(1) by (simp add: valid_fill_def)
  then have nz: "?q + ?n \<noteq> 0" using ok by (metis add_nonneg_pos less_irrefl of_int_add of_int_eq_0_iff)
  show ?thesis
  proof (cases "fe_side f = ps_side p")
    case True
    then have "ps_avg_entry (apply_fill f p) * of_int (ps_quantity (apply_fill f p))
        = ps_avg_entry p * ?q + fe_price f * ?n"
      using nz by (simp add: apply_fill_def add_to_position_def Let_def)
    moreover have "ps_realized (apply_fill f p) = ps_realized p"
      using True by (simp add: apply_fill_def add_to_position_def Let_def)
    ultimately show ?thesis
      using True m by (simp add: cost_basis_def fill_cash_def mult.assoc) (simp add: algebra_simps)
  next
    case False
    then have "fe_quantity f \<le> ps_quantity p" using assms(3) by (simp add: overshoots_def)
    then consider "fe_quantity f < ps_quantity p" | "fe_quantity f = ps_quantity p" by linarith
    then show ?thesis
      using False m
      by cases (cases "ps_side p"; cases "fe_side f";
          simp add: apply_fill_def reduce_position_def close_position_def exit_pnl_def
            cost_basis_def fill_cash_def algebra_simps)+
  qed
qed

lemma weighted_average_between:
  fixes a b :: rat
  assumes "0 \<le> x" "0 < y"
  shows "min a b \<le> (a * x + b * y) / (x + y)" "(a * x + b * y) / (x + y) \<le> max a b"
proof -
  have pos: "0 < x + y" using assms by simp
  have "min a b * x + min a b * y \<le> a * x + b * y"
    by (intro add_mono mult_right_mono) (use assms in simp_all)
  then show "min a b \<le> (a * x + b * y) / (x + y)" using pos by (simp add: pos_le_divide_eq distrib_left)
  have "a * x + b * y \<le> max a b * x + max a b * y"
    by (intro add_mono mult_right_mono) (use assms in simp_all)
  then show "(a * x + b * y) / (x + y) \<le> max a b" using pos by (simp add: pos_divide_le_eq distrib_left)
qed

lemma apply_fill_average:
  assumes "valid_fill f" "0 \<le> ps_quantity p"
  shows "min (ps_avg_entry p) (fe_price f) \<le> ps_avg_entry (apply_fill f p)"
    and "ps_avg_entry (apply_fill f p) \<le> max (ps_avg_entry p) (fe_price f)"
proof -
  have q: "(0::rat) \<le> of_int (ps_quantity p)" "(0::rat) < of_int (fe_quantity f)"
    using assms by (simp_all add: valid_fill_def)
  show "min (ps_avg_entry p) (fe_price f) \<le> ps_avg_entry (apply_fill f p)"
    using weighted_average_between(1) [OF q]
    by (auto simp: apply_fill_def add_to_position_def reduce_position_def close_position_def Let_def)
  show "ps_avg_entry (apply_fill f p) \<le> max (ps_avg_entry p) (fe_price f)"
    using weighted_average_between(2) [OF q]
    by (auto simp: apply_fill_def add_to_position_def reduce_position_def close_position_def Let_def)
qed

lemma apply_fill_ok:
  assumes "valid_fill f" "position_ok p"
  shows "position_ok (apply_fill f p)"
proof -
  have "0 < min (ps_avg_entry p) (fe_price f)" using assms by (simp add: position_ok_def valid_fill_def)
  then have "0 < ps_avg_entry (apply_fill f p)"
    using apply_fill_average(1) [of f p] assms unfolding position_ok_def by linarith
  moreover have "0 < fe_quantity f" using assms by (simp add: valid_fill_def)
  ultimately show ?thesis
    using assms(2) by (auto simp: position_ok_def apply_fill_def add_to_position_def
        reduce_position_def close_position_def open_status_def Let_def)
qed

lemma open_position_ok: "valid_fill f \<Longrightarrow> position_ok (open_position f i)"
  by (simp add: position_ok_def open_position_def valid_fill_def valid_contract_def)

lemma force_closed_ok: "position_ok p \<Longrightarrow> position_ok (force_closed price ts p)"
  by (simp add: position_ok_def force_closed_def open_status_def)

section \<open>The book\<close>

definition book_ok :: "position_book \<Rightarrow> bool" where
  "book_ok b \<longleftrightarrow> keyed_by ps_id (pb_positions b) \<and> (\<forall>i p. map_of (pb_positions b) i = Some p \<longrightarrow> position_ok p)"

lemma put_position_ok: "book_ok b \<Longrightarrow> position_ok p \<Longrightarrow> book_ok (put_position p b)"
  by (simp add: book_ok_def keyed_by_update)

lemma log_book_ok [simp]: "book_ok (log_book kind kvs now b) = book_ok b"
  by (simp add: book_ok_def)

lemma open_positions_in_book:
  assumes "book_ok b" "p \<in> set (get_open_positions b)"
  shows "map_of (pb_positions b) (ps_id p) = Some p" "open_status (ps_status p)"
  using assms in_values_iff [of "pb_positions b" p]
  by (auto simp: book_ok_def get_open_positions_def keyed_by_def)

lemma fill_target_in_book:
  assumes "book_ok b" "fill_target f pid b = Some p"
  shows "map_of (pb_positions b) (ps_id p) = Some p" "pid = Some i \<Longrightarrow> ps_id p = i"
proof -
  have "p \<in> set (filter (matches_fill f) (get_open_positions b))" if h: "pid = None"
  proof -
    obtain ps where "filter (matches_fill f) (get_open_positions b) = p # ps"
      using assms(2) h by (auto simp: fill_target_def split: list.splits)
    then show ?thesis by (metis list.set_intros(1))
  qed
  then show "map_of (pb_positions b) (ps_id p) = Some p"
    using assms open_positions_in_book(1) [OF assms(1)]
    by (cases pid) (auto simp: fill_target_def book_ok_def keyed_by_def)
  show "pid = Some i \<Longrightarrow> ps_id p = i"
    using assms by (auto simp: fill_target_def book_ok_def keyed_by_def)
qed

lemma handle_fill_cases:
  obtains (opened) "fill_target f pid b = None"
      "fst (handle_fill now fresh f pid b) = open_position f (case pid of Some i \<Rightarrow> i | None \<Rightarrow> fresh)"
    | (updated) p where "fill_target f pid b = Some p" "fst (handle_fill now fresh f pid b) = apply_fill f p"
  by (cases "fill_target f pid b") (auto simp: handle_fill_def Let_def)

lemma handle_fill_positions:
  "pb_positions (snd (handle_fill now fresh f pid b)) =
     (let p = fst (handle_fill now fresh f pid b) in AList.update (ps_id p) p (pb_positions b))"
  by (simp add: handle_fill_def Let_def split: option.split)

lemma handle_fill_book_ok:
  assumes "valid_fill f" "book_ok b"
  shows "book_ok (snd (handle_fill now fresh f pid b))"
proof -
  have "position_ok (fst (handle_fill now fresh f pid b))"
  proof (cases rule: handle_fill_cases [of f pid b now fresh])
    case opened
    then show ?thesis using open_position_ok [OF assms(1)] by simp
  next
    case (updated p)
    then have "map_of (pb_positions b) (ps_id p) = Some p" by (intro fill_target_in_book(1) [OF assms(2)])
    then have "position_ok p" using assms(2) by (auto simp: book_ok_def)
    with updated assms(1) show ?thesis by (simp add: apply_fill_ok)
  qed
  then show ?thesis using assms(2) by (simp add: book_ok_def handle_fill_positions Let_def keyed_by_update)
qed

lemma map_of_mark:
  "map_of (map (\<lambda>(i, p). (i, mark_position now qs p)) d) i = map_option (mark_position now qs) (map_of d i)"
  by (induction d) auto

lemma update_prices_ok: "book_ok b \<Longrightarrow> book_ok (update_position_prices now qs b)"
  by (auto simp: book_ok_def update_position_prices_def keyed_by_def wf_dict_def map_of_mark
      position_ok_def comp_def case_prod_unfold)

text \<open>Every operation of the manager, as one step.\<close>

inductive book_step :: "position_book \<Rightarrow> position_book \<Rightarrow> bool" where
  step_fill: "valid_fill f \<Longrightarrow> book_step b (snd (handle_fill now fresh f pid b))"
| step_force: "book_step b (snd (force_close_position now pid price ts b))"
| step_rules: "book_step b (set_exit_rules now pid stop target time_exit use_mid b)"
| step_prices: "book_step b (update_position_prices now quotes b)"

lemma book_step_ok: "book_step b b' \<Longrightarrow> book_ok b \<Longrightarrow> book_ok b'"
proof (induction rule: book_step.induct)
  case (step_force b now pid price ts)
  then show ?case
    by (auto simp: force_close_position_def Let_def book_ok_def force_closed_ok split: option.split
        intro!: put_position_ok)
      (auto simp: keyed_by_def force_closed_def)
next
  case (step_rules b now pid stop target time_exit use_mid)
  then show ?case
    by (cases "map_of (pb_positions b) pid")
      (auto simp: set_exit_rules_def book_ok_def keyed_by_def position_ok_def)
qed (simp_all add: handle_fill_book_ok update_prices_ok)

interpretation book: step_invariant "\<lambda>b. pb_positions b = []" book_step book_ok
  by unfold_locales (simp add: book_ok_def, rule book_step_ok)

section \<open>The life of a position\<close>

text \<open>Fills for one position id, in order, each with the clock at its arrival.\<close>

definition run_fills :: "uuid \<Rightarrow> (instant \<times> fill_event) list \<Rightarrow> position_book \<Rightarrow> position_book" where
  "run_fills pid fs b = fold (\<lambda>(now, f) b. snd (handle_fill now 0 f (Some pid) b)) fs b"

definition life :: "position \<Rightarrow> fill_event list \<Rightarrow> position" where
  "life p fs = fold apply_fill fs p"

lemma run_fills_life:
  "map_of (pb_positions b) pid = Some p \<Longrightarrow> ps_id p = pid \<Longrightarrow>
   map_of (pb_positions (run_fills pid fs b)) pid = Some (life p (map snd fs))"
proof (induction fs arbitrary: b p)
  case (Cons x fs)
  obtain now f where x: "x = (now, f)" by (cases x)
  have "map_of (pb_positions (snd (handle_fill now 0 f (Some pid) b))) pid = Some (apply_fill f p)"
    using Cons.prems by (simp add: handle_fill_positions handle_fill_def fill_target_def Let_def)
  then show ?case using Cons.IH [of _ "apply_fill f p"] Cons.prems x by (simp add: run_fills_def life_def)
qed (simp add: run_fills_def life_def)

lemma run_fills_open:
  assumes "map_of (pb_positions b) pid = None"
  shows "map_of (pb_positions (run_fills pid ((now, f) # fs) b)) pid
    = Some (life (open_position f pid) (map snd fs))"
proof -
  have "map_of (pb_positions (snd (handle_fill now 0 f (Some pid) b))) pid = Some (open_position f pid)"
    using assms by (simp add: handle_fill_positions handle_fill_def fill_target_def Let_def open_position_def)
  from run_fills_life [OF this, of fs] show ?thesis by (simp add: run_fills_def open_position_def)
qed

text \<open>No fill of the list reduces the position by more than it holds at that moment.\<close>

fun no_overshoot :: "position \<Rightarrow> fill_event list \<Rightarrow> bool" where
  "no_overshoot p [] = True"
| "no_overshoot p (f # fs) = (\<not> overshoots f p \<and> no_overshoot (apply_fill f p) fs)"

lemma life_ok: "position_ok p \<Longrightarrow> list_all valid_fill fs \<Longrightarrow> position_ok (life p fs)"
  by (induction fs arbitrary: p) (simp_all add: life_def apply_fill_ok)

lemma life_accounting:
  "position_ok p \<Longrightarrow> list_all valid_fill fs \<Longrightarrow> \<forall>f \<in> set fs. fe_contract f = ps_contract p \<Longrightarrow>
   no_overshoot p fs \<Longrightarrow>
   ps_realized (life p fs) - cost_basis (life p fs)
     = ps_realized p - cost_basis p + sum_list (map fill_cash fs)"
proof (induction fs arbitrary: p)
  case (Cons f fs)
  have "ps_realized (apply_fill f p) - cost_basis (apply_fill f p)
      = ps_realized p - cost_basis p + fill_cash f"
    using Cons.prems by (intro apply_fill_accounting) (simp_all add: position_ok_def)
  with Cons.IH [of "apply_fill f p"] Cons.prems show ?case
    by (simp add: life_def apply_fill_ok)
qed (simp add: life_def)

lemma life_average:
  assumes "position_ok p" "list_all valid_fill fs"
  shows "Min (set (ps_avg_entry p # map fe_price fs)) \<le> ps_avg_entry (life p fs)
    \<and> ps_avg_entry (life p fs) \<le> Max (set (ps_avg_entry p # map fe_price fs))"
  using assms
proof (induction fs arbitrary: p)
  case (Cons f fs)
  let ?p = "apply_fill f p" and ?S = "set (ps_avg_entry p # map fe_price (f # fs))"
  have ih: "Min (set (ps_avg_entry ?p # map fe_price fs)) \<le> ps_avg_entry (life ?p fs)"
    "ps_avg_entry (life ?p fs) \<le> Max (set (ps_avg_entry ?p # map fe_price fs))"
    using Cons.IH [of ?p] Cons.prems apply_fill_ok by auto
  have av: "min (ps_avg_entry p) (fe_price f) \<le> ps_avg_entry ?p" "ps_avg_entry ?p \<le> max (ps_avg_entry p) (fe_price f)"
    using apply_fill_average [of f p] Cons.prems by (simp_all add: position_ok_def)
  have lo: "Min ?S \<le> min (ps_avg_entry p) (fe_price f)" and hi: "max (ps_avg_entry p) (fe_price f) \<le> Max ?S"
    by (auto intro!: Min_le Max_ge simp del: Min_insert Max_insert)
  have "Min ?S \<le> y \<and> y \<le> Max ?S" if "y \<in> set (ps_avg_entry ?p # map fe_price fs)" for y
  proof (cases "y = ps_avg_entry ?p")
    case True
    with av lo hi show ?thesis by linarith
  next
    case False
    with that have "y \<in> ?S" by auto
    then show ?thesis by (meson List.finite_set Max_ge Min_le)
  qed
  then have "Min ?S \<le> Min (set (ps_avg_entry ?p # map fe_price fs))"
    "Max (set (ps_avg_entry ?p # map fe_price fs)) \<le> Max ?S" by simp_all
  with ih have "Min ?S \<le> ps_avg_entry (life ?p fs)" "ps_avg_entry (life ?p fs) \<le> Max ?S" by linarith+
  then show ?case by (simp only: life_def fold.simps comp_apply)
qed (simp add: life_def)

lemma new_book_ok: "book_ok (new_book es)"
  by (simp add: new_book_def book_ok_def)

lemma run_fills_ok: "book_ok b \<Longrightarrow> list_all valid_fill (map snd fs) \<Longrightarrow> book_ok (run_fills pid fs b)"
  by (induction fs arbitrary: b) (auto simp: run_fills_def handle_fill_book_ok)

section \<open>Properties\<close>

text \<open>C5: the accounting of a position over its whole life. As long as no fill takes out more than
  the position holds, its realized profit is the cash of all its fills plus the cost of what is
  still held; a position reduced to nothing has realized exactly the cash of its fills.\<close>

theorem fills_accounting:
  assumes "map_of (pb_positions b) pid = None" and "list_all valid_fill (f # map snd fs)"
    and "\<forall>g \<in> set (map snd fs). fe_contract g = fe_contract f"
    and "no_overshoot (open_position f pid) (map snd fs)"
  shows "\<exists>p. map_of (pb_positions (run_fills pid ((now, f) # fs) b)) pid = Some p
    \<and> ps_realized p = sum_list (map fill_cash (f # map snd fs)) + cost_basis p
    \<and> (ps_quantity p = 0 \<longrightarrow> ps_realized p = sum_list (map fill_cash (f # map snd fs)))"
proof -
  let ?o = "open_position f pid"
  let ?p = "life ?o (map snd fs)"
  have o: "position_ok ?o" "ps_contract ?o = fe_contract f" "ps_realized ?o - cost_basis ?o = fill_cash f"
    using assms(2) by (simp_all add: open_position_ok)
      (simp_all add: open_position_def cost_basis_def fill_cash_def)
  have "ps_realized ?p - cost_basis ?p = fill_cash f + sum_list (map fill_cash (map snd fs))"
    using life_accounting [OF o(1) _ _ assms(4)] assms(2,3) o(2,3) by simp
  moreover have "ps_quantity ?p = 0 \<Longrightarrow> cost_basis ?p = 0" by (simp add: cost_basis_def)
  ultimately show ?thesis using run_fills_open [OF assms(1), of now f fs] by auto
qed

text \<open>The average entry price always lies between the lowest and the highest price at which the
  position was filled, and an open position always has a positive quantity.\<close>

lemma average_within_fill_prices:
  assumes "map_of (pb_positions b) pid = None" and "list_all valid_fill (f # map snd fs)"
  shows "\<exists>p. map_of (pb_positions (run_fills pid ((now, f) # fs) b)) pid = Some p
    \<and> Min (set (map fe_price (f # map snd fs))) \<le> ps_avg_entry p
    \<and> ps_avg_entry p \<le> Max (set (map fe_price (f # map snd fs)))
    \<and> (open_status (ps_status p) \<longrightarrow> 0 < ps_quantity p)"
proof -
  let ?o = "open_position f pid"
  have o: "position_ok ?o" "ps_avg_entry ?o = fe_price f"
    using assms(2) by (simp_all add: open_position_ok) (simp add: open_position_def)
  have "position_ok (life ?o (map snd fs))" using life_ok [OF o(1)] assms(2) by simp
  with life_average [OF o(1), of "map snd fs"] o(2) assms(2) run_fills_open [OF assms(1), of now f fs]
  show ?thesis by (simp add: position_ok_def)
qed

definition sample_fill :: "order_side \<Rightarrow> int \<Rightarrow> pyfloat \<Rightarrow> fill_event" where
  "sample_fill side q price = \<lparr>fe_order_id = 7, fe_strategy = ''s'',
     fe_contract = \<lparr>oc_symbol = ''XSP'', oc_expiry = ''20250110'', oc_strike = 500, oc_right = CALL,
       oc_multiplier = 100\<rparr>,
     fe_side = side, fe_quantity = q, fe_price = price, fe_commission = None, fe_timestamp = 5,
     fe_broker_id = None\<rparr>"

definition sample_fills :: "(instant \<times> fill_event) list" where
  "sample_fills = [(6, sample_fill BUY 1 4), (7, sample_fill SELL 2 5), (8, sample_fill SELL 1 3)]"

theorem fills_accounting_witness:
  "\<exists>p. map_of (pb_positions (run_fills 1 ((5, sample_fill BUY 2 1) # sample_fills) (new_book new_store))) 1 = Some p
    \<and> ps_quantity p = 0 \<and> ps_realized p = 700"
proof -
  let ?b = "new_book new_store"
  have h: "map_of (pb_positions ?b) 1 = None" "list_all valid_fill (sample_fill BUY 2 1 # map snd sample_fills)"
    "\<forall>g \<in> set (map snd sample_fills). fe_contract g = fe_contract (sample_fill BUY 2 1)"
    "no_overshoot (open_position (sample_fill BUY 2 1) 1) (map snd sample_fills)"
    by code_simp+
  have q: "map_option ps_quantity (map_of (pb_positions (run_fills 1 ((5, sample_fill BUY 2 1) # sample_fills) ?b)) 1) = Some 0"
    by code_simp
  have c: "sum_list (map fill_cash (sample_fill BUY 2 1 # map snd sample_fills)) = 700" by code_simp
  from fills_accounting [OF h, of 5] q c show ?thesis by fastforce
qed

theorem average_within_fill_prices_witness:
  "\<exists>p. map_of (pb_positions (run_fills 1 ((5, sample_fill BUY 2 1) # sample_fills) (new_book new_store))) 1 = Some p
    \<and> 1 \<le> ps_avg_entry p \<and> ps_avg_entry p \<le> 5"
proof -
  let ?b = "new_book new_store"
  have h: "map_of (pb_positions ?b) 1 = None" "list_all valid_fill (sample_fill BUY 2 1 # map snd sample_fills)"
    by code_simp+
  have m: "Min (set (map fe_price (sample_fill BUY 2 1 # map snd sample_fills))) = 1"
    "Max (set (map fe_price (sample_fill BUY 2 1 # map snd sample_fills))) = 5" by code_simp+
  from average_within_fill_prices [OF h, of 5, unfolded m] show ?thesis by blast
qed

text \<open>C33: in every book reachable from an empty one by fills, forced closes, exit rules and price
  updates, positions are stored under their own ids, average prices are positive, quantities are
  not negative, and the open positions are exactly the stored ones in OPENING or OPEN, each with
  something left to close.\<close>

theorem book_invariant:
  assumes "pb_positions b = []" and "book_step\<^sup>*\<^sup>* b b'"
  shows "keyed_by ps_id (pb_positions b')
    \<and> (\<forall>p \<in> set (dict_values (pb_positions b')). 0 < ps_avg_entry p \<and> 0 \<le> ps_quantity p)
    \<and> (\<forall>p. p \<in> set (get_open_positions b') \<longleftrightarrow>
          map_of (pb_positions b') (ps_id p) = Some p \<and> open_status (ps_status p))
    \<and> (\<forall>p \<in> set (get_open_positions b'). 0 < ps_quantity p)"
proof -
  have ok: "book_ok b'" using assms by (rule book.inv_reachable)
  then have wf: "keyed_by ps_id (pb_positions b')" "wf_dict (pb_positions b')"
    by (auto simp: book_ok_def keyed_by_def)
  have iff: "p \<in> set (dict_values (pb_positions b')) \<longleftrightarrow> map_of (pb_positions b') (ps_id p) = Some p" for p
    using wf in_values_iff [OF wf(2)] by (auto simp: keyed_by_def)
  have "\<forall>p \<in> set (dict_values (pb_positions b')). position_ok p"
    using ok iff by (auto simp: book_ok_def)
  with wf(1) iff show ?thesis
    by (auto simp: get_open_positions_def position_ok_def)
qed

theorem book_invariant_witness:
  "\<exists>b'. book_step\<^sup>*\<^sup>* (new_book new_store) b' \<and> length (get_open_positions b') = 1
    \<and> (\<forall>p \<in> set (get_open_positions b'). 0 < ps_quantity p)"
proof -
  let ?b' = "snd (handle_fill 5 1 (sample_fill BUY 2 1) None (new_book new_store))"
  have "valid_fill (sample_fill BUY 2 1)" by code_simp
  then have s: "book_step\<^sup>*\<^sup>* (new_book new_store) ?b'" by (intro r_into_rtranclp step_fill)
  have e: "pb_positions (new_book new_store) = []" by code_simp
  have "length (get_open_positions ?b') = 1" by code_simp
  with s book_invariant [OF e s] show ?thesis by blast
qed

text \<open>An exit fill larger than the position closes it and profits from what was held only; the
  excess contracts, which the account now holds the other way round, appear in no position.\<close>

lemma overshooting_fill_drops_excess:
  assumes "book_ok b" "map_of (pb_positions b) pid = Some p" "overshoots f p"
  shows "\<exists>p'. handle_fill now fresh f (Some pid) b = (p', snd (handle_fill now fresh f (Some pid) b))
    \<and> ps_status p' = CLOSED \<and> ps_quantity p' = 0
    \<and> ps_realized p' = ps_realized p + exit_pnl (ps_side p) (ps_avg_entry p) (fe_price f)
        (ps_quantity p) (oc_multiplier (fe_contract f))
    \<and> pb_positions (snd (handle_fill now fresh f (Some pid) b)) = AList.update pid p' (pb_positions b)"
proof -
  have "ps_id p = pid" using assms(1,2) by (auto simp: book_ok_def keyed_by_def)
  moreover have "apply_fill f p = close_position f p"
    using assms(3) by (simp add: apply_fill_def overshoots_def)
  ultimately show ?thesis
    using assms(2) by (simp add: handle_fill_def fill_target_def Let_def close_position_def)
qed

theorem overshooting_fill_drops_excess_witness:
  "let b = run_fills 1 [(5, sample_fill BUY 2 1)] (new_book new_store)
   in \<exists>p'. fst (handle_fill 6 9 (sample_fill SELL 5 2) (Some 1) b) = p' \<and> ps_quantity p' = 0 \<and> ps_status p' = CLOSED"
proof -
  let ?b = "run_fills 1 [(5, sample_fill BUY 2 1)] (new_book new_store)"
  have p: "map_of (pb_positions ?b) 1 = Some (open_position (sample_fill BUY 2 1) 1)" by code_simp
  have "list_all valid_fill (map snd [(5 :: instant, sample_fill BUY 2 1)])" by code_simp
  then have b: "book_ok ?b" by (intro run_fills_ok new_book_ok)
  have o: "overshoots (sample_fill SELL 5 2) (open_position (sample_fill BUY 2 1) 1)" by code_simp
  from overshooting_fill_drops_excess [OF b p o, of 6 9] show ?thesis
    unfolding Let_def by (metis fst_conv)
qed

text \<open>A fill on the position's own side that arrives after the position was closed (the rest of
  an entry order, say) raises the quantity of the closed position and leaves it CLOSED: contracts
  are held that no list of open positions shows.\<close>

lemma late_entry_fill_unmanaged:
  assumes "book_ok b" "map_of (pb_positions b) pid = Some p" "ps_status p = CLOSED" "ps_quantity p = 0"
    and "valid_fill f" "fe_side f = ps_side p"
  shows "\<exists>p' b'. handle_fill now fresh f (Some pid) b = (p', b') \<and> ps_quantity p' = fe_quantity f
    \<and> 0 < ps_quantity p' \<and> ps_status p' = CLOSED \<and> (\<forall>q \<in> set (get_open_positions b'). ps_id q \<noteq> pid)"
proof -
  let ?r = "handle_fill now fresh f (Some pid) b"
  have id: "ps_id p = pid" using assms(1,2) by (auto simp: book_ok_def keyed_by_def)
  have r: "fst ?r = apply_fill f p" using assms(2) by (simp add: handle_fill_def fill_target_def Let_def)
  have p': "ps_quantity (apply_fill f p) = fe_quantity f" "ps_status (apply_fill f p) = CLOSED"
    using assms(3,4,6) by (simp_all add: apply_fill_def add_to_position_def Let_def)
  have ok: "book_ok (snd ?r)" using assms(1,5) by (rule handle_fill_book_ok [rotated])
  have "map_of (pb_positions (snd ?r)) pid = Some (apply_fill f p)"
    using id r by (simp add: handle_fill_positions Let_def)
  then have "\<forall>q \<in> set (get_open_positions (snd ?r)). ps_id q \<noteq> pid"
    using open_positions_in_book [OF ok] p'(2) by (force simp: open_status_def)
  moreover have "0 < fe_quantity f" using assms(5) by (simp add: valid_fill_def)
  ultimately show ?thesis using r p' by (metis prod.collapse)
qed

theorem late_entry_fill_unmanaged_witness:
  "let b = run_fills 1 [(5, sample_fill BUY 2 1), (6, sample_fill SELL 2 2)] (new_book new_store)
   in \<exists>p' b'. handle_fill 7 9 (sample_fill BUY 3 1) (Some 1) b = (p', b') \<and> ps_quantity p' = 3
        \<and> ps_status p' = CLOSED \<and> (\<forall>q \<in> set (get_open_positions b'). ps_id q \<noteq> 1)"
proof -
  let ?b = "run_fills 1 [(5, sample_fill BUY 2 1), (6, sample_fill SELL 2 2)] (new_book new_store)"
  let ?p = "life (open_position (sample_fill BUY 2 1) 1) [sample_fill SELL 2 2]"
  have p: "map_of (pb_positions ?b) 1 = Some ?p" "ps_status ?p = CLOSED" "ps_quantity ?p = 0"
    "valid_fill (sample_fill BUY 3 1)" "fe_side (sample_fill BUY 3 1) = ps_side ?p"
    "fe_quantity (sample_fill BUY 3 1) = 3"
    by code_simp+
  have "list_all valid_fill (map snd [(5 :: instant, sample_fill BUY 2 1), (6, sample_fill SELL 2 2)])"
    by code_simp
  then have b: "book_ok ?b" by (intro run_fills_ok new_book_ok)
  from late_entry_fill_unmanaged [OF b p(1-5), of 7 9] p(6) show ?thesis
    unfolding Let_def by metis
qed

end
