(* ===== verification/Order_Manager.thy ===== *)
theory Order_Manager
  imports Event_Log Position_Manager
begin

text \<open>
  \<^verbatim>\<open>src/execution/order_manager.py\<close>: the life of limit orders. Every coroutine is cut at its
  awaits: a definition is what runs between two of them, with one clock reading \<open>now\<close>; the broker's
  answer to an await is an argument of the next piece (an exception is \<open>Inl\<close>), and between two
  pieces any other operation may run. \<open>om_tasks\<close> holds the background tasks that were spawned.
  The identifiers of new orders and plans are arguments. The text of an exception is its template.
\<close>

record reprice_config =
  rc_enabled :: bool
  rc_max_attempts :: int
  rc_interval :: pyfloat
  rc_max_buy :: pyfloat
  rc_min_sell :: pyfloat
  rc_timeout :: pyfloat
  rc_cross_after :: "int option"
  rc_cross_offset :: pyfloat
  rc_in_place :: bool

definition default_reprice :: reprice_config where
  "default_reprice = \<lparr>rc_enabled = False, rc_max_attempts = 3, rc_interval = 5, rc_max_buy = 999999,
     rc_min_sell = 1/100, rc_timeout = 30, rc_cross_after = None, rc_cross_offset = 1/20, rc_in_place = False\<rparr>"

datatype om_task = Repricer_Task uuid reprice_config | Cancel_Task uuid

record order_manager =
  om_orders :: "(uuid, order_state) pydict"
  om_rejected :: "uuid set"
  om_store :: event_store
  om_tasks :: "om_task list"

definition new_manager :: "event_store \<Rightarrow> order_manager" where
  "new_manager es = \<lparr>om_orders = [], om_rejected = {}, om_store = es, om_tasks = []\<rparr>"

section \<open>Helpers\<close>

fun error_text :: "py_error \<Rightarrow> string" where
  "error_text (Value_Error (Fstr t args)) = t"
| "error_text (Validation_Error s) = s"
| "error_text (Type_Error s) = s"
| "error_text (Key_Error s) = s"
| "error_text (Connection_Error s) = s"
| "error_text (Broker_Error s) = s"
| "error_text (Zero_Division_Error s) = s"
| "error_text (Runtime_Error (Fstr t args)) = t"

definition status_arg :: "order_status \<Rightarrow> farg" where
  "status_arg s = FStr (case s of NEW \<Rightarrow> ''NEW'' | RISK_CHECKED \<Rightarrow> ''RISK_CHECKED'' | SUBMITTED \<Rightarrow> ''SUBMITTED''
     | PARTIALLY_FILLED \<Rightarrow> ''PARTIALLY_FILLED'' | FILLED \<Rightarrow> ''FILLED'' | CANCEL_PENDING \<Rightarrow> ''CANCEL_PENDING''
     | CANCELLED \<Rightarrow> ''CANCELLED'' | REJECTED \<Rightarrow> ''REJECTED'' | ERROR \<Rightarrow> ''ERROR'')"

definition find_order_by_broker_id :: "string option \<Rightarrow> order_manager \<Rightarrow> order_state option" where
  "find_order_by_broker_id bid om =
     (if \<not> truthy bid then None else List.find (\<lambda>o'. os_broker_id o' = bid) (dict_values (om_orders om)))"

definition log_event ::
  "instant \<Rightarrow> uuid \<Rightarrow> order_status option \<Rightarrow> order_status \<Rightarrow> fstr \<Rightarrow> order_manager \<Rightarrow> order_manager" where
  "log_event now oid prev new msg om =
     (let es = log_callback ''order_state_transition'' (P_Order_Event \<lparr>oe_order_id = oid, oe_previous = prev,
                 oe_new = new, oe_message = msg, oe_timestamp = now\<rparr>) now (om_store om)
      in om\<lparr>om_store := (case map_of (om_orders om) oid of
              None \<Rightarrow> es | Some o' \<Rightarrow> log_callback ''order_state_updated'' (P_Order_State o') now es)\<rparr>)"

text \<open>Assignments to the fields of an order object of the dictionary.\<close>

definition put_order :: "order_state \<Rightarrow> order_manager \<Rightarrow> order_manager" where
  "put_order o' om = om\<lparr>om_orders := AList.update (os_id o') o' (om_orders om)\<rparr>"

definition set_status :: "instant \<Rightarrow> order_status \<Rightarrow> order_state \<Rightarrow> order_state" where
  "set_status now st o' = o'\<lparr>os_status := st, os_updated := now\<rparr>"

section \<open>Submission\<close>

definition order_leg_of :: "option_right \<Rightarrow> order_leg" where
  "order_leg_of r = (case r of CALL \<Rightarrow> CE | PUT \<Rightarrow> PE)"

definition active_for :: "uuid \<Rightarrow> order_state \<Rightarrow> bool" where
  "active_for pid o' \<longleftrightarrow> os_position_id o' = Some pid
     \<and> os_status o' \<in> {NEW, RISK_CHECKED, SUBMITTED, PARTIALLY_FILLED, CANCEL_PENDING}"

definition duplicate_order :: "uuid option \<Rightarrow> order_manager \<Rightarrow> order_state option" where
  "duplicate_order pid om = (case pid of None \<Rightarrow> None
     | Some i \<Rightarrow> List.find (active_for i) (dict_values (om_orders om)))"

definition intent_plan ::
  "instant \<Rightarrow> uuid \<Rightarrow> order_intent \<Rightarrow> risk_decision \<Rightarrow> bool \<Rightarrow> string option \<Rightarrow> order_plan" where
  "intent_plan now plan_id i d emergency algo =
     \<lparr>op_id = plan_id, op_intent_id = oi_id i, op_position_id = oi_position_id i,
      op_is_entry = oi_is_entry i, op_strategy = oi_strategy i, op_contract = oi_contract i,
      op_side = oi_side i, op_quantity = rd_allowed d,
      op_order_type = (if emergency then ''MKT'' else ''LMT''), op_limit = oi_limit i,
      op_ref = Some (Order_Ref (oi_strategy i) (oi_position_id i) (order_leg_of (oc_right (oi_contract i)))
                 (oi_side i) (now div 1000)),
      op_algo = algo, op_timestamp = now\<rparr>"

definition plan_order :: "instant \<Rightarrow> uuid \<Rightarrow> order_plan \<Rightarrow> pyfloat option \<Rightarrow> string option \<Rightarrow> string option \<Rightarrow> order_state" where
  "plan_order now oid p first algo batch =
     \<lparr>os_id = oid, os_plan_id = op_id p, os_position_id = op_position_id p, os_is_entry = op_is_entry p,
      os_strategy = op_strategy p, os_contract = op_contract p, os_side = op_side p,
      os_quantity = op_quantity p, os_filled = 0, os_limit = op_limit p, os_first_limit = first,
      os_ref = op_ref p, os_superseded_by = None, os_status = NEW, os_broker_id = None, os_error = None,
      os_created = now, os_updated = now, os_hard_cancel = False,
      os_algo = (if truthy algo then algo else None), os_batch = (if truthy batch then batch else None)\<rparr>"

definition submit_prepare ::
  "instant \<Rightarrow> uuid \<Rightarrow> uuid \<Rightarrow> order_intent \<Rightarrow> risk_decision \<Rightarrow> bool \<Rightarrow> string option \<Rightarrow> order_manager
     \<Rightarrow> py_error + (order_plan \<times> order_manager)" where
  "submit_prepare now plan_id oid i d emergency algo om =
     (if \<not> approved d then
        Inl (Value_Error (Fstr ''Cannot submit OrderIntent {}: RiskDecision is not APPROVED'' [FId (oi_id i)]))
      else if rd_id d \<noteq> oi_decision_id i then
        Inl (Value_Error (Fstr ''Cannot submit OrderIntent {}: RiskDecision ID mismatch'' [FId (oi_id i)]))
      else (case duplicate_order (oi_position_id i) om of
        Some a \<Rightarrow> Inl (Value_Error (Fstr
          ''Duplicate order submission rejected: Active order {} already exists for position {}''
          [FId (os_id a), opt_arg FId (oi_position_id i)]))
      | None \<Rightarrow> try_bind (mk_plan (intent_plan now plan_id i d emergency algo)) (\<lambda>p.
          let o' = plan_order now oid p (Some (op_limit p)) algo (oi_batch i);
              om1 = log_event now oid None NEW (lit ''Order state created from intent'') (put_order o' om);
              om2 = log_event now oid (Some NEW) RISK_CHECKED (lit ''Order risk check validated'')
                      (put_order (set_status now RISK_CHECKED o') om1)
          in Inr (p, om2))))"

definition submit_complete ::
  "instant \<Rightarrow> uuid \<Rightarrow> bool \<Rightarrow> reprice_config option \<Rightarrow> py_error + order_state \<Rightarrow> order_manager \<Rightarrow> order_manager" where
  "submit_complete now oid emergency config reply om =
     (case map_of (om_orders om) oid of None \<Rightarrow> om | Some o' \<Rightarrow>
        (case reply of
           Inr b \<Rightarrow>
             let o1 = set_status now (os_status b) (o'\<lparr>os_broker_id := os_broker_id b\<rparr>);
                 om1 = log_event now oid (Some RISK_CHECKED) (os_status b)
                   (Fstr ''Order submitted to broker client with ID {}'' [opt_arg FStr (os_broker_id b)]) (put_order o1 om)
             in (case config of
                   Some c \<Rightarrow> if rc_enabled c \<and> \<not> emergency
                             then om1\<lparr>om_tasks := om_tasks om1 @ [Repricer_Task oid c]\<rparr> else om1
                 | None \<Rightarrow> om1)
         | Inl e \<Rightarrow>
             log_event now oid (Some RISK_CHECKED) ERROR
               (Fstr ''Broker submission failed: {}'' [FStr (error_text e)])
               (put_order (set_status now ERROR (o'\<lparr>os_error := Some (error_text e)\<rparr>)) om)))"

section \<open>Cancellation\<close>

datatype cancel_phase = Cancel_Done bool | Cancel_Await string

definition cancel_request :: "instant \<Rightarrow> uuid \<Rightarrow> bool \<Rightarrow> order_manager \<Rightarrow> cancel_phase \<times> order_manager" where
  "cancel_request now oid hard om =
     (case map_of (om_orders om) oid of None \<Rightarrow> (Cancel_Done False, om) | Some o0 \<Rightarrow>
        let o1 = (if hard then o0\<lparr>os_hard_cancel := True\<rparr> else o0);
            om1 = put_order o1 om
        in if os_status o1 \<in> {FILLED, CANCELLED, REJECTED, ERROR} then (Cancel_Done False, om1)
           else
             let o2 = set_status now CANCEL_PENDING o1;
                 om2 = log_event now oid (Some (os_status o1)) CANCEL_PENDING
                         (lit ''Order cancellation requested'') (put_order o2 om1)
             in if \<not> truthy (os_broker_id o2) then
                  (Cancel_Done True,
                   log_event now oid (Some CANCEL_PENDING) CANCELLED (lit ''Cancelled locally (no broker ID)'')
                     (put_order (set_status now CANCELLED o2) om2))
                else (Cancel_Await (the (os_broker_id o2)), om2))"

definition cancel_finish :: "instant \<Rightarrow> uuid \<Rightarrow> py_error + bool \<Rightarrow> order_manager \<Rightarrow> bool \<times> order_manager" where
  "cancel_finish now oid reply om =
     (case reply of
        Inr r \<Rightarrow> (r, om)
      | Inl e \<Rightarrow> (case map_of (om_orders om) oid of None \<Rightarrow> (False, om) | Some o' \<Rightarrow>
          (False, log_event now oid (Some CANCEL_PENDING) ERROR
             (Fstr ''Cancellation broker call failed: {}'' [FStr (error_text e)])
             (put_order (set_status now ERROR (o'\<lparr>os_error := Some (''Cancellation failed: '' @ error_text e)\<rparr>)) om))))"

section \<open>The sweep of stuck cancels\<close>

text \<open>
  The body of the loop for one order, cut where it waits for the broker: \<open>sweep_select\<close> looks at the
  order when its turn comes and says what is asked, \<open>sweep_reply\<close> takes the reply of
  \<open>get_order_status\<close> (with the age computed before, and the order as it is now), \<open>sweep_recancelled\<close>
  the reply of the \<open>cancel_order\<close> that is issued once more. The loop itself, with the two awaited calls,
  is \<open>resolve_stuck_cancels\<close> in \<^verbatim>\<open>Runner_State\<close>.
\<close>

datatype sweep_step = Sweep_Skip | Sweep_Unknown pyfloat | Sweep_Ask string pyfloat

definition sweep_select :: "instant \<Rightarrow> pyfloat \<Rightarrow> bool \<Rightarrow> uuid \<Rightarrow> order_manager \<Rightarrow> sweep_step" where
  "sweep_select now max_age can_query oid om =
     (case map_of (om_orders om) oid of None \<Rightarrow> Sweep_Skip | Some o' \<Rightarrow>
        if os_status o' \<noteq> CANCEL_PENDING then Sweep_Skip
        else let age = seconds_between now (os_updated o')
        in if age < max_age then Sweep_Skip
        else if can_query \<and> truthy (os_broker_id o') then Sweep_Ask (the (os_broker_id o')) age
        else Sweep_Unknown age)"

datatype sweep_next = Sweep_Next | Sweep_Recancel string

definition sweep_adopt ::
  "instant \<Rightarrow> uuid \<Rightarrow> pyfloat \<Rightarrow> order_status option \<Rightarrow> order_manager \<Rightarrow> sweep_next \<times> order_manager" where
  "sweep_adopt now oid age status om =
     (case map_of (om_orders om) oid of None \<Rightarrow> (Sweep_Next, om) | Some o' \<Rightarrow>
        (case status of
           None \<Rightarrow> (Sweep_Next, log_event now oid (Some (os_status o')) CANCELLED
              (Fstr ''Stuck-cancel sweep: order unknown to broker after {:.0f}s; marked cancelled'' [FFloat age])
              (put_order (set_status now CANCELLED o') om))
         | Some st \<Rightarrow>
             if st \<in> {CANCELLED, FILLED, REJECTED, ERROR} then
               (Sweep_Next, log_event now oid (Some (os_status o')) st
                  (Fstr ''Stuck-cancel sweep: adopted broker status after {:.0f}s in CANCEL_PENDING'' [FFloat age])
                  (put_order (set_status now st o') om))
             else
               (Sweep_Recancel (case os_broker_id o' of Some b \<Rightarrow> b | None \<Rightarrow> []),
                log_event now oid (Some (os_status o')) (os_status o')
                  (Fstr ''Stuck-cancel sweep: still {} at broker after {:.0f}s; re-issuing cancel''
                     [status_arg st, FFloat age]) om)))"

definition sweep_reply ::
  "instant \<Rightarrow> uuid \<Rightarrow> pyfloat \<Rightarrow> py_error + order_status option \<Rightarrow> order_manager \<Rightarrow> sweep_next \<times> order_manager" where
  "sweep_reply now oid age reply om =
     (case reply of
        Inl e \<Rightarrow> (case map_of (om_orders om) oid of None \<Rightarrow> (Sweep_Next, om) | Some o' \<Rightarrow>
          (Sweep_Next, log_event now oid (Some (os_status o')) (os_status o')
             (Fstr ''Stuck-cancel sweep: status query failed: {}'' [FStr (error_text e)]) om))
      | Inr status \<Rightarrow> sweep_adopt now oid age status om)"

definition sweep_recancelled :: "instant \<Rightarrow> uuid \<Rightarrow> py_error + bool \<Rightarrow> order_manager \<Rightarrow> order_manager" where
  "sweep_recancelled now oid reply om =
     (case map_of (om_orders om) oid of None \<Rightarrow> om | Some o' \<Rightarrow>
        (case reply of
           Inr r \<Rightarrow> put_order (o'\<lparr>os_updated := now\<rparr>) om
         | Inl e \<Rightarrow> log_event now oid (Some (os_status o')) (os_status o')
             (Fstr ''Stuck-cancel sweep: re-cancel failed: {}'' [FStr (error_text e)]) om))"

section \<open>Broker callbacks\<close>

definition on_broker_order_update :: "instant \<Rightarrow> order_state \<Rightarrow> order_event \<Rightarrow> order_manager \<Rightarrow> order_manager" where
  "on_broker_order_update now b ev om =
     (case find_order_by_broker_id (os_broker_id b) om of None \<Rightarrow> om | Some o' \<Rightarrow>
        let oid = os_id o'; old = os_status o'
        in if old \<in> {FILLED, CANCELLED, REJECTED, ERROR} then
             log_event now oid (Some old) old
               (Fstr ''Ignored stale broker update callback (order already {}): {}'' [status_arg old, FMsg (oe_message ev)]) om
           else if old = CANCEL_PENDING \<and> os_status b \<in> {REJECTED, ERROR} then
             log_event now oid (Some old) CANCELLED
               (Fstr ''Reject during our own cancellation treated as cancelled (modify/cancel race): {}''
                  [FMsg (oe_message ev)]) (put_order (set_status now CANCELLED o') om)
           else
             let st = (if old = CANCEL_PENDING \<and> os_status b \<in> {SUBMITTED, PARTIALLY_FILLED, NEW}
                       then CANCEL_PENDING else os_status b);
                 o1 = set_status now st (o'\<lparr>os_filled := os_filled b, os_error := os_error b\<rparr>);
                 om1 = log_event now oid (Some old) st
                         (Fstr ''Broker update callback: {}'' [FMsg (oe_message ev)]) (put_order o1 om);
                 spontaneous = (os_status b = CANCELLED \<and> old \<noteq> CANCEL_PENDING);
                 rejected = (os_status b \<in> {REJECTED, ERROR});
                 om2 = (if spontaneous \<or> rejected then om1\<lparr>om_rejected := insert oid (om_rejected om1)\<rparr> else om1)
             in if st = PARTIALLY_FILLED \<and> os_is_entry o1 then
                  let om3 = log_event now oid (Some st) st
                        (lit ''Partial fill detected on entry order; canceling remainder'') om2
                  in om3\<lparr>om_tasks := om_tasks om3 @ [Cancel_Task oid]\<rparr>
                else om2)"

definition fill_order :: "fill_event \<Rightarrow> order_manager \<Rightarrow> order_state option" where
  "fill_order f om = (case map_of (om_orders om) (fe_order_id f) of
       Some o' \<Rightarrow> Some o'
     | None \<Rightarrow> List.find (\<lambda>o'. truthy (os_broker_id o')
          \<and> (case fe_broker_id f of Some b \<Rightarrow> Some b | None \<Rightarrow> Some ''None'') = os_broker_id o')
          (dict_values (om_orders om)))"

definition first_limit_of :: "order_state \<Rightarrow> pyfloat" where
  "first_limit_of o' = (case os_first_limit o' of Some x \<Rightarrow> if x \<noteq> 0 then x else os_limit o' | None \<Rightarrow> os_limit o')"

definition slippage :: "fill_event \<Rightarrow> order_state \<Rightarrow> pyfloat option" where
  "slippage f o' =
     (let first = first_limit_of o'
      in if first = 0 then None
         else if os_side o' = BUY then Some (py_round 4 (fe_price f - first))
         else Some (py_round 4 (first - fe_price f)))"

definition on_broker_fill :: "instant \<Rightarrow> fill_event \<Rightarrow> order_manager \<Rightarrow> order_manager" where
  "on_broker_fill now f om =
     (let es = log_callback ''fill_received'' (P_Fill f) now (om_store om)
      in om\<lparr>om_store := (case fill_order f om of None \<Rightarrow> es | Some o' \<Rightarrow>
           log_callback ''execution_quality'' (P_Dict
             [(''order_id'', FId (os_id o')), (''is_entry'', FBool (os_is_entry o')),
              (''strategy_id'', FStr (os_strategy o')), (''side'', side_arg (os_side o')),
              (''first_limit_price'', FFloat (first_limit_of o')), (''final_limit_price'', FFloat (os_limit o')),
              (''fill_price'', FFloat (fe_price f)), (''filled_quantity'', FInt (fe_quantity f)),
              (''slippage_vs_first_limit'', opt_arg FFloat (slippage f o')),
              (''time_to_fill_seconds'', FFloat (py_round 3 (seconds_between (fe_timestamp f) (os_created o')))),
              (''timestamp'', FTime (fe_timestamp f))]) now es)\<rparr>)"

section \<open>The repricer\<close>

text \<open>
  The state of one \<open>_run_repricer\<close> coroutine: the order it tracks, its attempts, its start.
  After every sleep \<open>reprice_check\<close> runs; \<open>reprice_decide\<close> after the quotes arrived,
  \<open>reprice_modified\<close> after an in-place modification, \<open>reprice_cancel\<close> before a replacement,
  \<open>reprice_wait\<close> at each poll of the cancellation, \<open>reprice_replace\<close> and \<open>reprice_placed\<close> around
  the placing of the replacement. \<open>RP_Sleep\<close> is \<open>continue\<close>, \<open>RP_Stop\<close> is \<open>break\<close>.
\<close>

record repricer =
  rp_order :: uuid
  rp_attempts :: int
  rp_start :: instant
  rp_config :: reprice_config

datatype reprice_next = RP_Stop | RP_Sleep | RP_Cancel fstr | RP_Quote quote_key
  | RP_Modify string pyfloat | RP_Replace pyfloat | RP_Await_Cancel string pyfloat
  | RP_Wait | RP_Submit | RP_Place order_plan

definition start_repricer :: "instant \<Rightarrow> uuid \<Rightarrow> reprice_config \<Rightarrow> repricer" where
  "start_repricer now oid c = \<lparr>rp_order = oid, rp_attempts = 0, rp_start = now, rp_config = c\<rparr>"

definition reprice_check :: "instant \<Rightarrow> repricer \<Rightarrow> order_manager \<Rightarrow> reprice_next" where
  "reprice_check now r om =
     (case map_of (om_orders om) (rp_order r) of None \<Rightarrow> RP_Stop | Some o' \<Rightarrow>
        if os_hard_cancel o' then RP_Stop
        else if os_status o' \<in> {FILLED, CANCELLED, REJECTED, ERROR} then RP_Stop
        else let elapsed = seconds_between now (rp_start r)
        in if rc_timeout (rp_config r) \<le> elapsed then
             RP_Cancel (Fstr ''Reprice timed out after {:.1f} seconds'' [FFloat elapsed])
           else if rc_max_attempts (rp_config r) \<le> rp_attempts r then
             RP_Cancel (Fstr ''Reprice cancelled after reaching max attempts ({})'' [FInt (rp_attempts r)])
           else RP_Quote (to_quote_symbol (os_contract o')))"

text \<open>After the cancellation that \<open>RP_Cancel\<close> asks for has returned; the loop is left.\<close>

definition reprice_cancelled :: "instant \<Rightarrow> repricer \<Rightarrow> fstr \<Rightarrow> order_manager \<Rightarrow> order_manager" where
  "reprice_cancelled now r msg om =
     (case map_of (om_orders om) (rp_order r) of None \<Rightarrow> om | Some o' \<Rightarrow>
        log_event now (rp_order r) (Some (os_status o')) (os_status o') msg om)"

definition conform_tick :: "pyfloat \<Rightarrow> pyfloat" where
  "conform_tick x = (if x < 3 then py_round 2 x else of_int (round_half_even (x * 20)) / 20)"

definition reprice_target :: "reprice_config \<Rightarrow> int \<Rightarrow> order_state \<Rightarrow> pyfloat \<Rightarrow> pyfloat \<Rightarrow> pyfloat" where
  "reprice_target c attempts o' bid ask =
     (let cross = (case rc_cross_after c of None \<Rightarrow> False | Some n \<Rightarrow> n \<le> attempts)
      in if os_side o' = BUY then
           (if 0 < ask \<and> ask \<le> rc_max_buy c then
              (if cross then min (ask + rc_cross_offset c) (rc_max_buy c)
               else min (if attempts = 0 then (os_limit o' + ask) / 2 else ask) ask)
            else os_limit o')
         else
           (if 0 < bid \<and> rc_min_sell c \<le> bid then
              (if cross then max (bid - rc_cross_offset c) (rc_min_sell c)
               else max (if attempts = 0 then (os_limit o' + bid) / 2 else bid) bid)
            else os_limit o'))"

definition reprice_decide ::
  "repricer \<Rightarrow> py_error + (quote_key, quote_snapshot) pydict \<Rightarrow> order_manager \<Rightarrow> reprice_next" where
  "reprice_decide r reply om =
     (case map_of (om_orders om) (rp_order r) of None \<Rightarrow> RP_Stop | Some o' \<Rightarrow>
        (case reply of Inl e \<Rightarrow> RP_Sleep | Inr quotes \<Rightarrow>
           (case map_of quotes (to_quote_symbol (os_contract o')) of None \<Rightarrow> RP_Sleep | Some q \<Rightarrow>
              (case (q_bid q, q_ask q) of
                 (Some bid, Some ask) \<Rightarrow>
                   let price = conform_tick (reprice_target (rp_config r) (rp_attempts r) o' bid ask)
                   in if \<bar>price - os_limit o'\<bar> < 1/100 then RP_Sleep
                      else if os_quantity o' - os_filled o' \<le> 0 then RP_Stop
                      else if rc_in_place (rp_config r) \<and> truthy (os_broker_id o')
                        then RP_Modify (the (os_broker_id o')) price
                      else RP_Replace price
               | _ \<Rightarrow> RP_Sleep))))"

definition reprice_modified ::
  "instant \<Rightarrow> repricer \<Rightarrow> pyfloat \<Rightarrow> py_error + bool \<Rightarrow> order_manager \<Rightarrow> reprice_next \<times> repricer \<times> order_manager" where
  "reprice_modified now r price reply om =
     (case map_of (om_orders om) (rp_order r) of None \<Rightarrow> (RP_Stop, r, om) | Some o' \<Rightarrow>
        let om1 = (case reply of Inr _ \<Rightarrow> om
              | Inl e \<Rightarrow> log_event now (rp_order r) (Some (os_status o')) (os_status o')
                  (Fstr ''In-place modify failed ({}); falling back to cancel/replace'' [FStr (error_text e)]) om)
        in if reply = Inr True then
             let r' = r\<lparr>rp_attempts := rp_attempts r + 1\<rparr>
             in (RP_Sleep, r', log_event now (rp_order r) (Some (os_status o')) (os_status o')
                  (Fstr ''Repriced in place: {} -> {}, attempt={}''
                     [FFloat (os_limit o'), FFloat price, FInt (rp_attempts r')])
                  (put_order (o'\<lparr>os_limit := price, os_updated := now\<rparr>) om1))
           else (RP_Replace price, r, om1))"

text \<open>\<open>RP_Replace\<close>: the cancellation of the old order, not a hard one.\<close>

definition reprice_cancel :: "instant \<Rightarrow> repricer \<Rightarrow> pyfloat \<Rightarrow> order_manager \<Rightarrow> reprice_next \<times> order_manager" where
  "reprice_cancel now r price om =
     (case map_of (om_orders om) (rp_order r) of None \<Rightarrow> (RP_Stop, om) | Some o' \<Rightarrow>
        if os_hard_cancel o' then (RP_Stop, om)
        else (case cancel_request now (rp_order r) False om of
            (Cancel_Done ok, om1) \<Rightarrow> (if ok then RP_Wait else RP_Sleep, om1)
          | (Cancel_Await bid, om1) \<Rightarrow> (RP_Await_Cancel bid price, om1)))"

definition reprice_cancel_reply ::
  "instant \<Rightarrow> repricer \<Rightarrow> py_error + bool \<Rightarrow> order_manager \<Rightarrow> reprice_next \<times> order_manager" where
  "reprice_cancel_reply now r reply om =
     (case cancel_finish now (rp_order r) reply om of (ok, om1) \<Rightarrow> (if ok then RP_Wait else RP_Sleep, om1))"

definition reprice_wait :: "instant \<Rightarrow> repricer \<Rightarrow> order_manager \<Rightarrow> reprice_next" where
  "reprice_wait now r om =
     (case map_of (om_orders om) (rp_order r) of None \<Rightarrow> RP_Stop | Some o' \<Rightarrow>
        if os_status o' = CANCEL_PENDING \<and> seconds_between now (rp_start r) < rc_timeout (rp_config r) then RP_Wait
        else if os_status o' \<noteq> CANCELLED \<or> os_hard_cancel o' then RP_Stop
        else RP_Submit)"

definition replacement_plan :: "instant \<Rightarrow> uuid \<Rightarrow> pyfloat \<Rightarrow> order_state \<Rightarrow> order_plan" where
  "replacement_plan now plan_id price o' =
     \<lparr>op_id = plan_id, op_intent_id = os_plan_id o', op_position_id = os_position_id o',
      op_is_entry = os_is_entry o', op_strategy = os_strategy o', op_contract = os_contract o',
      op_side = os_side o', op_quantity = os_quantity o' - os_filled o', op_order_type = ''LMT'',
      op_limit = price, op_ref = os_ref o', op_algo = os_algo o', op_timestamp = now\<rparr>"

definition reprice_replace ::
  "instant \<Rightarrow> uuid \<Rightarrow> uuid \<Rightarrow> repricer \<Rightarrow> pyfloat \<Rightarrow> order_manager
     \<Rightarrow> py_error + (reprice_next \<times> repricer \<times> order_manager)" where
  "reprice_replace now plan_id new_id r price om =
     (case map_of (om_orders om) (rp_order r) of None \<Rightarrow> Inr (RP_Stop, r, om) | Some o' \<Rightarrow>
        let r' = r\<lparr>rp_attempts := rp_attempts r + 1\<rparr>
        in if os_quantity o' - os_filled o' \<le> 0 then
             Inr (RP_Stop, r', log_event now (rp_order r) (Some (os_status o')) (os_status o')
               (Fstr ''Reprice replacement skipped because order was fully filled during cancellation ({}/{})''
                  [FInt (os_filled o'), FInt (os_quantity o')]) om)
           else try_bind (mk_plan (replacement_plan now plan_id price o')) (\<lambda>p.
             let n = plan_order now new_id p (Some (first_limit_of o')) (os_algo o') (os_batch o');
                 om1 = put_order n om
             in Inr (RP_Place p, r', put_order (o'\<lparr>os_superseded_by := Some new_id\<rparr>) om1)))"

definition reprice_placed ::
  "instant \<Rightarrow> uuid \<Rightarrow> repricer \<Rightarrow> pyfloat \<Rightarrow> py_error + order_state \<Rightarrow> order_manager
     \<Rightarrow> reprice_next \<times> repricer \<times> order_manager" where
  "reprice_placed now new_id r price reply om =
     (case map_of (om_orders om) new_id of None \<Rightarrow> (RP_Stop, r, om) | Some n \<Rightarrow>
        (case reply of
           Inr b \<Rightarrow>
             (RP_Sleep, r\<lparr>rp_order := new_id\<rparr>, log_event now new_id (Some NEW) (os_status b)
                (Fstr ''Reprice replacement submitted: price={}, attempt={}'' [FFloat price, FInt (rp_attempts r)])
                (put_order (set_status now (os_status b) (n\<lparr>os_broker_id := os_broker_id b\<rparr>)) om))
         | Inl e \<Rightarrow>
             (RP_Stop, r, log_event now new_id (Some NEW) ERROR
                (Fstr ''Reprice replacement failed: {}'' [FStr (error_text e)])
                (put_order (set_status now ERROR (n\<lparr>os_error := Some (error_text e)\<rparr>)) om))))"

section \<open>Invariant, identity, audit trail\<close>

text \<open>
  Three things hold of every operation, and all three compose: the invariant \<open>om_ok\<close>, that no
  order disappears or changes its identity, and that a changed status is in the audit trail. They
  are shown together for the few ways in which the operations touch the state.
\<close>

definition key_index :: "'k \<Rightarrow> ('k, 'v) pydict \<Rightarrow> nat" where
  "key_index k d = length (takeWhile (\<lambda>x. x \<noteq> k) (map fst d))"

lemma key_index_update_present: "k \<in> set (map fst d) \<Longrightarrow> key_index k' (AList.update k v d) = key_index k' d"
  by (simp add: key_index_def update_keys)

lemma key_index_update_new:
  "k \<notin> set (map fst d) \<Longrightarrow> k' \<in> set (map fst d) \<Longrightarrow> key_index k' (AList.update k v d) = key_index k' d"
  by (simp add: key_index_def update_keys takeWhile_append1)

lemma key_index_new:
  "k \<notin> set (map fst d) \<Longrightarrow> k' \<in> set (map fst d) \<Longrightarrow> key_index k' d < key_index k (AList.update k v d)"
proof -
  assume k: "k \<notin> set (map fst d)" "k' \<in> set (map fst d)"
  then have "\<forall>x \<in> set (map fst d). x \<noteq> k" by metis
  then have "takeWhile (\<lambda>x. x \<noteq> k) (map fst d @ [k]) = map fst d"
    by (subst takeWhile_append2) auto
  then have "key_index k (AList.update k v d) = length d" using k by (simp add: key_index_def update_keys)
  moreover have "length (takeWhile (\<lambda>x. x \<noteq> k') (map fst d)) < length (map fst d)"
    using k(2) by (metis (mono_tags, lifting) length_takeWhile_le order_le_less takeWhile_eq_all_conv
        takeWhile_nth nth_equalityI)
  ultimately show ?thesis by (simp add: key_index_def)
qed

definition om_ok :: "order_manager \<Rightarrow> bool" where
  "om_ok om \<longleftrightarrow> keyed_by os_id (om_orders om)
     \<and> (\<forall>i o'. map_of (om_orders om) i = Some o' \<longrightarrow> 0 < os_quantity o'
          \<and> (\<forall>n. os_superseded_by o' = Some n \<longrightarrow> map_of (om_orders om) n \<noteq> None
                \<and> key_index i (om_orders om) < key_index n (om_orders om)))
     \<and> (\<forall>i \<in> om_rejected om. map_of (om_orders om) i \<noteq> None)"

definition order_identity where
  "order_identity o' = (os_id o', os_plan_id o', os_position_id o', os_is_entry o', os_strategy o',
     os_contract o', os_side o', os_quantity o', os_first_limit o', os_ref o', os_created o', os_batch o')"

definition keeps_orders :: "order_manager \<Rightarrow> order_manager \<Rightarrow> bool" where
  "keeps_orders om om' \<longleftrightarrow> (\<forall>i o'. map_of (om_orders om) i = Some o' \<longrightarrow>
     (\<exists>o''. map_of (om_orders om') i = Some o'' \<and> order_identity o'' = order_identity o'))"

text \<open>The event says that the order went to that status.\<close>

definition reports :: "uuid \<Rightarrow> order_status \<Rightarrow> log_entry \<Rightarrow> bool" where
  "reports oid st e \<longleftrightarrow> (\<exists>ev. le_payload e = P_Order_Event ev \<and> oe_order_id ev = oid \<and> oe_new ev = st)"

definition audited :: "order_manager \<Rightarrow> order_manager \<Rightarrow> bool" where
  "audited om om' \<longleftrightarrow> (\<exists>es. es_queue (om_store om') = es_queue (om_store om) @ map Some es
     \<and> (\<forall>i o1 o2. map_of (om_orders om) i = Some o1 \<and> map_of (om_orders om') i = Some o2
          \<and> os_status o2 \<noteq> os_status o1 \<longrightarrow> (\<exists>e \<in> set es. reports i (os_status o2) e)))"

definition sound_step :: "order_manager \<Rightarrow> order_manager \<Rightarrow> bool" where
  "sound_step om om' \<longleftrightarrow> (om_ok om \<longrightarrow> om_ok om' \<and> keeps_orders om om' \<and> audited om om')"

lemma sound_refl [simp, intro]: "sound_step om om"
  by (auto simp: sound_step_def keeps_orders_def audited_def intro: exI [of _ "[]"])

lemma sound_trans:
  assumes "sound_step a b" "om_ok a \<Longrightarrow> sound_step b c"
  shows "sound_step a c"
  unfolding sound_step_def
proof (intro impI conjI)
  assume a: "om_ok a"
  with assms have b: "om_ok b" "keeps_orders a b" "audited a b" and c: "om_ok c" "keeps_orders b c" "audited b c"
    by (auto simp: sound_step_def)
  show "om_ok c" by fact
  show "keeps_orders a c" using b(2) c(2) unfolding keeps_orders_def by metis
  obtain es where es: "es_queue (om_store b) = es_queue (om_store a) @ map Some es"
    "\<And>i o1 o2. map_of (om_orders a) i = Some o1 \<Longrightarrow> map_of (om_orders b) i = Some o2 \<Longrightarrow>
      os_status o2 \<noteq> os_status o1 \<Longrightarrow> \<exists>e \<in> set es. reports i (os_status o2) e"
    using b(3) unfolding audited_def by metis
  obtain fs where fs: "es_queue (om_store c) = es_queue (om_store b) @ map Some fs"
    "\<And>i o1 o2. map_of (om_orders b) i = Some o1 \<Longrightarrow> map_of (om_orders c) i = Some o2 \<Longrightarrow>
      os_status o2 \<noteq> os_status o1 \<Longrightarrow> \<exists>e \<in> set fs. reports i (os_status o2) e"
    using c(3) unfolding audited_def by metis
  have "\<exists>e \<in> set (es @ fs). reports i (os_status o2) e"
    if o12: "map_of (om_orders a) i = Some o1" "map_of (om_orders c) i = Some o2" "os_status o2 \<noteq> os_status o1" for i o1 o2
  proof -
    obtain m where m: "map_of (om_orders b) i = Some m" using b(2) o12(1) unfolding keeps_orders_def by blast
    show ?thesis
    proof (cases "os_status o2 = os_status m")
      case True
      with es(2) [OF o12(1) m] o12(3) show ?thesis by auto
    next
      case False
      with fs(2) [OF m o12(2)] show ?thesis by auto
    qed
  qed
  then show "audited a c" unfolding audited_def using es(1) fs(1) by (intro exI [of _ "es @ fs"]) simp
qed

lemma log_event_frame [simp, frame_simps]:
  "om_orders (log_event now oid prev new msg om) = om_orders om"
  "om_rejected (log_event now oid prev new msg om) = om_rejected om"
  "om_tasks (log_event now oid prev new msg om) = om_tasks om"
  by (simp_all add: log_event_def Let_def)

lemma put_order_frame [simp, frame_simps]:
  "om_orders (put_order o' om) = AList.update (os_id o') o' (om_orders om)"
  "om_rejected (put_order o' om) = om_rejected om" "om_tasks (put_order o' om) = om_tasks om"
  "om_store (put_order o' om) = om_store om"
  by (simp_all add: put_order_def)

lemma set_status_frame [simp, frame_simps]:
  "os_status (set_status now st o') = st" "os_id (set_status now st o') = os_id o'"
  "os_superseded_by (set_status now st o') = os_superseded_by o'"
  "order_identity (set_status now st o') = order_identity o'"
  "os_filled (set_status now st o') = os_filled o'" "os_quantity (set_status now st o') = os_quantity o'"
  "os_broker_id (set_status now st o') = os_broker_id o'" "os_hard_cancel (set_status now st o') = os_hard_cancel o'"
  "os_position_id (set_status now st o') = os_position_id o'" "os_is_entry (set_status now st o') = os_is_entry o'"
  "os_plan_id (set_status now st o') = os_plan_id o'" "os_strategy (set_status now st o') = os_strategy o'"
  "os_contract (set_status now st o') = os_contract o'" "os_side (set_status now st o') = os_side o'"
  "os_first_limit (set_status now st o') = os_first_limit o'" "os_ref (set_status now st o') = os_ref o'"
  "os_created (set_status now st o') = os_created o'" "os_limit (set_status now st o') = os_limit o'"
  "os_batch (set_status now st o') = os_batch o'"
  by (simp_all add: set_status_def order_identity_def)

lemma log_callback_queue [simp]:
  "es_queue (log_callback kind p now es) =
     es_queue es @ [Some \<lparr>le_type = kind, le_time = now, le_strategy = payload_strategy p, le_payload = p\<rparr>]"
  by (simp add: log_callback_def Let_def)

lemma log_event_queue:
  "\<exists>es. es_queue (om_store (log_event now oid prev new msg om)) = es_queue (om_store om) @ map Some es
    \<and> (\<exists>e \<in> set es. reports oid new e)"
proof (cases "map_of (om_orders om) oid")
  case None
  then show ?thesis
    by (intro exI [of _ "[\<lparr>le_type = ''order_state_transition'', le_time = now,
        le_strategy = payload_strategy (P_Order_Event \<lparr>oe_order_id = oid, oe_previous = prev, oe_new = new, oe_message = msg, oe_timestamp = now\<rparr>),
        le_payload = P_Order_Event \<lparr>oe_order_id = oid, oe_previous = prev, oe_new = new, oe_message = msg, oe_timestamp = now\<rparr>\<rparr>]"])
      (simp add: log_event_def Let_def reports_def)
next
  case (Some o')
  then show ?thesis
    by (intro exI [of _ "[\<lparr>le_type = ''order_state_transition'', le_time = now,
        le_strategy = payload_strategy (P_Order_Event \<lparr>oe_order_id = oid, oe_previous = prev, oe_new = new, oe_message = msg, oe_timestamp = now\<rparr>),
        le_payload = P_Order_Event \<lparr>oe_order_id = oid, oe_previous = prev, oe_new = new, oe_message = msg, oe_timestamp = now\<rparr>\<rparr>,
        \<lparr>le_type = ''order_state_updated'', le_time = now, le_strategy = payload_strategy (P_Order_State o'),
        le_payload = P_Order_State o'\<rparr>]"])
      (simp add: log_event_def Let_def reports_def)
qed

lemma om_ok_frame: "om_orders a = om_orders b \<Longrightarrow> om_rejected a = om_rejected b \<Longrightarrow> om_ok a = om_ok b"
  by (simp add: om_ok_def)

lemma sound_log: "sound_step om (log_event now oid prev new msg om)"
proof -
  obtain es where "es_queue (om_store (log_event now oid prev new msg om)) = es_queue (om_store om) @ map Some es"
    using log_event_queue by blast
  then show ?thesis by (auto simp: sound_step_def keeps_orders_def audited_def om_ok_def)
qed

lemma put_existing_ok:
  assumes "om_ok om" "map_of (om_orders om) i = Some o1" "order_identity o2 = order_identity o1"
    and "os_superseded_by o2 = os_superseded_by o1"
  shows "om_ok (put_order o2 om) \<and> keeps_orders om (put_order o2 om)"
proof -
  have id: "os_id o2 = i" "os_quantity o2 = os_quantity o1"
    using assms(1-3) by (auto simp: om_ok_def keyed_by_def order_identity_def)
  have k: "key_index j (AList.update i o2 (om_orders om)) = key_index j (om_orders om)" for j
    using assms(2) by (intro key_index_update_present) (metis in_set_conv_decomp map_of_SomeD image_eqI fst_conv list.set_map)
  have kb: "keyed_by os_id (AList.update i o2 (om_orders om))"
    using assms(1) id(1) by (auto simp: om_ok_def intro: keyed_by_update)
  have "om_ok (put_order o2 om)"
    using assms(1,2) assms(4) id(2) kb unfolding om_ok_def put_order_frame id(1) k by auto
  with assms(2,3) id show ?thesis by (auto simp: keeps_orders_def)
qed

lemma sound_put:
  assumes "map_of (om_orders om) i = Some o1" "order_identity o2 = order_identity o1"
    and "os_superseded_by o2 = os_superseded_by o1" "os_status o2 = os_status o1"
  shows "sound_step om (put_order o2 om)"
  unfolding sound_step_def
proof
  assume ok: "om_ok om"
  then have "os_id o2 = i" using assms(1,2) by (auto simp: om_ok_def keyed_by_def order_identity_def)
  with assms(1,4) have "audited om (put_order o2 om)"
    by (auto simp: audited_def intro!: exI [of _ "[]"])
  with put_existing_ok [OF ok assms(1-3)] show "om_ok (put_order o2 om) \<and> keeps_orders om (put_order o2 om) \<and> audited om (put_order o2 om)"
    by blast
qed

lemma sound_put_log:
  assumes "map_of (om_orders om) i = Some o1" "order_identity o2 = order_identity o1"
    and "os_superseded_by o2 = os_superseded_by o1" "new = os_status o2"
  shows "sound_step om (log_event now i prev new msg (put_order o2 om))"
  unfolding sound_step_def
proof
  assume ok: "om_ok om"
  let ?a = "put_order o2 om" and ?b = "log_event now i prev new msg (put_order o2 om)"
  have id: "os_id o2 = i" using ok assms(1,2) by (auto simp: om_ok_def keyed_by_def order_identity_def)
  have a: "om_ok ?a" "keeps_orders om ?a" using put_existing_ok [OF ok assms(1-3)] by auto
  obtain es where es: "es_queue (om_store ?b) = es_queue (om_store om) @ map Some es" "\<exists>e \<in> set es. reports i new e"
    using log_event_queue [of now i prev new msg ?a] by auto
  have "\<exists>e \<in> set es. reports j (os_status q) e"
    if "map_of (om_orders om) j = Some p" "map_of (om_orders ?b) j = Some q" "os_status q \<noteq> os_status p" for j p q
    using that es(2) id assms(4) by (auto split: if_splits)
  then have "audited om ?b" unfolding audited_def using es(1) by blast
  moreover have "om_ok ?b" using a(1) om_ok_frame [of ?b ?a] by simp
  moreover have "keeps_orders om ?b" using a(2) by (simp add: keeps_orders_def)
  ultimately show "om_ok ?b \<and> keeps_orders om ?b \<and> audited om ?b" by blast
qed

lemma sound_new:
  assumes "map_of (om_orders om) (os_id n) = None" "0 < os_quantity n" "os_superseded_by n = None"
  shows "sound_step om (put_order n om)"
  unfolding sound_step_def
proof (intro impI conjI)
  assume ok: "om_ok om"
  have new: "os_id n \<notin> set (map fst (om_orders om))" using assms(1) by (simp add: map_of_eq_None_iff)
  have idx: "key_index j (AList.update (os_id n) n (om_orders om)) = key_index j (om_orders om)"
    if "map_of (om_orders om) j = Some p" for j p
    using that new by (intro key_index_update_new) (auto dest: map_of_SomeD intro: rev_image_eqI)
  show "om_ok (put_order n om)"
    unfolding om_ok_def
  proof (intro conjI allI impI ballI)
    show "keyed_by os_id (om_orders (put_order n om))" using ok by (auto simp: om_ok_def intro: keyed_by_update)
    fix i o' assume i: "map_of (om_orders (put_order n om)) i = Some o'"
    show "0 < os_quantity o'" using i ok assms(2) by (auto simp: om_ok_def split: if_splits)
    fix m assume m: "os_superseded_by o' = Some m"
    with i assms(3) have i': "map_of (om_orders om) i = Some o'" by (auto split: if_splits)
    with m ok have "map_of (om_orders om) m \<noteq> None" "key_index i (om_orders om) < key_index m (om_orders om)"
      by (auto simp: om_ok_def)
    with i' idx show "map_of (om_orders (put_order n om)) m \<noteq> None"
      "key_index i (om_orders (put_order n om)) < key_index m (om_orders (put_order n om))" by auto
  next
    fix i assume "i \<in> om_rejected (put_order n om)"
    with ok show "map_of (om_orders (put_order n om)) i \<noteq> None" by (auto simp: om_ok_def)
  qed
  show "keeps_orders om (put_order n om)" using assms(1) by (auto simp: keeps_orders_def)
  show "audited om (put_order n om)" using assms(1) by (auto simp: audited_def intro!: exI [of _ "[]"])
qed

lemma sound_tasks [simp]: "sound_step om (om\<lparr>om_tasks := ts\<rparr>)"
  by (auto simp: sound_step_def keeps_orders_def audited_def om_ok_def intro: exI [of _ "[]"])

lemma sound_reject: "map_of (om_orders om) i = Some o' \<Longrightarrow> sound_step om (om\<lparr>om_rejected := insert i (om_rejected om)\<rparr>)"
  by (auto simp: sound_step_def keeps_orders_def audited_def om_ok_def intro: exI [of _ "[]"])

lemma sound_store: "es_queue es = es_queue (om_store om) @ map Some xs \<Longrightarrow> sound_step om (om\<lparr>om_store := es\<rparr>)"
  by (auto simp: sound_step_def keeps_orders_def audited_def om_ok_def)

lemma found_in_orders:
  assumes "om_ok om" "List.find P (dict_values (om_orders om)) = Some o'"
  shows "map_of (om_orders om) (os_id o') = Some o'" "P o'"
proof -
  have "o' \<in> set (dict_values (om_orders om))" "P o'" using find_SomeD [OF assms(2)] by auto
  then show "map_of (om_orders om) (os_id o') = Some o'" "P o'"
    using assms(1) in_values_iff [of "om_orders om" o'] by (auto simp: om_ok_def keyed_by_def)
qed

lemma found_by_broker_id:
  "om_ok om \<Longrightarrow> find_order_by_broker_id bid om = Some o' \<Longrightarrow> map_of (om_orders om) (os_id o') = Some o' \<and> os_broker_id o' = bid"
  by (auto simp: find_order_by_broker_id_def split: if_splits dest: found_in_orders)

text \<open>The operations, one by one.\<close>

lemma mk_plan_Inr: "mk_plan p = Inr q \<longleftrightarrow> q = p \<and> op_strategy p \<noteq> [] \<and> 0 < op_quantity p \<and> 0 < op_limit p"
  by (auto simp: mk_plan_def)

lemma submit_prepare_Inr:
  assumes "submit_prepare now plan_id oid i d emergency algo om = Inr (p, om')"
  defines "n \<equiv> plan_order now oid p (Some (op_limit p)) algo (oi_batch i)"
  shows "approved d \<and> rd_id d = oi_decision_id i \<and> duplicate_order (oi_position_id i) om = None
    \<and> p = intent_plan now plan_id i d emergency algo \<and> op_strategy p \<noteq> [] \<and> 0 < op_quantity p \<and> 0 < op_limit p
    \<and> om' = log_event now oid (Some NEW) RISK_CHECKED (lit ''Order risk check validated'')
        (put_order (set_status now RISK_CHECKED n)
          (log_event now oid None NEW (lit ''Order state created from intent'') (put_order n om)))"
  using assms by (auto simp: submit_prepare_def try_bind_eq_Inr mk_plan_Inr Let_def split: if_splits option.splits)

lemma plan_order_frame [simp, frame_simps]:
  "os_id (plan_order now oid p first algo batch) = oid" "os_quantity (plan_order now oid p first algo batch) = op_quantity p"
  "os_superseded_by (plan_order now oid p first algo batch) = None" "os_status (plan_order now oid p first algo batch) = NEW"
  "os_position_id (plan_order now oid p first algo batch) = op_position_id p"
  by (simp_all add: plan_order_def)

lemma submit_prepare_sound:
  assumes "submit_prepare now plan_id oid i d emergency algo om = Inr (p, om')" "map_of (om_orders om) oid = None"
  shows "sound_step om om'"
proof -
  let ?n = "plan_order now oid p (Some (op_limit p)) algo (oi_batch i)"
  note f = submit_prepare_Inr [OF assms(1)]
  let ?om1 = "log_event now oid None NEW (lit ''Order state created from intent'') (put_order ?n om)"
  have 1: "sound_step om (put_order ?n om)" using f assms(2) by (intro sound_new) auto
  have "sound_step ?om1 om'"
    using f by (auto intro!: sound_put_log [where ?o1.0 = ?n])
  with sound_trans [OF 1 sound_log] show ?thesis by (rule sound_trans)
qed

lemma submit_complete_sound: "sound_step om (submit_complete now oid emergency config reply om)"
proof (cases "map_of (om_orders om) oid")
  case (Some o')
  show ?thesis
  proof (cases reply)
    case (Inl e)
    with Some show ?thesis
      by (auto simp: submit_complete_def order_identity_def set_status_def intro!: sound_put_log)
  next
    case (Inr b)
    let ?o1 = "set_status now (os_status b) (o'\<lparr>os_broker_id := os_broker_id b\<rparr>)"
    let ?om1 = "log_event now oid (Some RISK_CHECKED) (os_status b)
       (Fstr ''Order submitted to broker client with ID {}'' [opt_arg FStr (os_broker_id b)]) (put_order ?o1 om)"
    have s: "sound_step om ?om1"
      by (rule sound_put_log [OF Some]) (simp_all add: order_identity_def)
    have "sound_step om (?om1\<lparr>om_tasks := ts\<rparr>)" for ts by (rule sound_trans [OF s]) simp
    with s Some Inr show ?thesis
      by (simp add: submit_complete_def Let_def split: option.split)
  qed
qed (simp add: submit_complete_def)

lemma cancel_request_sound: "sound_step om (snd (cancel_request now oid hard om))"
proof (cases "map_of (om_orders om) oid")
  case (Some o0)
  define o1 where "o1 = (if hard then o0\<lparr>os_hard_cancel := True\<rparr> else o0)"
  have o1: "order_identity o1 = order_identity o0" "os_superseded_by o1 = os_superseded_by o0" "os_status o1 = os_status o0"
    by (simp_all add: o1_def order_identity_def)
  have s1: "sound_step om (put_order o1 om)" by (rule sound_put [OF Some o1])
  define o2 where "o2 = set_status now CANCEL_PENDING o1"
  define om2 where "om2 = log_event now oid (Some (os_status o1)) CANCEL_PENDING
      (lit ''Order cancellation requested'') (put_order o2 (put_order o1 om))"
  show ?thesis
  proof (cases "os_status o1 \<in> {FILLED, CANCELLED, REJECTED, ERROR}")
    case True
    with s1 Some show ?thesis by (auto simp: cancel_request_def o1_def [symmetric] Let_def)
  next
    case False
    have s2: "sound_step om om2"
    proof (rule sound_trans [OF s1])
      assume "om_ok om"
      then have "os_id o1 = oid" using o1(1) Some by (auto simp: om_ok_def keyed_by_def order_identity_def)
      then show "sound_step (put_order o1 om) om2" unfolding om2_def
        by (intro sound_put_log [where ?o1.0 = o1]) (simp_all add: o2_def)
    qed
    let ?om3 = "log_event now oid (Some CANCEL_PENDING) CANCELLED (lit ''Cancelled locally (no broker ID)'')
        (put_order (set_status now CANCELLED o2) om2)"
    have "sound_step om ?om3"
    proof (rule sound_trans [OF s2])
      assume "om_ok om"
      then have "os_id o1 = oid" using o1(1) Some by (auto simp: om_ok_def keyed_by_def order_identity_def)
      then show "sound_step om2 ?om3"
        by (intro sound_put_log [where ?o1.0 = o2]) (simp_all add: om2_def o2_def)
    qed
    with s2 Some False show ?thesis
      by (simp add: cancel_request_def o1_def [symmetric] o2_def [symmetric] om2_def [symmetric] Let_def)
  qed
qed (simp add: cancel_request_def)

lemma cancel_finish_sound: "sound_step om (snd (cancel_finish now oid reply om))"
  by (cases reply; cases "map_of (om_orders om) oid")
    (auto simp: cancel_finish_def order_identity_def set_status_def intro!: sound_put_log)

lemma sweep_adopt_sound: "sound_step om (snd (sweep_adopt now oid age status om))"
proof (cases "map_of (om_orders om) oid")
  case (Some o')
  have "sound_step om (log_event now oid prev st msg (put_order (set_status now st o') om))" for prev st msg
    by (rule sound_put_log [OF Some]) simp_all
  with Some show ?thesis by (auto simp: sweep_adopt_def sound_log split: option.split)
qed (simp add: sweep_adopt_def)

lemma sweep_recancelled_sound: "sound_step om (sweep_recancelled now oid reply om)"
proof (cases "map_of (om_orders om) oid")
  case (Some o')
  have "sound_step om (put_order (o'\<lparr>os_updated := now\<rparr>) om)"
    by (rule sound_put [OF Some]) (simp_all add: order_identity_def)
  with Some show ?thesis by (auto simp: sweep_recancelled_def sound_log split: sum.split)
qed (simp add: sweep_recancelled_def)

lemma sweep_reply_sound: "sound_step om (snd (sweep_reply now oid age reply om))"
  using sweep_adopt_sound by (auto simp: sweep_reply_def sound_log split: sum.split option.split)

lemma sound_found:
  assumes "\<And>o'. find_order_by_broker_id bid om = Some o' \<Longrightarrow> map_of (om_orders om) (os_id o') = Some o' \<Longrightarrow> sound_step om (F o')"
    and "find_order_by_broker_id bid om = None \<Longrightarrow> sound_step om G"
  shows "sound_step om (case find_order_by_broker_id bid om of None \<Rightarrow> G | Some o' \<Rightarrow> F o')"
proof (cases "om_ok om")
  case True
  then show ?thesis using assms found_by_broker_id by (auto split: option.split)
qed (simp add: sound_step_def)

lemma on_broker_order_update_sound: "sound_step om (on_broker_order_update now b ev om)"
  unfolding on_broker_order_update_def
proof (rule sound_found)
  fix o' assume o': "map_of (om_orders om) (os_id o') = Some o'"
  let ?st = "if os_status o' = CANCEL_PENDING \<and> os_status b \<in> {SUBMITTED, PARTIALLY_FILLED, NEW}
      then CANCEL_PENDING else os_status b"
  let ?o1 = "set_status now ?st (o'\<lparr>os_filled := os_filled b, os_error := os_error b\<rparr>)"
  define om1 where "om1 = log_event now (os_id o') (Some (os_status o')) ?st
      (Fstr ''Broker update callback: {}'' [FMsg (oe_message ev)]) (put_order ?o1 om)"
  have s1: "sound_step om om1"
    unfolding om1_def by (rule sound_put_log [OF o']) (simp_all add: order_identity_def)
  define om2 where "om2 = (if (os_status b = CANCELLED \<and> os_status o' \<noteq> CANCEL_PENDING) \<or> os_status b \<in> {REJECTED, ERROR}
      then om1\<lparr>om_rejected := insert (os_id o') (om_rejected om1)\<rparr> else om1)"
  have "map_of (om_orders om1) (os_id o') = Some ?o1" by (simp add: om1_def)
  then have s2: "sound_step om om2"
    unfolding om2_def using s1 sound_trans [OF s1 sound_reject] by simp
  define om3 where "om3 = log_event now (os_id o') (Some ?st) ?st
      (lit ''Partial fill detected on entry order; canceling remainder'') om2"
  have "sound_step om om3" unfolding om3_def by (rule sound_trans [OF s2 sound_log])
  then have s3: "sound_step om (om3\<lparr>om_tasks := ts\<rparr>)" for ts
    by (rule sound_trans) (rule sound_tasks)
  have s4: "sound_step om (log_event now (os_id o') prev CANCELLED msg (put_order (set_status now CANCELLED o') om))" for prev msg
    by (rule sound_put_log [OF o']) simp_all
  show "sound_step om (let oid = os_id o'; old = os_status o'
        in if old \<in> {FILLED, CANCELLED, REJECTED, ERROR} then
             log_event now oid (Some old) old
               (Fstr ''Ignored stale broker update callback (order already {}): {}'' [status_arg old, FMsg (oe_message ev)]) om
           else if old = CANCEL_PENDING \<and> os_status b \<in> {REJECTED, ERROR} then
             log_event now oid (Some old) CANCELLED
               (Fstr ''Reject during our own cancellation treated as cancelled (modify/cancel race): {}''
                  [FMsg (oe_message ev)]) (put_order (set_status now CANCELLED o') om)
           else
             let st = (if old = CANCEL_PENDING \<and> os_status b \<in> {SUBMITTED, PARTIALLY_FILLED, NEW}
                       then CANCEL_PENDING else os_status b);
                 o1 = set_status now st (o'\<lparr>os_filled := os_filled b, os_error := os_error b\<rparr>);
                 om1 = log_event now oid (Some old) st
                         (Fstr ''Broker update callback: {}'' [FMsg (oe_message ev)]) (put_order o1 om);
                 spontaneous = (os_status b = CANCELLED \<and> old \<noteq> CANCEL_PENDING);
                 rejected = (os_status b \<in> {REJECTED, ERROR});
                 om2 = (if spontaneous \<or> rejected then om1\<lparr>om_rejected := insert oid (om_rejected om1)\<rparr> else om1)
             in if st = PARTIALLY_FILLED \<and> os_is_entry o1 then
                  let om3 = log_event now oid (Some st) st
                        (lit ''Partial fill detected on entry order; canceling remainder'') om2
                  in om3\<lparr>om_tasks := om_tasks om3 @ [Cancel_Task oid]\<rparr>
                else om2)"
    unfolding Let_def om1_def [symmetric] om2_def [symmetric] om3_def [symmetric]
    using s2 s3 s4 sound_log by simp
qed simp

lemma on_broker_fill_sound: "sound_step om (on_broker_fill now f om)"
proof -
  have "\<exists>xs. es_queue (om_store (on_broker_fill now f om)) = es_queue (om_store om) @ map Some xs"
    by (cases "fill_order f om") (auto simp: on_broker_fill_def Let_def intro: exI [of _ "[_]"] exI [of _ "[_, _]"])
  moreover have "on_broker_fill now f om = om\<lparr>om_store := om_store (on_broker_fill now f om)\<rparr>"
    by (simp add: on_broker_fill_def Let_def)
  ultimately show ?thesis using sound_store by metis
qed

lemma reprice_cancelled_sound: "sound_step om (reprice_cancelled now r msg om)"
  by (auto simp: reprice_cancelled_def sound_log split: option.split)

lemma reprice_modified_sound: "sound_step om (snd (snd (reprice_modified now r price reply om)))"
proof (cases "map_of (om_orders om) (rp_order r)")
  case (Some o')
  let ?o2 = "o'\<lparr>os_limit := price, os_updated := now\<rparr>"
  have "sound_step om (log_event now (rp_order r) prev (os_status o') msg (put_order ?o2 om))" for prev msg
    by (rule sound_put_log [OF Some]) (simp_all add: order_identity_def)
  with Some show ?thesis by (cases reply) (auto simp: reprice_modified_def Let_def sound_log)
qed (simp add: reprice_modified_def)

lemma reprice_cancel_sound: "sound_step om (snd (reprice_cancel now r price om))"
  using cancel_request_sound [of om now "rp_order r" False]
  by (auto simp: reprice_cancel_def split: option.split prod.split cancel_phase.split)

lemma reprice_cancel_reply_sound: "sound_step om (snd (reprice_cancel_reply now r reply om))"
  using cancel_finish_sound [of om now "rp_order r" reply]
  by (auto simp: reprice_cancel_reply_def split: prod.split)

text \<open>What a replacement is made of, when one is made.\<close>

lemma reprice_replace_placed:
  assumes "reprice_replace now plan_id new_id r price om = Inr (RP_Place p, r', om')"
  obtains o' n where "map_of (om_orders om) (rp_order r) = Some o'" "0 < os_quantity o' - os_filled o'"
    "p = replacement_plan now plan_id price o'" "0 < price"
    "n = plan_order now new_id p (Some (first_limit_of o')) (os_algo o') (os_batch o')"
    "om' = put_order (o'\<lparr>os_superseded_by := Some new_id\<rparr>) (put_order n om)"
    "r' = r\<lparr>rp_attempts := rp_attempts r + 1\<rparr>"
  using assms by (auto simp: reprice_replace_def try_bind_eq_Inr mk_plan_Inr Let_def replacement_plan_def
      split: option.splits if_splits)

lemma supersede_sound:
  assumes "map_of (om_orders om) i = Some o'" "map_of (om_orders om) (os_id n) = None"
    "0 < os_quantity n" "os_superseded_by n = None"
  shows "sound_step om (put_order (o'\<lparr>os_superseded_by := Some (os_id n)\<rparr>) (put_order n om))"
  unfolding sound_step_def
proof
  let ?a = "put_order n om" and ?o = "o'\<lparr>os_superseded_by := Some (os_id n)\<rparr>"
  let ?b = "put_order ?o ?a"
  assume ok: "om_ok om"
  then have id: "os_id o' = i" using assms(1) by (auto simp: om_ok_def keyed_by_def)
  have neq: "i \<noteq> os_id n" using assms(1,2) by auto
  have a: "om_ok ?a" "keeps_orders om ?a" "audited om ?a"
    using sound_new [OF assms(2-4)] ok by (auto simp: sound_step_def)
  have ia: "map_of (om_orders ?a) i = Some o'" using assms(1) neq by simp
  have k: "key_index j (om_orders ?b) = key_index j (om_orders ?a)" for j
  proof -
    have "i \<in> fst ` set (om_orders ?a)" using map_of_SomeD [OF ia] by (rule rev_image_eqI) simp
    then have "os_id ?o \<in> set (map fst (om_orders ?a))" using id by simp
    from key_index_update_present [OF this] show ?thesis by simp
  qed
  have "key_index i (om_orders ?a) < key_index (os_id n) (om_orders ?a)"
  proof -
    have "os_id n \<notin> set (map fst (om_orders om))" using assms(2) by (simp add: map_of_eq_None_iff)
    moreover have "i \<in> set (map fst (om_orders om))" using assms(1) by (force dest: map_of_SomeD)
    ultimately show ?thesis using key_index_new [of "os_id n" "om_orders om" i n]
        key_index_update_new [of "os_id n" "om_orders om" i n] by simp
  qed
  then have idx: "key_index i (om_orders ?a) < key_index (os_id n) (om_orders ?a)" .
  have b: "map_of (om_orders ?b) j = (if j = i then Some ?o else map_of (om_orders ?a) j)" for j
    using id by simp
  have "om_ok ?b"
    unfolding om_ok_def
  proof (intro conjI allI impI ballI)
    have "keyed_by os_id (om_orders ?a)" using a(1) by (simp add: om_ok_def)
    then show "keyed_by os_id (om_orders ?b)" unfolding put_order_frame(1) [of ?o] by (rule keyed_by_update) simp
    fix j q assume q: "map_of (om_orders ?b) j = Some q"
    obtain q' where q': "map_of (om_orders ?a) j = Some q'" "os_quantity q = os_quantity q'"
      "os_superseded_by q = (if j = i then Some (os_id n) else os_superseded_by q')"
      using q ia unfolding b by (auto split: if_splits)
    show "0 < os_quantity q" using a(1) q'(1,2) by (simp add: om_ok_def)
    fix m assume m: "os_superseded_by q = Some m"
    have "map_of (om_orders ?a) m \<noteq> None \<and> key_index j (om_orders ?a) < key_index m (om_orders ?a)"
    proof (cases "j = i")
      case True
      with m q'(3) idx show ?thesis by simp
    next
      case False
      with m q'(3) have "os_superseded_by q' = Some m" by simp
      with a(1) q'(1) show ?thesis unfolding om_ok_def by blast
    qed
    then show "map_of (om_orders ?b) m \<noteq> None" "key_index j (om_orders ?b) < key_index m (om_orders ?b)"
      unfolding b k by simp_all
  next
    fix j assume "j \<in> om_rejected ?b"
    then have "map_of (om_orders ?a) j \<noteq> None" using a(1) by (simp add: om_ok_def)
    then show "map_of (om_orders ?b) j \<noteq> None" unfolding b by simp
  qed
  moreover have "keeps_orders om ?b"
    using assms(1,2) id by (auto simp: keeps_orders_def order_identity_def)
  moreover have "audited om ?b"
    using assms(1,2) id by (auto simp: audited_def intro!: exI [of _ "[]"])
  ultimately show "om_ok ?b \<and> keeps_orders om ?b \<and> audited om ?b" by blast
qed

lemma reprice_replace_sound:
  assumes "reprice_replace now plan_id new_id r price om = Inr (nxt, r', om')" "map_of (om_orders om) new_id = None"
  shows "sound_step om om'"
proof (cases "\<exists>p. nxt = RP_Place p")
  case True
  then obtain p where "nxt = RP_Place p" by blast
  with assms(1) have "reprice_replace now plan_id new_id r price om = Inr (RP_Place p, r', om')" by simp
  then obtain o' n where o': "map_of (om_orders om) (rp_order r) = Some o'" "0 < os_quantity o' - os_filled o'"
    and n: "p = replacement_plan now plan_id price o'"
      "n = plan_order now new_id p (Some (first_limit_of o')) (os_algo o') (os_batch o')"
    and om': "om' = put_order (o'\<lparr>os_superseded_by := Some new_id\<rparr>) (put_order n om)"
    by (rule reprice_replace_placed) blast
  have "os_id n = new_id" "0 < os_quantity n" "os_superseded_by n = None"
    using n o'(2) by (simp_all add: replacement_plan_def)
  with supersede_sound [OF o'(1), of n] assms(2) om' show ?thesis by simp
next
  case False
  with assms(1) show ?thesis
    by (auto simp: reprice_replace_def try_bind_eq_Inr Let_def sound_log split: option.splits if_splits)
qed

lemma reprice_placed_sound: "sound_step om (snd (snd (reprice_placed now new_id r price reply om)))"
proof (cases "map_of (om_orders om) new_id")
  case (Some n)
  have "sound_step om (log_event now new_id prev ERROR msg
      (put_order (set_status now ERROR (n\<lparr>os_error := e\<rparr>)) om))" for prev msg e
    by (rule sound_put_log [OF Some]) (simp_all add: order_identity_def)
  moreover have "sound_step om (log_event now new_id prev st msg
      (put_order (set_status now st (n\<lparr>os_broker_id := e\<rparr>)) om))" for prev msg e st
    by (rule sound_put_log [OF Some]) (simp_all add: order_identity_def)
  ultimately show ?thesis using Some by (cases reply) (simp_all add: reprice_placed_def)
qed (simp add: reprice_placed_def)

section \<open>Runs\<close>

text \<open>
  One piece of one coroutine or one callback. Nothing is said about which broker answers arrive, in
  which order the pieces run, or what the broker reports: every interleaving of any number of
  submissions, cancellations, sweeps and repricers is a run. New identifiers are unused, and a
  replacement is placed only where \<open>reprice_wait\<close> lets it.
\<close>

inductive om_step :: "order_manager \<Rightarrow> order_manager \<Rightarrow> bool" where
  om_submit: "map_of (om_orders om) oid = None \<Longrightarrow>
     submit_prepare now plan_id oid i d emergency algo om = Inr (p, om') \<Longrightarrow> om_step om om'"
| om_submitted: "om_step om (submit_complete now oid emergency config reply om)"
| om_cancel: "om_step om (snd (cancel_request now oid hard om))"
| om_cancelled: "om_step om (snd (cancel_finish now oid creply om))"
| om_sweep_reply: "om_step om (snd (sweep_reply now oid age qreply om))"
| om_sweep_recancelled: "om_step om (sweep_recancelled now oid creply om)"
| om_update: "om_step om (on_broker_order_update now b ev om)"
| om_fill: "om_step om (on_broker_fill now f om)"
| om_reprice_cancelled: "om_step om (reprice_cancelled now r msg om)"
| om_reprice_modified: "om_step om (snd (snd (reprice_modified now r price creply om)))"
| om_reprice_cancel: "om_step om (snd (reprice_cancel now r price om))"
| om_reprice_replace: "map_of (om_orders om) new_id = None \<Longrightarrow> reprice_wait now r om = RP_Submit \<Longrightarrow>
     reprice_replace now plan_id new_id r price om = Inr (nxt, r', om') \<Longrightarrow> om_step om om'"
| om_reprice_placed: "om_step om (snd (snd (reprice_placed now new_id r price reply om)))"
| om_task_done: "om_step om (om\<lparr>om_tasks := ts\<rparr>)"

lemma om_step_sound: "om_step om om' \<Longrightarrow> sound_step om om'"
  by (induction rule: om_step.induct)
    (auto intro: submit_prepare_sound submit_complete_sound cancel_request_sound cancel_finish_sound
      sweep_reply_sound sweep_recancelled_sound on_broker_order_update_sound on_broker_fill_sound reprice_cancelled_sound
      reprice_modified_sound reprice_cancel_sound reprice_replace_sound reprice_placed_sound)

lemma new_manager_ok: "om_ok (new_manager es)"
  by (simp add: om_ok_def new_manager_def)

interpretation orders: step_invariant "\<lambda>om. om = new_manager es" om_step om_ok
  for es using om_step_sound new_manager_ok by unfold_locales (auto simp: sound_step_def)

lemma om_steps_sound: "om_step\<^sup>*\<^sup>* om om' \<Longrightarrow> sound_step om om'"
  by (induction rule: rtranclp_induct) (auto intro: sound_trans om_step_sound)

section \<open>Lemmas on single operations\<close>

lemma duplicate_order_None:
  "om_ok om \<Longrightarrow> duplicate_order (Some pid) om = None \<longleftrightarrow>
    (\<forall>i o'. map_of (om_orders om) i = Some o' \<longrightarrow> os_position_id o' = Some pid \<longrightarrow> terminal_status (os_status o'))"
proof -
  assume ok: "om_ok om"
  have a: "active_for pid o' \<longleftrightarrow> os_position_id o' = Some pid \<and> \<not> terminal_status (os_status o')" for o'
    by (cases "os_status o'") (auto simp: active_for_def)
  have "duplicate_order (Some pid) om = None \<longleftrightarrow> (\<forall>o' \<in> set (dict_values (om_orders om)). \<not> active_for pid o')"
    by (auto simp: duplicate_order_def find_None_iff)
  also have "\<dots> \<longleftrightarrow> (\<forall>i o'. map_of (om_orders om) i = Some o' \<longrightarrow> \<not> active_for pid o')"
    using ok in_values_iff [of "om_orders om"] by (auto simp: om_ok_def keyed_by_def)
  finally show ?thesis unfolding a by blast
qed

definition active_orders :: "uuid \<Rightarrow> order_manager \<Rightarrow> uuid set" where
  "active_orders pid om = {i. \<exists>o'. map_of (om_orders om) i = Some o' \<and> os_position_id o' = Some pid
     \<and> \<not> terminal_status (os_status o')}"

lemma terminal_set: "st \<in> {FILLED, CANCELLED, REJECTED, ERROR} \<longleftrightarrow> terminal_status st"
  by (cases st) simp_all

lemma update_ignored:
  assumes "find_order_by_broker_id (os_broker_id b) om = Some o'" "terminal_status (os_status o')"
  shows "om_orders (on_broker_order_update now b ev om) = om_orders om
    \<and> om_rejected (on_broker_order_update now b ev om) = om_rejected om
    \<and> om_tasks (on_broker_order_update now b ev om) = om_tasks om"
  using assms by (cases "os_status o'") (simp_all add: on_broker_order_update_def Let_def)

text \<open>The state an order goes to on a broker update, and whether the update is a fail-closed event.\<close>

definition updated_status :: "order_status \<Rightarrow> order_status \<Rightarrow> order_status" where
  "updated_status old st =
     (if old = CANCEL_PENDING then
        (if st \<in> {CANCELLED, REJECTED, ERROR} then CANCELLED else if st \<in> {SUBMITTED, PARTIALLY_FILLED, NEW} then CANCEL_PENDING else st)
      else st)"

definition fail_closed_event :: "order_status \<Rightarrow> order_status \<Rightarrow> bool" where
  "fail_closed_event old st \<longleftrightarrow> \<not> terminal_status old \<and> old \<noteq> CANCEL_PENDING \<and> st \<in> {CANCELLED, REJECTED, ERROR}"

lemma update_applied:
  assumes "find_order_by_broker_id (os_broker_id b) om = Some o'" "\<not> terminal_status (os_status o')"
  shows "map_option os_status (map_of (om_orders (on_broker_order_update now b ev om)) (os_id o'))
      = Some (updated_status (os_status o') (os_status b))"
    and "j \<noteq> os_id o' \<Longrightarrow> map_of (om_orders (on_broker_order_update now b ev om)) j = map_of (om_orders om) j"
    and "om_rejected (on_broker_order_update now b ev om) =
      (if fail_closed_event (os_status o') (os_status b) then insert (os_id o') (om_rejected om) else om_rejected om)"
proof -
  have nt: "os_status o' \<notin> {FILLED, CANCELLED, REJECTED, ERROR}" using assms(2) by (cases "os_status o'") simp_all
  show "map_option os_status (map_of (om_orders (on_broker_order_update now b ev om)) (os_id o'))
      = Some (updated_status (os_status o') (os_status b))"
    using assms(1) nt by (simp add: on_broker_order_update_def updated_status_def Let_def)
  show "j \<noteq> os_id o' \<Longrightarrow> map_of (om_orders (on_broker_order_update now b ev om)) j = map_of (om_orders om) j"
    using assms(1) nt by (simp add: on_broker_order_update_def Let_def)
  show "om_rejected (on_broker_order_update now b ev om) =
      (if fail_closed_event (os_status o') (os_status b) then insert (os_id o') (om_rejected om) else om_rejected om)"
    using assms by (auto simp: on_broker_order_update_def fail_closed_event_def terminal_set [symmetric] Let_def)
qed

lemma conform_tick_near: "\<bar>conform_tick x - x\<bar> \<le> 1 / 40"
proof (cases "x < 3")
  case True
  then show ?thesis using py_round_near [of 2 x] by (simp add: conform_tick_def)
next
  case False
  have "\<bar>of_int (round_half_even (x * 20)) - x * 20\<bar> \<le> 1 / 2" by (rule round_half_even_near)
  then have "of_int (round_half_even (x * 20)) - x * 20 \<le> 1 / 2" "x * 20 - of_int (round_half_even (x * 20)) \<le> 1 / 2"
    unfolding abs_le_iff by linarith+
  then have "of_int (round_half_even (x * 20)) / 20 - x \<le> 1 / 40" "x - of_int (round_half_even (x * 20)) / 20 \<le> 1 / 40"
    by linarith+
  then show ?thesis using False by (simp add: conform_tick_def abs_le_iff del: le_divide_eq_numeral1 divide_le_eq_numeral1)
qed

text \<open>Chasing without crossing: a buy goes to the ask at most, a sell to the bid at least, up to the
  half tick of the rounding; the rounding can pass the touch.\<close>

lemma reprice_buy_bound:
  assumes "os_side o' = BUY" "rc_cross_after c = None" "0 < ask" "ask \<le> rc_max_buy c"
  shows "conform_tick (reprice_target c attempts o' bid ask) \<le> ask + 1 / 40"
proof -
  have "reprice_target c attempts o' bid ask \<le> ask" using assms by (simp add: reprice_target_def)
  then show ?thesis using conform_tick_near [of "reprice_target c attempts o' bid ask"] unfolding abs_le_iff by linarith
qed

lemma reprice_sell_bound:
  assumes "os_side o' = SELL" "rc_cross_after c = None" "0 < bid" "rc_min_sell c \<le> bid"
  shows "bid - 1 / 40 \<le> conform_tick (reprice_target c attempts o' bid ask)"
proof -
  have "bid \<le> reprice_target c attempts o' bid ask" using assms by (simp add: reprice_target_def)
  then show ?thesis using conform_tick_near [of "reprice_target c attempts o' bid ask"] unfolding abs_le_iff by linarith
qed

section \<open>Samples\<close>

definition sample_intent :: "uuid option \<Rightarrow> order_intent" where
  "sample_intent pid = \<lparr>oi_id = 11, oi_signal_id = 12, oi_decision_id = 13, oi_position_id = pid,
     oi_is_entry = False, oi_strategy = ''s'', oi_contract = fe_contract (sample_fill BUY 2 4), oi_side = SELL,
     oi_quantity = 2, oi_limit = 4, oi_timestamp = 5, oi_batch = None\<rparr>"

definition sample_approval :: risk_decision where
  "sample_approval = \<lparr>rd_id = 13, rd_signal_id = 12, rd_status = APPROVED, rd_allowed = 2, rd_blocking = [], rd_warnings = []\<rparr>"

definition sample_reply :: "order_status \<Rightarrow> order_state" where
  "sample_reply st = (plan_order 5 99 (intent_plan 5 98 (sample_intent (Some 1)) sample_approval False None) None None None)
     \<lparr>os_status := st, os_broker_id := Some ''7''\<rparr>"

definition sample_submitted :: order_manager where
  "sample_submitted = (case submit_prepare 5 20 21 (sample_intent (Some 1)) sample_approval False None (new_manager new_store) of
     Inr (p, om) \<Rightarrow> submit_complete 6 21 False None (Inr (sample_reply SUBMITTED)) om | Inl e \<Rightarrow> new_manager new_store)"

lemma sample_submitted_reachable: "om_step\<^sup>*\<^sup>* (new_manager new_store) sample_submitted"
proof -
  obtain p om where s: "submit_prepare 5 20 21 (sample_intent (Some 1)) sample_approval False None (new_manager new_store) = Inr (p, om)"
    by (simp add: submit_prepare_def sample_approval_def sample_intent_def approved_def duplicate_order_def
        new_manager_def dict_values_def mk_plan_def intent_plan_def Let_def)
  have "om_step (new_manager new_store) om"
    by (rule om_submit [OF _ s]) (simp add: new_manager_def)
  moreover have "om_step om sample_submitted"
    using om_submitted [of om 6 21 False None "Inr (sample_reply SUBMITTED)"] s by (simp add: sample_submitted_def)
  ultimately show ?thesis by (meson converse_rtranclp_into_rtranclp r_into_rtranclp)
qed

section \<open>Properties\<close>

text \<open>C2: the audit trail is complete. In every interleaving of the pieces between two awaits of
  submissions, cancellations, sweeps and repricers and of the broker's callbacks, the manager stays
  well formed, an order once created keeps its identity (contract, side, quantity,
  position, first limit, reference), and if its status differs between two moments of the run, the
  events logged in between contain a transition event for that order to its later status.\<close>

theorem status_changes_audited:
  assumes "om_step\<^sup>*\<^sup>* (new_manager es) om" and "om_step\<^sup>*\<^sup>* om om'" and "map_of (om_orders om) i = Some o1"
  shows "om_ok om' \<and> (\<exists>o2 new. map_of (om_orders om') i = Some o2 \<and> order_identity o2 = order_identity o1
    \<and> es_queue (om_store om') = es_queue (om_store om) @ map Some new
    \<and> (os_status o2 \<noteq> os_status o1 \<longrightarrow> (\<exists>e \<in> set new. reports i (os_status o2) e)))"
proof
  have "om_ok om" using assms(1) by (rule orders.inv_reachable [OF refl])
  then have k: "om_ok om'" "keeps_orders om om'" "audited om om'"
    using om_steps_sound [OF assms(2)] by (auto simp: sound_step_def)
  from k(1) show "om_ok om'" .
  from k(2) obtain o2 where "map_of (om_orders om') i = Some o2" "order_identity o2 = order_identity o1"
    using assms(3) by (auto simp: keeps_orders_def)
  with k(3) assms(3) show "\<exists>o2 new. map_of (om_orders om') i = Some o2 \<and> order_identity o2 = order_identity o1
    \<and> es_queue (om_store om') = es_queue (om_store om) @ map Some new
    \<and> (os_status o2 \<noteq> os_status o1 \<longrightarrow> (\<exists>e \<in> set new. reports i (os_status o2) e))"
    unfolding audited_def by blast
qed

theorem status_changes_audited_witness:
  "\<exists>om' new. om_step\<^sup>*\<^sup>* sample_submitted om' \<and> map_option os_status (map_of (om_orders om') 21) = Some FILLED
    \<and> es_queue (om_store om') = es_queue (om_store sample_submitted) @ map Some new
    \<and> (\<exists>e \<in> set new. reports 21 FILLED e)"
proof -
  let ?ev = "\<lparr>oe_order_id = 21, oe_previous = None, oe_new = FILLED, oe_message = lit ''filled'', oe_timestamp = 7\<rparr>"
  let ?om' = "on_broker_order_update 7 (sample_reply FILLED) ?ev sample_submitted"
  obtain o1 where o1: "map_of (om_orders sample_submitted) 21 = Some o1" "os_status o1 = SUBMITTED"
  proof -
    have "map_option os_status (map_of (om_orders sample_submitted) 21) = Some SUBMITTED" by code_simp
    with that show ?thesis by auto
  qed
  have s: "om_step\<^sup>*\<^sup>* sample_submitted ?om'" by (intro r_into_rtranclp om_update)
  have f: "map_option os_status (map_of (om_orders ?om') 21) = Some FILLED" by code_simp
  from status_changes_audited [OF sample_submitted_reachable s o1(1)] f o1(2) s show ?thesis by fastforce
qed

lemma duplicate_gate:
  "om_ok om \<Longrightarrow> duplicate_order position om = None \<longleftrightarrow> (\<forall>pid. position = Some pid \<longrightarrow> active_orders pid om = {})"
  by (cases position) (simp add: duplicate_order_def, auto simp: duplicate_order_None active_orders_def)

lemma submit_accepts:
  assumes "om_ok om"
  shows "(\<exists>r. submit_prepare now plan_id oid i d emergency algo om = Inr r) \<longleftrightarrow>
      approved d \<and> rd_id d = oi_decision_id i \<and> (\<forall>pid. oi_position_id i = Some pid \<longrightarrow> active_orders pid om = {})
      \<and> oi_strategy i \<noteq> [] \<and> 0 < rd_allowed d \<and> 0 < oi_limit i" (is "?L \<longleftrightarrow> ?R")
proof
  note none = duplicate_gate [OF assms, of "oi_position_id i"]
  let ?p = "intent_plan now plan_id i d emergency algo"
  have plan: "op_strategy ?p = oi_strategy i" "op_quantity ?p = rd_allowed d" "op_limit ?p = oi_limit i"
    by (simp_all add: intent_plan_def)
  { assume ?L
    then obtain p om' where "submit_prepare now plan_id oid i d emergency algo om = Inr (p, om')" by force
    from submit_prepare_Inr [OF this] none plan show ?R by auto }
  assume r: ?R
  then have "mk_plan ?p = Inr ?p" using plan by (simp add: mk_plan_Inr)
  with r none show ?L by (simp add: submit_prepare_def Let_def)
qed

lemma submit_result:
  assumes "om_ok om" "map_of (om_orders om) oid = None"
    and s: "submit_prepare now plan_id oid i d emergency algo om = Inr (p, om')"
  shows "om_ok om'" "oi_position_id i = Some pid \<Longrightarrow> active_orders pid om' = {oid}"
    and "\<exists>n. map_of (om_orders om') oid = Some n \<and> os_status n = RISK_CHECKED \<and> os_quantity n = rd_allowed d
      \<and> os_position_id n = oi_position_id i"
proof -
  note f = submit_prepare_Inr [OF s]
  have plan: "op_quantity p = rd_allowed d" "op_position_id p = oi_position_id i"
    using f by (simp_all add: intent_plan_def)
  show "om_ok om'" using submit_prepare_sound [OF s assms(2)] assms(1) by (simp add: sound_step_def)
  show "active_orders pid om' = {oid}" if "oi_position_id i = Some pid"
  proof -
    have "active_orders pid om' = insert oid (active_orders pid om)"
      using f plan assms(2) that by (auto simp: active_orders_def)
    moreover have "active_orders pid om = {}" using f duplicate_gate [OF assms(1)] that by blast
    ultimately show ?thesis by simp
  qed
  show "\<exists>n. map_of (om_orders om') oid = Some n \<and> os_status n = RISK_CHECKED \<and> os_quantity n = rd_allowed d
      \<and> os_position_id n = oi_position_id i" using f plan by auto
qed

text \<open>C23: the gates of a submission. An intent is accepted exactly when its risk decision is approved
  and is the one the intent names, the position it names, if it names one, has no active order, and
  the plan is valid (a strategy, a positive quantity, a positive limit). Then the new order is in the
  manager, risk-checked, of the decision's quantity and for the position of the intent, and is the
  only active order of that position.\<close>

theorem submit_gates:
  assumes "om_ok om" "map_of (om_orders om) oid = None"
  shows "((\<exists>r. submit_prepare now plan_id oid i d emergency algo om = Inr r) \<longleftrightarrow>
      approved d \<and> rd_id d = oi_decision_id i \<and> (\<forall>pid. oi_position_id i = Some pid \<longrightarrow> active_orders pid om = {})
      \<and> oi_strategy i \<noteq> [] \<and> 0 < rd_allowed d \<and> 0 < oi_limit i)
    \<and> (\<forall>p om'. submit_prepare now plan_id oid i d emergency algo om = Inr (p, om') \<longrightarrow>
        om_ok om' \<and> (\<forall>pid. oi_position_id i = Some pid \<longrightarrow> active_orders pid om' = {oid})
        \<and> (\<exists>n. map_of (om_orders om') oid = Some n \<and> os_status n = RISK_CHECKED \<and> os_quantity n = rd_allowed d
              \<and> os_position_id n = oi_position_id i))"
  by (intro conjI submit_accepts [OF assms(1)] allI impI)
    (erule submit_result(1) [OF assms], erule submit_result(2) [OF assms], assumption, erule submit_result(3) [OF assms])

theorem submit_gates_witness:
  "active_orders 1 sample_submitted = {21}
   \<and> (\<nexists>r. submit_prepare 8 30 31 (sample_intent (Some 1)) sample_approval False None sample_submitted = Inr r)
   \<and> (\<exists>r. submit_prepare 8 30 31 (sample_intent (Some 2)) sample_approval False None sample_submitted = Inr r)"
proof -
  have ok: "om_ok sample_submitted" by (rule orders.inv_reachable [OF refl sample_submitted_reachable])
  have n: "map_of (om_orders sample_submitted) 31 = None" by code_simp
  have k: "map fst (om_orders sample_submitted) = [21]"
    "map_option (\<lambda>o'. (os_position_id o', os_status o')) (map_of (om_orders sample_submitted) 21) = Some (Some 1, SUBMITTED)"
    by code_simp+
  then have d: "map_of (om_orders sample_submitted) i = None" if "i \<noteq> 21" for i
    using that by (simp add: map_of_eq_None_iff flip: set_map)
  obtain o1 where "map_of (om_orders sample_submitted) 21 = Some o1" "os_position_id o1 = Some 1" "os_status o1 = SUBMITTED"
    using k(2) by auto
  with d have a: "active_orders 1 sample_submitted = {21}" "active_orders 2 sample_submitted = {}"
    unfolding active_orders_def by (auto, metis option.distinct(1), metis option.sel option.distinct(1) Suc_1 n_not_Suc_n One_nat_def)
  have i: "oi_position_id (sample_intent (Some 1)) = Some 1" "oi_position_id (sample_intent (Some 2)) = Some 2"
    and v: "approved sample_approval" "rd_id sample_approval = oi_decision_id (sample_intent (Some 2))"
    "oi_strategy (sample_intent (Some 2)) \<noteq> []" "0 < rd_allowed sample_approval" "0 < oi_limit (sample_intent (Some 2))"
    by code_simp+
  show ?thesis
    using a v i submit_gates [OF ok n, of 8 30 "sample_intent (Some 1)" sample_approval False None]
      submit_gates [OF ok n, of 8 30 "sample_intent (Some 2)" sample_approval False None] by simp
qed

text \<open>Broker updates. An update changes only the order with its broker id. A terminal order ignores
  it; otherwise the order takes the broker's status, except that a cancel in progress survives
  working states and turns a reject or error into a cancellation. The order is recorded as
  broker-rejected, which locks the system, exactly when the broker cancelled, rejected or failed
  an order that we were not cancelling.\<close>

lemma broker_update_effect:
  assumes "om_ok om" "find_order_by_broker_id (os_broker_id b) om = Some o'"
  shows "let om' = on_broker_order_update now b ev om in
    map_option os_status (map_of (om_orders om') (os_id o')) = Some
      (if terminal_status (os_status o') then os_status o' else updated_status (os_status o') (os_status b))
    \<and> (\<forall>j. j \<noteq> os_id o' \<longrightarrow> map_of (om_orders om') j = map_of (om_orders om) j)
    \<and> om_rejected om' =
        om_rejected om \<union> (if fail_closed_event (os_status o') (os_status b) then {os_id o'} else {})"
proof (cases "terminal_status (os_status o')")
  case True
  have "map_of (om_orders om) (os_id o') = Some o'" using found_by_broker_id [OF assms(1,2)] by simp
  moreover have "\<not> fail_closed_event (os_status o') (os_status b)" using True by (simp add: fail_closed_event_def)
  ultimately show ?thesis using update_ignored [OF assms(2) True, of now ev] True by (simp add: Let_def)
next
  case False
  from update_applied [OF assms(2) False, where now = now and ev = ev] False show ?thesis
    by (simp add: Let_def)
qed

theorem broker_update_effect_witness:
  "\<exists>ev. om_rejected (on_broker_order_update 7 (sample_reply CANCELLED) ev sample_submitted) = {21}
    \<and> om_rejected (on_broker_order_update 7 (sample_reply CANCELLED) ev
        (snd (cancel_request 6 21 True sample_submitted))) = {}"
proof -
  let ?ev = "\<lparr>oe_order_id = 21, oe_previous = None, oe_new = CANCELLED, oe_message = lit ''x'', oe_timestamp = 7\<rparr>"
  let ?a = "sample_submitted" and ?b = "snd (cancel_request 6 21 True sample_submitted)"
  have a: "om_ok ?a" by (rule orders.inv_reachable [OF refl sample_submitted_reachable])
  then have b: "om_ok ?b" using cancel_request_sound [of ?a 6 21 True] by (simp add: sound_step_def)
  obtain x where x: "find_order_by_broker_id (os_broker_id (sample_reply CANCELLED)) ?a = Some x"
    and "os_status x = SUBMITTED" "os_id x = 21"
  proof -
    have "map_option (\<lambda>x. (os_status x, os_id x)) (find_order_by_broker_id (os_broker_id (sample_reply CANCELLED)) ?a)
        = Some (SUBMITTED, 21)" by code_simp
    with that show ?thesis by auto
  qed
  moreover obtain y where y: "find_order_by_broker_id (os_broker_id (sample_reply CANCELLED)) ?b = Some y"
    and "os_status y = CANCEL_PENDING"
  proof -
    have "map_option os_status (find_order_by_broker_id (os_broker_id (sample_reply CANCELLED)) ?b)
        = Some CANCEL_PENDING" by code_simp
    with that show ?thesis by auto
  qed
  moreover have "os_status (sample_reply CANCELLED) = CANCELLED" "om_rejected ?a = {}" "om_rejected ?b = {}" by code_simp+
  ultimately have "om_rejected (on_broker_order_update 7 (sample_reply CANCELLED) ?ev ?a) = {21}"
    "om_rejected (on_broker_order_update 7 (sample_reply CANCELLED) ?ev ?b) = {}"
    using broker_update_effect [OF a x, of 7 ?ev] broker_update_effect [OF b y, of 7 ?ev]
    by (simp_all add: fail_closed_event_def Let_def)
  then show ?thesis by blast
qed

text \<open>C24: a replacement is the rest of the order it replaces. When the repricer places one, the new
  order has the unfilled quantity and the position, strategy, contract, side, reference and first
  limit of the old one, the new limit is positive, the old order links to it and is otherwise
  unchanged, and no other order changes.\<close>

theorem replacement_conserves:
  assumes "om_ok om" "map_of (om_orders om) new_id = None" "map_of (om_orders om) (rp_order r) = Some old"
    and "reprice_replace now plan_id new_id r price om = Inr (RP_Place p, r', om')"
  shows "\<exists>n. map_of (om_orders om') new_id = Some n
    \<and> os_quantity n + os_filled old = os_quantity old \<and> 0 < os_quantity n \<and> os_filled n = 0
    \<and> os_position_id n = os_position_id old \<and> os_strategy n = os_strategy old \<and> os_contract n = os_contract old
    \<and> os_side n = os_side old \<and> os_ref n = os_ref old \<and> os_is_entry n = os_is_entry old
    \<and> os_first_limit n = Some (first_limit_of old) \<and> os_limit n = price \<and> 0 < price \<and> os_status n = NEW
    \<and> map_of (om_orders om') (rp_order r) = Some (old\<lparr>os_superseded_by := Some new_id\<rparr>)
    \<and> (\<forall>i. i \<notin> {new_id, rp_order r} \<longrightarrow> map_of (om_orders om') i = map_of (om_orders om) i)
    \<and> op_quantity p = os_quantity n \<and> op_limit p = price \<and> op_order_type p = ''LMT''
    \<and> rp_attempts r' = rp_attempts r + 1"
proof -
  have id: "os_id old = rp_order r" using assms(1,3) by (auto simp: om_ok_def keyed_by_def)
  have neq: "rp_order r \<noteq> new_id" using assms(2,3) by auto
  from assms(4) obtain n where "0 < os_quantity old - os_filled old" "0 < price"
    "p = replacement_plan now plan_id price old"
    "n = plan_order now new_id p (Some (first_limit_of old)) (os_algo old) (os_batch old)"
    "om' = put_order (old\<lparr>os_superseded_by := Some new_id\<rparr>) (put_order n om)"
    "r' = r\<lparr>rp_attempts := rp_attempts r + 1\<rparr>"
    by (rule reprice_replace_placed) (use assms(3) in simp)
  then show ?thesis
    using id neq by (intro exI [of _ n]) (simp add: plan_order_def replacement_plan_def)
qed

definition sample_cancelled :: order_manager where
  "sample_cancelled = on_broker_order_update 7 (sample_reply CANCELLED)
     \<lparr>oe_order_id = 21, oe_previous = None, oe_new = CANCELLED, oe_message = lit ''x'', oe_timestamp = 7\<rparr>
     (snd (cancel_request 6 21 False sample_submitted))"

lemma sample_cancelled_reachable: "om_step\<^sup>*\<^sup>* (new_manager new_store) sample_cancelled"
  unfolding sample_cancelled_def
  by (rule rtranclp.rtrancl_into_rtrancl, rule rtranclp.rtrancl_into_rtrancl,
      rule sample_submitted_reachable, rule om_cancel, rule om_update)

theorem replacement_conserves_witness:
  "\<exists>n p om'. reprice_replace 8 40 41 (start_repricer 6 21 default_reprice) 5 sample_cancelled
      = Inr (RP_Place p, (start_repricer 6 21 default_reprice)\<lparr>rp_attempts := 1\<rparr>, om')
    \<and> map_of (om_orders om') 41 = Some n \<and> os_quantity n = 2 \<and> os_position_id n = Some 1 \<and> op_quantity p = 2"
proof -
  let ?r = "start_repricer 6 21 default_reprice"
  have ok: "om_ok sample_cancelled" by (rule orders.inv_reachable [OF refl sample_cancelled_reachable])
  have n: "map_of (om_orders sample_cancelled) 41 = None" by code_simp
  obtain old where o': "map_of (om_orders sample_cancelled) (rp_order ?r) = Some old"
    "os_quantity old = 2" "os_filled old = 0" "os_position_id old = Some 1" "os_strategy old \<noteq> []"
  proof -
    have "map_option (\<lambda>x. (os_quantity x, os_filled x, os_position_id x, os_strategy x)) (map_of (om_orders sample_cancelled) (rp_order ?r))
        = Some (2, 0, Some 1, ''s'')" by code_simp
    with that show ?thesis by auto
  qed
  have "rp_attempts ?r = 0" by code_simp
  with o' obtain p om' where s: "reprice_replace 8 40 41 ?r 5 sample_cancelled = Inr (RP_Place p, ?r\<lparr>rp_attempts := 1\<rparr>, om')"
    by (simp add: reprice_replace_def mk_plan_def replacement_plan_def Let_def)
  from replacement_conserves [OF ok n o'(1) s] o' s show ?thesis by fastforce
qed

text \<open>The duplicate gate does not cover replacements. Between the confirmation of the repricer's
  cancel and the replacement, an intent for the same position passes the gate; the replacement is
  placed all the same, and the position has two active orders.\<close>

lemma replacement_bypasses_duplicate_gate:
  assumes "om_ok om" "map_of (om_orders om) (rp_order r) = Some old" "reprice_wait now r om = RP_Submit"
    and "os_position_id old = Some pid" "os_filled old < os_quantity old" "os_strategy old \<noteq> []" "0 < price"
    and "map_of (om_orders om) new_id = None" "active_orders pid om = {other}"
  shows "\<exists>p r' om'. reprice_replace now plan_id new_id r price om = Inr (RP_Place p, r', om')
    \<and> active_orders pid om' = {other, new_id} \<and> other \<noteq> new_id"
proof -
  have id: "os_id old = rp_order r" using assms(1,2) by (auto simp: om_ok_def keyed_by_def)
  have c: "os_status old = CANCELLED" using assms(2,3) by (auto simp: reprice_wait_def split: if_splits)
  have neq: "rp_order r \<noteq> new_id" using assms(2,8) by auto
  obtain p r' om' where s: "reprice_replace now plan_id new_id r price om = Inr (RP_Place p, r', om')"
    using assms(2,5-7) by (simp add: reprice_replace_def mk_plan_def replacement_plan_def Let_def)
  then obtain n where n: "p = replacement_plan now plan_id price old"
    "n = plan_order now new_id p (Some (first_limit_of old)) (os_algo old) (os_batch old)"
    and om': "om' = put_order (old\<lparr>os_superseded_by := Some new_id\<rparr>) (put_order n om)"
    by (rule reprice_replace_placed) (use assms(2) in simp)
  have m: "map_of (om_orders om') i = (if i = rp_order r then Some (old\<lparr>os_superseded_by := Some new_id\<rparr>)
      else if i = new_id then Some n else map_of (om_orders om) i)" for i
    using om' id n by simp
  have n': "os_position_id n = Some pid" "os_status n = NEW" using n assms(4) by (simp_all add: replacement_plan_def)
  have "i \<in> active_orders pid om' \<longleftrightarrow> i = new_id \<or> i \<in> active_orders pid om" for i
    unfolding active_orders_def mem_Collect_eq m using neq n' c assms(2,8) by auto
  then have "active_orders pid om' = {other, new_id}" using assms(9) by blast
  moreover have "other \<in> active_orders pid om" using assms(9) by simp
  then have "other \<noteq> new_id" using assms(8) by (auto simp: active_orders_def)
  ultimately show ?thesis using s by blast
qed

definition sample_race :: order_manager where
  "sample_race = (case submit_prepare 8 50 51 (sample_intent (Some 1)) sample_approval False None sample_cancelled of
     Inr (p, om) \<Rightarrow> om | Inl e \<Rightarrow> sample_cancelled)"

theorem replacement_bypasses_duplicate_gate_witness:
  "om_step\<^sup>*\<^sup>* (new_manager new_store) sample_race
   \<and> (\<exists>p r' om'. reprice_replace 9 40 41 (start_repricer 6 21 default_reprice) 5 sample_race = Inr (RP_Place p, r', om')
        \<and> active_orders 1 om' = {51, 41})"
proof -
  let ?r = "start_repricer 6 21 default_reprice"
  have f: "map_of (om_orders sample_cancelled) 51 = None" by code_simp
  have "\<not> isl (submit_prepare 8 50 51 (sample_intent (Some 1)) sample_approval False None sample_cancelled)" by code_simp
  then obtain p om where s: "submit_prepare 8 50 51 (sample_intent (Some 1)) sample_approval False None sample_cancelled = Inr (p, om)"
    by (metis sum.collapse(2) prod.collapse)
  have "om_step sample_cancelled sample_race" using om_submit [OF f s] s by (simp add: sample_race_def)
  with sample_cancelled_reachable have reach: "om_step\<^sup>*\<^sup>* (new_manager new_store) sample_race"
    by (rule rtranclp.rtrancl_into_rtrancl)
  then have ok: "om_ok sample_race" by (rule orders.inv_reachable [OF refl])
  have w: "reprice_wait 9 ?r sample_race = RP_Submit" and n: "map_of (om_orders sample_race) 41 = None" by code_simp+
  have "oi_position_id (sample_intent (Some 1)) = Some 1" by code_simp
  then have a: "active_orders 1 sample_race = {51}"
    using submit_result(2) [OF orders.inv_reachable [OF refl sample_cancelled_reachable] f s] s
    by (simp add: sample_race_def)
  obtain old where o': "map_of (om_orders sample_race) (rp_order ?r) = Some old"
    "os_position_id old = Some 1" "os_filled old < os_quantity old" "os_strategy old \<noteq> []"
  proof -
    have "map_option (\<lambda>x. (os_quantity x, os_filled x, os_position_id x, os_strategy x)) (map_of (om_orders sample_race) (rp_order ?r))
        = Some (2, 0, Some 1, ''s'')" by code_simp
    with that show ?thesis by auto
  qed
  from replacement_bypasses_duplicate_gate [OF ok o'(1) w o'(2-4) _ n a, of 5 40] reach show ?thesis by auto
qed

text \<open>Cancelling during the placing of an order does not cancel it. The order has no broker id yet,
  so the cancel succeeds locally and tells the broker nothing; the broker's answer to the placing
  then overwrites the cancelled status.\<close>

lemma cancel_in_flight_is_lost:
  assumes "map_of (om_orders om) oid = None"
    and "submit_prepare now plan_id oid i d emergency algo om = Inr (p, om1)"
  shows "\<exists>om2. cancel_request t oid hard om1 = (Cancel_Done True, om2)
    \<and> map_option os_status (map_of (om_orders om2) oid) = Some CANCELLED
    \<and> map_option os_status (map_of (om_orders (submit_complete t' oid emergency config (Inr b) om2)) oid) = Some (os_status b)"
proof -
  note f = submit_prepare_Inr [OF assms(2)]
  define n where "n = set_status now RISK_CHECKED (plan_order now oid p (Some (op_limit p)) algo (oi_batch i))"
  have n: "map_of (om_orders om1) oid = Some n" "os_id n = oid" "os_broker_id n = None" "os_status n = RISK_CHECKED"
    using f by (simp_all add: n_def) (simp add: plan_order_def)
  obtain om2 n2 where c: "cancel_request t oid hard om1 = (Cancel_Done True, om2)"
    and n2: "map_of (om_orders om2) oid = Some n2" "os_status n2 = CANCELLED" "os_id n2 = oid"
    using n by (cases hard) (simp_all add: cancel_request_def Let_def)
  have "map_option os_status (map_of (om_orders (submit_complete t' oid emergency config (Inr b) om2)) oid) = Some (os_status b)"
    using n2 by (simp add: submit_complete_def Let_def split: option.split)
  with c n2 show ?thesis by auto
qed

theorem cancel_in_flight_is_lost_witness:
  "\<exists>p om1 om2. submit_prepare 5 20 21 (sample_intent (Some 1)) sample_approval False None (new_manager new_store) = Inr (p, om1)
    \<and> cancel_request 6 21 True om1 = (Cancel_Done True, om2)
    \<and> map_option os_status (map_of (om_orders (submit_complete 7 21 False None (Inr (sample_reply SUBMITTED)) om2)) 21) = Some SUBMITTED"
proof -
  have "\<not> isl (submit_prepare 5 20 21 (sample_intent (Some 1)) sample_approval False None (new_manager new_store))" by code_simp
  then obtain p om1 where s: "submit_prepare 5 20 21 (sample_intent (Some 1)) sample_approval False None (new_manager new_store) = Inr (p, om1)"
    by (metis sum.collapse(2) prod.collapse)
  have m: "map_of (om_orders (new_manager new_store)) 21 = None" by code_simp
  have "os_status (sample_reply SUBMITTED) = SUBMITTED" by code_simp
  with cancel_in_flight_is_lost [OF m s, of 6 True 7 None "sample_reply SUBMITTED"] s show ?thesis by auto
qed

text \<open>A stuck cancel is resolved by the reply about it: the order is still pending afterwards only if
  the query failed or the broker said that it is still working.\<close>

lemma sweep_resolves:
  assumes "om_ok om" "map_of (om_orders (snd (sweep_reply now oid age reply om))) oid = Some o2"
    and "os_status o2 = CANCEL_PENDING"
  shows "isl reply \<or> (\<exists>st. reply = Inr (Some st) \<and> \<not> terminal_status st)"
proof -
  obtain o1 where o1: "map_of (om_orders om) oid = Some o1"
    using assms(2) by (cases "map_of (om_orders om) oid") (auto simp: sweep_reply_def sweep_adopt_def split: sum.splits)
  then have "os_id o1 = oid" using assms(1) by (auto simp: om_ok_def keyed_by_def)
  with o1 assms(2,3) show ?thesis
    by (auto simp: sweep_reply_def sweep_adopt_def terminal_set [symmetric] split: sum.splits option.splits if_splits)
qed

text \<open>Two more observations. A reject that the broker returns from the placing itself is not recorded
  as a broker rejection; and the nickel rounding can take a chasing buy above the ask.\<close>

lemma synchronous_reject_unrecorded:
  "om_rejected (submit_complete now oid emergency config (Inr b) om) = om_rejected om"
  by (simp add: submit_complete_def Let_def split: option.split)

lemma nickel_rounding_exceeds_ask:
  "\<exists>o' bid ask. os_side o' = BUY \<and> bid \<le> ask
     \<and> ask < conform_tick (reprice_target default_reprice 1 o' bid ask)"
proof -
  let ?o = "(sample_reply SUBMITTED)\<lparr>os_side := BUY\<rparr>"
  have "os_side ?o = BUY" "303 / 100 < conform_tick (reprice_target default_reprice 1 ?o 3 (303 / 100))"
    by (simp, code_simp)
  moreover have "(3 :: rat) \<le> 303 / 100" by simp
  ultimately show ?thesis by blast
qed

end
