(* ===== verification/Broker_Interface.thy ===== *)
theory Broker_Interface
  imports Order_Manager
begin

text \<open>
  \<^verbatim>\<open>src/broker/interface.py\<close>: what the order manager relies on of a \<open>BrokerClient\<close>, as locales.
  \<open>place\<close> is \<open>place_order\<close> (given the fresh identifiers the client makes up), \<open>lookup\<close> the order
  the client keeps under a broker id, \<open>price\<close> what the client makes of a limit price. The laws of
  every client: an accepted order is stored under a new, non-empty broker id with the parameters of
  the plan and nothing filled, other orders stay. \<open>refusing_broker\<close> adds that a refused order leaves
  nothing behind, \<open>synchronous_broker\<close> is a client whose \<open>cancel\<close> takes effect at once and which
  answers status queries from its own orders. The first is interpreted on the live client in
  \<^verbatim>\<open>Ibkr_Broker\<close>, all of them on the mock client in \<^verbatim>\<open>Mock_Broker\<close>.
\<close>

locale broker_client =
  fixes place :: "instant \<Rightarrow> uuid \<Rightarrow> string \<Rightarrow> order_plan \<Rightarrow> 'b \<Rightarrow> (py_error + order_state) \<times> 'b"
    and lookup :: "'b \<Rightarrow> string \<Rightarrow> order_state option"
    and price :: "pyfloat \<Rightarrow> pyfloat"
  assumes place_accepted: "place now oid bid p b = (Inr o', b') \<Longrightarrow> bid \<noteq> [] \<Longrightarrow>
        os_broker_id o' = Some bid \<and> lookup b' bid = Some o'
        \<and> os_quantity o' = op_quantity p \<and> os_filled o' = 0 \<and> os_side o' = op_side p
        \<and> os_contract o' = op_contract p \<and> os_limit o' = price (op_limit p) \<and> \<not> terminal_status (os_status o')"
    and place_others: "place now oid bid p b = (reply, b') \<Longrightarrow> i \<noteq> bid \<Longrightarrow> lookup b' i = lookup b i"
begin

text \<open>A submission as a whole: prepare, place, take over the broker's answer.\<close>

definition submit where
  "submit now plan_id oid boid bid i d emergency config algo om b =
     (case submit_prepare now plan_id oid i d emergency algo om of
        Inl e \<Rightarrow> (Inl e, om, b)
      | Inr (p, om1) \<Rightarrow> (case place now boid bid p b of
          (reply, b') \<Rightarrow> (Inr (), submit_complete now oid emergency config reply om1, b')))"

lemma submit_in_step:
  assumes "om_ok om" "map_of (om_orders om) oid = None" "bid \<noteq> []"
    and "submit now plan_id oid boid bid i d emergency config algo om b = (Inr (), om', b')"
  shows "\<exists>o'. map_of (om_orders om') oid = Some o'
    \<and> (os_status o' = ERROR \<or>
       (\<exists>bo. os_broker_id o' = Some bid \<and> lookup b' bid = Some bo \<and> os_status bo = os_status o'
          \<and> os_quantity bo = os_quantity o' \<and> os_side bo = os_side o' \<and> os_contract bo = os_contract o'
          \<and> os_limit bo = price (os_limit o')))"
proof -
  obtain p om1 where s: "submit_prepare now plan_id oid i d emergency algo om = Inr (p, om1)"
    using assms(4) by (auto simp: submit_def split: sum.splits)
  obtain reply where pl: "place now boid bid p b = (reply, b')"
    and om': "om' = submit_complete now oid emergency config reply om1"
    using assms(4) s by (auto simp: submit_def split: prod.splits)
  note f = submit_prepare_Inr [OF s]
  define n where "n = set_status now RISK_CHECKED (plan_order now oid p (Some (op_limit p)) algo (oi_batch i))"
  have n: "map_of (om_orders om1) oid = Some n" using f by (simp add: n_def)
  have nf: "os_id n = oid" "os_quantity n = op_quantity p" "os_side n = op_side p" "os_contract n = op_contract p" "os_limit n = op_limit p"
    by (simp_all add: n_def) (simp_all add: plan_order_def)
  show ?thesis
  proof (cases reply)
    case (Inl e)
    with om' n nf show ?thesis by (simp add: submit_complete_def)
  next
    case (Inr bo)
    with pl assms(3) have a: "os_broker_id bo = Some bid" "lookup b' bid = Some bo" "os_quantity bo = op_quantity p"
      "os_side bo = op_side p" "os_contract bo = op_contract p" "os_limit bo = price (op_limit p)"
      by (auto dest: place_accepted)
    let ?n = "set_status now (os_status bo) (n\<lparr>os_broker_id := os_broker_id bo\<rparr>)"
    have "map_of (om_orders om') oid = Some ?n"
      using om' Inr n nf by (simp add: submit_complete_def Let_def split: option.split)
    with a nf show ?thesis by (simp add: set_status_def)
  qed
qed

text \<open>What was known under another broker id is not touched by a submission.\<close>

lemma submit_others:
  assumes "submit now plan_id oid boid bid i d emergency config algo om b = (r, om', b')" "j \<noteq> bid"
  shows "lookup b' j = lookup b j"
  using assms place_others by (auto simp: submit_def split: sum.splits prod.splits)

end

locale refusing_broker = broker_client place lookup price
  for place :: "instant \<Rightarrow> uuid \<Rightarrow> string \<Rightarrow> order_plan \<Rightarrow> 'b \<Rightarrow> (py_error + order_state) \<times> 'b"
    and lookup :: "'b \<Rightarrow> string \<Rightarrow> order_state option" and price :: "pyfloat \<Rightarrow> pyfloat" +
  assumes place_refused: "place now oid bid p b = (Inl e, b') \<Longrightarrow> b' = b"
begin

text \<open>An order that ends in error was not placed: the client is as it was.\<close>

lemma error_leaves_nothing:
  assumes "om_ok om" "map_of (om_orders om) oid = None" "bid \<noteq> []"
    and "submit now plan_id oid boid bid i d emergency config algo om b = (Inr (), om', b')"
    and "map_option os_status (map_of (om_orders om') oid) = Some ERROR"
  shows "b' = b"
proof -
  obtain p om1 where s: "submit_prepare now plan_id oid i d emergency algo om = Inr (p, om1)"
    using assms(4) by (auto simp: submit_def split: sum.splits)
  obtain reply where pl: "place now boid bid p b = (reply, b')"
    and om': "om' = submit_complete now oid emergency config reply om1"
    using assms(4) s by (auto simp: submit_def split: prod.splits)
  note f = submit_prepare_Inr [OF s]
  show ?thesis
  proof (cases reply)
    case (Inr bo)
    with pl assms(3) have "\<not> terminal_status (os_status bo)" by (auto dest: place_accepted)
    then have "os_status bo \<noteq> ERROR" by auto
    with assms(5) om' Inr f show ?thesis
      by (auto simp: submit_complete_def Let_def set_status_def plan_order_def split: option.splits if_splits)
  qed (use pl place_refused in auto)
qed

end

locale synchronous_broker = refusing_broker place lookup price
  for place :: "instant \<Rightarrow> uuid \<Rightarrow> string \<Rightarrow> order_plan \<Rightarrow> 'b \<Rightarrow> (py_error + order_state) \<times> 'b"
    and lookup :: "'b \<Rightarrow> string \<Rightarrow> order_state option" and price :: "pyfloat \<Rightarrow> pyfloat" +
  fixes cancel :: "instant \<Rightarrow> string \<Rightarrow> 'b \<Rightarrow> (py_error + bool) \<times> 'b"
    and status :: "string \<Rightarrow> 'b \<Rightarrow> py_error + order_status option"
  assumes cancel_effect: "cancel now bid b = (Inr True, b') \<Longrightarrow> \<exists>o'. lookup b' bid = Some o' \<and> os_status o' = CANCELLED"
    and status_lookup: "status bid b = Inr (map_option os_status (lookup b bid))"
begin

text \<open>The sweep repairs a lost confirmation: if our cancel was accepted but its callback never came,
  the order is cancelled by the sweep.\<close>

lemma sweep_after_cancel:
  assumes "om_ok om" "map_of (om_orders om) i = Some o1" "os_status o1 = CANCEL_PENDING"
    and "os_broker_id o1 = Some bid" "bid \<noteq> []" "cancel now bid b = (Inr True, b')"
    and "max_age \<le> seconds_between t (os_updated o1)"
  shows "\<exists>age. sweep_select t max_age True i om = Sweep_Ask bid age
    \<and> map_option os_status (map_of (om_orders (snd (sweep_reply t i age (status bid b') om))) i) = Some CANCELLED"
proof -
  have id: "os_id o1 = i" using assms(1,2) by (auto simp: om_ok_def keyed_by_def)
  obtain bo where "lookup b' bid = Some bo" "os_status bo = CANCELLED" using cancel_effect [OF assms(6)] by blast
  then have "status bid b' = Inr (Some CANCELLED)" by (simp add: status_lookup)
  with assms(2-5,7) id show ?thesis by (simp add: sweep_select_def sweep_reply_def sweep_adopt_def Let_def)
qed

end

end
