(* ===== verification/Mock_Broker.thy ===== *)
theory Mock_Broker
  imports Broker_Interface
begin

text \<open>
  \<^verbatim>\<open>src/broker/mock_broker.py\<close>: the simulated broker. The background task of an order,
  \<open>_simulate_order_lifecycle\<close>, is cut at its sleeps: \<open>simulate_accept\<close>, \<open>simulate_fill\<close>,
  \<open>simulate_rest\<close>; each returns what is left to run. Callbacks are called in the middle of a step
  but never change the mock; a step lists the calls it makes, in order. \<open>draw\<close> is the number
  \<open>random.random()\<close> returns, \<open>fresh\<close> the identifier of a new position, \<open>bid\<close> the new
  \<open>mock-order-...\<close> id. A negative or zero partial quantity makes the \<open>FillEvent\<close> raise after
  the order was updated; the task then ends.
\<close>

record mock_config =
  mc_auto_fill :: bool
  mc_reject_probability :: pyfloat
  mc_reject_reason :: string
  mc_partial_qty :: "int option"
  mc_stale_age :: pyfloat
  mc_positions :: "position list"
  mc_account :: "account_state option"
  mc_quotes :: "(quote_key, quote_snapshot) pydict"

record mock_broker =
  mb_config :: mock_config
  mb_connected :: bool
  mb_orders :: "(string, order_state) pydict"
  mb_positions :: "position list"
  mb_store :: event_store
  mb_tasks :: "string list"

datatype broker_call = Order_Call order_state order_event | Fill_Call fill_event | Quote_Call quote_snapshot

definition mock_connect :: "mock_broker \<Rightarrow> mock_broker" where
  "mock_connect b = b\<lparr>mb_connected := True\<rparr>"

definition mock_disconnect :: "mock_broker \<Rightarrow> mock_broker" where
  "mock_disconnect b = b\<lparr>mb_connected := False\<rparr>"

definition mock_place ::
  "instant \<Rightarrow> uuid \<Rightarrow> string \<Rightarrow> order_plan \<Rightarrow> mock_broker \<Rightarrow> (py_error + order_state) \<times> mock_broker" where
  "mock_place now oid bid p b =
     (if \<not> mb_connected b then (Inl (Connection_Error ''Cannot place order: Broker disconnected''), b)
      else let o' = \<lparr>os_id = oid, os_plan_id = op_id p, os_position_id = None, os_is_entry = True,
                 os_strategy = op_strategy p, os_contract = op_contract p, os_side = op_side p,
                 os_quantity = op_quantity p, os_filled = 0, os_limit = op_limit p, os_first_limit = None,
                 os_ref = None, os_superseded_by = None, os_status = NEW, os_broker_id = Some bid,
                 os_error = None, os_created = now, os_updated = now, os_hard_cancel = False,
                 os_algo = None, os_batch = None\<rparr>
           in (Inr o', b\<lparr>mb_orders := AList.update bid o' (mb_orders b), mb_tasks := mb_tasks b @ [bid]\<rparr>))"

definition mock_order_status :: "string \<Rightarrow> mock_broker \<Rightarrow> order_status option" where
  "mock_order_status bid b = map_option os_status (map_of (mb_orders b) bid)"

definition mock_log :: "instant \<Rightarrow> string \<Rightarrow> payload \<Rightarrow> mock_broker \<Rightarrow> mock_broker" where
  "mock_log now kind p b = b\<lparr>mb_store := log_callback kind p now (mb_store b)\<rparr>"

text \<open>A status change of a stored order, reported to the order callbacks.\<close>

definition mock_transition ::
  "instant \<Rightarrow> string \<Rightarrow> order_status \<Rightarrow> fstr \<Rightarrow> order_state \<Rightarrow> order_state \<Rightarrow> mock_broker \<Rightarrow> broker_call \<times> mock_broker" where
  "mock_transition now bid old msg o1 o2 b =
     (let ev = \<lparr>oe_order_id = os_id o2, oe_previous = Some old, oe_new = os_status o2, oe_message = msg, oe_timestamp = now\<rparr>
      in (Order_Call o2 ev, mock_log now ''order_callback'' (P_Order_Event ev) (b\<lparr>mb_orders := AList.update bid o2 (mb_orders b)\<rparr>)))"

definition mock_cancel ::
  "instant \<Rightarrow> string \<Rightarrow> mock_broker \<Rightarrow> (py_error + bool) \<times> broker_call list \<times> mock_broker" where
  "mock_cancel now bid b =
     (if \<not> mb_connected b then (Inl (Connection_Error ''Cannot cancel order: Broker disconnected''), [], b)
      else (case map_of (mb_orders b) bid of None \<Rightarrow> (Inr False, [], b) | Some o' \<Rightarrow>
        if os_status o' \<in> {FILLED, CANCELLED, REJECTED, ERROR} then (Inr False, [], b)
        else (case mock_transition now bid (os_status o') (lit ''Order cancelled by user'') o' (set_status now CANCELLED o') b of
            (c, b') \<Rightarrow> (Inr True, [c], b'))))"

definition mock_get_positions :: "mock_broker \<Rightarrow> py_error + position list" where
  "mock_get_positions b = (if \<not> mb_connected b then Inl (Connection_Error ''Cannot fetch positions: Broker disconnected'')
     else Inr (if mc_positions (mb_config b) \<noteq> [] then mc_positions (mb_config b) else mb_positions b))"

definition mock_get_open_orders :: "mock_broker \<Rightarrow> py_error + order_state list" where
  "mock_get_open_orders b = (if \<not> mb_connected b then Inl (Connection_Error ''Cannot fetch open orders: Broker disconnected'')
     else Inr (filter (\<lambda>o'. os_status o' \<in> {NEW, RISK_CHECKED, SUBMITTED, PARTIALLY_FILLED, CANCEL_PENDING}) (dict_values (mb_orders b))))"

definition mock_get_account :: "mock_broker \<Rightarrow> py_error + account_state" where
  "mock_get_account b = (if \<not> mb_connected b then Inl (Connection_Error ''Cannot fetch account state: Broker disconnected'')
     else Inr (case mc_account (mb_config b) of Some a \<Rightarrow> a
       | None \<Rightarrow> \<lparr>ac_id = ''MOCK_ACC_123'', ac_net_liquidation = 100000, ac_available_funds = 80000,
                  ac_buying_power = 400000, ac_daily_pnl = 0\<rparr>))"

fun shift_back :: "int \<Rightarrow> datetime \<Rightarrow> datetime" where
  "shift_back us (Aware t off) = Aware (t - us) off"
| "shift_back us (Naive w) = Naive (w - us)"

definition mock_quote :: "instant \<Rightarrow> quote_key \<Rightarrow> mock_broker \<Rightarrow> quote_snapshot" where
  "mock_quote now key b =
     (let base = (case map_of (mc_quotes (mb_config b)) key of Some q \<Rightarrow> q
            | None \<Rightarrow> \<lparr>q_symbol = key, q_bid = Some 100, q_ask = Some 101, q_last = Some (201/2),
                       q_volume = Some 1000, q_delta = None, q_close = None, q_timestamp = utc now\<rparr>);
          age = mc_stale_age (mb_config b)
      in if 0 < age then base\<lparr>q_delta := None, q_timestamp := shift_back (round_half_even (age * 1000000)) (q_timestamp base)\<rparr>
         else base)"

definition mock_get_quotes ::
  "instant \<Rightarrow> quote_key list \<Rightarrow> mock_broker \<Rightarrow> py_error + ((quote_key, quote_snapshot) pydict \<times> broker_call list)" where
  "mock_get_quotes now keys b =
     (if \<not> mb_connected b then Inl (Connection_Error ''Cannot fetch quotes: Broker disconnected'')
      else Inr (fold (\<lambda>k d. AList.update k (mock_quote now k b) d) keys [],
                map (\<lambda>k. Quote_Call (mock_quote now k b)) keys))"

section \<open>Simulated positions\<close>

definition same_holding :: "order_state \<Rightarrow> position \<Rightarrow> bool" where
  "same_holding o' p \<longleftrightarrow> ps_strategy p = os_strategy o'
     \<and> oc_symbol (ps_contract p) = oc_symbol (os_contract o')
     \<and> oc_strike (ps_contract p) = oc_strike (os_contract o')
     \<and> oc_right (ps_contract p) = oc_right (os_contract o')
     \<and> oc_expiry (ps_contract p) = oc_expiry (os_contract o')"

definition new_holding :: "instant \<Rightarrow> uuid \<Rightarrow> order_state \<Rightarrow> int \<Rightarrow> position" where
  "new_holding now fresh o' delta =
     \<lparr>ps_id = fresh, ps_strategy = os_strategy o', ps_contract = os_contract o',
      ps_side = (if 0 < delta then BUY else SELL), ps_quantity = \<bar>delta\<bar>, ps_filled = 0,
      ps_avg_entry = os_limit o', ps_current = None, ps_unrealized = None, ps_realized = 0, ps_status = OPEN,
      ps_entry_order = os_id o', ps_exit_orders = [], ps_entry_time = None, ps_exit_time = None,
      ps_stop = None, ps_target = None, ps_time_exit = None, ps_use_mid = False, ps_created = now,
      ps_updated = now, ps_commission_paid = 0\<rparr>"

definition adjust_holding :: "instant \<Rightarrow> int \<Rightarrow> position \<Rightarrow> position option" where
  "adjust_holding now delta p =
     (let net = ps_quantity p * (if ps_side p = BUY then 1 else -1) + delta
      in if net = 0 then None
         else Some (p\<lparr>ps_quantity := \<bar>net\<bar>, ps_side := (if 0 < net then BUY else SELL),
                      ps_status := OPEN, ps_updated := now\<rparr>))"

text \<open>The first matching position is updated in place or removed; without one, one is appended.\<close>

fun update_holdings :: "instant \<Rightarrow> uuid \<Rightarrow> order_state \<Rightarrow> int \<Rightarrow> position list \<Rightarrow> position list" where
  "update_holdings now fresh o' delta [] = (if delta \<noteq> 0 then [new_holding now fresh o' delta] else [])"
| "update_holdings now fresh o' delta (p # ps) =
     (if same_holding o' p then (case adjust_holding now delta p of None \<Rightarrow> ps | Some q \<Rightarrow> q # ps)
      else p # update_holdings now fresh o' delta ps)"

definition update_dynamic_positions :: "instant \<Rightarrow> uuid \<Rightarrow> order_state \<Rightarrow> int \<Rightarrow> mock_broker \<Rightarrow> mock_broker" where
  "update_dynamic_positions now fresh o' qty b =
     b\<lparr>mb_positions := update_holdings now fresh o' (qty * (if os_side o' = BUY then 1 else -1)) (mb_positions b)\<rparr>"

section \<open>The life of an order at the mock\<close>

datatype simulation = Sim_Done | Sim_Fill | Sim_Rest int

definition mock_fill_event :: "instant \<Rightarrow> order_state \<Rightarrow> int \<Rightarrow> fill_event" where
  "mock_fill_event now o' qty = \<lparr>fe_order_id = os_id o', fe_strategy = os_strategy o', fe_contract = os_contract o',
     fe_side = os_side o', fe_quantity = qty, fe_price = os_limit o', fe_commission = Some 1, fe_timestamp = now,
     fe_broker_id = None\<rparr>"

definition mock_fill ::
  "instant \<Rightarrow> uuid \<Rightarrow> order_state \<Rightarrow> int \<Rightarrow> mock_broker \<Rightarrow> broker_call list \<times> mock_broker" where
  "mock_fill now fresh o' qty b =
     (if qty \<le> 0 then ([], b)
      else let f = mock_fill_event now o' qty
           in ([Fill_Call f], update_dynamic_positions now fresh o' qty (mock_log now ''fill_callback'' (P_Fill f) b)))"

definition simulate_accept ::
  "instant \<Rightarrow> pyfloat \<Rightarrow> string \<Rightarrow> mock_broker \<Rightarrow> simulation \<times> broker_call list \<times> mock_broker" where
  "simulate_accept now draw bid b =
     (case map_of (mb_orders b) bid of None \<Rightarrow> (Sim_Done, [], b) | Some o' \<Rightarrow>
        if os_status o' = CANCELLED then (Sim_Done, [], b)
        else if draw < mc_reject_probability (mb_config b) then
          (case mock_transition now bid (os_status o') (lit (mc_reject_reason (mb_config b))) o'
              (set_status now REJECTED (o'\<lparr>os_error := Some (mc_reject_reason (mb_config b))\<rparr>)) b of
            (c, b') \<Rightarrow> (Sim_Done, [c], b'))
        else (case mock_transition now bid (os_status o') (lit ''Order accepted by mock broker exchange'') o'
              (set_status now SUBMITTED o') b of
            (c, b') \<Rightarrow> (if mc_auto_fill (mb_config b) then Sim_Fill else Sim_Done, [c], b')))"

definition simulate_fill ::
  "instant \<Rightarrow> uuid \<Rightarrow> string \<Rightarrow> mock_broker \<Rightarrow> simulation \<times> broker_call list \<times> mock_broker" where
  "simulate_fill now fresh bid b =
     (case map_of (mb_orders b) bid of None \<Rightarrow> (Sim_Done, [], b) | Some o' \<Rightarrow>
        if os_status o' = CANCELLED then (Sim_Done, [], b)
        else (case (case mc_partial_qty (mb_config b) of Some q \<Rightarrow> if q < os_quantity o' then Some q else None | None \<Rightarrow> None) of
          Some q \<Rightarrow>
            (let o1 = set_status now PARTIALLY_FILLED (o'\<lparr>os_filled := q\<rparr>);
                 (c, b1) = mock_transition now bid (os_status o') (Fstr ''Partial fill executed: {} shares'' [FInt q]) o' o1 b;
                 (cs, b2) = mock_fill now fresh o1 q b1
             in (if q \<le> 0 then Sim_Done else Sim_Rest q, c # cs, b2))
        | None \<Rightarrow>
            (let o1 = set_status now FILLED (o'\<lparr>os_filled := os_quantity o'\<rparr>);
                 (c, b1) = mock_transition now bid (os_status o') (lit ''Order filled completely'') o' o1 b;
                 (cs, b2) = mock_fill now fresh o1 (os_quantity o') b1
             in (Sim_Done, c # cs, b2))))"

definition simulate_rest ::
  "instant \<Rightarrow> uuid \<Rightarrow> int \<Rightarrow> string \<Rightarrow> mock_broker \<Rightarrow> simulation \<times> broker_call list \<times> mock_broker" where
  "simulate_rest now fresh q bid b =
     (case map_of (mb_orders b) bid of None \<Rightarrow> (Sim_Done, [], b) | Some o' \<Rightarrow>
        if os_status o' = CANCELLED then (Sim_Done, [], b)
        else
          (let rest = os_quantity o' - q;
               o1 = set_status now FILLED (o'\<lparr>os_filled := os_quantity o'\<rparr>);
               (c, b1) = mock_transition now bid (os_status o')
                  (Fstr ''Order fully filled. Final partial fill: {} shares'' [FInt rest]) o' o1 b;
               (cs, b2) = mock_fill now fresh o1 rest b1
           in (Sim_Done, c # cs, b2)))"

section \<open>The mock as a broker client\<close>

definition mock_cancel_reply :: "instant \<Rightarrow> string \<Rightarrow> mock_broker \<Rightarrow> (py_error + bool) \<times> mock_broker" where
  "mock_cancel_reply now bid b = (case mock_cancel now bid b of (r, cs, b') \<Rightarrow> (r, b'))"

interpretation mock: refusing_broker mock_place "\<lambda>b. map_of (mb_orders b)" "\<lambda>x. x"
  by unfold_locales (auto simp: mock_place_def Let_def split: if_splits)

interpretation mock: synchronous_broker mock_place "\<lambda>b. map_of (mb_orders b)" "\<lambda>x. x" mock_cancel_reply
    "\<lambda>bid b. Inr (mock_order_status bid b)"
  by unfold_locales
    (auto simp: mock_cancel_reply_def mock_cancel_def mock_transition_def mock_log_def mock_order_status_def
      Let_def split: if_splits option.splits)

section \<open>Holdings\<close>

text \<open>Holdings are well formed when each has a positive quantity and no two are the same holding.\<close>

definition holding_key where
  "holding_key strategy c = (strategy, oc_symbol c, oc_strike c, oc_right c, oc_expiry c)"

definition pos_key where
  "pos_key p = holding_key (ps_strategy p) (ps_contract p)"

definition holdings_ok :: "position list \<Rightarrow> bool" where
  "holdings_ok ps \<longleftrightarrow> distinct (map pos_key ps) \<and> (\<forall>p \<in> set ps. 0 < ps_quantity p)"

definition holding_net where
  "holding_net k ps = (\<Sum>p \<leftarrow> filter (\<lambda>p. pos_key p = k) ps. side_sign (ps_side p) * ps_quantity p)"

lemma same_holding_iff: "same_holding o' p \<longleftrightarrow> pos_key p = holding_key (os_strategy o') (os_contract o')"
  by (auto simp: same_holding_def pos_key_def holding_key_def)

lemma new_holding_simps: "pos_key (new_holding now fresh o' d) = holding_key (os_strategy o') (os_contract o')"
  "d \<noteq> 0 \<Longrightarrow> side_sign (ps_side (new_holding now fresh o' d)) * ps_quantity (new_holding now fresh o' d) = d"
  "d \<noteq> 0 \<Longrightarrow> 0 < ps_quantity (new_holding now fresh o' d)"
  by (auto simp: pos_key_def new_holding_def)

lemma adjust_holding_simps:
  "adjust_holding now d p = None \<longleftrightarrow> side_sign (ps_side p) * ps_quantity p + d = 0"
  "adjust_holding now d p = Some q \<Longrightarrow> pos_key q = pos_key p
     \<and> side_sign (ps_side q) * ps_quantity q = side_sign (ps_side p) * ps_quantity p + d \<and> 0 < ps_quantity q"
  by (cases "ps_side p"; auto simp: adjust_holding_def pos_key_def Let_def split: if_splits)+

lemma update_holdings_keys:
  "set (map pos_key (update_holdings now fresh o' d ps)) \<subseteq> insert (holding_key (os_strategy o') (os_contract o')) (set (map pos_key ps))"
proof (induction ps)
  case (Cons p ps)
  then show ?case
    using adjust_holding_simps(2) [of now d p] by (auto simp: same_holding_iff split: option.splits)
qed (auto simp: new_holding_simps)

lemma update_holdings_correct:
  assumes "holdings_ok ps"
  shows "holdings_ok (update_holdings now fresh o' d ps)
    \<and> holding_net k (update_holdings now fresh o' d ps)
      = holding_net k ps + (if k = holding_key (os_strategy o') (os_contract o') then d else 0)"
  using assms
proof (induction ps)
  case Nil
  then show ?case by (auto simp: holdings_ok_def holding_net_def new_holding_simps)
next
  case (Cons p ps)
  then have ok: "holdings_ok ps" "pos_key p \<notin> pos_key ` set ps" "0 < ps_quantity p"
    by (auto simp: holdings_ok_def)
  show ?case
  proof (cases "same_holding o' p")
    case True
    then have pk: "pos_key p = holding_key (os_strategy o') (os_contract o')" by (simp add: same_holding_iff)
    show ?thesis
    proof (cases "adjust_holding now d p")
      case None
      then show ?thesis using True ok pk adjust_holding_simps(1) [of now d p] by (auto simp: holding_net_def)
    next
      case (Some q)
      then show ?thesis
        using True ok pk adjust_holding_simps(2) [of now d p q] by (auto simp: holding_net_def holdings_ok_def)
    qed
  next
    case False
    then have "pos_key p \<noteq> holding_key (os_strategy o') (os_contract o')" by (simp add: same_holding_iff)
    then have "pos_key p \<notin> set (map pos_key (update_holdings now fresh o' d ps))"
      using update_holdings_keys [of now fresh o' d ps] ok(2) by auto
    with False Cons.IH [OF ok(1)] ok show ?thesis by (auto simp: holdings_ok_def holding_net_def)
  qed
qed

section \<open>Runs\<close>

inductive mock_step :: "mock_broker \<Rightarrow> broker_call list \<Rightarrow> mock_broker \<Rightarrow> bool" where
  mock_step_connect: "mock_step b [] (mock_connect b)"
| mock_step_disconnect: "mock_step b [] (mock_disconnect b)"
| mock_step_place: "mock_place now oid bid p b = (r, b') \<Longrightarrow> mock_step b [] b'"
| mock_step_cancel: "mock_cancel now bid b = (r, cs, b') \<Longrightarrow> mock_step b cs b'"
| mock_step_accept: "simulate_accept now draw bid b = (nxt, cs, b') \<Longrightarrow> mock_step b cs b'"
| mock_step_fill: "simulate_fill now fresh bid b = (nxt, cs, b') \<Longrightarrow> mock_step b cs b'"
| mock_step_rest: "simulate_rest now fresh q bid b = (nxt, cs, b') \<Longrightarrow> mock_step b cs b'"

inductive mock_run :: "mock_broker \<Rightarrow> broker_call list \<Rightarrow> mock_broker \<Rightarrow> bool" where
  mock_run_start: "mock_run b [] b"
| mock_run_step: "mock_run b cs b' \<Longrightarrow> mock_step b' ds b'' \<Longrightarrow> mock_run b (cs @ ds) b''"

text \<open>The signed quantity of the reported fills of one holding.\<close>

fun call_net where
  "call_net k (Fill_Call f) = (if holding_key (fe_strategy f) (fe_contract f) = k
     then side_sign (fe_side f) * fe_quantity f else 0)"
| "call_net k (Order_Call o' ev) = 0"
| "call_net k (Quote_Call q) = 0"

definition fills_net where
  "fills_net k cs = sum_list (map (call_net k) cs)"

lemma fills_net_simps [simp]:
  "fills_net k [] = 0" "fills_net k (c # cs) = call_net k c + fills_net k cs"
  "fills_net k (cs @ ds) = fills_net k cs + fills_net k ds"
  by (simp_all add: fills_net_def)

definition tracks_fills :: "mock_broker \<Rightarrow> broker_call list \<Rightarrow> mock_broker \<Rightarrow> bool" where
  "tracks_fills b cs b' \<longleftrightarrow> (holdings_ok (mb_positions b) \<longrightarrow> holdings_ok (mb_positions b')
     \<and> (\<forall>k. holding_net k (mb_positions b') = holding_net k (mb_positions b) + fills_net k cs))"

lemma mock_transition_simps:
  "mock_transition now bid old msg o1 o2 b = (c, b') \<Longrightarrow> mb_positions b' = mb_positions b \<and> call_net k c = 0"
  by (auto simp: mock_transition_def mock_log_def Let_def)

lemma mock_fill_tracks: "mock_fill now fresh o' q b = (cs, b') \<Longrightarrow> tracks_fills b cs b'"
proof -
  assume a: "mock_fill now fresh o' q b = (cs, b')"
  have "side_sign (os_side o') * q = q * (if os_side o' = BUY then 1 else -1)" by (cases "os_side o'") simp_all
  then show ?thesis
    using a update_holdings_correct [of "mb_positions b" now fresh o' "q * (if os_side o' = BUY then 1 else -1)"]
    by (auto simp: mock_fill_def tracks_fills_def mock_fill_event_def update_dynamic_positions_def mock_log_def
        Let_def split: if_splits)
qed

lemma tracks_after_transition:
  assumes "mock_transition now bid old msg o1 o2 b = (c, b1)" "tracks_fills b1 cs b2"
  shows "tracks_fills b (c # cs) b2"
  using mock_transition_simps [OF assms(1)] assms(2) by (auto simp: tracks_fills_def)

lemma tracks_same: "mb_positions b' = mb_positions b \<Longrightarrow> \<forall>k. fills_net k cs = 0 \<Longrightarrow> tracks_fills b cs b'"
  by (simp add: tracks_fills_def)

lemma simulate_fill_tracks: "simulate_fill now fresh bid b = (nxt, cs, b') \<Longrightarrow> tracks_fills b cs b'"
  by (auto simp: simulate_fill_def Let_def tracks_same split: option.splits if_splits prod.splits
      intro: tracks_after_transition mock_fill_tracks)

lemma simulate_rest_tracks: "simulate_rest now fresh q bid b = (nxt, cs, b') \<Longrightarrow> tracks_fills b cs b'"
  by (auto simp: simulate_rest_def Let_def tracks_same split: option.splits if_splits prod.splits
      intro: tracks_after_transition mock_fill_tracks)

lemma mock_step_tracks: "mock_step b cs b' \<Longrightarrow> tracks_fills b cs b'"
proof (induction rule: mock_step.induct)
  case (mock_step_cancel now bid b r cs b')
  then show ?case
    by (auto simp: mock_cancel_def tracks_same split: option.splits if_splits prod.splits
        intro: tracks_after_transition [OF _ tracks_same])
next
  case (mock_step_accept now draw bid b nxt cs b')
  then show ?case
    by (auto simp: simulate_accept_def tracks_same split: option.splits if_splits prod.splits
        intro: tracks_after_transition [OF _ tracks_same])
next
  case (mock_step_place now oid bid p b r b')
  then show ?case by (auto simp: mock_place_def Let_def tracks_same split: if_splits)
qed (auto simp: mock_connect_def mock_disconnect_def tracks_same intro: simulate_fill_tracks simulate_rest_tracks)

lemma mock_run_tracks: "mock_run b cs b' \<Longrightarrow> tracks_fills b cs b'"
proof (induction rule: mock_run.induct)
  case (mock_run_step b cs b' ds b'')
  then show ?case using mock_step_tracks [of b' ds b''] by (auto simp: tracks_fills_def)
qed (simp add: tracks_same)

section \<open>Properties\<close>

text \<open>The positions the mock reports are exactly the fills it reported. Along any run from empty
  holdings, for every strategy and contract, the net of the positions is the signed sum of the fill
  callbacks, no two positions are the same holding, and each has a positive quantity.\<close>

lemma mock_positions_are_fills:
  assumes "mock_run b cs b'" "mb_positions b = []"
  shows "holding_net k (mb_positions b') = fills_net k cs \<and> distinct (map pos_key (mb_positions b'))
    \<and> (\<forall>p \<in> set (mb_positions b'). 0 < ps_quantity p)"
proof -
  have "holdings_ok (mb_positions b)" using assms(2) by (simp add: holdings_ok_def)
  then have "holdings_ok (mb_positions b')"
    "holding_net k (mb_positions b') = holding_net k (mb_positions b) + fills_net k cs"
    using mock_run_tracks [OF assms(1)] unfolding tracks_fills_def by blast+
  then show ?thesis using assms(2) by (simp add: holdings_ok_def) (simp add: holding_net_def)
qed

lemma step_snd:
  "mock_step b [] (snd (mock_place now oid bid p b))"
  "mock_step b (fst (snd (simulate_accept now draw bid b))) (snd (snd (simulate_accept now draw bid b)))"
  "mock_step b (fst (snd (simulate_fill now fresh bid b))) (snd (snd (simulate_fill now fresh bid b)))"
  "mock_step b (fst (snd (simulate_rest now fresh q bid b))) (snd (snd (simulate_rest now fresh q bid b)))"
  by (metis mock_step_place prod.collapse) (metis mock_step_accept mock_step_fill mock_step_rest prod.collapse)+

definition sample_mock :: mock_broker where
  "sample_mock = \<lparr>mb_config = \<lparr>mc_auto_fill = True, mc_reject_probability = 0, mc_reject_reason = ''x'',
       mc_partial_qty = Some 1, mc_stale_age = 0, mc_positions = [], mc_account = None, mc_quotes = []\<rparr>,
     mb_connected = True, mb_orders = [], mb_positions = [], mb_store = new_store, mb_tasks = []\<rparr>"

definition sample_plan :: order_plan where
  "sample_plan = intent_plan 5 20 (sample_intent None) sample_approval False None"

theorem mock_positions_are_fills_witness:
  "\<exists>b' cs. mock_run sample_mock cs b'
     \<and> map (\<lambda>p. (ps_side p, ps_quantity p)) (mb_positions b') = [(SELL, 2)]
     \<and> holding_net (holding_key ''s'' (op_contract sample_plan)) (mb_positions b')
        = fills_net (holding_key ''s'' (op_contract sample_plan)) cs"
proof -
  define b1 where "b1 = snd (mock_place 5 1 ''m1'' sample_plan sample_mock)"
  define r2 where "r2 = simulate_accept 6 (1/2) ''m1'' b1"
  define r3 where "r3 = simulate_fill 7 2 ''m1'' (snd (snd r2))"
  define r4 where "r4 = simulate_rest 8 3 1 ''m1'' (snd (snd r3))"
  have "mock_step sample_mock [] b1" "mock_step b1 (fst (snd r2)) (snd (snd r2))"
    "mock_step (snd (snd r2)) (fst (snd r3)) (snd (snd r3))" "mock_step (snd (snd r3)) (fst (snd r4)) (snd (snd r4))"
    unfolding r4_def r3_def r2_def b1_def by (rule step_snd)+
  then have run: "mock_run sample_mock ((([] @ []) @ fst (snd r2)) @ fst (snd r3) @ fst (snd r4)) (snd (snd r4))"
    using mock_run_step [OF mock_run_step [OF mock_run_step [OF mock_run_step [OF mock_run_start]]]]
    by (simp only: append.assoc)
  have e: "mb_positions sample_mock = []" by code_simp
  have m: "map (\<lambda>p. (ps_side p, ps_quantity p)) (mb_positions (snd (snd r4))) = [(SELL, 2)]"
    unfolding r4_def r3_def r2_def b1_def by code_simp
  note n = mock_positions_are_fills [OF run e, THEN conjunct1]
  show ?thesis by (intro exI conjI) (rule run, rule m, rule n)
qed

end
