(* ===== verification/Data_Quality.thy ===== *)
theory Data_Quality
  imports Core_Model
begin

text \<open>
  \<^verbatim>\<open>src/marketdata/data_quality.py\<close>: the freshness and the price validation of quotes that
  the risk engine, the contract selector and the exit manager share.
\<close>

definition quote_age :: "int \<Rightarrow> datetime \<Rightarrow> datetime \<Rightarrow> py_error + pyfloat" where
  "quote_age local ts now =
     (if is_naive ts then total_seconds_between (to_naive now) ts
      else total_seconds_between (if is_naive now then to_aware local now else now) ts)"

definition validate_quote_freshness ::
  "int \<Rightarrow> quote_snapshot option \<Rightarrow> datetime \<Rightarrow> pyfloat \<Rightarrow> py_error + (bool \<times> fstr option)" where
  "validate_quote_freshness local quote now max_age =
     (case quote of
        None \<Rightarrow> Inr (False, Some (lit ''quote_missing''))
      | Some q \<Rightarrow> try_bind (quote_age local (q_timestamp q) now) (\<lambda>age.
          if max_age < age
          then Inr (False, Some (Fstr ''quote_stale:age={:.1f}s,max={}s'' [FFloat age, FFloat max_age]))
          else Inr (True, None)))"

definition validate_quote_prices :: "quote_snapshot option \<Rightarrow> pyfloat \<Rightarrow> bool \<times> fstr option" where
  "validate_quote_prices quote max_spread =
     (case quote of
        None \<Rightarrow> (False, Some (lit ''quote_missing''))
      | Some q \<Rightarrow>
          (case (q_bid q, q_ask q) of
             (Some bid, Some ask) \<Rightarrow>
               if ask \<le> 0 then (False, Some (lit ''quote_invalid:ask_is_zero_or_negative''))
               else let mid = (bid + ask) / 2
                 in if mid \<le> 0 then (False, Some (lit ''quote_invalid:mid_is_zero_or_negative''))
                 else let spread_pct = (ask - bid) / mid * 100
                   in if max_spread < spread_pct
                      then (False, Some (Fstr ''spread_too_wide:spread={:.1f}%,max={}%''
                                          [FFloat spread_pct, FFloat max_spread]))
                      else (True, None)
           | _ \<Rightarrow> (False, Some (lit ''quote_incomplete:missing_bid_or_ask''))))"

section \<open>What the two checks accept\<close>

text \<open>The age is defined for every mixture of aware and naive datetimes.\<close>

definition quote_age_seconds :: "int \<Rightarrow> datetime \<Rightarrow> datetime \<Rightarrow> pyfloat" where
  "quote_age_seconds local ts now =
     (case ts of
        Naive w \<Rightarrow> of_int (wall_clock now - w) / 1000000
      | Aware t _ \<Rightarrow> (case now of Aware u _ \<Rightarrow> of_int (u - t) / 1000000
                       | Naive w \<Rightarrow> of_int (w - local - t) / 1000000))"

lemma quote_age_total: "quote_age local ts now = Inr (quote_age_seconds local ts now)"
  by (cases ts; cases now) (simp_all add: quote_age_def quote_age_seconds_def to_naive_def)

lemma validate_quote_freshness_eq:
  "validate_quote_freshness local quote now max_age =
     (case quote of None \<Rightarrow> Inr (False, Some (lit ''quote_missing''))
      | Some q \<Rightarrow> let age = quote_age_seconds local (q_timestamp q) now
          in if max_age < age
             then Inr (False, Some (Fstr ''quote_stale:age={:.1f}s,max={}s'' [FFloat age, FFloat max_age]))
             else Inr (True, None))"
  by (simp add: validate_quote_freshness_def quote_age_total Let_def split: option.split)

definition fresh_quote :: "int \<Rightarrow> quote_snapshot option \<Rightarrow> datetime \<Rightarrow> pyfloat \<Rightarrow> bool" where
  "fresh_quote local quote now max_age \<longleftrightarrow>
     (case quote of None \<Rightarrow> False | Some q \<Rightarrow> quote_age_seconds local (q_timestamp q) now \<le> max_age)"

lemma validate_quote_freshness_cases:
  obtains (fresh) "validate_quote_freshness local quote now max_age = Inr (True, None)"
      "fresh_quote local quote now max_age"
    | (stale) r where "validate_quote_freshness local quote now max_age = Inr (False, Some r)"
      "\<not> fresh_quote local quote now max_age"
proof (cases "fresh_quote local quote now max_age")
  case True
  then have "validate_quote_freshness local quote now max_age = Inr (True, None)"
    by (auto simp: validate_quote_freshness_eq fresh_quote_def Let_def not_le split: option.splits)
  with True fresh show ?thesis by blast
next
  case False
  then have "\<exists>r. validate_quote_freshness local quote now max_age = Inr (False, Some r)"
    by (auto simp: validate_quote_freshness_eq fresh_quote_def Let_def not_le split: option.splits)
  with False stale show ?thesis by blast
qed

definition tradeable_prices :: "quote_snapshot option \<Rightarrow> pyfloat \<Rightarrow> bool" where
  "tradeable_prices quote max_spread \<longleftrightarrow>
     (\<exists>q bid ask. quote = Some q \<and> q_bid q = Some bid \<and> q_ask q = Some ask
        \<and> 0 < ask \<and> 0 < bid + ask \<and> 200 * (ask - bid) \<le> max_spread * (bid + ask))"

lemma validate_quote_prices_cases:
  obtains (good) "validate_quote_prices quote max_spread = (True, None)"
      "tradeable_prices quote max_spread"
    | (bad) r where "validate_quote_prices quote max_spread = (False, Some r)"
      "\<not> tradeable_prices quote max_spread"
proof (cases "validate_quote_prices quote max_spread = (True, None)")
  case True
  moreover from True have "tradeable_prices quote max_spread"
    by (auto simp: validate_quote_prices_def tradeable_prices_def Let_def field_simps
        split: option.splits if_splits)
  ultimately show ?thesis using good by blast
next
  case False
  then have "\<exists>r. validate_quote_prices quote max_spread = (False, Some r)"
    by (auto simp: validate_quote_prices_def Let_def split: option.splits if_splits)
  moreover from False have "\<not> tradeable_prices quote max_spread"
    by (auto simp: validate_quote_prices_def tradeable_prices_def Let_def field_simps)
  ultimately show ?thesis using bad by blast
qed

lemma validate_quote_prices_iff:
  "fst (validate_quote_prices quote max_spread) \<longleftrightarrow> tradeable_prices quote max_spread"
  by (rule validate_quote_prices_cases [of quote max_spread]) auto

text \<open>The price check accepts a quote exactly when it has both sides, a positive ask and a
  positive midpoint, and the spread is at most the given percentage of the midpoint; and with a
  limit below 200 percent an accepted quote has a positive bid.\<close>

lemma validate_quote_prices_sound:
  assumes "fst (validate_quote_prices quote max_spread)" and "max_spread < 200"
  shows "\<exists>q bid ask. quote = Some q \<and> q_bid q = Some bid \<and> q_ask q = Some ask
    \<and> 0 < bid \<and> 0 < ask \<and> (ask - bid) / ((bid + ask) / 2) * 100 \<le> max_spread"
proof -
  from assms(1) obtain q bid ask where q: "quote = Some q" "q_bid q = Some bid" "q_ask q = Some ask"
    and pos: "0 < ask" "0 < bid + ask" and spread: "200 * (ask - bid) \<le> max_spread * (bid + ask)"
    unfolding validate_quote_prices_iff tradeable_prices_def by blast
  have "max_spread * (bid + ask) < 200 * (bid + ask)"
    using assms(2) pos(2) by (rule mult_strict_right_mono)
  with spread have "200 * (ask - bid) < 200 * (bid + ask)" by (rule le_less_trans)
  then have "0 < bid" by simp
  moreover have "(ask - bid) / ((bid + ask) / 2) * 100 \<le> max_spread"
    using pos(2) spread by (simp add: field_simps)
  ultimately show ?thesis using q pos(1) by blast
qed

definition sample_quote :: quote_snapshot where
  "sample_quote = \<lparr>q_symbol = Symbol_Key ''XSP'', q_bid = Some 2.4, q_ask = Some 2.5,
     q_last = Some 2.45, q_volume = Some 10, q_delta = Some 0.3, q_close = None,
     q_timestamp = Aware 1000000000 0\<rparr>"

theorem validate_quote_prices_sound_witness:
  "\<exists>bid. q_bid sample_quote = Some bid \<and> 0 < bid"
proof -
  have "fst (validate_quote_prices (Some sample_quote) 10)" by code_simp
  from validate_quote_prices_sound [OF this] show ?thesis by auto
qed

end
