(* ===== verification/Calendar.thy ===== *)
theory Calendar
  imports Config
begin

text \<open>
  Dates as the contract selector and the strategies use them. A date is its proleptic Gregorian
  ordinal, as \<open>date.toordinal\<close> counts it; \<open>parse_expiry\<close> is \<open>strptime(s, "%Y%m%d")\<close> on the eight digits
  that a contract's expiry is validated to be, \<open>expiry_text\<close> is \<open>strftime("%Y%m%d")\<close> of a date between
  the years 1000 and 9999, given as the number of days since 1970-01-01 (ordinal 719163).
\<close>

definition leap_year :: "int \<Rightarrow> bool" where
  "leap_year y \<longleftrightarrow> y mod 4 = 0 \<and> (y mod 100 \<noteq> 0 \<or> y mod 400 = 0)"

definition days_in_month :: "int \<Rightarrow> int \<Rightarrow> int" where
  "days_in_month y m = (if m = 2 then (if leap_year y then 29 else 28)
     else if m \<in> {4, 6, 9, 11} then 30 else 31)"

definition days_before_year :: "int \<Rightarrow> int" where
  "days_before_year y = (let k = y - 1 in k * 365 + k div 4 - k div 100 + k div 400)"

definition days_before_month :: "int \<Rightarrow> int \<Rightarrow> int" where
  "days_before_month y m = (\<Sum>k \<leftarrow> [1..m - 1]. days_in_month y k)"

definition ymd_ordinal :: "int \<Rightarrow> int \<Rightarrow> int \<Rightarrow> int" where
  "ymd_ordinal y m d = days_before_year y + days_before_month y m + d"

definition digits_value :: "string \<Rightarrow> int" where
  "digits_value s = foldl (\<lambda>n c. 10 * n + digit_value c) 0 s"

definition parse_expiry :: "string \<Rightarrow> int option" where
  "parse_expiry s =
     (if length s \<noteq> 8 \<or> \<not> list_all is_digit_char s then None
      else let y = digits_value (take 4 s); m = digits_value (take 2 (drop 4 s)); d = digits_value (drop 6 s)
      in if 1 \<le> y \<and> 1 \<le> m \<and> m \<le> 12 \<and> 1 \<le> d \<and> d \<le> days_in_month y m then Some (ymd_ordinal y m d) else None)"

text \<open>The ordinal of the date on a datetime's own clock; 1970-01-01 is 719163.\<close>

definition date_ordinal :: "datetime \<Rightarrow> int" where
  "date_ordinal d = wall_clock d div us_per_day + 719163"

section \<open>Writing integers\<close>

text \<open>\<open>str(n)\<close> of an integer.\<close>

fun nat_text :: "nat \<Rightarrow> string" where
  "nat_text n = (if n < 10 then [digit_char (int n)] else nat_text (n div 10) @ [digit_char (int (n mod 10))])"

declare nat_text.simps [simp del]

definition int_text :: "int \<Rightarrow> string" where
  "int_text k = (if k < 0 then CHR ''-'' # nat_text (nat (- k)) else nat_text (nat k))"

section \<open>Writing dates\<close>

text \<open>The year of an ordinal: the mean year of 146097/400 days gives it up to one.\<close>

definition year_of :: "int \<Rightarrow> int" where
  "year_of n = (let y = 400 * n div 146097 + 1
     in if n \<le> days_before_year y then y - 1 else if days_before_year (y + 1) < n then y + 1 else y)"

definition month_of :: "int \<Rightarrow> int \<Rightarrow> int" where
  "month_of y k = 1 + int (length (takeWhile (\<lambda>m. days_before_month y (m + 1) < k) [1..11]))"

definition digits4 :: "int \<Rightarrow> string" where
  "digits4 y = [digit_char (y div 1000), digit_char (y div 100 mod 10), digit_char (y div 10 mod 10), digit_char (y mod 10)]"

definition digits2 :: "int \<Rightarrow> string" where
  "digits2 m = [digit_char (m div 10), digit_char (m mod 10)]"

definition expiry_text :: "int \<Rightarrow> string" where
  "expiry_text day =
     (let n = day + 719163; y = year_of n; k = n - days_before_year y; m = month_of y k
      in digits4 y @ digits2 m @ digits2 (k - days_before_month y m))"

lemma days_before_year_bounds:
  "146097 * (y - 1) - 800 < 400 * days_before_year y" "400 * days_before_year y < 146097 * (y - 1) + 400"
proof -
  define k where "k = y - 1"
  have "k = 4 * (k div 4) + k mod 4" "k = 100 * (k div 100) + k mod 100" "k = 400 * (k div 400) + k mod 400" by simp_all
  moreover have "0 \<le> k mod 4" "k mod 4 < 4" "0 \<le> k mod 100" "k mod 100 < 100" "0 \<le> k mod 400" "k mod 400 < 400" by simp_all
  ultimately have lo: "146097 * k - 800 < 400 * (k * 365 + k div 4 - k div 100 + k div 400)"
    and hi: "400 * (k * 365 + k div 4 - k div 100 + k div 400) < 146097 * k + 400"
    by (simp_all add: algebra_simps)
  from lo hi show "146097 * (y - 1) - 800 < 400 * days_before_year y" "400 * days_before_year y < 146097 * (y - 1) + 400"
    by (simp_all only: days_before_year_def Let_def k_def)
qed

lemma div_pred:
  assumes "0 < (a::int)"
  shows "y div a = (y - 1) div a + (if y mod a = 0 then 1 else 0)"
proof -
  define q r where "q = (y - 1) div a" and "r = (y - 1) mod a"
  have y: "y = (r + 1) + a * q" by (simp add: q_def r_def)
  have r: "0 \<le> r" "r < a" using assms by (simp_all add: r_def)
  show ?thesis
  proof (cases "r + 1 = a")
    case True
    have "(a + a * q - 1) div a = (a - 1 + a * q) div a" by (simp add: algebra_simps)
    also have "\<dots> = q" using assms by (simp add: div_pos_pos_trivial)
    finally show ?thesis using assms True unfolding q_def [symmetric] y by simp
  next
    case False
    with r have "(r + 1) div a = 0" "(r + 1) mod a \<noteq> 0" by simp_all
    moreover have "r div a = 0" using r by simp
    ultimately show ?thesis using assms unfolding q_def [symmetric] y by simp
  qed
qed

lemma year_length: "days_before_year (y + 1) = days_before_year y + (if leap_year y then 366 else 365)"
proof -
  have "days_before_year (y + 1) - days_before_year y = 365 + (if y mod 4 = 0 then 1 else 0)
      - (if y mod 100 = 0 then 1 else 0) + (if y mod 400 = 0 then 1 else 0)"
  proof -
    have e: "days_before_year (y + 1) = y * 365 + y div 4 - y div 100 + y div 400"
      "days_before_year y = (y - 1) * 365 + (y - 1) div 4 - (y - 1) div 100 + (y - 1) div 400"
      unfolding days_before_year_def Let_def by simp_all
    have p: "y div 4 = (y - 1) div 4 + (if y mod 4 = 0 then 1 else 0)"
      "y div 100 = (y - 1) div 100 + (if y mod 100 = 0 then 1 else 0)"
      "y div 400 = (y - 1) div 400 + (if y mod 400 = 0 then 1 else 0)" by (rule div_pred, simp)+
    have "d1 - d0 = 365 + i - j + k" if "d1 = y * 365 + a - b + c" "d0 = (y - 1) * 365 + a0 - b0 + c0"
      "a = a0 + i" "b = b0 + j" "c = c0 + k" for d1 d0 a b c a0 b0 c0 i j k :: int
      using that by simp
    from this [OF e p] show ?thesis .
  qed
  moreover have "y mod 400 = 0 \<longrightarrow> y mod 100 = 0" "y mod 100 = 0 \<longrightarrow> y mod 4 = 0"
    using dvd_trans [of 100 400 y] dvd_trans [of 4 100 y] by (simp_all add: mod_eq_0_iff_dvd)
  ultimately show ?thesis unfolding leap_year_def by (cases "y mod 4 = 0"; cases "y mod 100 = 0"; cases "y mod 400 = 0") auto
qed

lemma days_before_year_mono: "y \<le> z \<Longrightarrow> days_before_year y \<le> days_before_year z"
proof (induction z rule: int_ge_induct)
  case (step z)
  then show ?case using year_length [of z] by (simp split: if_splits)
qed simp

lemma year_of_correct:
  "days_before_year (year_of n) < n \<and> n \<le> days_before_year (year_of n + 1)"
proof -
  define y where "y = 400 * n div 146097 + 1"
  have y: "146097 * (y - 1) \<le> 400 * n" "400 * n < 146097 * y"
    using minus_mod_eq_mult_div [of "400 * n" 146097] pos_mod_bound [of 146097 "400 * n"] pos_mod_sign [of 146097 "400 * n"]
    by (simp_all add: y_def algebra_simps)
  have "days_before_year (y - 1) < n"
    using days_before_year_bounds(2) [of "y - 1"] y(1) by (simp add: algebra_simps)
  moreover have "n \<le> days_before_year (y + 2)"
    using days_before_year_bounds(1) [of "y + 2"] y(2) by (simp add: algebra_simps)
  ultimately have "let z = (if n \<le> days_before_year y then y - 1 else if days_before_year (y + 1) < n then y + 1 else y)
      in days_before_year z < n \<and> n \<le> days_before_year (z + 1)"
    by (auto simp: Let_def add.commute)
  then show ?thesis by (simp only: year_of_def Let_def y_def)
qed

lemma days_before_month_table:
  "days_before_month y 1 = 0" "days_before_month y 2 = 31" "days_before_month y 3 = (if leap_year y then 60 else 59)"
  "days_before_month y 4 = (if leap_year y then 91 else 90)" "days_before_month y 5 = (if leap_year y then 121 else 120)"
  "days_before_month y 6 = (if leap_year y then 152 else 151)" "days_before_month y 7 = (if leap_year y then 182 else 181)"
  "days_before_month y 8 = (if leap_year y then 213 else 212)" "days_before_month y 9 = (if leap_year y then 244 else 243)"
  "days_before_month y 10 = (if leap_year y then 274 else 273)" "days_before_month y 11 = (if leap_year y then 305 else 304)"
  "days_before_month y 12 = (if leap_year y then 335 else 334)" "days_before_month y 13 = (if leap_year y then 366 else 365)"
  by (simp_all add: days_before_month_def days_in_month_def upto_rec1)

lemma eleven: "[1..11::int] = [1, 2, 3, 4, 5, 6, 7, 8, 9, 10, 11]"
  by (simp add: upto_rec1)

lemma month_of_correct:
  assumes "0 < k" "k \<le> (if leap_year y then 366 else 365)"
  shows "1 \<le> month_of y k \<and> month_of y k \<le> 12 \<and> days_before_month y (month_of y k) < k
    \<and> k \<le> days_before_month y (month_of y k) + days_in_month y (month_of y k)"
  using assms unfolding month_of_def eleven
  by (cases "leap_year y") (auto simp: days_before_month_table days_in_month_def)

lemma digits4_value:
  assumes "0 \<le> y" "y < 10000"
  shows "digits_value (digits4 y) = y" "list_all is_digit_char (digits4 y)" "length (digits4 y) = 4"
proof -
  have d: "0 \<le> y div 1000" "y div 1000 < 10" "0 \<le> y mod 10" "y mod 10 < 10"
    "0 \<le> y div 100 mod 10" "y div 100 mod 10 < 10" "0 \<le> y div 10 mod 10" "y div 10 mod 10 < 10"
    using assms by auto
  note p = digit_char_props(1,2) [OF d(1,2)] digit_char_props(1,2) [OF d(3,4)]
    digit_char_props(1,2) [OF d(5,6)] digit_char_props(1,2) [OF d(7,8)]
  have "1000 * (y div 1000) + 100 * (y div 100 mod 10) + 10 * (y div 10 mod 10) + y mod 10 = y"
  proof -
    have "y div 1000 = y div 10 div 10 div 10" "y div 100 = y div 10 div 10"
      using zdiv_zmult2_eq [of 10 y 10] zdiv_zmult2_eq [of 10 y 100] zdiv_zmult2_eq [of 10 "y div 10" 10] by simp_all
    moreover have "1000 * d + 100 * c + 10 * b + a = y" if "10 * e + a = y" "10 * f + b = e" "10 * d + c = f"
      for a b c d e f :: int using that by simp
    ultimately show ?thesis
      using mult_div_mod_eq [of 10 y] mult_div_mod_eq [of 10 "y div 10"] mult_div_mod_eq [of 10 "y div 10 div 10"] by metis
  qed
  with p show "digits_value (digits4 y) = y" "list_all is_digit_char (digits4 y)" "length (digits4 y) = 4"
    by (simp_all add: digits_value_def digits4_def)
qed

lemma digits2_value:
  assumes "0 \<le> m" "m < 100"
  shows "digits_value (digits2 m) = m" "list_all is_digit_char (digits2 m)" "length (digits2 m) = 2"
proof -
  have d: "0 \<le> m div 10" "m div 10 < 10" "0 \<le> m mod 10" "m mod 10 < 10" using assms by auto
  show "digits_value (digits2 m) = m" "list_all is_digit_char (digits2 m)" "length (digits2 m) = 2"
    using digit_char_props(1,2) [OF d(1,2)] digit_char_props(1,2) [OF d(3,4)] by (simp_all add: digits_value_def digits2_def)
qed

text \<open>What is written is read back, between the years 1000 and 9999: the expiry a strategy writes into a
  contract is the day it meant.\<close>

lemma expiry_text_parses:
  assumes "364878 \<le> day + 719163" "day + 719163 \<le> 3652059"
  shows "parse_expiry (expiry_text day) = Some (day + 719163)"
proof -
  define n y k m where "n = day + 719163" and "y = year_of n" and "k = n - days_before_year y" and "m = month_of y k"
  note yr = year_of_correct [of n, folded y_def]
  have k: "0 < k" "k \<le> (if leap_year y then 366 else 365)" using yr year_length [of y] by (simp_all add: k_def)
  note mo = month_of_correct [OF k, folded m_def]
  have dm: "days_in_month y m \<le> 31" by (simp add: days_in_month_def)
  have edge: "days_before_year 1000 = 364877" "days_before_year 10000 = 3652059" by (simp_all add: days_before_year_def)
  have "1000 \<le> y"
  proof (rule ccontr)
    assume "\<not> 1000 \<le> y"
    then have "days_before_year (y + 1) \<le> 364877" using days_before_year_mono [of "y + 1" 1000] edge by simp
    with yr assms(1) show False by (simp add: n_def)
  qed
  moreover have "y < 10000"
  proof (rule ccontr)
    assume "\<not> y < 10000"
    then have "3652059 \<le> days_before_year y" using days_before_year_mono [of 10000 y] edge by simp
    with yr assms(2) show False by (simp add: n_def)
  qed
  ultimately have y: "1000 \<le> y" "y < 10000" by simp_all
  define d where "d = k - days_before_month y m"
  have d: "1 \<le> d" "d \<le> days_in_month y m" using mo by (simp_all add: d_def)
  have t: "expiry_text day = digits4 y @ digits2 m @ digits2 d"
    by (simp add: expiry_text_def Let_def n_def y_def k_def m_def d_def)
  have four: "digits_value (digits4 y) = y" "list_all is_digit_char (digits4 y)" "length (digits4 y) = 4"
    using digits4_value [of y] y by simp_all
  have two: "digits_value (digits2 m) = m" "list_all is_digit_char (digits2 m)" "length (digits2 m) = 2"
    "digits_value (digits2 d) = d" "list_all is_digit_char (digits2 d)" "length (digits2 d) = 2"
    using digits2_value [of m] digits2_value [of d] mo d dm by simp_all
  show ?thesis unfolding parse_expiry_def t
    using four two mo d y by (simp add: Let_def ymd_ordinal_def d_def k_def n_def)
qed

end
