(* ===== verification/Contract_Selector.thy ===== *)
theory Contract_Selector
  imports Data_Quality Calendar
begin

text \<open>
  \<^verbatim>\<open>src/marketdata/contract_selector.py\<close>: choosing one contract of a list.
\<close>

record contract_selector =
  cs_max_age :: pyfloat
  cs_max_spread :: pyfloat
  cs_min_bid :: pyfloat

definition right_text :: "option_right \<Rightarrow> string" where
  "right_text r = (case r of CALL \<Rightarrow> ''CALL'' | PUT \<Rightarrow> ''PUT'')"

definition right_reasons :: "option_right \<Rightarrow> option_contract \<Rightarrow> fstr list" where
  "right_reasons right c = (if oc_right c \<noteq> right
     then [Fstr ''right_mismatch:contract={},target={}'' [FStr (right_text (oc_right c)), FStr (right_text right)]] else [])"

definition dte_reasons :: "int \<Rightarrow> datetime \<Rightarrow> option_contract \<Rightarrow> fstr list" where
  "dte_reasons dte_target now c = (case parse_expiry (oc_expiry c) of
     None \<Rightarrow> [lit ''invalid_expiry_format'']
   | Some e \<Rightarrow> (let dte = e - date_ordinal now
       in if dte \<noteq> dte_target then [Fstr ''dte_mismatch:dte={},target={}'' [FInt dte, FInt dte_target]] else []))"

definition strike_reasons :: "pyfloat \<Rightarrow> pyfloat option \<Rightarrow> option_contract \<Rightarrow> py_error + fstr list" where
  "strike_reasons spot max_dist c = (case max_dist of None \<Rightarrow> Inr []
     | Some m \<Rightarrow> if spot = 0 then Inl (Zero_Division_Error ''float division by zero'')
         else (let dist = \<bar>oc_strike c - spot\<bar> / spot
           in Inr (if m < dist then [Fstr ''strike_out_of_bounds:dist={:.4f},max={:.4f}'' [FFloat dist, FFloat m]] else [])))"

definition quote_reasons ::
  "int \<Rightarrow> contract_selector \<Rightarrow> datetime \<Rightarrow> pyfloat option \<Rightarrow> quote_snapshot \<Rightarrow> py_error + fstr list" where
  "quote_reasons local cs now target_delta q =
     try_bind (validate_quote_freshness local (Some q) now (cs_max_age cs)) (\<lambda>(fresh, ferr).
       case validate_quote_prices (Some q) (cs_max_spread cs) of (valid, perr) \<Rightarrow> Inr (
         (case ferr of Some e \<Rightarrow> if \<not> fresh then [e] else [] | None \<Rightarrow> [])
         @ (case perr of Some e \<Rightarrow> if \<not> valid then [e] else [] | None \<Rightarrow> [])
         @ (case q_bid q of None \<Rightarrow> [] | Some b \<Rightarrow> if b < cs_min_bid cs
              then [Fstr ''bid_below_threshold:bid={},min={}'' [FFloat b, FFloat (cs_min_bid cs)]] else [])
         @ (if target_delta \<noteq> None \<and> q_delta q = None then [lit ''delta_unavailable''] else [])))"

definition contract_reasons ::
  "int \<Rightarrow> contract_selector \<Rightarrow> (quote_key, quote_snapshot) pydict \<Rightarrow> pyfloat \<Rightarrow> option_right \<Rightarrow> int \<Rightarrow> datetime
     \<Rightarrow> pyfloat option \<Rightarrow> pyfloat option \<Rightarrow> option_contract \<Rightarrow> py_error + fstr list" where
  "contract_reasons local cs quotes spot right dte_target now target_delta max_dist c =
     try_bind (strike_reasons spot max_dist c) (\<lambda>strike.
     try_bind (case map_of quotes (Symbol_Key (oc_symbol c)) of
           None \<Rightarrow> Inr [lit ''quote_missing''] | Some q \<Rightarrow> quote_reasons local cs now target_delta q) (\<lambda>quote.
     Inr (right_reasons right c @ dte_reasons dte_target now c @ strike @ quote)))"

fun collect_candidates ::
  "(option_contract \<Rightarrow> py_error + fstr list) \<Rightarrow> (quote_key, quote_snapshot) pydict \<Rightarrow> option_contract list
     \<Rightarrow> (string, fstr list) pydict \<Rightarrow> py_error + ((option_contract \<times> quote_snapshot) list \<times> (string, fstr list) pydict)" where
  "collect_candidates f quotes [] rej = Inr ([], rej)"
| "collect_candidates f quotes (c # cs) rej =
     try_bind (f c) (\<lambda>reasons.
       if reasons \<noteq> [] then collect_candidates f quotes cs (AList.update (oc_symbol c) reasons rej)
       else try_bind (collect_candidates f quotes cs rej) (\<lambda>(cands, rej').
         Inr ((case map_of quotes (Symbol_Key (oc_symbol c)) of Some q \<Rightarrow> (c, q) # cands | None \<Rightarrow> cands), rej')))"

definition candidate_key ::
  "pyfloat \<Rightarrow> pyfloat option \<Rightarrow> option_contract \<times> quote_snapshot \<Rightarrow> pyfloat" where
  "candidate_key spot target_delta x = (case target_delta of
     Some t \<Rightarrow> (case q_delta (snd x) of Some d \<Rightarrow> \<bar>\<bar>d\<bar> - \<bar>t\<bar>\<bar> | None \<Rightarrow> 0)
   | None \<Rightarrow> \<bar>oc_strike (fst x) - spot\<bar>)"

definition select_contract ::
  "int \<Rightarrow> contract_selector \<Rightarrow> option_contract list \<Rightarrow> (quote_key, quote_snapshot) pydict \<Rightarrow> pyfloat \<Rightarrow> option_right
     \<Rightarrow> int \<Rightarrow> datetime \<Rightarrow> pyfloat option \<Rightarrow> pyfloat option
     \<Rightarrow> py_error + (option_contract option \<times> (string, fstr list) pydict)" where
  "select_contract local cs contracts quotes spot right dte_target now target_delta max_dist =
     try_bind (collect_candidates (contract_reasons local cs quotes spot right dte_target now target_delta max_dist) quotes contracts [])
       (\<lambda>(cands, rej). Inr ((case sort_key (candidate_key spot target_delta) cands of
            [] \<Rightarrow> None | x # _ \<Rightarrow> Some (fst x)), rej))"

section \<open>What is eligible\<close>

definition eligible ::
  "int \<Rightarrow> contract_selector \<Rightarrow> (quote_key, quote_snapshot) pydict \<Rightarrow> pyfloat \<Rightarrow> option_right \<Rightarrow> int \<Rightarrow> datetime
     \<Rightarrow> pyfloat option \<Rightarrow> pyfloat option \<Rightarrow> option_contract \<Rightarrow> quote_snapshot \<Rightarrow> bool" where
  "eligible local cs quotes spot right dte_target now target_delta max_dist c q \<longleftrightarrow>
     map_of quotes (Symbol_Key (oc_symbol c)) = Some q
     \<and> oc_right c = right \<and> parse_expiry (oc_expiry c) = Some (date_ordinal now + dte_target)
     \<and> (\<forall>m. max_dist = Some m \<longrightarrow> \<bar>oc_strike c - spot\<bar> / spot \<le> m)
     \<and> fresh_quote local (Some q) now (cs_max_age cs) \<and> tradeable_prices (Some q) (cs_max_spread cs)
     \<and> (\<forall>b. q_bid q = Some b \<longrightarrow> cs_min_bid cs \<le> b)
     \<and> (target_delta \<noteq> None \<longrightarrow> q_delta q \<noteq> None)"

lemma quote_reasons_empty:
  assumes "quote_reasons local cs now target_delta q = Inr rs"
  shows "rs = [] \<longleftrightarrow> fresh_quote local (Some q) now (cs_max_age cs) \<and> tradeable_prices (Some q) (cs_max_spread cs)
    \<and> (\<forall>b. q_bid q = Some b \<longrightarrow> cs_min_bid cs \<le> b) \<and> (target_delta \<noteq> None \<longrightarrow> q_delta q \<noteq> None)"
proof -
  obtain fresh ferr where f: "validate_quote_freshness local (Some q) now (cs_max_age cs) = Inr (fresh, ferr)"
    and fresh: "(case ferr of Some e \<Rightarrow> if \<not> fresh then [e] else [] | None \<Rightarrow> []) = [] \<longleftrightarrow> fresh_quote local (Some q) now (cs_max_age cs)"
    by (rule validate_quote_freshness_cases [of local "Some q" now "cs_max_age cs"]) auto
  obtain valid perr where p: "validate_quote_prices (Some q) (cs_max_spread cs) = (valid, perr)"
    and valid: "(case perr of Some e \<Rightarrow> if \<not> valid then [e] else [] | None \<Rightarrow> []) = [] \<longleftrightarrow> tradeable_prices (Some q) (cs_max_spread cs)"
    by (rule validate_quote_prices_cases [of "Some q" "cs_max_spread cs"]) auto
  have b: "(case q_bid q of None \<Rightarrow> [] | Some b \<Rightarrow> if b < cs_min_bid cs
      then [Fstr ''bid_below_threshold:bid={},min={}'' [FFloat b, FFloat (cs_min_bid cs)]] else []) = []
      \<longleftrightarrow> (\<forall>b. q_bid q = Some b \<longrightarrow> cs_min_bid cs \<le> b)"
    by (auto simp: not_less split: option.split)
  from assms show ?thesis
    unfolding quote_reasons_def f p try_bind_simps prod.case sum.inject append_is_Nil_conv [symmetric]
    using fresh valid b by (auto simp only: append_is_Nil_conv simp flip: not_None_eq split: if_splits)
qed

lemma dte_reasons_empty: "dte_reasons dte_target now c = [] \<longleftrightarrow> parse_expiry (oc_expiry c) = Some (date_ordinal now + dte_target)"
  by (auto simp: dte_reasons_def Let_def split: option.split)

lemma strike_reasons_empty:
  "strike_reasons spot max_dist c = Inr rs \<Longrightarrow> rs = [] \<longleftrightarrow> (\<forall>m. max_dist = Some m \<longrightarrow> \<bar>oc_strike c - spot\<bar> / spot \<le> m)"
  by (auto simp: strike_reasons_def Let_def not_less split: option.splits if_splits)

lemma contract_reasons_empty:
  assumes "contract_reasons local cs quotes spot right dte_target now target_delta max_dist c = Inr rs"
  shows "rs = [] \<longleftrightarrow> (\<exists>q. eligible local cs quotes spot right dte_target now target_delta max_dist c q)"
proof -
  obtain st qr where st: "strike_reasons spot max_dist c = Inr st"
    and qr: "(case map_of quotes (Symbol_Key (oc_symbol c)) of None \<Rightarrow> Inr [lit ''quote_missing'']
      | Some q \<Rightarrow> quote_reasons local cs now target_delta q) = Inr qr"
    and rs: "rs = right_reasons right c @ dte_reasons dte_target now c @ st @ qr"
    using assms by (auto simp: contract_reasons_def try_bind_eq_Inr)
  have r: "right_reasons right c = [] \<longleftrightarrow> oc_right c = right" by (simp add: right_reasons_def)
  show ?thesis
  proof (cases "map_of quotes (Symbol_Key (oc_symbol c))")
    case None
    with qr have "qr \<noteq> []" by auto
    with None rs show ?thesis by (simp add: eligible_def)
  next
    case (Some q)
    with qr have "quote_reasons local cs now target_delta q = Inr qr" by simp
    from quote_reasons_empty [OF this] Some r dte_reasons_empty [of dte_target now c] strike_reasons_empty [OF st]
    show ?thesis unfolding rs eligible_def append_is_Nil_conv by simp
  qed
qed

lemma collect_candidates_eligible:
  assumes "collect_candidates f quotes cs rej = Inr (cands, rej')"
    and "\<And>c rs. f c = Inr rs \<Longrightarrow> rs = [] \<longleftrightarrow> (\<exists>q. E c q)" and "\<And>c q. E c q \<Longrightarrow> map_of quotes (Symbol_Key (oc_symbol c)) = Some q"
  shows "cands = [(c, q). c \<leftarrow> cs, q \<leftarrow> (case map_of quotes (Symbol_Key (oc_symbol c)) of None \<Rightarrow> [] | Some q \<Rightarrow> if E c q then [q] else [])]"
  using assms(1)
proof (induction cs arbitrary: rej cands)
  case (Cons c cs)
  obtain rs where rs: "f c = Inr rs" using Cons.prems by (auto simp: try_bind_eq_Inr)
  show ?case
  proof (cases "rs = []")
    case True
    then obtain q where q: "E c q" "map_of quotes (Symbol_Key (oc_symbol c)) = Some q" using assms(2) [OF rs] assms(3) by blast
    from Cons.prems rs True obtain cands' where "collect_candidates f quotes cs rej = Inr (cands', rej')" "cands = (c, q) # cands'"
      using q by (auto simp: try_bind_eq_Inr)
    with Cons.IH q show ?thesis by simp
  next
    case False
    then have "\<not> E c q" for q using assms(2) [OF rs] by blast
    with Cons.IH Cons.prems rs False show ?thesis by (auto simp: split: option.split)
  qed
qed simp

text \<open>The selector returns an eligible contract that is at least as close to the target (in delta,
  or in strike when no delta is asked for) as every other eligible one, the first of them in a tie;
  and it returns nothing only if no contract is eligible.\<close>

lemma select_contract_best:
  assumes "select_contract local cs contracts quotes spot right dte_target now target_delta max_dist = Inr (sel, rej)"
  defines "E \<equiv> eligible local cs quotes spot right dte_target now target_delta max_dist"
  shows "(sel = None \<longleftrightarrow> (\<forall>c \<in> set contracts. \<forall>q. \<not> E c q))
    \<and> (\<forall>c. sel = Some c \<longrightarrow> c \<in> set contracts \<and> (\<exists>q. E c q \<and>
         (\<forall>c' \<in> set contracts. \<forall>q'. E c' q' \<longrightarrow>
            candidate_key spot target_delta (c, q) \<le> candidate_key spot target_delta (c', q'))))"
proof -
  obtain cands where c: "collect_candidates (contract_reasons local cs quotes spot right dte_target now target_delta max_dist)
      quotes contracts [] = Inr (cands, rej)"
    and sel: "sel = (case sort_key (candidate_key spot target_delta) cands of [] \<Rightarrow> None | x # _ \<Rightarrow> Some (fst x))"
    using assms(1) by (auto simp: select_contract_def try_bind_eq_Inr)
  have q: "E c' q' \<Longrightarrow> map_of quotes (Symbol_Key (oc_symbol c')) = Some q'" for c' q' by (simp add: E_def eligible_def)
  have l: "cands = [(c, q). c \<leftarrow> contracts, q \<leftarrow> (case map_of quotes (Symbol_Key (oc_symbol c)) of None \<Rightarrow> [] | Some q \<Rightarrow> if E c q then [q] else [])]"
    using collect_candidates_eligible [OF c, of E] contract_reasons_empty q unfolding E_def by blast
  have mem: "(c', q') \<in> set cands \<longleftrightarrow> c' \<in> set contracts \<and> E c' q'" for c' q'
    unfolding l using q [of c' q'] by (force split: option.splits)
  show ?thesis
  proof (cases "sort_key (candidate_key spot target_delta) cands")
    case Nil
    then have "set cands = {}" by (metis set_empty set_sort)
    then have "\<forall>c' \<in> set contracts. \<forall>q'. \<not> E c' q'" using mem by auto
    then show ?thesis using sel Nil by simp
  next
    case (Cons x xs)
    obtain c' q' where x: "x = (c', q')" by (cases x)
    have "set cands = set (x # xs)" using Cons by (metis set_sort)
    then have "x \<in> set cands" by simp
    then have 1: "c' \<in> set contracts" "E c' q'" using mem x by auto
    have "sorted (map (candidate_key spot target_delta) (x # xs))" using Cons by (metis sorted_sort_key)
    then have "candidate_key spot target_delta x \<le> candidate_key spot target_delta y" if "y \<in> set cands" for y
      using that \<open>set cands = set (x # xs)\<close> by auto
    with mem x have "\<forall>c'' \<in> set contracts. \<forall>q''. E c'' q'' \<longrightarrow>
        candidate_key spot target_delta (c', q') \<le> candidate_key spot target_delta (c'', q'')" by blast
    with 1 sel Cons x show ?thesis by auto
  qed
qed

definition sample_selector :: contract_selector where
  "sample_selector = \<lparr>cs_max_age = 5, cs_max_spread = 10, cs_min_bid = 1/100\<rparr>"

definition sample_chain :: "option_contract list" where
  "sample_chain = map (\<lambda>(s, k). \<lparr>oc_symbol = s, oc_expiry = ''20250110'', oc_strike = k, oc_right = CALL, oc_multiplier = 100\<rparr>)
     [(''A'', 500), (''B'', 503), (''C'', 501)]"

definition sample_chain_quotes :: "(quote_key, quote_snapshot) pydict" where
  "sample_chain_quotes = map (\<lambda>c. (Symbol_Key (oc_symbol c), \<lparr>q_symbol = Symbol_Key (oc_symbol c), q_bid = Some 2,
     q_ask = Some (21/10), q_last = None, q_volume = None, q_delta = None, q_close = None,
     q_timestamp = utc 1736510400000000\<rparr>)) sample_chain"

theorem select_contract_best_witness:
  "\<exists>rej. select_contract 0 sample_selector sample_chain sample_chain_quotes 502 CALL 0 (utc 1736510401000000) None None
      = Inr (Some (sample_chain ! 1), rej)
    \<and> (\<exists>q. eligible 0 sample_selector sample_chain_quotes 502 CALL 0 (utc 1736510401000000) None None (sample_chain ! 1) q)"
proof -
  let ?r = "select_contract 0 sample_selector sample_chain sample_chain_quotes 502 CALL 0 (utc 1736510401000000) None None"
  have r: "?r = Inr (Some (sample_chain ! 1), [])" by code_simp
  from select_contract_best [OF r] r show ?thesis by blast
qed

end
