(* ===== verification/Overrides.thy ===== *)
theory Overrides
  imports Config
begin

text \<open>
  \<^verbatim>\<open>src/control/overrides.py\<close>: the runtime overrides an operator or a safety gate sets.
  Three of its operation pairs (pause/resume, disable/enable, reduce-only per strategy) obey one
  contract, stated as the locale \<open>toggle_list\<close> and interpreted on each of them. The YAML file the
  manager mirrors its state to is a field: its content, whether a path is configured, and whether
  writing it works (\<open>_save\<close> swallows the error when it does not).
\<close>

record override_manager =
  ovm_state :: overrides_config
  ovm_path :: bool
  ovm_writable :: bool
  ovm_file :: "overrides_config option"

definition ovm_save :: "override_manager \<Rightarrow> override_manager" where
  "ovm_save m = (if \<not> ovm_path m then m
     else if ovm_writable m then m\<lparr>ovm_file := Some (ovm_state m)\<rparr> else m)"

definition pause_strategy :: "string \<Rightarrow> override_manager \<Rightarrow> bool \<times> override_manager" where
  "pause_strategy sid m = (let st = ovm_state m in
     if sid \<in> set (ov_paused st) then (False, m)
     else (True, ovm_save (m\<lparr>ovm_state := st\<lparr>ov_paused := ov_paused st @ [sid]\<rparr>\<rparr>)))"

definition resume_strategy :: "string \<Rightarrow> override_manager \<Rightarrow> bool \<times> override_manager" where
  "resume_strategy sid m = (let st = ovm_state m in
     if sid \<notin> set (ov_paused st) then (False, m)
     else (True, ovm_save (m\<lparr>ovm_state := st\<lparr>ov_paused := remove1 sid (ov_paused st)\<rparr>\<rparr>)))"

definition disable_symbol :: "string \<Rightarrow> override_manager \<Rightarrow> bool \<times> override_manager" where
  "disable_symbol symb m = (let st = ovm_state m in
     if symb \<in> set (ov_disabled_symbols st) then (False, m)
     else (True, ovm_save (m\<lparr>ovm_state :=
            st\<lparr>ov_disabled_symbols := ov_disabled_symbols st @ [symb]\<rparr>\<rparr>)))"

definition enable_symbol :: "string \<Rightarrow> override_manager \<Rightarrow> bool \<times> override_manager" where
  "enable_symbol symb m = (let st = ovm_state m in
     if symb \<notin> set (ov_disabled_symbols st) then (False, m)
     else (True, ovm_save (m\<lparr>ovm_state :=
            st\<lparr>ov_disabled_symbols := remove1 symb (ov_disabled_symbols st)\<rparr>\<rparr>)))"

definition set_reduce_only :: "bool \<Rightarrow> string option \<Rightarrow> override_manager \<Rightarrow> bool \<times> override_manager" where
  "set_reduce_only enabled target m = (let st = ovm_state m in
     case target of
       Some sid \<Rightarrow>
         if enabled then
           (if sid \<in> set (ov_reduce_only_strategies st) then (False, m)
            else (True, ovm_save (m\<lparr>ovm_state :=
                   st\<lparr>ov_reduce_only_strategies := ov_reduce_only_strategies st @ [sid]\<rparr>\<rparr>)))
         else
           (if sid \<notin> set (ov_reduce_only_strategies st) then (False, m)
            else (True, ovm_save (m\<lparr>ovm_state :=
                   st\<lparr>ov_reduce_only_strategies := remove1 sid (ov_reduce_only_strategies st)\<rparr>\<rparr>)))
     | None \<Rightarrow>
         if ov_reduce_only st = enabled then (False, m)
         else (True, ovm_save (m\<lparr>ovm_state := st\<lparr>ov_reduce_only := enabled\<rparr>\<rparr>)))"

definition lock_system :: "override_manager \<Rightarrow> bool \<times> override_manager" where
  "lock_system m = (if ov_system_locked (ovm_state m) then (False, m)
     else (True, ovm_save (m\<lparr>ovm_state := (ovm_state m)\<lparr>ov_system_locked := True\<rparr>\<rparr>)))"

definition unlock_system :: "override_manager \<Rightarrow> bool \<times> override_manager" where
  "unlock_system m = (if \<not> ov_system_locked (ovm_state m) then (False, m)
     else (True, ovm_save (m\<lparr>ovm_state := (ovm_state m)\<lparr>ov_system_locked := False\<rparr>\<rparr>)))"

section \<open>The contract of the list overrides\<close>

locale toggle_list =
  fixes add :: "'k \<Rightarrow> 's \<Rightarrow> bool \<times> 's"
    and del :: "'k \<Rightarrow> 's \<Rightarrow> bool \<times> 's"
    and items :: "'s \<Rightarrow> 'k list"
  assumes add_result: "fst (add k s) \<longleftrightarrow> k \<notin> set (items s)"
    and add_items: "items (snd (add k s)) = (if k \<in> set (items s) then items s else items s @ [k])"
    and add_noop: "k \<in> set (items s) \<Longrightarrow> snd (add k s) = s"
    and del_result: "fst (del k s) \<longleftrightarrow> k \<in> set (items s)"
    and del_items: "items (snd (del k s)) = remove1 k (items s)"
    and del_noop: "k \<notin> set (items s) \<Longrightarrow> snd (del k s) = s"
begin

lemma add_present: "k \<in> set (items (snd (add k s)))"
  by (simp add: add_items)

lemma add_idem: "add k (snd (add k s)) = (False, snd (add k s))"
  by (metis add_noop add_present add_result prod.collapse)

lemma distinct_add: "distinct (items s) \<Longrightarrow> distinct (items (snd (add k s)))"
  by (simp add: add_items)

lemma distinct_del: "distinct (items s) \<Longrightarrow> distinct (items (snd (del k s)))"
  by (simp add: del_items)

lemma del_absent: "distinct (items s) \<Longrightarrow> k \<notin> set (items (snd (del k s)))"
  by (simp add: del_items)

lemma del_others: "k' \<noteq> k \<Longrightarrow> k' \<in> set (items (snd (del k s))) \<longleftrightarrow> k' \<in> set (items s)"
  by (simp add: del_items)

lemma add_then_del: "k \<notin> set (items s) \<Longrightarrow> items (snd (del k (snd (add k s)))) = items s"
  by (simp add: del_items add_items remove1_append)

end

lemma ovm_save_state [simp]: "ovm_state (ovm_save m) = ovm_state m"
  by (simp add: ovm_save_def)

lemma ovm_save_frame [simp]: "ovm_path (ovm_save m) = ovm_path m" "ovm_writable (ovm_save m) = ovm_writable m"
  by (simp_all add: ovm_save_def)

abbreviation paused_items :: "override_manager \<Rightarrow> string list" where
  "paused_items m \<equiv> ov_paused (ovm_state m)"

abbreviation disabled_items :: "override_manager \<Rightarrow> string list" where
  "disabled_items m \<equiv> ov_disabled_symbols (ovm_state m)"

abbreviation reduce_only_items :: "override_manager \<Rightarrow> string list" where
  "reduce_only_items m \<equiv> ov_reduce_only_strategies (ovm_state m)"

interpretation paused: toggle_list pause_strategy resume_strategy paused_items
  by unfold_locales (auto simp: pause_strategy_def resume_strategy_def Let_def remove1_idem)

interpretation disabled: toggle_list disable_symbol enable_symbol disabled_items
  by unfold_locales (auto simp: disable_symbol_def enable_symbol_def Let_def remove1_idem)

interpretation reduced: toggle_list "\<lambda>sid. set_reduce_only True (Some sid)"
  "\<lambda>sid. set_reduce_only False (Some sid)" reduce_only_items
  by unfold_locales (auto simp: set_reduce_only_def Let_def remove1_idem)

section \<open>Runs of override operations\<close>

datatype override_op = Pause string | Resume string | Disable string | Enable string
  | Reduce_Only bool "string option" | Lock | Unlock

fun override_step :: "override_op \<Rightarrow> override_manager \<Rightarrow> bool \<times> override_manager" where
  "override_step (Pause s) m = pause_strategy s m"
| "override_step (Resume s) m = resume_strategy s m"
| "override_step (Disable s) m = disable_symbol s m"
| "override_step (Enable s) m = enable_symbol s m"
| "override_step (Reduce_Only b t) m = set_reduce_only b t m"
| "override_step Lock m = lock_system m"
| "override_step Unlock m = unlock_system m"

definition override_run :: "override_op list \<Rightarrow> override_manager \<Rightarrow> override_manager" where
  "override_run ops m = fold (\<lambda>op. snd \<circ> override_step op) ops m"

lemma override_run_simps [simp]:
  "override_run [] m = m"
  "override_run (op # ops) m = override_run ops (snd (override_step op m))"
  by (simp_all add: override_run_def)

definition overrides_ok :: "override_manager \<Rightarrow> bool" where
  "overrides_ok m \<longleftrightarrow> distinct (paused_items m) \<and> distinct (disabled_items m)
     \<and> distinct (reduce_only_items m)
     \<and> (ovm_path m \<longrightarrow> ovm_writable m \<longrightarrow> ovm_file m = Some (ovm_state m))"

lemmas override_op_defs = pause_strategy_def resume_strategy_def disable_symbol_def
  enable_symbol_def set_reduce_only_def lock_system_def unlock_system_def

lemma override_step_ok: "overrides_ok m \<Longrightarrow> overrides_ok (snd (override_step op m))"
  by (cases op) (auto simp: overrides_ok_def override_op_defs ovm_save_def Let_def split: option.split)

lemma override_run_ok: "overrides_ok m \<Longrightarrow> overrides_ok (override_run ops m)"
  by (induction ops arbitrary: m) (simp_all add: override_step_ok)

text \<open>The operations report a change exactly when they make one, and write the file then.\<close>

lemma override_step_result:
  assumes "overrides_ok m"
  shows "fst (override_step op m) \<longleftrightarrow> ovm_state (snd (override_step op m)) \<noteq> ovm_state m"
proof -
  have upd: "r\<lparr>ov_paused := x\<rparr> = r \<longleftrightarrow> ov_paused r = x"
    "r\<lparr>ov_disabled_symbols := x\<rparr> = r \<longleftrightarrow> ov_disabled_symbols r = x"
    "r\<lparr>ov_reduce_only_strategies := x\<rparr> = r \<longleftrightarrow> ov_reduce_only_strategies r = x"
    "r\<lparr>ov_reduce_only := y\<rparr> = r \<longleftrightarrow> ov_reduce_only r = y"
    "r\<lparr>ov_system_locked := y\<rparr> = r \<longleftrightarrow> ov_system_locked r = y" for r :: overrides_config and x y
    by (cases r; auto)+
  have "remove1 x xs \<noteq> xs" if "x \<in> set xs" for x :: string and xs
    using that length_remove1 [of x xs] by (metis One_nat_def diff_less length_pos_if_in_set less_irrefl zero_less_one)
  then show ?thesis
    by (cases op) (auto simp: override_op_defs Let_def upd split: option.split dest: sym)
qed

text \<open>Whatever operations ran before, resuming a strategy leaves it unpaused, and pausing one
  leaves it paused, provided the lists had no duplicates to begin with; and when the override file
  is configured and writable it holds the final state.\<close>

lemma override_run_effective:
  assumes "overrides_ok m"
  shows "s \<notin> set (paused_items (override_run (ops @ [Resume s]) m))
    \<and> s \<in> set (paused_items (override_run (ops @ [Pause s]) m))
    \<and> (ovm_path m \<and> ovm_writable m \<longrightarrow>
         ovm_file (override_run ops m) = Some (ovm_state (override_run ops m)))"
proof -
  have app: "override_run (xs @ ys) m' = override_run ys (override_run xs m')" for xs ys m'
    by (simp add: override_run_def)
  have frame: "ovm_path (override_run xs m') = ovm_path m' \<and> ovm_writable (override_run xs m') = ovm_writable m'"
    for xs m'
  proof (induction xs arbitrary: m')
    case (Cons op xs)
    have "ovm_path (snd (override_step op m')) = ovm_path m' \<and>
        ovm_writable (snd (override_step op m')) = ovm_writable m'"
      by (cases op) (auto simp: override_op_defs Let_def split: option.split)
    with Cons.IH show ?case by simp
  qed simp
  let ?m = "override_run ops m"
  have ok: "overrides_ok ?m" using assms by (rule override_run_ok)
  then have "distinct (paused_items ?m)" by (simp add: overrides_ok_def)
  then have "s \<notin> set (paused_items (snd (resume_strategy s ?m)))"
    by (rule paused.del_absent)
  moreover have "s \<in> set (paused_items (snd (pause_strategy s ?m)))"
    by (rule paused.add_present)
  ultimately show ?thesis
    using ok frame [of ops m] by (simp add: app overrides_ok_def)
qed

definition sample_overrides :: override_manager where
  "sample_overrides = \<lparr>ovm_state = default_overrides, ovm_path = True, ovm_writable = True,
     ovm_file = Some default_overrides\<rparr>"

theorem override_run_effective_witness:
  "''s1'' \<notin> set (paused_items (override_run ([Pause ''s1'', Lock] @ [Resume ''s1'']) sample_overrides))"
proof -
  have "overrides_ok sample_overrides"
    by (simp add: overrides_ok_def sample_overrides_def default_overrides_def)
  from override_run_effective [OF this] show ?thesis by blast
qed

end
