(* ===== verification/Reconciliation.thy ===== *)
theory Reconciliation
  imports Overrides Order_Manager
begin

text \<open>
  \<^verbatim>\<open>src/portfolio/reconciliation.py\<close>: internal state against the broker's. The two answers of
  the broker are arguments (an exception is \<open>Inl\<close>). The contract keys are iterated as a Python set,
  whose order is unspecified; here the internal keys come first.
\<close>

type_synonym contract_key = "string \<times> string \<times> pyfloat \<times> option_right"

definition get_contract_key :: "option_contract \<Rightarrow> contract_key" where
  "get_contract_key c = (map upper_char (oc_symbol c), oc_expiry c, oc_strike c, oc_right c)"

text \<open>Positions grouped by contract, and the signed quantity of each group.\<close>

definition by_contract :: "position list \<Rightarrow> (contract_key, position list) pydict" where
  "by_contract ps = fold (\<lambda>p d.
     if ps_quantity p \<le> 0 then d
     else let k = get_contract_key (ps_contract p)
          in AList.update k (dict_default d k [] @ [p]) d) ps []"

definition signed_quantity :: "position \<Rightarrow> int" where
  "signed_quantity p = ps_quantity p * (if ps_side p = BUY then 1 else -1)"

definition net_qty :: "(contract_key, position list) pydict \<Rightarrow> (contract_key, int) pydict" where
  "net_qty d = map (\<lambda>(k, ps). (k, sum_list (map signed_quantity ps))) d"

definition key_fstr :: "contract_key \<Rightarrow> fstr" where
  "key_fstr k = (case k of (symb, expiry, strike, right) \<Rightarrow>
     Fstr ''{} {} {} {}'' [FStr symb, FStr expiry, FFloat strike, right_arg right])"

text \<open>The finding about one contract: its type, its text, and the positions it names.\<close>

definition position_detail ::
  "(contract_key, position list) pydict \<Rightarrow> (contract_key, position list) pydict \<Rightarrow> contract_key
     \<Rightarrow> (string \<times> fstr) option" where
  "position_detail internal broker k =
     (let iqty = dict_default (net_qty internal) k 0; bqty = dict_default (net_qty broker) k 0;
          ids = FList (map (FId \<circ> ps_id) (dict_default internal k []))
      in if iqty = bqty then None
         else if iqty \<noteq> 0 \<and> bqty = 0 then
           Some (''internal_only_position'', Fstr ''contract internal_quantity position_ids''
             [FMsg (key_fstr k), FInt iqty, ids])
         else if bqty \<noteq> 0 \<and> iqty = 0 then
           Some (''broker_only_position'', Fstr ''contract broker_quantity'' [FMsg (key_fstr k), FInt bqty])
         else Some (''position_quantity_mismatch'',
           Fstr ''contract internal_quantity broker_quantity position_ids'' [FMsg (key_fstr k), FInt iqty, FInt bqty, ids]))"

definition position_keys ::
  "(contract_key, position list) pydict \<Rightarrow> (contract_key, position list) pydict \<Rightarrow> contract_key list" where
  "position_keys internal broker =
     dict_keys internal @ filter (\<lambda>k. k \<notin> set (dict_keys internal)) (dict_keys broker)"

definition orders_by_broker_id :: "order_state list \<Rightarrow> (string, order_state) pydict" where
  "orders_by_broker_id os = fold (\<lambda>o' d. case os_broker_id o' of
     Some b \<Rightarrow> if b \<noteq> [] then AList.update b o' d else d | None \<Rightarrow> d) os []"

definition order_parameters_differ :: "order_state \<Rightarrow> order_state \<Rightarrow> bool" where
  "order_parameters_differ io bo \<longleftrightarrow> get_contract_key (os_contract io) \<noteq> get_contract_key (os_contract bo)
     \<or> os_side io \<noteq> os_side bo \<or> os_quantity io \<noteq> os_quantity bo \<or> 501 / 10000 < \<bar>os_limit io - os_limit bo\<bar>"

definition broker_order_detail ::
  "(string, order_state) pydict \<Rightarrow> order_state \<Rightarrow> (string \<times> fstr) option" where
  "broker_order_detail internal bo = (case os_broker_id bo of None \<Rightarrow> None | Some b \<Rightarrow>
     if b = [] then None
     else (case map_of internal b of
        None \<Rightarrow> Some (''unknown_broker_order'', Fstr ''broker_order_id contract side quantity limit_price''
          [FStr b, contract_arg (os_contract bo), side_arg (os_side bo), FInt (os_quantity bo), FFloat (os_limit bo)])
      | Some io \<Rightarrow> if order_parameters_differ io bo then
          Some (''order_parameter_mismatch'', Fstr ''broker_order_id internal_order_id internal_details broker_details''
            [FStr b, FId (os_id io),
             FList [contract_arg (os_contract io), side_arg (os_side io), FInt (os_quantity io), FFloat (os_limit io)],
             FList [contract_arg (os_contract bo), side_arg (os_side bo), FInt (os_quantity bo), FFloat (os_limit bo)]])
          else None))"

definition missing_order_detail :: "string set \<Rightarrow> order_state \<Rightarrow> (string \<times> fstr) option" where
  "missing_order_detail broker_ids io = (case os_broker_id io of None \<Rightarrow> None | Some b \<Rightarrow>
     if b \<noteq> [] \<and> b \<notin> broker_ids
     then Some (''internal_order_not_at_broker'', Fstr ''broker_order_id internal_order_id'' [FStr b, FId (os_id io)])
     else None)"

definition severe :: "string \<times> fstr \<Rightarrow> bool" where
  "severe d \<longleftrightarrow> fst d = ''internal_only_position'' \<or> fst d = ''position_quantity_mismatch''"

definition collect_details :: "('a \<Rightarrow> 'b option) \<Rightarrow> 'a list \<Rightarrow> 'b list" where
  "collect_details f xs = [y. Some y \<leftarrow> map f xs]"

definition reconcile ::
  "instant \<Rightarrow> py_error + position list \<Rightarrow> py_error + order_state list \<Rightarrow> order_state list \<Rightarrow> position_book
     \<Rightarrow> override_manager \<Rightarrow> event_store \<Rightarrow> (py_error + recon_report) \<times> override_manager \<times> event_store" where
  "reconcile now positions_reply orders_reply internal_orders book ovm es =
     (case positions_reply of Inl e \<Rightarrow> (Inl e, ovm, es) | Inr broker_positions \<Rightarrow>
       (case orders_reply of Inl e \<Rightarrow> (Inl e, ovm, es) | Inr broker_orders \<Rightarrow>
         let internal = by_contract (get_open_positions book);
             broker = by_contract broker_positions;
             keys = position_keys internal broker;
             known = orders_by_broker_id internal_orders;
             broker_ids = set (filter (\<lambda>b. b \<noteq> []) (List.map_filter os_broker_id broker_orders));
             details = collect_details (position_detail internal broker) keys
                     @ collect_details (broker_order_detail known) broker_orders
                     @ collect_details (missing_order_detail broker_ids) internal_orders;
             position_matches = length (filter (\<lambda>k. dict_default (net_qty internal) k 0 = dict_default (net_qty broker) k 0
                                   \<and> dict_default (net_qty internal) k 0 \<noteq> 0) keys);
             order_matches = length (filter (\<lambda>bo. truthy (os_broker_id bo) \<and> broker_order_detail known bo = None) broker_orders);
             internal_only = concat (map (\<lambda>k. if dict_default (net_qty internal) k 0 \<noteq> 0 \<and> dict_default (net_qty broker) k 0 = 0
                                   then map ps_id (dict_default internal k []) else []) keys);
             broker_only = [key_fstr k. k \<leftarrow> keys, dict_default (net_qty internal) k 0 = 0 \<and> dict_default (net_qty broker) k 0 \<noteq> 0];
             report = \<lparr>rr_matches = position_matches + order_matches, rr_mismatches = length details,
                        rr_internal_only = internal_only, rr_broker_only = broker_only,
                        rr_details = details, rr_is_clean = (details = [])\<rparr>;
             es' = log_callback ''reconciliation_event'' (P_Report report) now es
         in (Inr report, if filter severe details \<noteq> [] then snd (lock_system ovm) else ovm, es')))"

section \<open>What the comparison means\<close>

definition net_position :: "contract_key \<Rightarrow> position list \<Rightarrow> int" where
  "net_position k ps = (\<Sum>p \<leftarrow> filter (\<lambda>p. 0 < ps_quantity p \<and> get_contract_key (ps_contract p) = k) ps.
     side_sign (ps_side p) * ps_quantity p)"

lemma signed_quantity_eq: "signed_quantity p = side_sign (ps_side p) * ps_quantity p"
  by (cases "ps_side p") (simp_all add: signed_quantity_def)

lemma by_contract_groups:
  "dict_default (by_contract ps) k [] = filter (\<lambda>p. 0 < ps_quantity p \<and> get_contract_key (ps_contract p) = k) ps"
proof (induction ps rule: rev_induct)
  case (snoc p ps)
  then show ?case by (auto simp: by_contract_def Let_def dict_default_def)
qed (simp add: by_contract_def dict_default_def)

lemma by_contract_wf: "wf_dict (by_contract ps)"
  by (induction ps rule: rev_induct) (auto simp: by_contract_def Let_def)

lemma by_contract_keys: "set (dict_keys (by_contract ps)) = {get_contract_key (ps_contract p) |p. p \<in> set ps \<and> 0 < ps_quantity p}"
proof (induction ps rule: rev_induct)
  case (snoc p ps)
  then show ?case
    by (auto simp: by_contract_def Let_def dict_keys_def keys_update simp flip: set_map)
qed (simp add: by_contract_def dict_keys_def)

lemma net_qty_default: "dict_default (net_qty (by_contract ps)) k 0 = net_position k ps"
proof -
  have "map_of (net_qty d) k = map_option (\<lambda>ps. sum_list (map signed_quantity ps)) (map_of d k)" for d
    by (induction d) (auto simp: net_qty_def)
  then have "dict_default (net_qty (by_contract ps)) k 0 = sum_list (map signed_quantity (dict_default (by_contract ps) k []))"
    by (simp add: dict_default_def split: option.split)
  then show ?thesis by (simp add: by_contract_groups net_position_def signed_quantity_eq cong: map_cong)
qed

lemma net_position_absent: "k \<notin> set (dict_keys (by_contract ps)) \<Longrightarrow> net_position k ps = 0"
proof -
  assume "k \<notin> set (dict_keys (by_contract ps))"
  then have "filter (\<lambda>p. 0 < ps_quantity p \<and> get_contract_key (ps_contract p) = k) ps = []"
    by (auto simp: by_contract_keys filter_empty_conv)
  then show ?thesis by (simp only: net_position_def list.map sum_list.Nil)
qed

lemma collect_empty: "collect_details f xs = [] \<longleftrightarrow> (\<forall>x \<in> set xs. f x = None)"
  by (induction xs) (auto simp: collect_details_def split: option.splits)

lemma collect_set: "d \<in> set (collect_details f xs) \<longleftrightarrow> (\<exists>x \<in> set xs. f x = Some d)"
  by (induction xs) (auto simp: collect_details_def split: option.splits)

lemma orders_by_id_Some: "map_of (orders_by_broker_id os) b = Some io \<Longrightarrow> io \<in> set os \<and> os_broker_id io = Some b"
proof (induction os rule: rev_induct)
  case (snoc o' os)
  then show ?case by (auto simp: orders_by_broker_id_def split: option.splits if_splits)
qed (simp add: orders_by_broker_id_def)

lemma orders_by_id_None: "map_of (orders_by_broker_id os) b = None \<longleftrightarrow> b = [] \<or> (\<forall>io \<in> set os. os_broker_id io \<noteq> Some b)"
proof (induction os rule: rev_induct)
  case (snoc o' os)
  then show ?case by (auto simp: orders_by_broker_id_def split: option.splits if_splits)
qed (simp add: orders_by_broker_id_def)

text \<open>The two agreements the engine looks for.\<close>

definition positions_agree :: "position list \<Rightarrow> position list \<Rightarrow> bool" where
  "positions_agree internal broker \<longleftrightarrow> (\<forall>k. net_position k internal = net_position k broker)"

definition orders_agree :: "order_state list \<Rightarrow> order_state list \<Rightarrow> bool" where
  "orders_agree internal broker \<longleftrightarrow>
     (\<forall>bo \<in> set broker. truthy (os_broker_id bo) \<longrightarrow>
        (\<exists>io. map_of (orders_by_broker_id internal) (the (os_broker_id bo)) = Some io \<and> \<not> order_parameters_differ io bo))
     \<and> (\<forall>io \<in> set internal. truthy (os_broker_id io) \<longrightarrow> (\<exists>bo \<in> set broker. os_broker_id bo = os_broker_id io))"

lemma position_detail_None:
  "position_detail (by_contract ips) (by_contract bps) k = None \<longleftrightarrow> net_position k ips = net_position k bps"
  by (auto simp: position_detail_def net_qty_default Let_def)

lemma position_detail_severe:
  "(\<exists>d. position_detail (by_contract ips) (by_contract bps) k = Some d \<and> severe d)
    \<longleftrightarrow> net_position k ips \<noteq> net_position k bps \<and> net_position k ips \<noteq> 0"
  by (auto simp: position_detail_def net_qty_default severe_def Let_def)

lemma in_position_keys:
  "k \<in> set (position_keys (by_contract ips) (by_contract bps)) \<or> net_position k ips = 0 \<and> net_position k bps = 0"
  using net_position_absent [of k ips] net_position_absent [of k bps] by (auto simp: position_keys_def)

lemma broker_detail_None:
  "broker_order_detail (orders_by_broker_id internal) bo = None \<longleftrightarrow> (truthy (os_broker_id bo) \<longrightarrow>
     (\<exists>io. map_of (orders_by_broker_id internal) (the (os_broker_id bo)) = Some io \<and> \<not> order_parameters_differ io bo))"
  by (auto simp: broker_order_detail_def split: option.splits)

lemma missing_detail_None:
  "missing_order_detail ids io = None \<longleftrightarrow> (truthy (os_broker_id io) \<longrightarrow> the (os_broker_id io) \<in> ids)"
  by (auto simp: missing_order_detail_def split: option.splits)

lemma order_details_not_severe:
  "broker_order_detail known bo = Some d \<Longrightarrow> \<not> severe d" "missing_order_detail ids io = Some d \<Longrightarrow> \<not> severe d"
  by (auto simp: broker_order_detail_def missing_order_detail_def severe_def split: option.splits if_splits)

lemma reconcile_report:
  "\<exists>report es'. reconcile now (Inr bps) (Inr bos) ios book ovm es =
      (Inr report, (if \<exists>k. net_position k (get_open_positions book) \<noteq> net_position k bps
                         \<and> net_position k (get_open_positions book) \<noteq> 0
                    then snd (lock_system ovm) else ovm), es')
    \<and> (rr_is_clean report \<longleftrightarrow> positions_agree (get_open_positions book) bps \<and> orders_agree ios bos)
    \<and> (rr_mismatches report = 0 \<longleftrightarrow> rr_is_clean report)"
proof -
  let ?ips = "get_open_positions book"
  let ?i = "by_contract ?ips" and ?b = "by_contract bps"
  let ?ids = "set (filter (\<lambda>b. b \<noteq> []) (List.map_filter os_broker_id bos))"
  let ?pd = "collect_details (position_detail ?i ?b) (position_keys ?i ?b)"
  let ?bd = "collect_details (broker_order_detail (orders_by_broker_id ios)) bos"
  let ?md = "collect_details (missing_order_detail ?ids) ios"
  have p: "?pd = [] \<longleftrightarrow> positions_agree ?ips bps"
    unfolding collect_empty position_detail_None positions_agree_def using in_position_keys [of _ ?ips bps] by metis
  have "?md = [] \<longleftrightarrow> (\<forall>io \<in> set ios. truthy (os_broker_id io) \<longrightarrow> (\<exists>bo \<in> set bos. os_broker_id bo = os_broker_id io))"
    unfolding collect_empty missing_detail_None by (auto simp: map_filter_def elim!: truthyE) force+
  then have o: "?bd = [] \<and> ?md = [] \<longleftrightarrow> orders_agree ios bos"
    unfolding orders_agree_def collect_empty broker_detail_None by blast
  have "filter severe (?pd @ ?bd @ ?md) \<noteq> [] \<longleftrightarrow> (\<exists>d \<in> set ?pd. severe d)"
    using order_details_not_severe by (auto simp: filter_empty_conv collect_set)
  also have "\<dots> \<longleftrightarrow> (\<exists>k \<in> set (position_keys ?i ?b). \<exists>d. position_detail ?i ?b k = Some d \<and> severe d)"
    unfolding Bex_def collect_set by blast
  also have "\<dots> \<longleftrightarrow> (\<exists>k. net_position k ?ips \<noteq> net_position k bps \<and> net_position k ?ips \<noteq> 0)"
    unfolding position_detail_severe using in_position_keys [of _ ?ips bps] by metis
  finally have s: "filter severe (?pd @ ?bd @ ?md) \<noteq> []
      \<longleftrightarrow> (\<exists>k. net_position k ?ips \<noteq> net_position k bps \<and> net_position k ?ips \<noteq> 0)" .
  show ?thesis
    unfolding reconcile_def sum.case Let_def s using p o by simp
qed

text \<open>The engine on its own does not lock for every mismatch: a position that only the broker has is
  reported as a mismatch and leaves the switches as they are. (What the runner makes of the report is in
  \<^verbatim>\<open>Runner_State\<close>.)\<close>

lemma broker_only_position_does_not_lock:
  assumes "\<And>k. net_position k (get_open_positions book) \<noteq> net_position k bps \<Longrightarrow> net_position k (get_open_positions book) = 0"
    and "net_position k (get_open_positions book) \<noteq> net_position k bps"
  shows "\<exists>report es'. reconcile now (Inr bps) (Inr bos) ios book ovm es = (Inr report, ovm, es')
    \<and> \<not> rr_is_clean report \<and> rr_mismatches report \<noteq> 0"
proof -
  have no: "\<not> (\<exists>k. net_position k (get_open_positions book) \<noteq> net_position k bps \<and> net_position k (get_open_positions book) \<noteq> 0)"
    using assms(1) by blast
  have "\<not> positions_agree (get_open_positions book) bps" using assms(2) unfolding positions_agree_def by blast
  with reconcile_report [of now bps bos ios book ovm es, unfolded if_not_P [OF no]] show ?thesis by blast
qed

end
