(* ===== verification/Manual_Control.thy ===== *)
theory Manual_Control
  imports Reconciliation
begin

text \<open>
  \<^verbatim>\<open>src/control/manual_control.py\<close>: the operator's commands. The service holds references to the
  components it is given, and all of them log to one event store: \<open>components\<close> keeps the store
  once, and \<open>on_orders\<close>, \<open>on_book\<close> lend it to a component for the time of a call. The broker's
  \<open>cancel_order\<close> is the argument \<open>cancel\<close>: it maps the broker id and the components at the await to the
  reply and to the components as the callbacks delivered meanwhile left them, the book included.
\<close>

record components =
  cp_orders :: order_manager
  cp_book :: position_book
  cp_overrides :: override_manager
  cp_store :: event_store

definition on_orders :: "(order_manager \<Rightarrow> 'a \<times> order_manager) \<Rightarrow> components \<Rightarrow> 'a \<times> components" where
  "on_orders f c = (case f ((cp_orders c)\<lparr>om_store := cp_store c\<rparr>) of
     (r, om) \<Rightarrow> (r, c\<lparr>cp_orders := om, cp_store := om_store om\<rparr>))"

definition on_book :: "(position_book \<Rightarrow> 'a \<times> position_book) \<Rightarrow> components \<Rightarrow> 'a \<times> components" where
  "on_book f c = (case f ((cp_book c)\<lparr>pb_store := cp_store c\<rparr>) of
     (r, b) \<Rightarrow> (r, c\<lparr>cp_book := b, cp_store := pb_store b\<rparr>))"

definition on_overrides :: "(override_manager \<Rightarrow> 'a \<times> override_manager) \<Rightarrow> components \<Rightarrow> 'a \<times> components" where
  "on_overrides f c = (case f (cp_overrides c) of (r, m) \<Rightarrow> (r, c\<lparr>cp_overrides := m\<rparr>))"

type_synonym broker_cancel = "string \<Rightarrow> components \<Rightarrow> (py_error + bool) \<times> components"

definition cancel_order :: "instant \<Rightarrow> broker_cancel \<Rightarrow> uuid \<Rightarrow> bool \<Rightarrow> components \<Rightarrow> bool \<times> components" where
  "cancel_order now cancel oid hard c = (case on_orders (cancel_request now oid hard) c of
     (Cancel_Done r, c1) \<Rightarrow> (r, c1)
   | (Cancel_Await bid, c1) \<Rightarrow> (case cancel bid c1 of (reply, c2) \<Rightarrow> on_orders (cancel_finish now oid reply) c2))"

definition log_action ::
  "instant \<Rightarrow> string \<Rightarrow> string \<Rightarrow> fstr option \<Rightarrow> (string \<times> farg) list \<Rightarrow> fstr \<Rightarrow> components \<Rightarrow> components" where
  "log_action now operator command target params result c =
     c\<lparr>cp_store := log_callback ''manual_override'' (P_Override \<lparr>mo_command = command, mo_target = target,
        mo_parameters = params, mo_operator = operator, mo_result = Some result\<rparr>) now (cp_store c)\<rparr>"

definition active_order_ids :: "order_manager \<Rightarrow> uuid list" where
  "active_order_ids om = map os_id (filter (\<lambda>o'. os_status o' \<notin> {FILLED, CANCELLED, REJECTED, ERROR}) (dict_values (om_orders om)))"

record system_status =
  st_locked :: bool
  st_reduce_only :: bool
  st_paused :: "string list"
  st_disabled :: "string list"
  st_reduce_strategies :: "string list"
  st_open_positions :: nat
  st_active_orders :: nat

definition manual_status :: "instant \<Rightarrow> string \<Rightarrow> components \<Rightarrow> system_status \<times> components" where
  "manual_status now operator c =
     (let ov = ovm_state (cp_overrides c)
      in (\<lparr>st_locked = ov_system_locked ov, st_reduce_only = ov_reduce_only ov, st_paused = ov_paused ov,
           st_disabled = ov_disabled_symbols ov, st_reduce_strategies = ov_reduce_only_strategies ov,
           st_open_positions = length (get_open_positions (cp_book c)),
           st_active_orders = length (active_order_ids (cp_orders c))\<rparr>,
          log_action now operator ''status'' None [] (lit ''ok'') c))"

text \<open>The commands that switch one override: do it, name the result, log it.\<close>

definition manual_toggle ::
  "instant \<Rightarrow> string \<Rightarrow> string \<Rightarrow> fstr option \<Rightarrow> string \<Rightarrow> string \<Rightarrow> (override_manager \<Rightarrow> bool \<times> override_manager)
     \<Rightarrow> components \<Rightarrow> string \<times> components" where
  "manual_toggle now operator command target yes no f c =
     (case on_overrides f c of (changed, c1) \<Rightarrow>
        let result = (if changed then yes else no)
        in (result, log_action now operator command target [] (lit result) c1))"

definition manual_pause_strategy :: "instant \<Rightarrow> string \<Rightarrow> string \<Rightarrow> components \<Rightarrow> string \<times> components" where
  "manual_pause_strategy now operator sid =
     manual_toggle now operator ''pause-strategy'' (Some (lit sid)) ''paused'' ''already_paused'' (pause_strategy sid)"

definition manual_resume_strategy :: "instant \<Rightarrow> string \<Rightarrow> string \<Rightarrow> components \<Rightarrow> string \<times> components" where
  "manual_resume_strategy now operator sid =
     manual_toggle now operator ''resume-strategy'' (Some (lit sid)) ''resumed'' ''not_paused'' (resume_strategy sid)"

definition manual_disable_symbol :: "instant \<Rightarrow> string \<Rightarrow> string \<Rightarrow> components \<Rightarrow> string \<times> components" where
  "manual_disable_symbol now operator symb =
     manual_toggle now operator ''disable-symbol'' (Some (lit symb)) ''disabled'' ''already_disabled'' (disable_symbol symb)"

definition manual_enable_symbol :: "instant \<Rightarrow> string \<Rightarrow> string \<Rightarrow> components \<Rightarrow> string \<times> components" where
  "manual_enable_symbol now operator symb =
     manual_toggle now operator ''enable-symbol'' (Some (lit symb)) ''enabled'' ''not_disabled'' (enable_symbol symb)"

definition manual_reduce_only :: "instant \<Rightarrow> string \<Rightarrow> string option \<Rightarrow> components \<Rightarrow> string \<times> components" where
  "manual_reduce_only now operator sid =
     manual_toggle now operator ''reduce-only'' (Some (lit (if truthy sid then the sid else ''global'')))
       ''reduce_only_enabled'' ''already_reduce_only'' (set_reduce_only True sid)"

definition manual_lock_system :: "instant \<Rightarrow> string \<Rightarrow> components \<Rightarrow> string \<times> components" where
  "manual_lock_system now operator =
     manual_toggle now operator ''lock-system'' None ''locked'' ''already_locked'' lock_system"

section \<open>Flattening\<close>

definition flatten_position ::
  "instant \<Rightarrow> string \<Rightarrow> uuid \<Rightarrow> pyfloat \<Rightarrow> components \<Rightarrow> string \<times> components" where
  "flatten_position now operator pid price c =
     (case on_book (force_close_position now pid price now) c of (pos, c1) \<Rightarrow>
        let result = (if pos = None then ''position_not_found_or_already_closed'' else ''flattened'')
        in (result, log_action now operator ''flatten-position'' (Some (Fstr ''{}'' [FId pid]))
              [(''exit_price'', FFloat price)] (lit result) c1))"

definition force_close_all :: "instant \<Rightarrow> pyfloat \<Rightarrow> position list \<Rightarrow> position_book \<Rightarrow> unit \<times> position_book" where
  "force_close_all now price ps b = ((), fold (\<lambda>p b. snd (force_close_position now (ps_id p) price now b)) ps b)"

definition flatten_positions ::
  "instant \<Rightarrow> string \<Rightarrow> string \<Rightarrow> fstr option \<Rightarrow> pyfloat \<Rightarrow> position list \<Rightarrow> components \<Rightarrow> fstr \<times> components" where
  "flatten_positions now operator command target price ps c =
     (if ps = [] then
        (lit ''no_open_positions'', log_action now operator command target [(''exit_price'', FFloat price)] (lit ''no_open_positions'') c)
      else (case on_book (force_close_all now price ps) c of (u, c1) \<Rightarrow>
        let result = Fstr ''flattened_{}_positions'' [FInt (int (length ps))]
        in (result, log_action now operator command target
              [(''exit_price'', FFloat price), (''count'', FInt (int (length ps)))] result c1)))"

definition flatten_strategy :: "instant \<Rightarrow> string \<Rightarrow> string \<Rightarrow> pyfloat \<Rightarrow> components \<Rightarrow> fstr \<times> components" where
  "flatten_strategy now operator sid price c = flatten_positions now operator ''flatten-strategy'' (Some (lit sid)) price
     (filter (\<lambda>p. ps_strategy p = sid) (get_open_positions (cp_book c))) c"

definition flatten_all :: "instant \<Rightarrow> string \<Rightarrow> pyfloat \<Rightarrow> components \<Rightarrow> fstr \<times> components" where
  "flatten_all now operator price c =
     flatten_positions now operator ''flatten-all'' None price (get_open_positions (cp_book c)) c"

section \<open>Cancelling\<close>

definition manual_cancel_order ::
  "instant \<Rightarrow> string \<Rightarrow> broker_cancel \<Rightarrow> uuid \<Rightarrow> components \<Rightarrow> string \<times> components" where
  "manual_cancel_order now operator cancel oid c =
     (case cancel_order now cancel oid True c of (ok, c1) \<Rightarrow>
        let result = (if ok then ''cancelled'' else ''cancel_failed_or_not_found'')
        in (result, log_action now operator ''cancel-order'' (Some (Fstr ''{}'' [FId oid])) [] (lit result) c1))"

fun cancel_orders ::
  "instant \<Rightarrow> broker_cancel \<Rightarrow> uuid list \<Rightarrow> components \<Rightarrow> nat \<times> components" where
  "cancel_orders now cancel [] c = (0, c)"
| "cancel_orders now cancel (i # is) c = (case cancel_order now cancel i True c of (ok, c1) \<Rightarrow>
     (case cancel_orders now cancel is c1 of (n, c2) \<Rightarrow> (if ok then Suc n else n, c2)))"

definition cancel_all :: "instant \<Rightarrow> string \<Rightarrow> broker_cancel \<Rightarrow> components \<Rightarrow> fstr \<times> components" where
  "cancel_all now operator cancel c =
     (let ids = active_order_ids (cp_orders c)
      in if ids = [] then
           (lit ''no_active_orders'', log_action now operator ''cancel-all'' None [] (lit ''no_active_orders'') c)
         else (case cancel_orders now cancel ids c of (n, c1) \<Rightarrow>
           let result = Fstr ''cancelled_{}_orders'' [FInt (int n)]
           in (result, log_action now operator ''cancel-all'' None [(''count'', FInt (int n))] result c1)))"

section \<open>Lemmas\<close>

lemma force_close_in:
  assumes "book_ok b" "map_of (pb_positions b) pid = Some p" "ps_status p \<noteq> CLOSED"
  shows "force_close_position now pid price ts b = (Some (force_closed price ts p), snd (force_close_position now pid price ts b))"
    and "pb_positions (snd (force_close_position now pid price ts b)) = AList.update pid (force_closed price ts p) (pb_positions b)"
proof -
  have "ps_id p = pid" using assms(1,2) by (auto simp: book_ok_def keyed_by_def)
  then show "force_close_position now pid price ts b = (Some (force_closed price ts p), snd (force_close_position now pid price ts b))"
    and "pb_positions (snd (force_close_position now pid price ts b)) = AList.update pid (force_closed price ts p) (pb_positions b)"
    using assms(2,3) by (simp_all add: force_close_position_def Let_def force_closed_def)
qed

lemma force_close_ok: "book_ok b \<Longrightarrow> book_ok (snd (force_close_position now pid price ts b))"
  by (rule book_step_ok [OF step_force])

lemma force_close_other:
  "book_ok b \<Longrightarrow> i \<noteq> pid \<Longrightarrow>
   map_of (pb_positions (snd (force_close_position now pid price ts b))) i = map_of (pb_positions b) i"
  by (cases "map_of (pb_positions b) pid")
    (auto simp: force_close_position_def Let_def force_closed_def book_ok_def keyed_by_def)

lemma force_close_all_other:
  "book_ok b \<Longrightarrow> i \<notin> ps_id ` set ps \<Longrightarrow>
   map_of (pb_positions (snd (force_close_all now price ps b))) i = map_of (pb_positions b) i"
proof (induction ps arbitrary: b)
  case (Cons p ps)
  from Cons.IH [OF force_close_ok [OF Cons.prems(1), of now "ps_id p" price now]] Cons.prems
  show ?case using force_close_other [OF Cons.prems(1), of i "ps_id p" now price now]
    by (simp add: force_close_all_def)
qed (simp add: force_close_all_def)

lemma force_close_all_closed:
  assumes "book_ok b" "distinct (map ps_id ps)" "p \<in> set ps"
    and "\<forall>p \<in> set ps. map_of (pb_positions b) (ps_id p) = Some p \<and> ps_status p \<noteq> CLOSED"
  shows "map_of (pb_positions (snd (force_close_all now price ps b))) (ps_id p) = Some (force_closed price now p)"
  using assms
proof (induction ps arbitrary: b)
  case (Cons q ps)
  let ?b = "snd (force_close_position now (ps_id q) price now b)"
  have b: "book_ok ?b" by (rule force_close_ok [OF Cons.prems(1)])
  have c: "snd (force_close_all now price (q # ps) b) = snd (force_close_all now price ps ?b)"
    by (simp add: force_close_all_def)
  show ?case
  proof (cases "p = q")
    case True
    have "ps_id q \<notin> ps_id ` set ps" using Cons.prems(2) by simp
    from force_close_all_other [OF b this, of now price] True Cons.prems show ?thesis
      unfolding c by (simp add: force_close_in(2) [OF Cons.prems(1)])
  next
    case False
    have "map_of (pb_positions ?b) (ps_id x) = Some x \<and> ps_status x \<noteq> CLOSED" if "x \<in> set ps" for x
    proof -
      have "ps_id x \<noteq> ps_id q" using Cons.prems(2) that by (metis distinct.simps(2) image_eqI list.simps(9) list.set_map)
      then show ?thesis using force_close_other [OF Cons.prems(1)] Cons.prems(4) that by simp
    qed
    with Cons.IH [OF b] Cons.prems False show ?thesis unfolding c by simp
  qed
qed simp

lemma open_positions_distinct: "book_ok b \<Longrightarrow> distinct (map ps_id (get_open_positions b))"
proof -
  assume ok: "book_ok b"
  have "map ps_id (dict_values (pb_positions b)) = map fst (pb_positions b)"
    using ok by (auto simp: book_ok_def keyed_by_def dict_values_def wf_dict_def)
  then have "distinct (map ps_id (dict_values (pb_positions b)))" using ok by (simp add: book_ok_def keyed_by_def wf_dict_def)
  then show ?thesis by (simp add: get_open_positions_def distinct_map_filter)
qed

section \<open>Properties\<close>

text \<open>\<open>flatten-all\<close> leaves nothing open. Every position that was open is closed with nothing left
  and has realized its profit at the given price, every other position is untouched, and the
  command reports the number of positions it closed.\<close>

lemma flatten_all_closes:
  assumes "book_ok (cp_book c)" "flatten_all now operator price c = (result, c')"
  shows "get_open_positions (cp_book c') = []
    \<and> (\<forall>p \<in> set (get_open_positions (cp_book c)).
         map_of (pb_positions (cp_book c')) (ps_id p) = Some (force_closed price now p))
    \<and> (\<forall>i. i \<notin> ps_id ` set (get_open_positions (cp_book c)) \<longrightarrow>
         map_of (pb_positions (cp_book c')) i = map_of (pb_positions (cp_book c)) i)
    \<and> (get_open_positions (cp_book c) \<noteq> [] \<longrightarrow>
         result = Fstr ''flattened_{}_positions'' [FInt (int (length (get_open_positions (cp_book c))))])"
proof -
  let ?ps = "get_open_positions (cp_book c)" and ?b = "(cp_book c)\<lparr>pb_store := cp_store c\<rparr>"
  have frame: "pb_positions (cp_book (log_action now operator k t ps r x)) = pb_positions (cp_book x)" for k t ps r x
    by (simp add: log_action_def)
  have b: "book_ok ?b" using assms(1) by (simp add: book_ok_def)
  have fin: "pb_positions (cp_book c') = pb_positions (snd (force_close_all now price ?ps ?b))"
    using assms(2) by (auto simp: flatten_all_def flatten_positions_def frame on_book_def force_close_all_def Let_def split: if_splits prod.splits)
  have "\<forall>p \<in> set ?ps. map_of (pb_positions ?b) (ps_id p) = Some p \<and> ps_status p \<noteq> CLOSED"
  proof
    fix p assume "p \<in> set ?ps"
    note q = open_positions_in_book [OF assms(1) this]
    then have "ps_status p \<noteq> CLOSED" by (cases "ps_status p") (simp_all add: open_status_def)
    with q(1) show "map_of (pb_positions ?b) (ps_id p) = Some p \<and> ps_status p \<noteq> CLOSED" by simp
  qed
  then have closed: "map_of (pb_positions (cp_book c')) (ps_id p) = Some (force_closed price now p)" if "p \<in> set ?ps" for p
    using force_close_all_closed [OF b open_positions_distinct [OF assms(1)] that] fin by simp
  have other: "map_of (pb_positions (cp_book c')) i = map_of (pb_positions (cp_book c)) i" if "i \<notin> ps_id ` set ?ps" for i
    using force_close_all_other [OF b that] fin by simp
  have all_ok: "book_ok (snd (force_close_all now price xs z))" if "book_ok z" for xs z
    using that by (induction xs arbitrary: z) (auto simp: force_close_all_def force_close_ok)
  have ok': "book_ok (cp_book c')" using all_ok [OF b, of ?ps] unfolding book_ok_def fin .
  have "p \<notin> set (get_open_positions (cp_book c'))" for p
  proof
    assume p: "p \<in> set (get_open_positions (cp_book c'))"
    note q = open_positions_in_book [OF ok' p]
    show False
    proof (cases "ps_id p \<in> ps_id ` set ?ps")
      case True
      with closed q show False by (auto simp: force_closed_def open_status_def)
    next
      case False
      with other q have "map_of (pb_positions (cp_book c)) (ps_id p) = Some p" by simp
      with assms(1) have "p \<in> set (dict_values (pb_positions (cp_book c)))"
        using in_values_iff [of "pb_positions (cp_book c)" p] by (auto simp: book_ok_def keyed_by_def)
      with q(2) have "p \<in> set ?ps" by (simp add: get_open_positions_def)
      with False show False by blast
    qed
  qed
  then have "get_open_positions (cp_book c') = []" by (metis list.set_intros(1) neq_Nil_conv)
  with closed other assms(2) show ?thesis
    by (auto simp: flatten_all_def flatten_positions_def Let_def split: prod.splits)
qed

definition sample_components :: components where
  "sample_components = \<lparr>cp_orders = new_manager new_store,
     cp_book = run_fills 1 [(5, sample_fill BUY 2 1)] (new_book new_store),
     cp_overrides = \<lparr>ovm_state = default_overrides, ovm_path = False, ovm_writable = True, ovm_file = None\<rparr>,
     cp_store = new_store\<rparr>"

theorem flatten_all_closes_witness:
  "\<exists>c'. flatten_all 9 ''op'' 3 sample_components = (Fstr ''flattened_{}_positions'' [FInt 1], c')
     \<and> get_open_positions (cp_book c') = []"
proof -
  have "list_all valid_fill (map snd [(5 :: instant, sample_fill BUY 2 1)])" by code_simp
  then have ok: "book_ok (cp_book sample_components)"
    unfolding sample_components_def components.simps by (intro run_fills_ok new_book_ok)
  obtain r c' where f: "flatten_all 9 ''op'' 3 sample_components = (r, c')" by (cases "flatten_all 9 ''op'' 3 sample_components")
  have n: "length (get_open_positions (cp_book sample_components)) = 1" by code_simp
  then have ne: "get_open_positions (cp_book sample_components) \<noteq> []" by force
  from flatten_all_closes [OF ok f] n ne f show ?thesis by simp
qed

text \<open>A position that is closed already is reported as flattened: \<open>force_close_position\<close> returns it
  rather than \<open>None\<close>.\<close>

lemma flatten_closed_position_says_flattened:
  assumes "map_of (pb_positions (cp_book c)) pid = Some p" "ps_status p = CLOSED"
  shows "fst (flatten_position now operator pid price c) = ''flattened''"
  using assms by (simp add: flatten_position_def on_book_def force_close_position_def Let_def)

end
