(* ===== verification/Command_Queue.thy ===== *)
theory Command_Queue
  imports Core_Model
begin

text \<open>
  \<^verbatim>\<open>src/control/command_queue.py\<close>: the durable command table between the dashboard and the
  runner. The table is the list of its rows in insertion order; the SQL \<open>ORDER BY created_at\<close> is
  a stable sort by the time of insertion (SQLite leaves the order of equal times open). JSON
  encoding of the payload is a library matter: the table holds the payload itself.
\<close>

datatype command_status = Pending | Done | Failed

record command_row =
  cr_id :: uuid
  cr_type :: string
  cr_payload :: "(string \<times> farg) list"
  cr_status :: command_status
  cr_created :: instant
  cr_processed :: "instant option"
  cr_result :: "string option"

type_synonym command_table = "command_row list"

definition valid_command_types :: "string list" where
  "valid_command_types = [''exit_position'', ''cancel_order'', ''pause_strategy'', ''flatten_all'',
     ''update_strategy'', ''unlock_system'', ''lock_system'', ''restart_runner'',
     ''shutdown_runner'', ''fire_straddle'']"

definition enqueue ::
  "string \<Rightarrow> (string \<times> farg) list \<Rightarrow> uuid \<Rightarrow> instant \<Rightarrow> command_table \<Rightarrow> py_error + uuid \<times> command_table" where
  "enqueue typ payload fresh now t =
     (if typ \<notin> set valid_command_types
      then Inl (Value_Error (Fstr ''Unknown command type: {}'' [FStr typ]))
      else Inr (fresh, t @ [\<lparr>cr_id = fresh, cr_type = typ, cr_payload = payload, cr_status = Pending,
                             cr_created = now, cr_processed = None, cr_result = None\<rparr>]))"

definition fetch_pending :: "nat \<Rightarrow> command_table \<Rightarrow> command_row list" where
  "fetch_pending limit t =
     take limit (sort_key cr_created (filter (\<lambda>r. cr_status r = Pending) t))"

text \<open>\<open>mark(id, status, result)\<close>: the two terminal statuses by their database text.\<close>

definition terminal_of_text :: "string \<Rightarrow> command_status option" where
  "terminal_of_text s = (if s = ''done'' then Some Done else if s = ''failed'' then Some Failed else None)"

definition mark_row :: "uuid \<Rightarrow> command_status \<Rightarrow> string \<Rightarrow> instant \<Rightarrow> command_row \<Rightarrow> command_row" where
  "mark_row cid st result now r = (if cr_id r = cid
     then r\<lparr>cr_status := st, cr_processed := Some now, cr_result := Some (take 500 result)\<rparr> else r)"

definition mark ::
  "uuid \<Rightarrow> string \<Rightarrow> string \<Rightarrow> instant \<Rightarrow> command_table \<Rightarrow> py_error + command_table" where
  "mark cid status result now t =
     (case terminal_of_text status of
        None \<Rightarrow> Inl (Value_Error (Fstr ''Invalid terminal status: {}'' [FStr status]))
      | Some st \<Rightarrow> Inr (map (mark_row cid st result now) t))"

text \<open>\<open>ORDER BY created_at DESC LIMIT\<close>.\<close>

definition recent :: "nat \<Rightarrow> command_table \<Rightarrow> command_row list" where
  "recent limit t = take limit (rev (sort_key cr_created t))"

section \<open>The lifecycle\<close>

definition pending_ids :: "command_table \<Rightarrow> uuid set" where
  "pending_ids t = {cr_id r |r. r \<in> set t \<and> cr_status r = Pending}"

definition table_ok :: "command_table \<Rightarrow> bool" where
  "table_ok t \<longleftrightarrow> distinct (map cr_id t)
     \<and> (\<forall>r \<in> set t. cr_type r \<in> set valid_command_types
          \<and> (cr_status r = Pending \<longleftrightarrow> cr_processed r = None))"

lemma mark_row_simps [simp]:
  "cr_id (mark_row cid st res now r) = cr_id r" "cr_type (mark_row cid st res now r) = cr_type r"
  "cr_payload (mark_row cid st res now r) = cr_payload r"
  "cr_status (mark_row cid st res now r) = (if cr_id r = cid then st else cr_status r)"
  "cr_processed (mark_row cid st res now r) = (if cr_id r = cid then Some now else cr_processed r)"
  by (simp_all add: mark_row_def)

lemma markE:
  assumes "mark cid status res now t = Inr t'"
  obtains st where "st \<noteq> Pending" "t' = map (mark_row cid st res now) t"
  using assms by (auto simp: mark_def terminal_of_text_def split: if_splits)

lemma mark_pending_ids:
  assumes "mark cid status res now t = Inr t'"
  shows "pending_ids t' = pending_ids t - {cid}"
proof (rule markE [OF assms])
  fix st assume st: "st \<noteq> Pending" and t': "t' = map (mark_row cid st res now) t"
  have pend: "cr_status (mark_row cid st res now r) = Pending
      \<longleftrightarrow> cr_id r \<noteq> cid \<and> cr_status r = Pending" for r
    using st by simp
  have img: "pending_ids u = cr_id ` {r \<in> set u. cr_status r = Pending}" for u
    by (auto simp: pending_ids_def)
  have "{r \<in> set t'. cr_status r = Pending}
      = mark_row cid st res now ` {r \<in> set t. cr_id r \<noteq> cid \<and> cr_status r = Pending}"
    unfolding t' set_map by (auto simp del: mark_row_simps(4) simp add: pend)
  then have "pending_ids t' = cr_id ` {r \<in> set t. cr_id r \<noteq> cid \<and> cr_status r = Pending}"
    unfolding img [of t'] by (simp add: image_image)
  then show ?thesis unfolding img [of t] by auto
qed

inductive table_step :: "command_table \<Rightarrow> command_table \<Rightarrow> bool" where
  table_enqueue: "fresh \<notin> set (map cr_id t) \<Longrightarrow> enqueue ty p fresh now t = Inr (fresh, t') \<Longrightarrow> table_step t t'"
| table_mark: "mark cid st res now t = Inr t' \<Longrightarrow> table_step t t'"

lemma table_step_ok: "table_step t t' \<Longrightarrow> table_ok t \<Longrightarrow> table_ok t'"
proof (induction rule: table_step.induct)
  case (table_enqueue fresh t ty p now t')
  then show ?case by (auto simp: enqueue_def table_ok_def split: if_splits)
next
  case (table_mark cid st res now t t')
  from table_mark(1) show ?case
    by (rule markE) (use table_mark(2) in \<open>simp add: table_ok_def comp_def\<close>)
qed

interpretation commands: step_invariant "\<lambda>t. t = []" table_step table_ok
  by unfold_locales (simp add: table_ok_def, rule table_step_ok)

text \<open>Rows are never dropped: a step keeps every id and every payload.\<close>

lemma table_step_keeps:
  "table_step t t' \<Longrightarrow> r \<in> set t \<Longrightarrow>
     \<exists>r' \<in> set t'. cr_id r' = cr_id r \<and> cr_type r' = cr_type r \<and> cr_payload r' = cr_payload r"
proof (induction rule: table_step.induct)
  case (table_enqueue fresh t ty p now t')
  then show ?case by (auto simp: enqueue_def split: if_splits)
next
  case (table_mark cid st res now t t')
  from table_mark(1) show ?case
    by (rule markE) (use table_mark(2) in force)
qed

lemma filter_pending_set: "set (fetch_pending n t) \<subseteq> {r \<in> set t. cr_status r = Pending}"
  by (auto simp: fetch_pending_def dest: in_set_takeD)

section \<open>Properties\<close>

text \<open>What the runner fetches are pending commands only, at most \<open>limit\<close> of them, oldest
  first, and no pending command that is not fetched is older than one that is; with a limit at
  least the number of pending commands, every one of them is fetched.\<close>

lemma fetch_pending_oldest:
  "set (fetch_pending limit t) \<subseteq> {r \<in> set t. cr_status r = Pending}
   \<and> length (fetch_pending limit t) \<le> limit
   \<and> sorted (map cr_created (fetch_pending limit t))
   \<and> (\<forall>r \<in> set t. cr_status r = Pending \<longrightarrow>
        r \<in> set (fetch_pending limit t)
        \<or> length (fetch_pending limit t) = limit
          \<and> (\<forall>f \<in> set (fetch_pending limit t). cr_created f \<le> cr_created r))"
proof (intro conjI ballI impI)
  let ?s = "sort_key cr_created (filter (\<lambda>r. cr_status r = Pending) t)"
  have srt: "sorted (map cr_created ?s)" by simp
  show "set (fetch_pending limit t) \<subseteq> {r \<in> set t. cr_status r = Pending}"
    by (rule filter_pending_set)
  show "length (fetch_pending limit t) \<le> limit" by (simp add: fetch_pending_def)
  show "sorted (map cr_created (fetch_pending limit t))"
    unfolding fetch_pending_def take_map [symmetric] using srt by (rule sorted_wrt_take)
  fix r assume r: "r \<in> set t" "cr_status r = Pending"
  then have "r \<in> set ?s" by simp
  then have "r \<in> set (take limit ?s) \<or> r \<in> set (drop limit ?s)"
    by (metis Un_iff append_take_drop_id set_append)
  moreover have "length (take limit ?s) = limit \<and> (\<forall>f \<in> set (take limit ?s). cr_created f \<le> cr_created r)"
    if "r \<in> set (drop limit ?s)"
  proof
    from that have "limit < length ?s" by (metis drop_all leI empty_iff set_empty)
    then show "length (take limit ?s) = limit" by simp
    have "sorted (map cr_created (take limit ?s @ drop limit ?s))" using srt by simp
    then show "\<forall>f \<in> set (take limit ?s). cr_created f \<le> cr_created r"
      using that by (simp only: map_append sorted_append) auto
  qed
  ultimately show "r \<in> set (fetch_pending limit t)
        \<or> length (fetch_pending limit t) = limit
          \<and> (\<forall>f \<in> set (fetch_pending limit t). cr_created f \<le> cr_created r)"
    by (auto simp: fetch_pending_def)
qed

definition sample_table :: command_table where
  "sample_table = [\<lparr>cr_id = 1, cr_type = ''flatten_all'', cr_payload = [], cr_status = Pending,
      cr_created = 20, cr_processed = None, cr_result = None\<rparr>,
    \<lparr>cr_id = 2, cr_type = ''lock_system'', cr_payload = [], cr_status = Pending,
      cr_created = 10, cr_processed = None, cr_result = None\<rparr>]"

theorem fetch_pending_oldest_witness:
  "map cr_id (fetch_pending 1 sample_table) = [2] \<and> length (fetch_pending 1 sample_table) \<le> 1"
proof
  show "map cr_id (fetch_pending 1 sample_table) = [2]" by code_simp
  show "length (fetch_pending 1 sample_table) \<le> 1"
    using fetch_pending_oldest [of 1 sample_table] by blast
qed

text \<open>In every table the system can build, starting from the empty one, ids are unique and a
  command is pending exactly while it has no processing time; marking a command takes precisely
  that command out of the pending ones, so it is never fetched again.\<close>

lemma command_lifecycle:
  assumes "table_step\<^sup>*\<^sup>* [] t" and "mark cid st res now t = Inr t'"
  shows "distinct (map cr_id t') \<and> pending_ids t' = pending_ids t - {cid}
    \<and> (\<forall>n. \<forall>r \<in> set (fetch_pending n t'). cr_id r \<noteq> cid \<and> cr_processed r = None)"
proof -
  have "table_ok t" using assms(1) by (rule commands.inv_reachable [OF refl])
  then have ok: "table_ok t'" using table_mark [OF assms(2)] by (blast intro: table_step_ok)
  have p: "pending_ids t' = pending_ids t - {cid}" using assms(2) by (rule mark_pending_ids)
  have "cr_id r \<noteq> cid \<and> cr_processed r = None" if "r \<in> set (fetch_pending n t')" for n r
  proof -
    from that filter_pending_set have r: "r \<in> set t'" "cr_status r = Pending" by fast+
    then have "cr_id r \<in> pending_ids t'" by (auto simp: pending_ids_def)
    with p r ok show ?thesis by (auto simp: table_ok_def)
  qed
  with ok p show ?thesis by (auto simp: table_ok_def)
qed

theorem command_lifecycle_witness:
  "\<exists>t t'. table_step\<^sup>*\<^sup>* [] t \<and> mark 1 ''done'' ''ok'' 30 t = Inr t' \<and> pending_ids t' = pending_ids t - {1}"
proof -
  obtain t where e: "enqueue ''flatten_all'' [] 1 20 [] = Inr (1, t)"
    by (simp add: enqueue_def valid_command_types_def)
  have "table_step [] t" by (rule table_enqueue [OF _ e]) simp
  then have r: "table_step\<^sup>*\<^sup>* [] t" by simp
  obtain t' where m: "mark 1 ''done'' ''ok'' 30 t = Inr t'"
    by (simp add: mark_def terminal_of_text_def)
  from command_lifecycle [OF r m] r m show ?thesis by blast
qed

end
