(* ===== verification/Bars.thy ===== *)
theory Bars
  imports Data_Quality
begin

text \<open>
  \<^verbatim>\<open>src/marketdata/bars.py\<close>: folding ticks into one-minute bars of the New York clock. Two
  datetimes of one zone compare by their wall clocks, so a bar's minute is a number: the wall
  clock in New York divided by a minute. The zone's UTC offset at an instant is data of the tz
  database and the parameter \<open>ny\<close>. A deque with \<open>maxlen\<close> drops from its left end.
\<close>

type_synonym zone = "instant \<Rightarrow> int"

definition zone_minute :: "zone \<Rightarrow> instant \<Rightarrow> int" where
  "zone_minute ny t = (t + ny t) div us_per_minute"

text \<open>\<open>ts.replace(tzinfo=UTC)\<close> for a naive time, the instant of an aware one.\<close>

fun assume_utc :: "datetime \<Rightarrow> instant" where
  "assume_utc (Aware t off) = t"
| "assume_utc (Naive w) = w"

record bar =
  br_symbol :: quote_key
  br_minute :: int
  br_open :: pyfloat
  br_high :: pyfloat
  br_low :: pyfloat
  br_close :: pyfloat
  br_ticks :: int

definition bar_update :: "pyfloat \<Rightarrow> bar \<Rightarrow> bar" where
  "bar_update price b = b\<lparr>br_high := max (br_high b) price, br_low := min (br_low b) price,
     br_close := price, br_ticks := br_ticks b + 1\<rparr>"

record bar_builder =
  bb_working :: "(quote_key, bar) pydict"
  bb_completed :: "(quote_key, bar list) pydict"
  bb_max :: nat
  bb_persist_dir :: "string option"
  bb_persisted :: "bar list"

definition deque_append :: "nat \<Rightarrow> 'a \<Rightarrow> 'a list \<Rightarrow> 'a list" where
  "deque_append n x xs = drop (Suc (length xs) - n) (xs @ [x])"

definition persist :: "bar \<Rightarrow> bar_builder \<Rightarrow> bar_builder" where
  "persist b s = s\<lparr>bb_persisted := bb_persisted s @ [b]\<rparr>"

definition roll :: "quote_key \<Rightarrow> bar \<Rightarrow> bar_builder \<Rightarrow> bar_builder" where
  "roll sy b s =
     (let s' = s\<lparr>bb_completed := AList.update sy
                  (deque_append (bb_max s) b (dict_default (bb_completed s) sy [])) (bb_completed s)\<rparr>
      in if truthy (bb_persist_dir s) then persist b s' else s')"

definition first_bar :: "quote_key \<Rightarrow> int \<Rightarrow> pyfloat \<Rightarrow> bar" where
  "first_bar sy m price = \<lparr>br_symbol = sy, br_minute = m, br_open = price, br_high = price,
     br_low = price, br_close = price, br_ticks = 1\<rparr>"

definition start_bar :: "quote_key \<Rightarrow> int \<Rightarrow> pyfloat \<Rightarrow> bar_builder \<Rightarrow> bar_builder" where
  "start_bar sy m price s = s\<lparr>bb_working := AList.update sy (first_bar sy m price) (bb_working s)\<rparr>"

definition on_tick ::
  "zone \<Rightarrow> instant \<Rightarrow> quote_key \<Rightarrow> pyfloat option \<Rightarrow> datetime option \<Rightarrow> bar_builder \<Rightarrow> bar_builder" where
  "on_tick ny now sy price ts s =
     (case price of None \<Rightarrow> s | Some p \<Rightarrow>
        if p \<le> 0 then s
        else let m = zone_minute ny (case ts of None \<Rightarrow> now | Some d \<Rightarrow> assume_utc d)
             in (case map_of (bb_working s) sy of
                  None \<Rightarrow> start_bar sy m p s
                | Some b \<Rightarrow>
                    if br_minute b \<noteq> m then
                      (if br_minute b < m then start_bar sy m p (roll sy b s) else s)
                    else s\<lparr>bb_working := AList.update sy (bar_update p b) (bb_working s)\<rparr>))"

definition maybe_roll_stale_working ::
  "zone \<Rightarrow> instant \<Rightarrow> quote_key \<Rightarrow> datetime option \<Rightarrow> bar_builder \<Rightarrow> bar_builder" where
  "maybe_roll_stale_working ny clock sy now s =
     (case map_of (bb_working s) sy of None \<Rightarrow> s | Some b \<Rightarrow>
        let m = zone_minute ny (case now of None \<Rightarrow> clock | Some d \<Rightarrow> assume_utc d)
        in if br_minute b < m
           then let s' = roll sy b s in s'\<lparr>bb_working := AList.delete sy (bb_working s')\<rparr>
           else s)"

definition get_latest_completed_bar ::
  "zone \<Rightarrow> instant \<Rightarrow> quote_key \<Rightarrow> datetime option \<Rightarrow> bar_builder \<Rightarrow> bar option \<times> bar_builder" where
  "get_latest_completed_bar ny clock sy now s =
     (let s' = maybe_roll_stale_working ny clock sy now s
      in ((case map_of (bb_completed s') sy of
            None \<Rightarrow> None | Some dq \<Rightarrow> if dq = [] then None else Some (last dq)), s'))"

text \<open>The slice \<open>xs[-count:]\<close>; a count of 0 or less drops from the left instead.\<close>

definition py_suffix :: "int \<Rightarrow> 'a list \<Rightarrow> 'a list" where
  "py_suffix k xs =
     (if 0 < k then drop (length xs - nat k) xs else drop (nat (- k)) xs)"

definition get_completed_bars ::
  "zone \<Rightarrow> instant \<Rightarrow> quote_key \<Rightarrow> int \<Rightarrow> datetime option \<Rightarrow> bar_builder \<Rightarrow> bar list \<times> bar_builder" where
  "get_completed_bars ny clock sy k now s =
     (let s' = maybe_roll_stale_working ny clock sy now s
      in ((case map_of (bb_completed s') sy of None \<Rightarrow> [] | Some dq \<Rightarrow> py_suffix k dq), s'))"

section \<open>Lemmas\<close>

definition completed_of :: "bar_builder \<Rightarrow> quote_key \<Rightarrow> bar list" where
  "completed_of s sy = dict_default (bb_completed s) sy []"

lemma roll_simps [simp]:
  "bb_working (roll sy b s) = bb_working s" "bb_max (roll sy b s) = bb_max s"
  "completed_of (roll sy b s) sy' =
     (if sy' = sy then deque_append (bb_max s) b (completed_of s sy) else completed_of s sy')"
  by (simp_all add: roll_def persist_def completed_of_def dict_default_def Let_def)

lemma completed_working [simp]: "completed_of (s\<lparr>bb_working := w\<rparr>) sy = completed_of s sy"
  by (simp add: completed_of_def)

lemma map_of_delete_eq: "map_of (AList.delete k d) k' = (if k' = k then None else map_of d k')"
  by (simp add: delete_conv)

lemma set_deque_append: "set (deque_append n x xs) \<subseteq> insert x (set xs)"
proof -
  have "set (deque_append n x xs) \<subseteq> set (xs @ [x])"
    unfolding deque_append_def by (rule set_drop_subset)
  then show ?thesis by simp
qed

lemma length_deque_append: "length (deque_append n x xs) = min n (Suc (length xs))"
  by (auto simp: deque_append_def)

lemma sorted_deque_append:
  assumes "sorted_wrt (<) (map f xs)" and "\<forall>y \<in> set xs. f y < (f x :: int)"
  shows "sorted_wrt (<) (map f (deque_append n x xs))"
  using assms by (simp add: deque_append_def drop_map [symmetric] sorted_wrt_append del: drop_append)

text \<open>A bar is well formed: its low is positive and a lower bound, its high an upper bound.\<close>

definition bar_ok :: "bar \<Rightarrow> bool" where
  "bar_ok b \<longleftrightarrow> 0 < br_low b \<and> br_low b \<le> br_open b \<and> br_open b \<le> br_high b
     \<and> br_low b \<le> br_close b \<and> br_close b \<le> br_high b \<and> 1 \<le> br_ticks b"

lemma bar_update_ok: "bar_ok b \<Longrightarrow> 0 < p \<Longrightarrow> bar_ok (bar_update p b)"
  by (auto simp: bar_ok_def bar_update_def)

lemma first_bar_ok: "0 < p \<Longrightarrow> bar_ok (first_bar sy m p)"
  by (simp add: bar_ok_def first_bar_def)

lemma minute_simps [simp]: "br_minute (bar_update p b) = br_minute b"
  "br_minute (first_bar sy m p) = m" "br_symbol (bar_update p b) = br_symbol b"
  "br_symbol (first_bar sy m p) = sy"
  by (simp_all add: bar_update_def first_bar_def)

definition builder_ok :: "bar_builder \<Rightarrow> bool" where
  "builder_ok s \<longleftrightarrow>
     (\<forall>sy b. map_of (bb_working s) sy = Some b \<longrightarrow> bar_ok b \<and> br_symbol b = sy)
     \<and> (\<forall>sy. length (completed_of s sy) \<le> bb_max s
           \<and> (\<forall>b \<in> set (completed_of s sy). bar_ok b \<and> br_symbol b = sy))"

text \<open>Time order: for every symbol the completed minutes strictly increase and lie before the
  working minute, and nothing is later than the clock minute \<open>m\<close>.\<close>

definition chrono :: "int \<Rightarrow> bar option \<Rightarrow> bar list \<Rightarrow> bool" where
  "chrono m w bs \<longleftrightarrow> sorted_wrt (<) (map br_minute bs)
     \<and> (case w of None \<Rightarrow> \<forall>b \<in> set bs. br_minute b < m
        | Some b' \<Rightarrow> br_minute b' \<le> m \<and> (\<forall>b \<in> set bs. br_minute b < br_minute b'))"

definition chronological :: "int \<Rightarrow> bar_builder \<Rightarrow> bool" where
  "chronological m s \<longleftrightarrow> (\<forall>sy. chrono m (map_of (bb_working s) sy) (completed_of s sy))"

lemma chrono_roll:
  assumes "chrono m (Some b) bs"
  shows "sorted_wrt (<) (map br_minute (deque_append n b bs))"
    and "\<forall>x \<in> set (deque_append n b bs). br_minute x \<le> br_minute b"
proof -
  from assms have "sorted_wrt (<) (map br_minute bs)" "\<forall>x \<in> set bs. br_minute x < br_minute b"
    by (simp_all add: chrono_def)
  then show "sorted_wrt (<) (map br_minute (deque_append n b bs))" by (rule sorted_deque_append)
  show "\<forall>x \<in> set (deque_append n b bs). br_minute x \<le> br_minute b"
    using set_deque_append [of n b bs] \<open>\<forall>x \<in> set bs. br_minute x < br_minute b\<close> by force
qed

lemma chronological_mono: "chronological m s \<Longrightarrow> m \<le> n \<Longrightarrow> chronological n s"
  unfolding chronological_def chrono_def by (force split: option.splits)

lemma roll_ok: "builder_ok s \<Longrightarrow> map_of (bb_working s) sy = Some b \<Longrightarrow> builder_ok (roll sy b s)"
  using set_deque_append [of "bb_max s" b "completed_of s sy"]
  by (auto simp: builder_ok_def length_deque_append)

lemma fresh_working_ok: "builder_ok s \<Longrightarrow> 0 < p \<Longrightarrow> builder_ok (start_bar sy m p s)"
  by (auto simp: builder_ok_def first_bar_ok start_bar_def)

lemma on_tick_ok: "builder_ok s \<Longrightarrow> builder_ok (on_tick ny now sy price ts s)"
proof (cases price)
  case (Some p)
  assume ok: "builder_ok s"
  show ?thesis
  proof (cases "map_of (bb_working s) sy")
    case None
    with Some ok show ?thesis by (simp add: on_tick_def Let_def fresh_working_ok)
  next
    case w: (Some b)
    then have "bar_ok b" "br_symbol b = sy" using ok by (auto simp: builder_ok_def)
    then have "0 < p \<Longrightarrow> builder_ok (s\<lparr>bb_working := AList.update sy (bar_update p b) (bb_working s)\<rparr>)"
      using ok by (auto simp: builder_ok_def bar_update_ok)
    with Some w ok fresh_working_ok [OF roll_ok [OF ok w]] show ?thesis
      by (simp add: on_tick_def Let_def)
  qed
qed (simp add: on_tick_def)

lemma maybe_roll_ok: "builder_ok s \<Longrightarrow> builder_ok (maybe_roll_stale_working ny clock sy now s)"
proof (cases "map_of (bb_working s) sy")
  case (Some b)
  assume ok: "builder_ok s"
  have "builder_ok (roll sy b s)" by (rule roll_ok [OF ok Some])
  then have "builder_ok ((roll sy b s)\<lparr>bb_working := AList.delete sy (bb_working s)\<rparr>)"
    by (simp add: builder_ok_def map_of_delete_eq)
  with Some ok show ?thesis by (simp add: maybe_roll_stale_working_def Let_def)
qed (simp add: maybe_roll_stale_working_def)

abbreviation tick_minute :: "zone \<Rightarrow> instant \<Rightarrow> datetime option \<Rightarrow> int" where
  "tick_minute ny now ts \<equiv> zone_minute ny (case ts of None \<Rightarrow> now | Some d \<Rightarrow> assume_utc d)"

lemma chronological_set_working:
  assumes "chronological m s" and "\<forall>sy'. sy' \<noteq> sy \<longrightarrow> completed_of u sy' = completed_of s sy'"
    and "bb_working u = bb_working s" and "chrono m (Some v) (completed_of u sy)"
  shows "chronological m (u\<lparr>bb_working := AList.update sy v (bb_working s)\<rparr>)"
  using assms by (simp add: chronological_def)

lemma on_tick_chronological:
  assumes c: "chronological m s" and t: "m \<le> tick_minute ny now ts"
  shows "chronological (tick_minute ny now ts) (on_tick ny now sy price ts s)"
proof -
  define n where "n = tick_minute ny now ts"
  have c': "chronological n s" unfolding n_def using c t by (rule chronological_mono)
  then have sy: "chrono n (map_of (bb_working s) sy) (completed_of s sy)"
    by (simp add: chronological_def)
  have "chronological n (on_tick ny now sy price ts s)"
  proof (cases "(price, map_of (bb_working s) sy)" rule: prod.exhaust)
    case (Pair pr w)
    then have pr: "price = pr" and w: "map_of (bb_working s) sy = w" by simp_all
    show ?thesis
    proof (cases pr)
      case None
      with pr c' show ?thesis by (simp add: on_tick_def)
    next
      case p: (Some p)
      show ?thesis
      proof (cases w)
        case None
        with sy w have "chrono n (Some (first_bar sy n p)) (completed_of s sy)"
          by (simp add: chrono_def)
        from chronological_set_working [OF c' _ _ this] None w p pr c' show ?thesis
          by (simp add: on_tick_def start_bar_def Let_def n_def)
      next
        case (Some b)
        with sy w have b: "chrono n (Some b) (completed_of s sy)" by simp
        have "br_minute b < n \<Longrightarrow> chrono n (Some (first_bar sy n p)) (completed_of (roll sy b s) sy)"
          using chrono_roll [OF b, of "bb_max s"] by (fastforce simp: chrono_def)
        moreover have "chrono n (Some (bar_update p b)) (completed_of s sy)"
          using b by (simp add: chrono_def)
        ultimately show ?thesis
          using chronological_set_working [OF c', of sy "roll sy b s" "first_bar sy n p"]
            chronological_set_working [OF c', of sy s "bar_update p b"] Some w p pr c' b
          by (auto simp: on_tick_def start_bar_def Let_def n_def)
      qed
    qed
  qed
  then show ?thesis by (simp add: n_def)
qed

lemma maybe_roll_chronological:
  assumes c: "chronological m s" and t: "m \<le> tick_minute ny clock now"
  shows "chronological (tick_minute ny clock now) (maybe_roll_stale_working ny clock sy now s)"
proof -
  define n where "n = tick_minute ny clock now"
  have c': "chronological n s" unfolding n_def using c t by (rule chronological_mono)
  have "chronological n (maybe_roll_stale_working ny clock sy now s)"
  proof (cases "map_of (bb_working s) sy")
    case None
    with c' show ?thesis by (simp add: maybe_roll_stale_working_def)
  next
    case (Some b)
    let ?u = "(roll sy b s)\<lparr>bb_working := AList.delete sy (bb_working s)\<rparr>"
    have b: "chrono n (Some b) (completed_of s sy)"
      using c' Some unfolding chronological_def by metis
    have "br_minute b < n \<Longrightarrow> chrono n None (deque_append (bb_max s) b (completed_of s sy))"
      using chrono_roll [OF b, of "bb_max s"] by (fastforce simp: chrono_def)
    then have "br_minute b < n \<Longrightarrow> chronological n ?u"
      using c' by (simp add: chronological_def map_of_delete_eq)
    with Some c' show ?thesis by (simp add: maybe_roll_stale_working_def Let_def n_def [symmetric])
  qed
  then show ?thesis by (simp add: n_def)
qed

section \<open>Runs\<close>

text \<open>What callers do with a builder; a read only matters for the roll it causes.\<close>

datatype bar_op = Tick quote_key pyfloat instant | Read quote_key instant

fun bar_op_time :: "bar_op \<Rightarrow> instant" where
  "bar_op_time (Tick sy p t) = t"
| "bar_op_time (Read sy t) = t"

fun bar_step :: "zone \<Rightarrow> bar_builder \<Rightarrow> bar_op \<Rightarrow> bar_builder" where
  "bar_step ny s (Tick sy p t) = on_tick ny t sy (Some p) (Some (Aware t 0)) s"
| "bar_step ny s (Read sy t) = snd (get_latest_completed_bar ny t sy (Some (Aware t 0)) s)"

definition new_builder :: "nat \<Rightarrow> bar_builder" where
  "new_builder n = \<lparr>bb_working = [], bb_completed = [], bb_max = n, bb_persist_dir = None, bb_persisted = []\<rparr>"

lemma bar_step_ok: "builder_ok s \<Longrightarrow> builder_ok (bar_step ny s x)"
  by (cases x) (simp_all add: on_tick_ok get_latest_completed_bar_def Let_def maybe_roll_ok)

lemma bar_run_ok: "builder_ok s \<Longrightarrow> builder_ok (foldl (bar_step ny) s xs)"
  by (induction xs arbitrary: s) (simp_all add: bar_step_ok)

lemma bar_step_chronological:
  "chronological m s \<Longrightarrow> m \<le> zone_minute ny (bar_op_time x) \<Longrightarrow>
   chronological (zone_minute ny (bar_op_time x)) (bar_step ny s x)"
proof (cases x)
  case (Tick sy p t)
  then show "chronological m s \<Longrightarrow> m \<le> zone_minute ny (bar_op_time x) \<Longrightarrow> ?thesis"
    using on_tick_chronological [where ts = "Some (Aware t 0)" and m = m and ny = ny and s = s and now = t and sy = sy and price = "Some p"] by simp
next
  case (Read sy t)
  then show "chronological m s \<Longrightarrow> m \<le> zone_minute ny (bar_op_time x) \<Longrightarrow> ?thesis"
    using maybe_roll_chronological [where now = "Some (Aware t 0)" and m = m and ny = ny and s = s and clock = t and sy = sy]
    by (simp add: get_latest_completed_bar_def Let_def)
qed

lemma bar_run_chronological:
  "chronological m s \<Longrightarrow> sorted (m # map (zone_minute ny \<circ> bar_op_time) xs) \<Longrightarrow>
   \<exists>n. chronological n (foldl (bar_step ny) s xs)"
proof (induction xs arbitrary: s m)
  case (Cons x xs)
  then have "chronological (zone_minute ny (bar_op_time x)) (bar_step ny s x)"
    by (intro bar_step_chronological) auto
  from Cons.IH [OF this] Cons.prems(2) show ?case by simp
qed auto

lemma new_builder_inv: "builder_ok (new_builder n)" "chronological m (new_builder n)"
  by (simp_all add: builder_ok_def chronological_def chrono_def new_builder_def completed_of_def dict_default_def)

section \<open>Properties\<close>

text \<open>Whatever ticks and reads a builder sees, every working and completed bar has a positive
  low, open and close within its low and high, at least one tick and its own symbol, and no symbol
  keeps more completed bars than the maximum.\<close>

lemma bars_well_formed:
  "builder_ok (foldl (bar_step ny) (new_builder n) xs)"
  by (rule bar_run_ok) (rule new_builder_inv)

text \<open>When operations arrive in the order of their minutes, the completed bars of every symbol
  are strictly ordered by minute: no bar is out of order and no minute has two bars.\<close>

lemma bars_strictly_ordered:
  assumes "sorted (map (zone_minute ny \<circ> bar_op_time) xs)"
  shows "sorted_wrt (<) (map br_minute (completed_of (foldl (bar_step ny) (new_builder n) xs) sy))"
proof -
  have "sorted (0 # map (zone_minute ny \<circ> bar_op_time) xs) \<or> xs \<noteq> []" by (cases xs) simp_all
  define m where "m = (case xs of [] \<Rightarrow> 0 | x # _ \<Rightarrow> zone_minute ny (bar_op_time x))"
  have "sorted (m # map (zone_minute ny \<circ> bar_op_time) xs)"
    using assms by (cases xs) (simp_all add: m_def)
  from bar_run_chronological [OF new_builder_inv(2) this, of n] show ?thesis
    unfolding chronological_def chrono_def by blast
qed

theorem bars_strictly_ordered_witness:
  "let sy = Symbol_Key ''SPY'';
       s = foldl (bar_step (\<lambda>t. -14400000000)) (new_builder 480)
             [Tick sy 5 0, Tick sy 6 60000000, Read sy 130000000, Tick sy 7 190000000]
   in map br_minute (completed_of s sy) = [-240, -239] \<and> sorted_wrt (<) (map br_minute (completed_of s sy))"
proof -
  let ?sy = "Symbol_Key ''SPY''"
  let ?xs = "[Tick ?sy 5 0, Tick ?sy 6 60000000, Read ?sy 130000000, Tick ?sy 7 190000000]"
  have s: "sorted (map (zone_minute (\<lambda>t. -14400000000) \<circ> bar_op_time) ?xs)" by code_simp
  have "map br_minute (completed_of (foldl (bar_step (\<lambda>t. -14400000000)) (new_builder 480) ?xs) ?sy)
      = [-240, -239]" by code_simp
  with bars_strictly_ordered [OF s, of 480 ?sy] show ?thesis unfolding Let_def by blast
qed

section \<open>What the bars are\<close>

text \<open>The trades of a symbol in a run, with their minutes, and the bar of a minute: its first price, highest, lowest
  and last, and their number.\<close>

fun trade_of :: "zone \<Rightarrow> quote_key \<Rightarrow> bar_op \<Rightarrow> (int \<times> pyfloat) option" where
  "trade_of ny sy (Tick k p t) = (if k = sy \<and> 0 < p then Some (zone_minute ny t, p) else None)"
| "trade_of ny sy (Read k t) = None"

definition minute_bar :: "quote_key \<Rightarrow> (int \<times> pyfloat) list \<Rightarrow> int \<Rightarrow> bar" where
  "minute_bar sy ts m = (let ps = map snd (filter (\<lambda>x. fst x = m) ts)
     in \<lparr>br_symbol = sy, br_minute = m, br_open = hd ps, br_high = Max (set ps), br_low = Min (set ps), br_close = last ps,
         br_ticks = int (length ps)\<rparr>)"

definition traded_minutes :: "(int \<times> pyfloat) list \<Rightarrow> int list" where
  "traded_minutes ts = remdups_adj (map fst ts)"

definition last_of :: "nat \<Rightarrow> 'a list \<Rightarrow> 'a list" where
  "last_of n xs = drop (length xs - n) xs"

lemma deque_last_of: "deque_append n x (last_of n xs) = last_of n (xs @ [x])"
proof (cases "0 < n \<and> n \<le> length xs")
  case True
  then have "Suc (length xs) - n = Suc (length xs - n)" by (simp add: Suc_diff_le)
  with True show ?thesis by (simp add: deque_append_def last_of_def)
qed (auto simp: deque_append_def last_of_def)

lemma suffix_last_of: "0 < k \<Longrightarrow> py_suffix k xs = last_of (nat k) xs"
  by (simp add: py_suffix_def last_of_def)

lemma minute_bar_same:
  assumes "\<exists>x\<in>set ts. fst x = m"
  shows "minute_bar sy (ts @ [(m, p)]) m = bar_update p (minute_bar sy ts m)"
proof -
  define ps where "ps = map snd (filter (\<lambda>x. fst x = m) ts)"
  have ne: "ps \<noteq> []" using assms by (auto simp: ps_def filter_empty_conv)
  have "map snd (filter (\<lambda>x. fst x = m) (ts @ [(m, p)])) = ps @ [p]" by (simp add: ps_def)
  moreover have "Max (set (ps @ [p])) = max (Max (set ps)) p" "Min (set (ps @ [p])) = min (Min (set ps)) p"
    using ne by (simp_all add: Max_insert Min_insert max.commute min.commute del: set_map)
  ultimately show ?thesis unfolding minute_bar_def ps_def [symmetric] using ne by (simp add: bar_update_def Let_def hd_append)
qed

lemma minute_bar_other: "m' \<noteq> m \<Longrightarrow> minute_bar sy (ts @ [(m, p)]) m' = minute_bar sy ts m'"
  by (simp add: minute_bar_def)

lemma minute_bar_new: "\<forall>x\<in>set ts. fst x \<noteq> m \<Longrightarrow> minute_bar sy (ts @ [(m, p)]) m = first_bar sy m p"
  by (simp add: minute_bar_def first_bar_def filter_empty_conv)

lemma minute_bar_minute [simp]: "br_minute (minute_bar sy ts m) = m"
  by (simp add: minute_bar_def Let_def)

lemma traded_minutes_append:
  "traded_minutes (ts @ [(m, p)]) = (if ts \<noteq> [] \<and> fst (last ts) = m then traded_minutes ts else traded_minutes ts @ [m])"
  by (cases ts rule: rev_cases) (auto simp: traded_minutes_def remdups_adj_append_two)

lemma traded_minutes_last:
  assumes "ts \<noteq> []"
  shows "traded_minutes ts = butlast (traded_minutes ts) @ [fst (last ts)]"
proof -
  have "last (traded_minutes ts) = fst (last ts)" "traded_minutes ts \<noteq> []"
    using assms by (simp_all add: traded_minutes_def last_map remdups_adj_Nil_iff)
  then show ?thesis by (metis append_butlast_last_id)
qed

lemma set_traded_minutes: "set (traded_minutes ts) = fst ` set ts"
  by (simp add: traded_minutes_def)

lemma sorted_below_last: "sorted (map fst ts) \<Longrightarrow> x \<in> set ts \<Longrightarrow> fst x \<le> fst (last ts)"
  by (cases ts rule: rev_cases) (auto simp: sorted_append)

lemma sorted_traded_minutes: "sorted (map fst ts) \<Longrightarrow> sorted_wrt (<) (traded_minutes ts)"
proof (induction ts rule: rev_induct)
  case (snoc x ts)
  obtain m p where x: "x = (m, p)" by (cases x)
  have s: "sorted (map fst ts)" "\<forall>y\<in>set ts. fst y \<le> m" using snoc.prems x by (auto simp: sorted_append)
  show ?case
  proof (cases "ts \<noteq> [] \<and> fst (last ts) = m")
    case False
    have "fst y < m" if "y \<in> set ts" for y
    proof -
      have "ts \<noteq> []" using that by auto
      then have "fst (last ts) < m" using s(2) False last_in_set [of ts] by fastforce
      then show ?thesis using sorted_below_last [OF s(1) that] by simp
    qed
    with False snoc.IH [OF s(1)] show ?thesis by (auto simp: x traded_minutes_append sorted_wrt_append set_traded_minutes)
  qed (use snoc.IH [OF s(1)] in \<open>simp add: x traded_minutes_append\<close>)
qed (simp add: traded_minutes_def)

text \<open>A builder that has kept up with the trades \<open>ts\<close> until the minute \<open>m\<close>.\<close>

definition kept_up :: "nat \<Rightarrow> quote_key \<Rightarrow> (int \<times> pyfloat) list \<Rightarrow> int \<Rightarrow> bar_builder \<Rightarrow> bool" where
  "kept_up n sy ts m s \<longleftrightarrow> bb_max s = n \<and> sorted (map fst ts) \<and> (case map_of (bb_working s) sy of
       None \<Rightarrow> completed_of s sy = last_of n (map (minute_bar sy ts) (traded_minutes ts)) \<and> (\<forall>x\<in>set ts. fst x < m)
     | Some b \<Rightarrow> ts \<noteq> [] \<and> fst (last ts) \<le> m \<and> b = minute_bar sy ts (fst (last ts))
         \<and> completed_of s sy = last_of n (map (minute_bar sy ts) (butlast (traded_minutes ts))))"

lemma kept_up_later: "kept_up n sy ts m s \<Longrightarrow> m \<le> m' \<Longrightarrow> kept_up n sy ts m' s"
  by (force simp: kept_up_def split: option.splits)

lemma rolled_bars:
  assumes "ts \<noteq> []"
  shows "deque_append n (minute_bar sy ts (fst (last ts))) (last_of n (map (minute_bar sy ts) (butlast (traded_minutes ts))))
    = last_of n (map (minute_bar sy ts) (traded_minutes ts))"
proof -
  have "map (minute_bar sy ts) (traded_minutes ts)
      = map (minute_bar sy ts) (butlast (traded_minutes ts)) @ [minute_bar sy ts (fst (last ts))]"
    by (subst traded_minutes_last [OF assms]) simp
  then show ?thesis by (simp add: deque_last_of)
qed

lemma kept_up_roll:
  assumes "kept_up n sy ts m s" "m \<le> zone_minute ny u"
  shows "kept_up n sy ts (zone_minute ny u) (maybe_roll_stale_working ny u sy (Some (Aware u 0)) s)"
proof (cases "map_of (bb_working s) sy")
  case None
  then show ?thesis using kept_up_later [OF assms] by (simp add: maybe_roll_stale_working_def)
next
  case (Some b)
  then have k: "bb_max s = n" "sorted (map fst ts)" "ts \<noteq> []" "b = minute_bar sy ts (fst (last ts))"
    "completed_of s sy = last_of n (map (minute_bar sy ts) (butlast (traded_minutes ts)))" using assms(1) by (simp_all add: kept_up_def)
  show ?thesis
  proof (cases "fst (last ts) < zone_minute ny u")
    case True
    then have "\<forall>x\<in>set ts. fst x < zone_minute ny u" using sorted_below_last [OF k(2)] by fastforce
    then show ?thesis using Some True k rolled_bars [OF k(3), of n sy]
      by (simp add: maybe_roll_stale_working_def Let_def kept_up_def map_of_delete_eq)
  next
    case False
    then show ?thesis using Some k kept_up_later [OF assms] by (simp add: maybe_roll_stale_working_def Let_def)
  qed
qed

lemma kept_up_trade:
  assumes k: "kept_up n sy ts m s" and m: "m \<le> zone_minute ny t" and p: "0 < p"
  shows "kept_up n sy (ts @ [(zone_minute ny t, p)]) (zone_minute ny t) (on_tick ny t sy (Some p) (Some (Aware t 0)) s)"
proof -
  let ?m = "zone_minute ny t" and ?ts = "ts @ [(zone_minute ny t, p)]"
  have base: "bb_max s = n" "sorted (map fst ts)" using k by (simp_all add: kept_up_def)
  have le: "fst x \<le> ?m" if "x \<in> set ts" for x
    using k m that sorted_below_last [OF base(2) that] by (fastforce simp: kept_up_def split: option.splits)
  have so: "sorted (map fst ?ts)" using base(2) le by (auto simp: sorted_append)
  have new: "map (minute_bar sy ?ts) ms = map (minute_bar sy ts) ms" if "?m \<notin> set ms" for ms
    by (rule map_cong [OF refl]) (rule minute_bar_other, use that in auto)
  show ?thesis
  proof (cases "map_of (bb_working s) sy")
    case None
    then have c: "completed_of s sy = last_of n (map (minute_bar sy ts) (traded_minutes ts))" "\<forall>x\<in>set ts. fst x < ?m"
      using k m by (auto simp: kept_up_def)
    then have "?m \<notin> set (traded_minutes ts)" "\<not> (ts \<noteq> [] \<and> fst (last ts) = ?m)"
      by (auto simp: set_traded_minutes) (metis last_in_set less_irrefl)
    moreover have "minute_bar sy ?ts ?m = first_bar sy ?m p" by (rule minute_bar_new) (use c(2) in auto)
    ultimately show ?thesis using None p c base so
      by (cases "ts = []") (simp_all add: on_tick_def start_bar_def Let_def kept_up_def traded_minutes_append traded_minutes_def [of "[]"] traded_minutes_def [of "[(x, y)]" for x y] new)
  next
    case (Some b)
    then have c: "ts \<noteq> []" "b = minute_bar sy ts (fst (last ts))"
      "completed_of s sy = last_of n (map (minute_bar sy ts) (butlast (traded_minutes ts)))" "fst (last ts) \<le> ?m"
      using k m by (auto simp: kept_up_def)
    show ?thesis
    proof (cases "fst (last ts) = ?m")
      case True
      have "distinct (traded_minutes ts)" using sorted_traded_minutes [OF base(2)] by (simp add: strict_sorted_iff)
      then have "?m \<notin> set (butlast (traded_minutes ts))"
        using traded_minutes_last [OF c(1)] True by (metis distinct_append disjoint_insert(1) list.set(2) inf_commute)
      moreover have "minute_bar sy ?ts ?m = bar_update p (minute_bar sy ts ?m)"
        by (rule minute_bar_same) (use True last_in_set [OF c(1)] in blast)
      ultimately show ?thesis using Some True p c base so
        by (simp add: on_tick_def Let_def kept_up_def traded_minutes_append new)
    next
      case False
      then have "\<forall>x\<in>set ts. fst x < ?m" using sorted_below_last [OF base(2)] c(4) by fastforce
      then have "?m \<notin> set (traded_minutes ts)" "minute_bar sy ?ts ?m = first_bar sy ?m p"
        by (auto simp: set_traded_minutes intro!: minute_bar_new)
      then show ?thesis using Some False p c base so rolled_bars [OF c(1), of n sy]
        by (simp add: on_tick_def start_bar_def Let_def kept_up_def traded_minutes_append new)
    qed
  qed
qed

lemma other_symbol:
  assumes "k \<noteq> sy"
  shows "map_of (bb_working (bar_step ny s (Tick k p t))) sy = map_of (bb_working s) sy"
    "completed_of (bar_step ny s (Tick k p t)) sy = completed_of s sy" "bb_max (bar_step ny s (Tick k p t)) = bb_max s"
    "map_of (bb_working (bar_step ny s (Read k t))) sy = map_of (bb_working s) sy"
    "completed_of (bar_step ny s (Read k t)) sy = completed_of s sy" "bb_max (bar_step ny s (Read k t)) = bb_max s"
  using assms
  by (simp_all add: on_tick_def start_bar_def get_latest_completed_bar_def maybe_roll_stale_working_def Let_def map_of_delete_eq
      split: option.split)

lemma kept_up_step:
  assumes "kept_up n sy ts m s" "m \<le> zone_minute ny (bar_op_time x)"
  shows "kept_up n sy (ts @ (case trade_of ny sy x of None \<Rightarrow> [] | Some y \<Rightarrow> [y])) (zone_minute ny (bar_op_time x)) (bar_step ny s x)"
proof (cases x)
  case (Tick k p t)
  show ?thesis
  proof (cases "k = sy")
    case True
    then show ?thesis using kept_up_trade [OF assms(1), of ny t p] kept_up_later [OF assms] assms(2) Tick
      by (cases "0 < p") (simp_all add: on_tick_def)
  next
    case False
    then show ?thesis using kept_up_later [OF assms] Tick by (simp add: kept_up_def other_symbol del: bar_step.simps split: option.splits)
  qed
next
  case (Read k t)
  show ?thesis
  proof (cases "k = sy")
    case True
    then show ?thesis using kept_up_roll [OF assms(1), of ny t] assms(2) Read by (simp add: get_latest_completed_bar_def Let_def)
  next
    case False
    then show ?thesis using kept_up_later [OF assms] Read by (simp add: kept_up_def other_symbol del: bar_step.simps split: option.splits)
  qed
qed

lemma run_keeps_up:
  "kept_up n sy ts m s \<Longrightarrow> sorted (m # map (zone_minute ny \<circ> bar_op_time) xs) \<Longrightarrow>
   \<exists>m'. kept_up n sy (ts @ List.map_filter (trade_of ny sy) xs) m' (foldl (bar_step ny) s xs)
     \<and> m' = last (m # map (zone_minute ny \<circ> bar_op_time) xs)"
proof (induction xs arbitrary: ts m s)
  case (Cons x xs)
  have "kept_up n sy (ts @ (case trade_of ny sy x of None \<Rightarrow> [] | Some y \<Rightarrow> [y])) (zone_minute ny (bar_op_time x)) (bar_step ny s x)"
    by (rule kept_up_step [OF Cons.prems(1)]) (use Cons.prems(2) in simp)
  from Cons.IH [OF this] Cons.prems(2) show ?case
    by (cases "trade_of ny sy x") (simp_all add: List.map_filter_simps)
qed (simp add: List.map_filter_simps)

text \<open>C34: a completed bar is the exact summary of its minute. From a new builder, after any ticks and reads of any
  symbols that come in the order of their minutes, a read gives, oldest first and at most as many as are
  asked for or kept, the bars of the minutes before the current one in which the symbol traded: each opens
  at the first price of its minute, closes at the last, spans lowest to highest and counts the ticks;
  whether a later tick completed it or a read. Prices that are not positive do not count.\<close>

theorem bar_summarises_minute:
  assumes "sorted (map (zone_minute ny \<circ> bar_op_time) (xs @ [Read sy u]))" "0 < k"
  shows "fst (get_completed_bars ny u sy k (Some (Aware u 0)) (foldl (bar_step ny) (new_builder n) xs))
    = (let ts = List.map_filter (trade_of ny sy) xs
       in last_of (nat k) (last_of n (map (minute_bar sy ts) (filter (\<lambda>m. m < zone_minute ny u) (traded_minutes ts)))))"
proof -
  let ?s = "foldl (bar_step ny) (new_builder n) xs" and ?ts = "List.map_filter (trade_of ny sy) xs"
  define m where "m = (case xs of [] \<Rightarrow> zone_minute ny u | x # _ \<Rightarrow> zone_minute ny (bar_op_time x))"
  have "kept_up n sy [] m (new_builder n)"
    by (simp add: kept_up_def new_builder_def completed_of_def dict_default_def traded_minutes_def last_of_def)
  moreover have "sorted (m # map (zone_minute ny \<circ> bar_op_time) xs)" using assms(1) by (cases xs) (simp_all add: m_def sorted_append)
  ultimately obtain m' where "kept_up n sy ?ts m' ?s" "m' = last (m # map (zone_minute ny \<circ> bar_op_time) xs)"
    using run_keeps_up [of n sy "[]" m "new_builder n" ny xs] by auto
  moreover from this(2) have "m' \<le> zone_minute ny u"
    using assms(1) by (cases xs rule: rev_cases) (auto simp: m_def sorted_append)
  ultimately have k: "kept_up n sy ?ts (zone_minute ny u) (maybe_roll_stale_working ny u sy (Some (Aware u 0)) ?s)"
    using kept_up_roll by blast
  have so: "sorted (map fst ?ts)" using k by (simp add: kept_up_def)
  have "completed_of (maybe_roll_stale_working ny u sy (Some (Aware u 0)) ?s) sy
      = last_of n (map (minute_bar sy ?ts) (filter (\<lambda>m. m < zone_minute ny u) (traded_minutes ?ts)))"
  proof (cases "map_of (bb_working (maybe_roll_stale_working ny u sy (Some (Aware u 0)) ?s)) sy")
    case None
    then have c: "completed_of (maybe_roll_stale_working ny u sy (Some (Aware u 0)) ?s) sy = last_of n (map (minute_bar sy ?ts) (traded_minutes ?ts))"
      "\<forall>x\<in>set ?ts. fst x < zone_minute ny u" using k by (simp_all add: kept_up_def)
    then have "filter (\<lambda>m. m < zone_minute ny u) (traded_minutes ?ts) = traded_minutes ?ts"
      by (auto simp: filter_id_conv set_traded_minutes)
    with c show ?thesis by simp
  next
    case (Some b)
    then have c: "completed_of (maybe_roll_stale_working ny u sy (Some (Aware u 0)) ?s) sy
        = last_of n (map (minute_bar sy ?ts) (butlast (traded_minutes ?ts)))"
      "?ts \<noteq> []" "fst (last ?ts) \<le> zone_minute ny u" "b = minute_bar sy ?ts (fst (last ?ts))" using k by (simp_all add: kept_up_def)
    have "\<not> br_minute b < zone_minute ny u"
      using Some by (auto simp: maybe_roll_stale_working_def Let_def map_of_delete_eq split: option.splits if_splits)
    then have last': "fst (last ?ts) = zone_minute ny u" using c(3,4) by simp
    have t: "traded_minutes ?ts = butlast (traded_minutes ?ts) @ [zone_minute ny u]" using traded_minutes_last [OF c(2)] last' by simp
    have "sorted_wrt (<) (butlast (traded_minutes ?ts) @ [zone_minute ny u])" using sorted_traded_minutes [OF so] t by simp
    then have "\<forall>m\<in>set (butlast (traded_minutes ?ts)). m < zone_minute ny u" by (simp add: sorted_wrt_append)
    then have "filter (\<lambda>m. m < zone_minute ny u) (traded_minutes ?ts) = butlast (traded_minutes ?ts)"
      by (subst t) (simp add: filter_id_conv)
    with c(1) show ?thesis by simp
  qed
  then show ?thesis
    by (cases "map_of (bb_completed (maybe_roll_stale_working ny u sy (Some (Aware u 0)) ?s)) sy")
      (simp_all add: get_completed_bars_def Let_def suffix_last_of [OF assms(2)] completed_of_def dict_default_def last_of_def)
qed

theorem bar_summarises_minute_witness:
  "let sy = Symbol_Key ''SPY''; b = (\<lambda>m l h c k. \<lparr>br_symbol = sy, br_minute = m, br_open = l, br_high = h, br_low = l, br_close = c, br_ticks = k\<rparr>)
   in fst (get_completed_bars (\<lambda>t. 0) 190000000 sy 60 (Some (Aware 190000000 0)) (foldl (bar_step (\<lambda>t. 0)) (new_builder 480)
        [Tick sy 5 1, Tick (Symbol_Key ''QQQ'') 9 2, Tick sy 7 3, Tick sy 6 60000000, Tick sy 8 60000001, Read sy 130000000, Tick sy 2 180000000]))
      = [b 0 5 7 7 2, b 1 6 8 8 2]"
proof -
  let ?sy = "Symbol_Key ''SPY''" and ?z = "\<lambda>t :: int. 0 :: int"
  let ?xs = "[Tick ?sy 5 1, Tick (Symbol_Key ''QQQ'') 9 2, Tick ?sy 7 3, Tick ?sy 6 60000000, Tick ?sy 8 60000001, Read ?sy 130000000, Tick ?sy 2 180000000]"
  have so: "sorted (map (zone_minute ?z \<circ> bar_op_time) (?xs @ [Read ?sy 190000000]))" by code_simp
  have ts: "List.map_filter (trade_of ?z ?sy) ?xs = [(0, 5), (0, 7), (1, 6), (1, 8), (3, 2)]" by code_simp
  have m: "filter (\<lambda>m. m < zone_minute ?z 190000000) (traded_minutes [(0, 5), (0, 7), (1, 6), (1, 8), (3, 2)]) = [0, 1]" by code_simp
  show ?thesis using bar_summarises_minute [OF so, of 60 480]
    unfolding ts m Let_def by (simp add: last_of_def minute_bar_def max_def min_def)
qed

text \<open>The order does depend on the arrival order. A read in a later minute completes the working
  bar; a tick of the old minute that arrives after it starts that minute's bar anew, so that the next
  read leaves two completed bars for one minute.\<close>

lemma late_tick_duplicates_bar:
  assumes w: "map_of (bb_working s) sy = Some b" and p: "0 < p" and cap: "2 \<le> bb_max s"
    and old: "zone_minute ny t = br_minute b" and later: "br_minute b < zone_minute ny u"
  shows "\<exists>bs. completed_of (foldl (bar_step ny) s [Read sy u, Tick sy p t, Read sy u]) sy
      = bs @ [b, first_bar sy (br_minute b) p]"
proof -
  let ?s1 = "bar_step ny s (Read sy u)"
  have s1: "map_of (bb_working ?s1) sy = None" "bb_max ?s1 = bb_max s"
    "completed_of ?s1 sy = deque_append (bb_max s) b (completed_of s sy)"
    using w later by (simp_all add: get_latest_completed_bar_def maybe_roll_stale_working_def Let_def map_of_delete_eq)
  let ?s2 = "bar_step ny ?s1 (Tick sy p t)"
  have s2: "?s2 = start_bar sy (br_minute b) p ?s1"
    using s1 p old by (simp add: on_tick_def Let_def)
  have "completed_of (bar_step ny ?s2 (Read sy u)) sy
      = deque_append (bb_max s) (first_bar sy (br_minute b) p) (deque_append (bb_max s) b (completed_of s sy))"
    unfolding s2 using s1 later
    by (simp add: start_bar_def get_latest_completed_bar_def maybe_roll_stale_working_def Let_def)
  moreover have "\<exists>bs. deque_append n y (deque_append n x xs) = bs @ [x, y]" if "2 \<le> n" for n and x y :: bar and xs
  proof -
    have "deque_append n x xs = drop (Suc (length xs) - n) xs @ [x]"
      using that by (simp add: deque_append_def)
    moreover have "deque_append n y (zs @ [x]) = drop (Suc (length (zs @ [x])) - n) zs @ [x, y]" for zs
      using that by (simp add: deque_append_def)
    ultimately show ?thesis by metis
  qed
  ultimately show ?thesis using cap by simp
qed

theorem late_tick_duplicates_bar_witness:
  "let sy = Symbol_Key ''SPY''; s = bar_step (\<lambda>t. 0) (new_builder 480) (Tick sy 5 0)
   in \<exists>bs :: bar list. map br_minute (completed_of (foldl (bar_step (\<lambda>t. 0)) s [Read sy 60000000, Tick sy 6 1, Read sy 60000000]) sy)
        = map br_minute bs @ [0, 0]"
proof -
  let ?sy = "Symbol_Key ''SPY''" and ?z = "\<lambda>t :: int. 0 :: int"
  let ?s = "bar_step ?z (new_builder 480) (Tick ?sy 5 0)"
  have w: "map_of (bb_working ?s) ?sy = Some (first_bar ?sy 0 5)" by code_simp
  have m: "2 \<le> bb_max ?s" "zone_minute ?z 1 = br_minute (first_bar ?sy 0 5)"
    "br_minute (first_bar ?sy 0 5) < zone_minute ?z 60000000" by code_simp+
  from late_tick_duplicates_bar [where p = 6, OF w _ m] obtain bs where
    "completed_of (foldl (bar_step ?z) ?s [Read ?sy 60000000, Tick ?sy 6 1, Read ?sy 60000000]) ?sy
      = bs @ [first_bar ?sy 0 5, first_bar ?sy 0 6]" by auto
  then have "map br_minute (completed_of (foldl (bar_step ?z) ?s [Read ?sy 60000000, Tick ?sy 6 1, Read ?sy 60000000]) ?sy)
      = map br_minute bs @ [0, 0]" by simp
  then show ?thesis unfolding Let_def by blast
qed

end
