(* ===== verification/Position_Store.thy ===== *)
theory Position_Store
  imports Position_Manager Bars
begin

text \<open>
  \<^verbatim>\<open>src/storage/position_store.py\<close>: the table \<open>position_attribution\<close> that survives restarts. The
  table is the list of its rows; \<open>position_id\<close> is the primary key. Times are stored as ISO texts of
  UTC times, whose order is the order of the instants; SQLite leaves the order of rows with equal
  keys open, the model takes the order of insertion. \<open>db_reply\<close> is what one attempt to write meets:
  success, "database is locked", or another error. \<open>db_query\<close> is what a lookup or the sweep meets: they
  catch an error of the statement and answer with nothing found and nothing changed, but not one of
  opening the database, which they raise. A \<open>strategies_traded_on\<close> that fails is the empty set
  (\<open>refresh_traded_today\<close> in \<^verbatim>\<open>Entry_Flow\<close>); the failing reads of the history queries are not modelled.
\<close>

record attribution =
  at_id :: uuid
  at_strategy :: string
  at_contract :: "string \<times> string \<times> pyfloat \<times> option_right"
  at_side :: order_side
  at_quantity :: int
  at_avg_entry :: pyfloat
  at_entry_time :: "instant option"
  at_status :: position_status
  at_updated :: instant
  at_realized :: "pyfloat option"
  at_close_reason :: "string option"
  at_closed :: "instant option"

type_synonym attribution_table = "attribution list"

datatype db_reply = DB_Ok | DB_Locked | DB_Error

datatype db_query = Query_Ok | Query_Failed | Open_Failed py_error

definition contract_identity :: "option_contract \<Rightarrow> string \<times> string \<times> pyfloat \<times> option_right" where
  "contract_identity c = (oc_symbol c, oc_expiry c, oc_strike c, oc_right c)"

section \<open>Writing\<close>

definition coalesce :: "'a option \<Rightarrow> 'a option \<Rightarrow> 'a option" where
  "coalesce x y = (case x of None \<Rightarrow> y | Some v \<Rightarrow> Some v)"

definition position_row :: "instant \<Rightarrow> position \<Rightarrow> string option \<Rightarrow> attribution" where
  "position_row now p reason = \<lparr>at_id = ps_id p, at_strategy = ps_strategy p,
     at_contract = contract_identity (ps_contract p), at_side = ps_side p, at_quantity = ps_quantity p,
     at_avg_entry = ps_avg_entry p, at_entry_time = coalesce (ps_entry_time p) (Some (ps_created p)),
     at_status = ps_status p, at_updated = now, at_realized = Some (ps_realized p),
     at_close_reason = reason, at_closed = (if ps_status p = CLOSED then Some now else None)\<rparr>"

definition conflict_update :: "attribution \<Rightarrow> attribution \<Rightarrow> attribution" where
  "conflict_update ex r = r\<lparr>at_strategy := at_strategy ex, at_quantity := at_quantity ex,
     at_avg_entry := at_avg_entry ex, at_status := at_status ex, at_updated := at_updated ex,
     at_realized := at_realized ex, at_close_reason := coalesce (at_close_reason ex) (at_close_reason r),
     at_closed := coalesce (at_closed ex) (at_closed r)\<rparr>"

definition upsert_once :: "instant \<Rightarrow> position \<Rightarrow> string option \<Rightarrow> attribution_table \<Rightarrow> attribution_table" where
  "upsert_once now p reason t =
     (let ex = position_row now p reason
      in if ps_id p \<in> at_id ` set t then map (\<lambda>r. if at_id r = ps_id p then conflict_update ex r else r) t
         else t @ [ex])"

text \<open>Up to three attempts, at the times \<open>clock k\<close>; only a locked database is tried again.\<close>

fun upsert_attempts ::
  "(nat \<Rightarrow> instant) \<Rightarrow> (nat \<Rightarrow> db_reply) \<Rightarrow> nat list \<Rightarrow> position \<Rightarrow> string option \<Rightarrow> attribution_table \<Rightarrow> attribution_table" where
  "upsert_attempts clock reply [] p reason t = t"
| "upsert_attempts clock reply (k # ks) p reason t =
     (case reply k of
        DB_Ok \<Rightarrow> upsert_once (clock k) p reason t
      | DB_Locked \<Rightarrow> if k < 2 then upsert_attempts clock reply ks p reason t else t
      | DB_Error \<Rightarrow> t)"

definition upsert_position ::
  "(nat \<Rightarrow> instant) \<Rightarrow> (nat \<Rightarrow> db_reply) \<Rightarrow> position \<Rightarrow> string option \<Rightarrow> attribution_table \<Rightarrow> attribution_table" where
  "upsert_position clock reply p reason t = upsert_attempts clock reply [0, 1, 2] p reason t"

definition close_absent ::
  "instant \<Rightarrow> (string \<times> string \<times> pyfloat \<times> option_right) set \<Rightarrow> attribution_table \<Rightarrow> nat \<times> attribution_table" where
  "close_absent now keys t =
     (let stale = (\<lambda>r. open_status (at_status r) \<and> at_contract r \<notin> keys)
      in (length (filter stale t),
          map (\<lambda>r. if stale r then r\<lparr>at_status := CLOSED, at_updated := now\<rparr> else r) t))"

definition mark_closed_if_absent ::
  "db_query \<Rightarrow> instant \<Rightarrow> (string \<times> string \<times> pyfloat \<times> option_right) set \<Rightarrow> attribution_table
     \<Rightarrow> (py_error + nat) \<times> attribution_table" where
  "mark_closed_if_absent q now keys t =
     (case q of
        Query_Ok \<Rightarrow> (case close_absent now keys t of (n, t1) \<Rightarrow> (Inr n, t1))
      | Query_Failed \<Rightarrow> (Inr 0, t)
      | Open_Failed e \<Rightarrow> (Inl e, t))"

section \<open>Reading\<close>

definition open_rows ::
  "string \<times> string \<times> pyfloat \<times> option_right \<Rightarrow> attribution_table \<Rightarrow> attribution list" where
  "open_rows key t = sort_key (\<lambda>r. - at_updated r) (filter (\<lambda>r. at_contract r = key \<and> open_status (at_status r)) t)"

definition find_all_open_attributions ::
  "db_query \<Rightarrow> string \<times> string \<times> pyfloat \<times> option_right \<Rightarrow> attribution_table \<Rightarrow> py_error + attribution list" where
  "find_all_open_attributions q key t =
     (case q of Query_Ok \<Rightarrow> Inr (open_rows key t) | Query_Failed \<Rightarrow> Inr [] | Open_Failed e \<Rightarrow> Inl e)"

definition find_open_attribution ::
  "db_query \<Rightarrow> string \<times> string \<times> pyfloat \<times> option_right \<Rightarrow> attribution_table \<Rightarrow> py_error + attribution option" where
  "find_open_attribution q key t =
     (case q of
        Query_Ok \<Rightarrow> Inr (case take 1 (open_rows key t) of [] \<Rightarrow> None | r # _ \<Rightarrow> Some r)
      | Query_Failed \<Rightarrow> Inr None
      | Open_Failed e \<Rightarrow> Inl e)"

definition zone_date :: "zone \<Rightarrow> instant \<Rightarrow> int" where
  "zone_date ny t = (t + ny t) div us_per_day"

definition entered_on :: "zone \<Rightarrow> int \<Rightarrow> attribution \<Rightarrow> bool" where
  "entered_on ny d r = (case at_entry_time r of None \<Rightarrow> False | Some t \<Rightarrow> zone_date ny t = d)"

definition strategies_traded_on :: "zone \<Rightarrow> int \<Rightarrow> attribution_table \<Rightarrow> string set" where
  "strategies_traded_on ny d t = at_strategy ` set (filter (entered_on ny d) t)"

section \<open>History\<close>

definition closed_rows :: "attribution_table \<Rightarrow> attribution list" where
  "closed_rows t = filter (\<lambda>r. at_status r = CLOSED) t"

definition pnl_of :: "attribution \<Rightarrow> pyfloat" where
  "pnl_of r = (case at_realized r of None \<Rightarrow> 0 | Some x \<Rightarrow> x)"

record day_summary =
  ds_date :: int
  ds_realized :: pyfloat
  ds_closed :: nat

definition add_to_day :: "zone \<Rightarrow> attribution \<Rightarrow> (int, day_summary) pydict \<Rightarrow> (int, day_summary) pydict" where
  "add_to_day ny r d = (case at_closed r of None \<Rightarrow> d | Some t \<Rightarrow>
     let day = zone_date ny t;
         s = dict_default d day \<lparr>ds_date = day, ds_realized = 0, ds_closed = 0\<rparr>
     in AList.update day (s\<lparr>ds_realized := ds_realized s + pnl_of r, ds_closed := ds_closed s + 1\<rparr>) d)"

definition add_to_strategy ::
  "zone \<Rightarrow> int \<Rightarrow> attribution \<Rightarrow> (string, pyfloat) pydict \<Rightarrow> (string, pyfloat) pydict" where
  "add_to_strategy ny today r d = (case at_closed r of None \<Rightarrow> d | Some t \<Rightarrow>
     if zone_date ny t = today
     then AList.update (at_strategy r) (py_round 2 (dict_default d (at_strategy r) 0 + pnl_of r)) d else d)"

text \<open>\<open>today\<close>, its split by strategy, and the newest \<open>days\<close> days.\<close>

definition daily_pnl_summary ::
  "zone \<Rightarrow> instant \<Rightarrow> nat \<Rightarrow> attribution_table \<Rightarrow> day_summary \<times> (string, pyfloat) pydict \<times> day_summary list" where
  "daily_pnl_summary ny now days t =
     (let today = zone_date ny now;
          by_day = map (\<lambda>(k, s). (k, s\<lparr>ds_realized := py_round 2 (ds_realized s)\<rparr>)) (fold (add_to_day ny) (closed_rows t) []);
          by_strategy = fold (add_to_strategy ny today) (closed_rows t) []
      in (dict_default by_day today \<lparr>ds_date = today, ds_realized = 0, ds_closed = 0\<rparr>, by_strategy,
          take days (sort_key (\<lambda>s. - ds_date s) (dict_values by_day))))"

definition strategy_pnl_summary :: "attribution_table \<Rightarrow> (string, nat \<times> pyfloat) pydict" where
  "strategy_pnl_summary t =
     map (\<lambda>sid. let rows = filter (\<lambda>r. at_strategy r = sid) (closed_rows t)
                in (sid, length rows, py_round 2 (sum_list (map pnl_of rows))))
       (remdups (map at_strategy (closed_rows t)))"

definition closed_positions :: "nat \<Rightarrow> attribution_table \<Rightarrow> attribution list" where
  "closed_positions limit t =
     take limit (sort_key (\<lambda>r. - the (coalesce (at_closed r) (Some (at_updated r)))) (closed_rows t))"

section \<open>Lemmas\<close>

lemma coalesce_simps [simp]: "coalesce None y = y" "coalesce (Some v) y = Some v"
  by (simp_all add: coalesce_def)

lemma conflict_update_simps [simp]:
  "at_id (conflict_update ex r) = at_id r" "at_strategy (conflict_update ex r) = at_strategy ex"
  "at_contract (conflict_update ex r) = at_contract r" "at_entry_time (conflict_update ex r) = at_entry_time r"
  "at_status (conflict_update ex r) = at_status ex" "at_quantity (conflict_update ex r) = at_quantity ex"
  "at_realized (conflict_update ex r) = at_realized ex" "at_avg_entry (conflict_update ex r) = at_avg_entry ex"
  "at_close_reason (conflict_update ex r) = coalesce (at_close_reason ex) (at_close_reason r)"
  by (simp_all add: conflict_update_def)

lemma upsert_position_cases:
  "upsert_position clock reply p reason t = t
   \<or> (\<exists>k \<le> 2. reply k = DB_Ok \<and> upsert_position clock reply p reason t = upsert_once (clock k) p reason t)"
  by (cases "reply 0"; cases "reply 1"; cases "reply 2")
    (auto simp: upsert_position_def intro: exI [of _ 0] exI [of _ 1] exI [of _ 2])

lemma upsert_once_ids: "map at_id (upsert_once now p reason t) =
    (if ps_id p \<in> at_id ` set t then map at_id t else map at_id t @ [ps_id p])"
  by (auto simp: upsert_once_def Let_def position_row_def)

definition keyed_table :: "attribution_table \<Rightarrow> bool" where
  "keyed_table t \<longleftrightarrow> distinct (map at_id t)"

lemma upsert_once_keyed: "keyed_table t \<Longrightarrow> keyed_table (upsert_once now p reason t)"
  unfolding keyed_table_def upsert_once_ids by auto

lemma sweep_unfold: "snd (mark_closed_if_absent q now keys t) =
    (if q = Query_Ok then map (\<lambda>r. if open_status (at_status r) \<and> at_contract r \<notin> keys
       then r\<lparr>at_status := CLOSED, at_updated := now\<rparr> else r) t else t)"
  by (simp add: mark_closed_if_absent_def close_absent_def Let_def split: db_query.split)

lemma sweep_ids [simp]: "map at_id (snd (mark_closed_if_absent q now keys t)) = map at_id t"
  by (simp add: sweep_unfold)

text \<open>The two ways the table is written to. A position keeps its strategy.\<close>

inductive store_step :: "attribution_table \<Rightarrow> attribution_table \<Rightarrow> bool" where
  store_upsert: "\<forall>r \<in> set t. at_id r = ps_id p \<longrightarrow> at_strategy r = ps_strategy p \<Longrightarrow>
     store_step t (upsert_position clock reply p reason t)"
| store_sweep: "store_step t (snd (mark_closed_if_absent q now keys t))"

lemma upsert_once_traded:
  assumes "\<forall>r \<in> set t. at_id r = ps_id p \<longrightarrow> at_strategy r = ps_strategy p"
  shows "strategies_traded_on ny d t \<subseteq> strategies_traded_on ny d (upsert_once now p reason t)"
proof
  fix sid assume "sid \<in> strategies_traded_on ny d t"
  then obtain r where r: "r \<in> set t" "entered_on ny d r" "at_strategy r = sid"
    by (auto simp: strategies_traded_on_def)
  define r' where "r' = (if ps_id p \<in> at_id ` set t \<and> at_id r = ps_id p
    then conflict_update (position_row now p reason) r else r)"
  have "r' \<in> set (upsert_once now p reason t)" using r(1) by (auto simp: upsert_once_def Let_def r'_def)
  moreover have "entered_on ny d r'" using r(2) by (simp add: r'_def entered_on_def)
  moreover have "at_strategy r' = sid" using r assms by (auto simp: r'_def position_row_def)
  ultimately show "sid \<in> strategies_traded_on ny d (upsert_once now p reason t)"
    by (auto simp: strategies_traded_on_def)
qed

lemma sweep_traded:
  "strategies_traded_on ny d t \<subseteq> strategies_traded_on ny d (snd (mark_closed_if_absent q now keys t))"
proof
  fix sid assume "sid \<in> strategies_traded_on ny d t"
  then obtain r where r: "r \<in> set t" "entered_on ny d r" "at_strategy r = sid"
    by (auto simp: strategies_traded_on_def)
  let ?f = "\<lambda>r. if q = Query_Ok \<and> open_status (at_status r) \<and> at_contract r \<notin> keys
    then r\<lparr>at_status := CLOSED, at_updated := now\<rparr> else r"
  have "?f r \<in> set (snd (mark_closed_if_absent q now keys t))" using r(1) by (auto simp: sweep_unfold)
  moreover have "at_strategy (?f r) = sid" "entered_on ny d (?f r)" using r by (simp_all add: entered_on_def)
  ultimately show "sid \<in> strategies_traded_on ny d (snd (mark_closed_if_absent q now keys t))"
    unfolding strategies_traded_on_def by (intro image_eqI [of _ _ "?f r"]) simp_all
qed

lemma store_step_traded: "store_step t t' \<Longrightarrow> strategies_traded_on ny d t \<subseteq> strategies_traded_on ny d t'"
proof (induction rule: store_step.induct)
  case (store_upsert t p clock reply reason)
  from upsert_position_cases [of clock reply p reason t] upsert_once_traded [OF store_upsert, of ny d]
  show ?case by (metis order_refl)
next
  case store_sweep then show ?case by (rule sweep_traded)
qed

lemma store_step_keyed: "store_step t t' \<Longrightarrow> keyed_table t \<Longrightarrow> keyed_table t'"
proof (induction rule: store_step.induct)
  case (store_upsert t p clock reply reason)
  with upsert_position_cases [of clock reply p reason t] upsert_once_keyed show ?case by metis
next
  case store_sweep then show ?case by (simp add: keyed_table_def)
qed

interpretation attributions: step_invariant "\<lambda>t. t = []" store_step keyed_table
  using store_step_keyed by unfold_locales (auto simp: keyed_table_def)

interpretation traded: step_invariant "\<lambda>t. sid \<in> strategies_traded_on ny d t" store_step
  "\<lambda>t. sid \<in> strategies_traded_on ny d t" for sid ny d
  using store_step_traded [THEN subsetD] by unfold_locales auto

section \<open>What the table promises\<close>

lemma filter_map_id: "(\<And>r. at_id (f r) = at_id r) \<Longrightarrow> filter (\<lambda>r. P (at_id r)) (map f t) = map f (filter (\<lambda>r. P (at_id r)) t)"
  by (simp add: filter_map o_def)

lemma keyed_row: "keyed_table t \<Longrightarrow> r \<in> set t \<Longrightarrow> filter (\<lambda>x. at_id x = at_id r) t = [r]"
  unfolding keyed_table_def
proof (induction t)
  case (Cons a t)
  then have "at_id a = at_id r \<Longrightarrow> filter (\<lambda>x. at_id x = at_id r) t = []"
    by (auto simp: filter_empty_conv image_iff)
  then show ?case using Cons by (auto simp: image_iff)
qed simp

lemma upsert_once_rows:
  assumes "keyed_table t"
  shows "\<exists>r. filter (\<lambda>x. at_id x = ps_id p) (upsert_once now p reason t) = [r]
      \<and> at_strategy r = ps_strategy p \<and> at_quantity r = ps_quantity p \<and> at_status r = ps_status p
      \<and> at_avg_entry r = ps_avg_entry p \<and> at_realized r = Some (ps_realized p)
      \<and> (\<forall>old \<in> set t. at_id old = ps_id p \<longrightarrow> at_entry_time r = at_entry_time old
           \<and> at_contract r = at_contract old \<and> at_close_reason r = coalesce reason (at_close_reason old))"
    and "filter (\<lambda>x. at_id x \<noteq> ps_id p) (upsert_once now p reason t) = filter (\<lambda>x. at_id x \<noteq> ps_id p) t"
proof -
  let ?ex = "position_row now p reason"
  let ?f = "\<lambda>r. if at_id r = ps_id p then conflict_update ?ex r else r"
  have fid: "at_id (?f r) = at_id r" for r by simp
  show "filter (\<lambda>x. at_id x \<noteq> ps_id p) (upsert_once now p reason t) = filter (\<lambda>x. at_id x \<noteq> ps_id p) t"
  proof (cases "ps_id p \<in> at_id ` set t")
    case True
    have "filter (\<lambda>x. at_id x \<noteq> ps_id p) (map ?f t) = map ?f (filter (\<lambda>x. at_id x \<noteq> ps_id p) t)"
      by (rule filter_map_id [of ?f "\<lambda>i. i \<noteq> ps_id p"]) (rule fid)
    also have "\<dots> = filter (\<lambda>x. at_id x \<noteq> ps_id p) t" by (induction t) auto
    finally show ?thesis using True by (simp add: upsert_once_def)
  next
    case False
    then show ?thesis by (simp add: upsert_once_def Let_def position_row_def)
  qed
  show "\<exists>r. filter (\<lambda>x. at_id x = ps_id p) (upsert_once now p reason t) = [r]
      \<and> at_strategy r = ps_strategy p \<and> at_quantity r = ps_quantity p \<and> at_status r = ps_status p
      \<and> at_avg_entry r = ps_avg_entry p \<and> at_realized r = Some (ps_realized p)
      \<and> (\<forall>old \<in> set t. at_id old = ps_id p \<longrightarrow> at_entry_time r = at_entry_time old
           \<and> at_contract r = at_contract old \<and> at_close_reason r = coalesce reason (at_close_reason old))"
  proof (cases "ps_id p \<in> at_id ` set t")
    case True
    then obtain old where old: "old \<in> set t" "at_id old = ps_id p" by auto
    have one: "filter (\<lambda>x. at_id x = ps_id p) t = [old]" using keyed_row [OF assms old(1)] old(2) by simp
    have "filter (\<lambda>x. at_id x = ps_id p) (map ?f t) = map ?f (filter (\<lambda>x. at_id x = ps_id p) t)"
      by (rule filter_map_id [of ?f "\<lambda>i. i = ps_id p"]) (rule fid)
    then have "filter (\<lambda>x. at_id x = ps_id p) (upsert_once now p reason t) = [conflict_update ?ex old]"
      using True one old(2) by (simp add: upsert_once_def)
    moreover have "o' = old" if "o' \<in> set t" "at_id o' = ps_id p" for o'
    proof -
      have "o' \<in> set (filter (\<lambda>x. at_id x = ps_id p) t)" using that by simp
      then show ?thesis unfolding one by simp
    qed
    ultimately show ?thesis by (auto simp: position_row_def)
  next
    case False
    then have "filter (\<lambda>x. at_id x = ps_id p) (upsert_once now p reason t) = [?ex]"
      by (force simp: upsert_once_def Let_def position_row_def filter_empty_conv)
    moreover have "\<forall>old \<in> set t. at_id old \<noteq> ps_id p" using False by force
    ultimately show ?thesis by (simp add: position_row_def)
  qed
qed

lemma upsert_position_through:
  "k \<le> 2 \<Longrightarrow> \<forall>j < k. reply j = DB_Locked \<Longrightarrow> reply k = DB_Ok \<Longrightarrow>
   upsert_position clock reply p reason t = upsert_once (clock k) p reason t"
  by (auto simp: upsert_position_def numeral_2_eq_2 le_Suc_eq All_less_Suc)

text \<open>A write that gets through within three attempts, whatever locks it met before, leaves one
  row for the position with its current strategy, quantity, status, price and profit, keeps the entry
  time and the contract of an existing row and its close reason when no new one is given, and leaves
  the rows of all other positions as they are.\<close>

lemma upsert_writes_one_row:
  assumes "keyed_table t" "k \<le> 2" "\<forall>j < k. reply j = DB_Locked" "reply k = DB_Ok"
  shows "let t' = upsert_position clock reply p reason t
    in (\<exists>r. filter (\<lambda>x. at_id x = ps_id p) t' = [r]
      \<and> at_strategy r = ps_strategy p \<and> at_quantity r = ps_quantity p \<and> at_status r = ps_status p
      \<and> at_avg_entry r = ps_avg_entry p \<and> at_realized r = Some (ps_realized p)
      \<and> (\<forall>old \<in> set t. at_id old = ps_id p \<longrightarrow> at_entry_time r = at_entry_time old
           \<and> at_contract r = at_contract old \<and> at_close_reason r = coalesce reason (at_close_reason old)))
     \<and> filter (\<lambda>x. at_id x \<noteq> ps_id p) t' = filter (\<lambda>x. at_id x \<noteq> ps_id p) t"
  using upsert_once_rows [OF assms(1), of p "clock k" reason] upsert_position_through [OF assms(2-4)]
  by (simp add: Let_def)

definition sample_position :: "uuid \<Rightarrow> position" where
  "sample_position i = (open_position (sample_fill BUY 2 4) i)\<lparr>ps_id := i\<rparr>"

definition ny_summer_zone :: zone where
  "ny_summer_zone t = -14400000000"

definition lock_then_ok :: "nat \<Rightarrow> db_reply" where
  "lock_then_ok k = (if k = 0 then DB_Locked else DB_Ok)"

theorem upsert_writes_one_row_witness:
  "length (filter (\<lambda>x. at_id x = 5) (upsert_position int lock_then_ok (sample_position 5) (Some ''manual'')
     [position_row 0 (sample_position 5) None])) = 1"
proof -
  have "keyed_table [position_row 0 (sample_position 5) None]" by (simp add: keyed_table_def)
  from upsert_writes_one_row [OF this, of 1 lock_then_ok int "sample_position 5" "Some ''manual''"]
  have "\<exists>r. filter (\<lambda>x. at_id x = ps_id (sample_position 5)) (upsert_position int lock_then_ok (sample_position 5) (Some ''manual'')
     [position_row 0 (sample_position 5) None]) = [r]"
    by (auto simp: lock_then_ok_def Let_def)
  moreover have "ps_id (sample_position 5) = 5" by (simp add: sample_position_def)
  ultimately show ?thesis by auto
qed

text \<open>A strategy counted as traded on a New York date stays counted through every later run of
  writes and startup sweeps, as long as no write gives a position to another strategy.\<close>

lemma traded_today_survives:
  assumes "sid \<in> strategies_traded_on ny d t" "store_step\<^sup>*\<^sup>* t t'"
  shows "sid \<in> strategies_traded_on ny d t'"
  using traded.inv_steps [OF assms(2,1)] .

theorem traded_today_survives_witness:
  "''s'' \<in> strategies_traded_on ny_summer_zone (-1) (snd (mark_closed_if_absent Query_Ok 7 {} [position_row 0 (sample_position 5) None]))"
proof (rule traded_today_survives)
  show "''s'' \<in> strategies_traded_on ny_summer_zone (-1) [position_row 0 (sample_position 5) None]" by code_simp
qed (rule r_into_rtranclp, rule store_sweep)

text \<open>After a startup sweep that gets through no open row is left for a contract the broker does not
  hold, the rows of the contracts it holds are untouched, and the result is the number of rows that
  were closed. One that fails reports zero and leaves every row as it is.\<close>

lemma sweep_closes_stale:
  "\<exists>t'. mark_closed_if_absent Query_Ok now keys t =
       (Inr (length (filter (\<lambda>r. open_status (at_status r) \<and> at_contract r \<notin> keys) t)), t')
     \<and> list_all2 (\<lambda>r r'. if open_status (at_status r) \<and> at_contract r \<notin> keys
          then r' = r\<lparr>at_status := CLOSED, at_updated := now\<rparr> else r' = r) t t'
     \<and> (if key \<in> keys then open_rows key t' = open_rows key t else open_rows key t' = [])"
proof -
  let ?s = "\<lambda>r. open_status (at_status r) \<and> at_contract r \<notin> keys"
  let ?f = "\<lambda>r. if ?s r then r\<lparr>at_status := CLOSED, at_updated := now\<rparr> else r"
  have "list_all2 (\<lambda>r r'. if ?s r then r' = r\<lparr>at_status := CLOSED, at_updated := now\<rparr> else r' = r) t (map ?f t)"
    by (simp add: list_all2_map2 list.rel_refl)
  moreover have "filter (\<lambda>r. at_contract r = key \<and> open_status (at_status r)) (map ?f t)
      = (if key \<in> keys then filter (\<lambda>r. at_contract r = key \<and> open_status (at_status r)) t else [])"
    by (induction t) (auto simp: open_status_def)
  ultimately show ?thesis
    by (intro exI [of _ "map ?f t"]) (simp add: mark_closed_if_absent_def close_absent_def Let_def open_rows_def)
qed

lemma failed_sweep_changes_nothing: "mark_closed_if_absent Query_Failed now keys t = (Inr 0, t)"
  by (simp add: mark_closed_if_absent_def)

lemma find_open_is_newest:
  "find_open_attribution q key t =
     map_sum id (\<lambda>rows. case rows of [] \<Rightarrow> None | r # _ \<Rightarrow> Some r) (find_all_open_attributions q key t)"
  by (cases q) (simp_all add: find_open_attribution_def find_all_open_attributions_def take_Suc split: list.split)

end
