(* ===== verification/Risk_Engine.thy ===== *)
theory Risk_Engine
  imports Config Data_Quality
begin

text \<open>
  \<^verbatim>\<open>src/risk/risk_engine.py\<close>: the deterministic evaluation of an entry signal. Each check
  returns what it appends to the list of blocking reasons; \<open>evaluate\<close> runs all eighteen in the
  code's order without short-circuit. The abstract contract is \<open>entry_permitted\<close>; the checks
  are shown to implement it.
\<close>

section \<open>The snapshot and the engine\<close>

record position_info =
  pi_strategy :: string
  pi_underlying :: string
  pi_status :: position_status
  pi_quantity :: int

record system_state =
  ss_positions :: "position_info list"
  ss_open_orders :: int
  ss_daily_pnl :: pyfloat
  ss_strategy_pnl :: "(string, pyfloat) pydict"
  ss_quote :: "quote_snapshot option"
  ss_kill_switch :: bool
  ss_current_time :: "datetime option"
  ss_last_trades :: "(string, datetime) pydict"

record risk_engine =
  re_risk :: full_risk
  re_strategies :: "(string, strategy_config) pydict"
  re_overrides :: overrides_config

definition active_position_status :: "position_status \<Rightarrow> bool" where
  "active_position_status s \<longleftrightarrow> s \<in> {OPENING, OPEN, PARTIALLY_CLOSED}"

definition count_active_positions :: "system_state \<Rightarrow> int" where
  "count_active_positions st =
     int (length (filter (\<lambda>p. active_position_status (pi_status p)) (ss_positions st)))"

section \<open>The checks\<close>

definition check_kill_switch :: "system_state \<Rightarrow> fstr list" where
  "check_kill_switch st = (if ss_kill_switch st then [lit ''kill_switch_engaged''] else [])"

definition check_trading_mode :: "risk_engine \<Rightarrow> fstr list" where
  "check_trading_mode e = (if gr_trading_mode (fr_global (re_risk e)) = ''disabled''
     then [lit ''trading_mode_disabled''] else [])"

definition check_system_locked :: "risk_engine \<Rightarrow> fstr list" where
  "check_system_locked e = (if ov_system_locked (re_overrides e) then [lit ''system_locked''] else [])"

definition check_strategy_enabled :: "risk_engine \<Rightarrow> strategy_signal \<Rightarrow> fstr list" where
  "check_strategy_enabled e sg = (case map_of (re_strategies e) (sg_strategy sg) of
       None \<Rightarrow> [Fstr ''strategy_unknown:{}'' [FStr (sg_strategy sg)]]
     | Some cfg \<Rightarrow> if \<not> sc_enabled cfg then [Fstr ''strategy_disabled:{}'' [FStr (sg_strategy sg)]]
                   else [])"

definition check_strategy_paused :: "risk_engine \<Rightarrow> strategy_signal \<Rightarrow> fstr list" where
  "check_strategy_paused e sg = (if sg_strategy sg \<in> set (ov_paused (re_overrides e))
     then [Fstr ''strategy_paused:{}'' [FStr (sg_strategy sg)]] else [])"

definition check_symbol_disabled :: "risk_engine \<Rightarrow> strategy_signal \<Rightarrow> fstr list" where
  "check_symbol_disabled e sg = (let underlying = oc_symbol (sg_contract sg)
     in if underlying \<in> set (ov_disabled_symbols (re_overrides e))
        then [Fstr ''symbol_disabled:{}'' [FStr underlying]] else [])"

definition check_reduce_only :: "risk_engine \<Rightarrow> strategy_signal \<Rightarrow> fstr list" where
  "check_reduce_only e sg = (if ov_reduce_only (re_overrides e)
       \<or> sg_strategy sg \<in> set (ov_reduce_only_strategies (re_overrides e))
     then [lit ''reduce_only_mode''] else [])"

text \<open>The parsed cutoff is compared with the wall-clock time of day of \<open>now\<close>.\<close>

definition check_cutoff_time :: "risk_engine \<Rightarrow> datetime \<Rightarrow> py_error + fstr list" where
  "check_cutoff_time e now = try_bind (cutoff_time (fr_global (re_risk e))) (\<lambda>cutoff.
     Inr (if minute_of_day cutoff * us_per_minute \<le> time_of_day now
          then [Fstr ''no_new_trades_cutoff:{}'' [FStr (gr_cutoff (fr_global (re_risk e)))]] else []))"

definition check_daily_loss_limit :: "risk_engine \<Rightarrow> system_state \<Rightarrow> fstr list" where
  "check_daily_loss_limit e st = (let limit = gr_daily_loss_limit (fr_global (re_risk e))
     in if ss_daily_pnl st \<le> - limit
        then [Fstr ''daily_loss_limit_exceeded:pnl={},limit={}'' [FFloat (ss_daily_pnl st), FFloat limit]]
        else [])"

definition check_strategy_daily_loss_limit ::
  "risk_engine \<Rightarrow> strategy_signal \<Rightarrow> system_state \<Rightarrow> fstr list" where
  "check_strategy_daily_loss_limit e sg st =
     (let pnl = dict_default (ss_strategy_pnl st) (sg_strategy sg) 0;
          limit = pr_max_daily_loss (fr_per_strategy (re_risk e))
      in if pnl \<le> - limit
         then [Fstr ''strategy_daily_loss_limit_exceeded:strategy={},pnl={},limit={}''
                 [FStr (sg_strategy sg), FFloat pnl, FFloat limit]]
         else [])"

definition check_max_contracts :: "risk_engine \<Rightarrow> strategy_signal \<Rightarrow> fstr list" where
  "check_max_contracts e sg = (let m = gr_max_contracts (fr_global (re_risk e))
     in if m < sg_quantity sg
        then [Fstr ''requested_quantity_exceeds_max_contracts:requested={},max={}''
                [FInt (sg_quantity sg), FInt m]]
        else [])"

definition check_max_open_positions :: "risk_engine \<Rightarrow> system_state \<Rightarrow> fstr list" where
  "check_max_open_positions e st =
     (let active = count_active_positions st; limit = gr_max_open_positions (fr_global (re_risk e))
      in if limit \<le> active
         then [Fstr ''max_open_positions_exceeded:count={},limit={}'' [FInt active, FInt limit]]
         else [])"

definition strategy_position_count :: "strategy_signal \<Rightarrow> system_state \<Rightarrow> int" where
  "strategy_position_count sg st = int (length (filter
     (\<lambda>p. pi_strategy p = sg_strategy sg \<and> active_position_status (pi_status p)) (ss_positions st)))"

definition check_max_positions_per_strategy ::
  "risk_engine \<Rightarrow> strategy_signal \<Rightarrow> system_state \<Rightarrow> fstr list" where
  "check_max_positions_per_strategy e sg st =
     (let count = strategy_position_count sg st; limit = pr_max_positions (fr_per_strategy (re_risk e))
      in if limit \<le> count
         then [Fstr ''max_positions_per_strategy_exceeded:strategy={},count={},limit={}''
                 [FStr (sg_strategy sg), FInt count, FInt limit]]
         else [])"

definition underlying_position_count :: "strategy_signal \<Rightarrow> system_state \<Rightarrow> int" where
  "underlying_position_count sg st = int (length (filter
     (\<lambda>p. pi_underlying p = oc_symbol (sg_contract sg) \<and> active_position_status (pi_status p))
     (ss_positions st)))"

definition check_max_positions_per_underlying ::
  "risk_engine \<Rightarrow> strategy_signal \<Rightarrow> system_state \<Rightarrow> fstr list" where
  "check_max_positions_per_underlying e sg st =
     (let count = underlying_position_count sg st; limit = fr_underlying_max_positions (re_risk e)
      in if limit \<le> count
         then [Fstr ''max_positions_per_underlying_exceeded:underlying={},count={},limit={}''
                 [FStr (oc_symbol (sg_contract sg)), FInt count, FInt limit]]
         else [])"

definition check_max_open_orders :: "risk_engine \<Rightarrow> system_state \<Rightarrow> fstr list" where
  "check_max_open_orders e st = (let limit = gr_max_open_orders (fr_global (re_risk e))
     in if limit \<le> ss_open_orders st
        then [Fstr ''max_open_orders_exceeded:count={},limit={}'' [FInt (ss_open_orders st), FInt limit]]
        else [])"

text \<open>\<open>if not valid and reason: blocking.append(reason)\<close>\<close>

definition invalid_reason :: "bool \<times> fstr option \<Rightarrow> fstr list" where
  "invalid_reason vr = (if fst vr then [] else case snd vr of None \<Rightarrow> [] | Some r \<Rightarrow> [r])"

definition check_quote_freshness ::
  "risk_engine \<Rightarrow> int \<Rightarrow> system_state \<Rightarrow> datetime \<Rightarrow> py_error + fstr list" where
  "check_quote_freshness e local st now =
     try_bind (validate_quote_freshness local (ss_quote st) now (fr_max_age (re_risk e)))
       (\<lambda>vr. Inr (invalid_reason vr))"

definition check_quote_validity :: "risk_engine \<Rightarrow> system_state \<Rightarrow> fstr list" where
  "check_quote_validity e st = (case ss_quote st of None \<Rightarrow> []
     | Some q \<Rightarrow> invalid_reason (validate_quote_prices (Some q) (fr_max_spread_pct (re_risk e))))"

definition check_cooldown ::
  "risk_engine \<Rightarrow> strategy_signal \<Rightarrow> system_state \<Rightarrow> datetime \<Rightarrow> py_error + fstr list" where
  "check_cooldown e sg st now = (case map_of (re_strategies e) (sg_strategy sg) of
       None \<Rightarrow> Inr []
     | Some cfg \<Rightarrow>
         if sc_cooldown cfg \<le> 0 then Inr []
         else (case map_of (ss_last_trades st) (sg_strategy sg) of
           None \<Rightarrow> Inr []
         | Some prev \<Rightarrow>
             try_bind (total_seconds_between (if is_naive prev then to_naive now else now) prev)
               (\<lambda>elapsed. Inr (if elapsed < of_int (sc_cooldown cfg)
                  then [Fstr ''cooldown_active:strategy={},elapsed={:.0f}s,required={}s''
                          [FStr (sg_strategy sg), FFloat elapsed, FInt (sc_cooldown cfg)]]
                  else []))))"

section \<open>Quantity and decision\<close>

definition compute_allowed_quantity :: "risk_engine \<Rightarrow> strategy_signal \<Rightarrow> int \<times> fstr list" where
  "compute_allowed_quantity e sg =
     (let g = fr_global (re_risk e);
          qty = (if gr_max_contracts g < sg_quantity sg then gr_max_contracts g else sg_quantity sg);
          max_premium = gr_max_premium g
      in case sg_limit sg of
           None \<Rightarrow> (max qty 1, [])
         | Some limit \<Rightarrow>
             if max_premium = 0 \<or> limit = 0 then (max qty 1, [])
             else let per_contract = \<bar>limit\<bar> * 100
               in if 0 < per_contract \<and> py_int (max_premium / per_contract) < qty
                  then (max (py_int (max_premium / per_contract)) 1,
                    [Fstr ''quantity_clamped_by_max_premium:requested={},allowed={},per_contract={:.2f},limit={}''
                       [FInt qty, FInt (py_int (max_premium / per_contract)), FFloat per_contract,
                        FFloat max_premium]])
                  else (max qty 1, []))"

definition blocking_before_cutoff :: "risk_engine \<Rightarrow> strategy_signal \<Rightarrow> system_state \<Rightarrow> fstr list" where
  "blocking_before_cutoff e sg st = check_kill_switch st @ check_trading_mode e @ check_system_locked e
     @ check_strategy_enabled e sg @ check_strategy_paused e sg @ check_symbol_disabled e sg
     @ check_reduce_only e sg"

definition blocking_limits :: "risk_engine \<Rightarrow> strategy_signal \<Rightarrow> system_state \<Rightarrow> fstr list" where
  "blocking_limits e sg st = check_daily_loss_limit e st @ check_strategy_daily_loss_limit e sg st
     @ check_max_open_positions e st @ check_max_positions_per_strategy e sg st
     @ check_max_positions_per_underlying e sg st @ check_max_open_orders e st"

definition evaluate ::
  "risk_engine \<Rightarrow> int \<Rightarrow> uuid \<Rightarrow> datetime \<Rightarrow> strategy_signal \<Rightarrow> system_state \<Rightarrow> py_error + risk_decision" where
  "evaluate e local fresh clock sg st =
     (let now = (case ss_current_time st of Some t \<Rightarrow> t | None \<Rightarrow> clock);
          warnings = check_max_contracts e sg
      in try_bind (check_cutoff_time e now) (\<lambda>b_cutoff.
         try_bind (check_quote_freshness e local st now) (\<lambda>b_fresh.
         try_bind (check_cooldown e sg st now) (\<lambda>b_cool.
           let blocking = blocking_before_cutoff e sg st @ b_cutoff @ blocking_limits e sg st
                 @ b_fresh @ check_quote_validity e st @ b_cool
           in if blocking \<noteq> []
              then Inr \<lparr>rd_id = fresh, rd_signal_id = sg_id sg, rd_status = DECISION_REJECTED,
                     rd_allowed = 0, rd_blocking = blocking, rd_warnings = warnings\<rparr>
              else let (qty, more) = compute_allowed_quantity e sg
                in Inr \<lparr>rd_id = fresh, rd_signal_id = sg_id sg, rd_status = APPROVED,
                     rd_allowed = qty, rd_blocking = [], rd_warnings = warnings @ more\<rparr>))))"

section \<open>The contract of the engine\<close>

text \<open>
  What the engine promises, stated without the reasons: an entry is permitted when no switch
  blocks it, the strategy is known, enabled and not paused, every limit has room, the clock is
  before the cutoff, the quote is fresh and tradeable, and the cooldown has passed.
\<close>

definition switches_clear :: "risk_engine \<Rightarrow> strategy_signal \<Rightarrow> system_state \<Rightarrow> bool" where
  "switches_clear e sg st \<longleftrightarrow> \<not> ss_kill_switch st
     \<and> gr_trading_mode (fr_global (re_risk e)) \<noteq> ''disabled''
     \<and> \<not> ov_system_locked (re_overrides e)
     \<and> (\<exists>cfg. map_of (re_strategies e) (sg_strategy sg) = Some cfg \<and> sc_enabled cfg)
     \<and> sg_strategy sg \<notin> set (ov_paused (re_overrides e))
     \<and> oc_symbol (sg_contract sg) \<notin> set (ov_disabled_symbols (re_overrides e))
     \<and> \<not> ov_reduce_only (re_overrides e)
     \<and> sg_strategy sg \<notin> set (ov_reduce_only_strategies (re_overrides e))"

definition limits_have_room :: "risk_engine \<Rightarrow> strategy_signal \<Rightarrow> system_state \<Rightarrow> bool" where
  "limits_have_room e sg st \<longleftrightarrow>
     - gr_daily_loss_limit (fr_global (re_risk e)) < ss_daily_pnl st
     \<and> - pr_max_daily_loss (fr_per_strategy (re_risk e))
         < dict_default (ss_strategy_pnl st) (sg_strategy sg) 0
     \<and> count_active_positions st < gr_max_open_positions (fr_global (re_risk e))
     \<and> strategy_position_count sg st < pr_max_positions (fr_per_strategy (re_risk e))
     \<and> underlying_position_count sg st < fr_underlying_max_positions (re_risk e)
     \<and> ss_open_orders st < gr_max_open_orders (fr_global (re_risk e))"

definition before_cutoff :: "risk_engine \<Rightarrow> datetime \<Rightarrow> bool" where
  "before_cutoff e now \<longleftrightarrow> (\<exists>ct. cutoff_time (fr_global (re_risk e)) = Inr ct
     \<and> time_of_day now < minute_of_day ct * us_per_minute)"

definition cooled_down :: "risk_engine \<Rightarrow> strategy_signal \<Rightarrow> system_state \<Rightarrow> datetime \<Rightarrow> bool" where
  "cooled_down e sg st now \<longleftrightarrow> (\<forall>cfg prev. map_of (re_strategies e) (sg_strategy sg) = Some cfg
     \<longrightarrow> 0 < sc_cooldown cfg \<longrightarrow> map_of (ss_last_trades st) (sg_strategy sg) = Some prev
     \<longrightarrow> (\<exists>secs. total_seconds_between (if is_naive prev then to_naive now else now) prev = Inr secs
            \<and> of_int (sc_cooldown cfg) \<le> secs))"

definition entry_permitted ::
  "risk_engine \<Rightarrow> int \<Rightarrow> strategy_signal \<Rightarrow> system_state \<Rightarrow> datetime \<Rightarrow> bool" where
  "entry_permitted e local sg st now \<longleftrightarrow> switches_clear e sg st \<and> limits_have_room e sg st
     \<and> before_cutoff e now
     \<and> fresh_quote local (ss_quote st) now (fr_max_age (re_risk e))
     \<and> tradeable_prices (ss_quote st) (fr_max_spread_pct (re_risk e))
     \<and> cooled_down e sg st now"

section \<open>Lemmas\<close>

lemma blocking_before_cutoff_empty:
  "blocking_before_cutoff e sg st = [] \<longleftrightarrow> switches_clear e sg st"
  by (auto simp: blocking_before_cutoff_def switches_clear_def check_kill_switch_def
      check_trading_mode_def check_system_locked_def check_strategy_enabled_def
      check_strategy_paused_def check_symbol_disabled_def check_reduce_only_def Let_def
      split: option.splits if_splits)

lemma blocking_limits_empty: "blocking_limits e sg st = [] \<longleftrightarrow> limits_have_room e sg st"
  by (simp add: blocking_limits_def limits_have_room_def check_daily_loss_limit_def
      check_strategy_daily_loss_limit_def check_max_open_positions_def
      check_max_positions_per_strategy_def check_max_positions_per_underlying_def
      check_max_open_orders_def Let_def not_le)

lemma check_cutoff_time_empty:
  "check_cutoff_time e now = Inr b \<Longrightarrow> b = [] \<longleftrightarrow> before_cutoff e now"
  by (auto simp: check_cutoff_time_def before_cutoff_def try_bind_eq_Inr split: if_splits)

lemma check_quote_freshness_total: "\<exists>b. check_quote_freshness e local st now = Inr b"
  by (rule validate_quote_freshness_cases [of local "ss_quote st" now "fr_max_age (re_risk e)"])
    (simp_all add: check_quote_freshness_def)

lemma check_quote_freshness_empty:
  "check_quote_freshness e local st now = Inr b \<Longrightarrow>
     b = [] \<longleftrightarrow> fresh_quote local (ss_quote st) now (fr_max_age (re_risk e))"
  by (rule validate_quote_freshness_cases [of local "ss_quote st" now "fr_max_age (re_risk e)"])
    (auto simp: check_quote_freshness_def invalid_reason_def)

lemma check_quote_validity_empty:
  "fresh_quote local (ss_quote st) now a \<Longrightarrow>
     check_quote_validity e st = [] \<longleftrightarrow> tradeable_prices (ss_quote st) (fr_max_spread_pct (re_risk e))"
  by (cases "ss_quote st", simp add: fresh_quote_def)
    (rule validate_quote_prices_cases [of "ss_quote st" "fr_max_spread_pct (re_risk e)"],
      auto simp: check_quote_validity_def invalid_reason_def)

lemma check_cooldown_empty:
  "check_cooldown e sg st now = Inr b \<Longrightarrow> b = [] \<longleftrightarrow> cooled_down e sg st now"
  by (auto simp: check_cooldown_def cooled_down_def try_bind_eq_Inr not_less
      split: option.splits if_splits)

lemma check_cooldown_total:
  assumes "\<not> is_naive now" and "\<forall>t. map_of (ss_last_trades st) (sg_strategy sg) = Some t \<longrightarrow> \<not> is_naive t"
  shows "\<exists>b. check_cooldown e sg st now = Inr b"
proof (cases "map_of (ss_last_trades st) (sg_strategy sg)")
  case None
  then show ?thesis by (simp add: check_cooldown_def split: option.split)
next
  case (Some prev)
  with assms(2) have "\<not> is_naive prev" by simp
  with total_seconds_aware [OF assms(1)] obtain s where "total_seconds_between now prev = Inr s" by blast
  with Some \<open>\<not> is_naive prev\<close> show ?thesis
    by (simp add: check_cooldown_def split: option.split)
qed

text \<open>The shape of every evaluation that does not raise.\<close>

lemma evaluate_cases:
  assumes "evaluate e local fresh clock sg st = Inr d"
    and "now = (case ss_current_time st of Some t \<Rightarrow> t | None \<Rightarrow> clock)"
  obtains (rejected) "\<not> entry_permitted e local sg st now" "rd_status d = DECISION_REJECTED"
      "rd_allowed d = 0" "rd_blocking d \<noteq> []"
    | (accepted) "entry_permitted e local sg st now" "rd_status d = APPROVED"
      "rd_allowed d = fst (compute_allowed_quantity e sg)" "rd_blocking d = []"
proof -
  from assms obtain b1 b2 b3 where
    b: "check_cutoff_time e now = Inr b1" "check_quote_freshness e local st now = Inr b2"
       "check_cooldown e sg st now = Inr b3"
    by (auto simp: evaluate_def Let_def try_bind_eq_Inr)
  let ?bl = "blocking_before_cutoff e sg st @ b1 @ blocking_limits e sg st @ b2
    @ check_quote_validity e st @ b3"
  have iff: "?bl = [] \<longleftrightarrow> entry_permitted e local sg st now"
    using check_cutoff_time_empty [OF b(1)] check_quote_freshness_empty [OF b(2)]
      check_cooldown_empty [OF b(3)] check_quote_validity_empty [of local st now "fr_max_age (re_risk e)" e]
    by (auto simp: entry_permitted_def blocking_before_cutoff_empty blocking_limits_empty)
  show ?thesis
  proof (cases "?bl = []")
    case True
    then show ?thesis
      using assms b iff by (intro accepted) (auto simp: evaluate_def Let_def split: prod.splits)
  next
    case False
    then show ?thesis
      using assms b iff by (intro rejected) (auto simp: evaluate_def Let_def)
  qed
qed

lemma compute_allowed_quantity_bounds:
  "1 \<le> fst (compute_allowed_quantity e sg)
   \<and> fst (compute_allowed_quantity e sg) \<le> max 1 (min (sg_quantity sg) (gr_max_contracts (fr_global (re_risk e))))"
  by (auto simp: compute_allowed_quantity_def Let_def split: option.splits)

lemma compute_allowed_quantity_premium:
  assumes "sg_limit sg = Some p" "0 < p" "0 < gr_max_premium (fr_global (re_risk e))"
    and "1 < fst (compute_allowed_quantity e sg)"
  shows "of_int (fst (compute_allowed_quantity e sg)) * (p * 100) \<le> gr_max_premium (fr_global (re_risk e))"
proof -
  let ?m = "gr_max_premium (fr_global (re_risk e))" and ?q = "fst (compute_allowed_quantity e sg)"
  have "?q \<le> py_int (?m / (p * 100))"
    using assms by (auto simp: compute_allowed_quantity_def Let_def split: if_splits)
  then have "of_int ?q \<le> (of_int (py_int (?m / (p * 100))) :: rat)"
    by (simp only: of_int_le_iff)
  also have "\<dots> \<le> ?m / (p * 100)"
    using assms by (intro py_int_le) simp
  finally show ?thesis
    using assms by (simp add: pos_le_divide_eq)
qed

section \<open>Properties\<close>

text \<open>C1: the engine approves a signal exactly when the contract \<open>entry_permitted\<close> holds at
  the time of evaluation; a rejection carries quantity 0 and at least one blocking reason, an
  approval carries none.\<close>

theorem evaluate_refines_contract:
  assumes "evaluate e local fresh clock sg st = Inr d"
  shows "(approved d \<longleftrightarrow> entry_permitted e local sg st
            (case ss_current_time st of Some t \<Rightarrow> t | None \<Rightarrow> clock))
    \<and> (approved d \<longleftrightarrow> rd_blocking d = []) \<and> (\<not> approved d \<longrightarrow> rd_allowed d = 0)"
  using assms by (rule evaluate_cases [OF _ refl]) (simp_all add: approved_def)

text \<open>An approval never increases the size of a signal and never exceeds the contract limit:
  for a positive request and a positive limit the allowed quantity lies between 1 and both.\<close>

lemma evaluate_never_increases:
  assumes "evaluate e local fresh clock sg st = Inr d" and "approved d"
    and "0 < sg_quantity sg" and "0 < gr_max_contracts (fr_global (re_risk e))"
  shows "1 \<le> rd_allowed d \<and> rd_allowed d \<le> sg_quantity sg
    \<and> rd_allowed d \<le> gr_max_contracts (fr_global (re_risk e))"
  using assms(1)
proof (rule evaluate_cases [OF _ refl])
  assume "rd_allowed d = fst (compute_allowed_quantity e sg)"
  with compute_allowed_quantity_bounds [of e sg] assms(3,4) show ?thesis by simp
qed (use assms(2) in \<open>simp add: approved_def\<close>)

text \<open>When more than one contract is approved for a signal with a limit price, the premium of
  the whole order stays within \<open>max_premium_per_trade\<close>. A single contract is always let
  through, however expensive it is.\<close>

lemma evaluate_premium_budget:
  assumes "evaluate e local fresh clock sg st = Inr d" and "approved d"
    and "sg_limit sg = Some p" and "0 < p" and "0 < gr_max_premium (fr_global (re_risk e))"
    and "1 < rd_allowed d"
  shows "of_int (rd_allowed d) * (p * 100) \<le> gr_max_premium (fr_global (re_risk e))"
  using assms(1)
proof (rule evaluate_cases [OF _ refl])
  assume "rd_allowed d = fst (compute_allowed_quantity e sg)"
  with compute_allowed_quantity_premium [OF assms(3-5)] assms(6) show ?thesis by simp
qed (use assms(2) in \<open>simp add: approved_def\<close>)

text \<open>A signal whose single contract already costs more than the premium budget is still
  approved, with quantity 1: the clamp to the budget is undone by the final \<open>max(qty, 1)\<close>.\<close>

lemma premium_budget_not_enforced_for_one_contract:
  assumes "evaluate e local fresh clock sg st = Inr d" and "approved d"
    and "sg_limit sg = Some p" and "0 < gr_max_premium (fr_global (re_risk e))"
    and "gr_max_premium (fr_global (re_risk e)) < p * 100"
    and "0 < sg_quantity sg" and "0 < gr_max_contracts (fr_global (re_risk e))"
  shows "rd_allowed d = 1 \<and> gr_max_premium (fr_global (re_risk e)) < of_int (rd_allowed d) * (p * 100)"
proof -
  let ?m = "gr_max_premium (fr_global (re_risk e))"
  have p: "0 < p" using assms(4,5) by simp
  then have "0 \<le> ?m / (p * 100)" "?m / (p * 100) < 1"
    using assms(4,5) by (simp_all add: field_simps)
  then have "py_int (?m / (p * 100)) = 0"
    by (simp add: py_int_def floor_eq_iff)
  then have "fst (compute_allowed_quantity e sg) = 1"
    using assms(3,4,6,7) p by (simp add: compute_allowed_quantity_def Let_def)
  moreover have "rd_allowed d = fst (compute_allowed_quantity e sg)"
    using assms(1) by (rule evaluate_cases [OF _ refl]) (use assms(2) in \<open>simp_all add: approved_def\<close>)
  ultimately show ?thesis using assms(5) by simp
qed

lemma evaluate_no_raise:
  assumes "cutoff_time (fr_global (re_risk e)) = Inr ct"
    and "\<not> is_naive (case ss_current_time st of Some t \<Rightarrow> t | None \<Rightarrow> clock)"
    and "\<forall>t. map_of (ss_last_trades st) (sg_strategy sg) = Some t \<longrightarrow> \<not> is_naive t"
  shows "\<exists>d. evaluate e local fresh clock sg st = Inr d"
proof -
  let ?now = "case ss_current_time st of Some t \<Rightarrow> t | None \<Rightarrow> clock"
  obtain b1 where 1: "check_cutoff_time e ?now = Inr b1"
    using assms(1) by (simp add: check_cutoff_time_def)
  obtain b2 where 2: "check_quote_freshness e local st ?now = Inr b2"
    using check_quote_freshness_total by blast
  obtain b3 where 3: "check_cooldown e sg st ?now = Inr b3"
    using check_cooldown_total [OF assms(2,3)] by blast
  from 1 2 3 show ?thesis
    by (simp add: evaluate_def Let_def split: prod.split)
qed

text \<open>The evaluation raises no exception when the cutoff of the configuration parses and the
  clock and the recorded trade times are all aware datetimes.\<close>

lemma evaluate_total:
  assumes "cutoff_time (fr_global (re_risk e)) = Inr ct"
    and "\<not> is_naive (case ss_current_time st of Some t \<Rightarrow> t | None \<Rightarrow> clock)"
    and "\<forall>t. map_of (ss_last_trades st) (sg_strategy sg) = Some t \<longrightarrow> \<not> is_naive t"
  shows "\<exists>d. evaluate e local fresh clock sg st = Inr d"
  by (rule evaluate_no_raise [OF assms])

section \<open>A concrete engine\<close>

definition sample_entry :: entry_config where
  "sample_entry = \<lparr>en_signal_source = ''xsp_breakout'', en_max_contracts = 10, en_limit_offset = 0.05,
     en_timeout_seconds = 30, en_entry_time = None, en_trigger_pct = None,
     en_strike_selection = ''premium_target'', en_target_delta = None\<rparr>"

definition sample_exit :: exit_config where
  "sample_exit = \<lparr>ex_stop_loss_pct = Some 0.5, ex_take_profit_pct = None,
     ex_time_exit = Some ''15:30'', ex_max_hold_seconds = None, ex_trailing_stop = False,
     ex_use_mid = False\<rparr>"

definition sample_strategy :: strategy_config where
  "sample_strategy = \<lparr>sc_id = ''s1'', sc_enabled = True, sc_underlying = ''XSP'',
     sc_option_type = ''single'', sc_direction = ''long'', sc_dte_target = 0,
     sc_entry = sample_entry, sc_exit = sample_exit, sc_partial_entry = Cancel_Remainder,
     sc_partial_exit = Leave_Open, sc_cooldown = 60, sc_leverage = None, sc_sizing_pct = Some 0.025,
     sc_allow_reentry = False\<rparr>"

definition sample_risk :: full_risk where
  "sample_risk = \<lparr>fr_global = sample_global_risk,
     fr_per_strategy = \<lparr>pr_max_daily_loss = 200, pr_max_positions = 2\<rparr>,
     fr_underlying_max_positions = 3, fr_max_spread_pct = 10, fr_max_age = 5, fr_exit_max_age = 30,
     fr_kill_switch = \<lparr>ks_enabled = True, ks_trigger_on_daily_loss = True,
       ks_trigger_on_disconnect_seconds = 30\<rparr>\<rparr>"

definition sample_engine :: risk_engine where
  "sample_engine = \<lparr>re_risk = sample_risk, re_strategies = [(''s1'', sample_strategy)],
     re_overrides = default_overrides\<rparr>"

definition sample_contract :: option_contract where
  "sample_contract = \<lparr>oc_symbol = ''XSP'', oc_expiry = ''20260713'', oc_strike = 620,
     oc_right = CALL, oc_multiplier = 100\<rparr>"

definition sample_signal :: "int \<Rightarrow> pyfloat \<Rightarrow> strategy_signal" where
  "sample_signal qty limit = \<lparr>sg_id = 7, sg_strategy = ''s1'', sg_direction = LONG,
     sg_contract = sample_contract, sg_quantity = qty, sg_limit = Some limit, sg_stop = None,
     sg_take_profit = None, sg_time_exit = None, sg_timestamp = 1000000000\<rparr>"

definition sample_state :: system_state where
  "sample_state = \<lparr>ss_positions = [], ss_open_orders = 0, ss_daily_pnl = 0, ss_strategy_pnl = [],
     ss_quote = Some sample_quote, ss_kill_switch = False,
     ss_current_time = Some (Aware 1001000000 0), ss_last_trades = []\<rparr>"

definition sample_evaluation :: "int \<Rightarrow> pyfloat \<Rightarrow> py_error + risk_decision" where
  "sample_evaluation qty limit =
     evaluate sample_engine 0 9 (utc 0) (sample_signal qty limit) sample_state"

definition sample_decision :: "int \<Rightarrow> fstr list \<Rightarrow> risk_decision" where
  "sample_decision qty warnings = \<lparr>rd_id = 9, rd_signal_id = 7, rd_status = APPROVED,
     rd_allowed = qty, rd_blocking = [], rd_warnings = warnings\<rparr>"

lemma sample_evaluation_10_2:
  "evaluate sample_engine 0 9 (utc 0) (sample_signal 10 2) sample_state =
     Inr (sample_decision 4 [Fstr ''requested_quantity_exceeds_max_contracts:requested={},max={}''
       [FInt 10, FInt 4]])"
  by code_simp

lemma sample_evaluation_2_20:
  "evaluate sample_engine 0 9 (utc 0) (sample_signal 2 20) sample_state =
     Inr (sample_decision 1 [Fstr
       ''quantity_clamped_by_max_premium:requested={},allowed={},per_contract={:.2f},limit={}''
       [FInt 2, FInt 0, FFloat 2000, FFloat 1000]])"
  by code_simp

lemma sample_limits:
  "gr_max_premium (fr_global (re_risk sample_engine)) = 1000"
  "gr_max_contracts (fr_global (re_risk sample_engine)) = 4"
  by code_simp+

theorem evaluate_refines_contract_witness:
  "entry_permitted sample_engine 0 (sample_signal 10 2) sample_state (Aware 1001000000 0)"
  using evaluate_refines_contract [OF sample_evaluation_10_2]
  by (simp add: approved_def sample_decision_def sample_state_def)

theorem evaluate_never_increases_witness:
  "1 \<le> (4 :: int) \<and> 4 \<le> sg_quantity (sample_signal 10 2)"
  using evaluate_never_increases [OF sample_evaluation_10_2]
  by (simp add: approved_def sample_decision_def sample_limits sample_signal_def)

theorem evaluate_premium_budget_witness:
  "of_int 4 * (2 * 100) \<le> gr_max_premium (fr_global (re_risk sample_engine))"
  using evaluate_premium_budget [OF sample_evaluation_10_2, of 2]
  by (simp add: approved_def sample_decision_def sample_limits sample_signal_def)

theorem premium_budget_not_enforced_for_one_contract_witness:
  "gr_max_premium (fr_global (re_risk sample_engine)) < of_int 1 * (20 * 100)"
  using premium_budget_not_enforced_for_one_contract [OF sample_evaluation_2_20, of 20]
  by (simp add: approved_def sample_decision_def sample_limits sample_signal_def)

theorem evaluate_total_witness:
  "\<exists>d. evaluate sample_engine 0 9 (utc 0) (sample_signal 10 2) sample_state = Inr d"
proof (rule evaluate_total)
  show "cutoff_time (fr_global (re_risk sample_engine)) = Inr (19, 30)" by code_simp
qed (simp_all add: sample_state_def)

end
