(* ===== verification/Entry_Window.thy ===== *)
theory Entry_Window
  imports Risk_Engine Bars
begin

text \<open>
  When a strategy may open a position: \<open>_strategy_entry_time_ny\<close> and \<open>_entry_window_closed\<close> of
  \<^verbatim>\<open>src/app/runner.py\<close>. Both bounds are read on the New York wall clock (\<open>ny\<close> is the zone).
  \<open>datetime.replace\<close> refuses an hour or a minute out of range; \<open>_entry_window_closed\<close> does not
  catch that error, so its result is a sum.
\<close>

definition ny_wall :: "zone \<Rightarrow> instant \<Rightarrow> int" where
  "ny_wall ny t = t + ny t"

definition ny_date :: "zone \<Rightarrow> instant \<Rightarrow> int" where
  "ny_date ny t = ny_wall ny t div us_per_day"

definition ny_minute_of_day :: "zone \<Rightarrow> instant \<Rightarrow> int" where
  "ny_minute_of_day ny t = ny_wall ny t mod us_per_day div us_per_minute"

text \<open>\<open>hh, mm = map(int, s.split(":"))\<close>; \<open>None\<close> is the \<open>ValueError\<close> the callers catch.\<close>

definition parse_pair :: "string \<Rightarrow> (int \<times> int) option" where
  "parse_pair s = (case py_split CHR '':'' s of
       [a, b] \<Rightarrow> (case (py_parse_int a, py_parse_int b) of (Some h, Some m) \<Rightarrow> Some (h, m) | _ \<Rightarrow> None)
     | _ \<Rightarrow> None)"

text \<open>The regular expression \<open>_(\d{2})(\d{2})(?:_|$)\<close> at the head of a text; \<open>$\<close> also matches
  before a final newline. \<open>re.search\<close> takes the leftmost match.\<close>

fun token_end :: "string \<Rightarrow> bool" where
  "token_end [] \<longleftrightarrow> True"
| "token_end (c # cs) \<longleftrightarrow> c = CHR ''_'' \<or> c = CHR 0x0A \<and> cs = []"

fun time_token_at :: "string \<Rightarrow> (int \<times> int) option" where
  "time_token_at (u # a # b # c # d # rest) =
     (if u = CHR ''_'' \<and> list_all is_digit_char [a, b, c, d] \<and> token_end rest
      then Some (10 * digit_value a + digit_value b, 10 * digit_value c + digit_value d) else None)"
| "time_token_at _ = None"

fun search_time_token :: "string \<Rightarrow> (int \<times> int) option" where
  "search_time_token [] = None"
| "search_time_token (c # cs) =
     (case time_token_at (c # cs) of Some t \<Rightarrow> Some t | None \<Rightarrow> search_time_token cs)"

definition time_triggered_sources :: "string list" where
  "time_triggered_sources = [''xsp_short_straddle'']"

definition id_entry_time :: "string \<Rightarrow> (int \<times> int) option" where
  "id_entry_time sid = (case search_time_token sid of
       Some (h, m) \<Rightarrow> if 0 \<le> h \<and> h < 24 \<and> 0 \<le> m \<and> m < 60 then Some (h, m) else None
     | None \<Rightarrow> None)"

definition strategy_entry_time_ny :: "strategy_config \<Rightarrow> (int \<times> int) option" where
  "strategy_entry_time_ny cfg =
     (if en_signal_source (sc_entry cfg) \<notin> set time_triggered_sources then None
      else case (if truthy (en_entry_time (sc_entry cfg))
                 then parse_pair (the (en_entry_time (sc_entry cfg))) else None) of
        Some t \<Rightarrow> Some t
      | None \<Rightarrow> id_entry_time (sc_id cfg))"

text \<open>\<open>(ny.hour, ny.minute) >= (hh, mm)\<close> compares lexicographically.\<close>

definition exit_time_reached :: "zone \<Rightarrow> strategy_config \<Rightarrow> instant \<Rightarrow> bool" where
  "exit_time_reached ny cfg now =
     (case (if truthy (ex_time_exit (sc_exit cfg)) then parse_pair (the (ex_time_exit (sc_exit cfg))) else None) of
        None \<Rightarrow> False
      | Some (hh, mm) \<Rightarrow>
          let md = ny_minute_of_day ny now
          in hh < md div 60 \<or> hh = md div 60 \<and> mm \<le> md mod 60)"

definition entry_window_minutes :: int where
  "entry_window_minutes = 5"

text \<open>\<open>ny.replace(hour=h, minute=m, second=0, microsecond=0)\<close>, as a reading of the wall clock.\<close>

definition replace_time :: "int \<Rightarrow> int \<times> int \<Rightarrow> py_error + int" where
  "replace_time wall t = (case t of (h, m) \<Rightarrow>
     if h < 0 \<or> 23 < h then Inl (Value_Error (lit ''hour must be in 0..23''))
     else if m < 0 \<or> 59 < m then Inl (Value_Error (lit ''minute must be in 0..59''))
     else Inr (wall div us_per_day * us_per_day + (h * 60 + m) * us_per_minute))"

definition entry_window_closed :: "zone \<Rightarrow> strategy_config \<Rightarrow> instant \<Rightarrow> py_error + bool" where
  "entry_window_closed ny cfg now =
     (if exit_time_reached ny cfg now then Inr True
      else case strategy_entry_time_ny cfg of
        None \<Rightarrow> Inr False
      | Some t \<Rightarrow> try_bind (replace_time (ny_wall ny now) t) (\<lambda>entry.
          Inr (entry + entry_window_minutes * us_per_minute < ny_wall ny now)))"

section \<open>Lemmas\<close>

definition time_in_range :: "int \<times> int \<Rightarrow> bool" where
  "time_in_range t \<longleftrightarrow> 0 \<le> fst t \<and> fst t \<le> 23 \<and> 0 \<le> snd t \<and> snd t \<le> 59"

lemma replace_time_Inr:
  "replace_time wall t = Inr w \<longleftrightarrow> time_in_range t
     \<and> w = wall div us_per_day * us_per_day + minute_of_day t * us_per_minute"
  by (auto simp: replace_time_def time_in_range_def minute_of_day_def split: prod.splits if_splits)

lemma replace_time_Inl: "(\<exists>e. replace_time wall t = Inl e) \<longleftrightarrow> \<not> time_in_range t"
  by (auto simp: replace_time_def time_in_range_def split: prod.splits)

text \<open>On one day, a later wall clock shows a later minute.\<close>

lemma minute_of_day_mono:
  assumes "ny_wall ny t \<le> ny_wall ny t'" "ny_date ny t = ny_date ny t'"
  shows "ny_minute_of_day ny t \<le> ny_minute_of_day ny t'"
proof -
  have "ny_wall ny t mod us_per_day = ny_wall ny t - ny_date ny t * us_per_day" for t
    by (simp add: ny_date_def minus_div_mult_eq_mod)
  then have "ny_wall ny t mod us_per_day \<le> ny_wall ny t' mod us_per_day"
    using assms by simp
  then show ?thesis by (simp add: ny_minute_of_day_def us_per_minute_def zdiv_mono1)
qed

lemma lex_minute_mono:
  assumes "(a::int) \<le> b" "hh < a div 60 \<or> hh = a div 60 \<and> mm \<le> a mod 60"
  shows "hh < b div 60 \<or> hh = b div 60 \<and> mm \<le> b mod 60"
proof -
  have "a div 60 \<le> b div 60" using assms(1) by (rule zdiv_mono1) simp
  moreover have "a div 60 = b div 60 \<Longrightarrow> a mod 60 \<le> b mod 60"
    using assms(1) by (metis add_le_cancel_left mult_div_mod_eq)
  ultimately show ?thesis using assms(2) by fastforce
qed

lemma exit_time_reached_mono:
  assumes "ny_wall ny t \<le> ny_wall ny t'" "ny_date ny t = ny_date ny t'" "exit_time_reached ny cfg t"
  shows "exit_time_reached ny cfg t'"
  using assms(3) lex_minute_mono [OF minute_of_day_mono [OF assms(1,2)]]
  by (auto simp: exit_time_reached_def Let_def split: option.splits prod.splits if_splits)

lemma lex_minute_iff:
  assumes "0 \<le> mm" "mm \<le> 59"
  shows "(hh < a div 60 \<or> hh = a div 60 \<and> mm \<le> a mod 60) \<longleftrightarrow> hh * 60 + mm \<le> (a::int)"
proof -
  have "a = a div 60 * 60 + a mod 60" "0 \<le> a mod 60" "a mod 60 < 60" by simp_all
  with assms show ?thesis by linarith
qed

lemma parse_pair_render:
  assumes "0 \<le> h" "h \<le> 23" "0 \<le> m" "m \<le> 59"
  shows "parse_pair (render_hhmm h m) = Some (h, m)"
proof -
  have hd: "0 \<le> h div 10" "h div 10 < 10" "0 \<le> h mod 10" "h mod 10 < 10"
    and md: "0 \<le> m div 10" "m div 10 < 10" "0 \<le> m mod 10" "m mod 10 < 10"
    using assms by auto
  have "py_split CHR '':'' (render_hhmm h m) =
      [[digit_char (h div 10), digit_char (h mod 10)], [digit_char (m div 10), digit_char (m mod 10)]]"
    using digit_char_props [OF hd(1,2)] digit_char_props [OF hd(3,4)]
      digit_char_props [OF md(1,2)] digit_char_props [OF md(3,4)] by (simp add: render_hhmm_def)
  then show ?thesis
    using parse_two_digits [OF hd] parse_two_digits [OF md] by (simp add: parse_pair_def)
qed

lemma render_not_empty [simp]: "render_hhmm h m \<noteq> []"
  by (simp add: render_hhmm_def)

lemma past_window_iff:
  "wall div us_per_day * us_per_day + x < wall \<longleftrightarrow> x < wall mod us_per_day"
proof -
  have "wall = wall div us_per_day * us_per_day + wall mod us_per_day" by simp
  then show ?thesis by linarith
qed

text \<open>For a straddle with an entry time and an exit time in \<open>HH:MM\<close>, the entry window is closed
  exactly from the minute of the exit time on and later than five minutes after the entry time,
  both on the New York clock of the day; the check never raises for such a configuration.\<close>

lemma entry_window_of_straddle:
  assumes "en_signal_source (sc_entry cfg) = ''xsp_short_straddle''"
    and "en_entry_time (sc_entry cfg) = Some (render_hhmm h m)" "0 \<le> h" "h \<le> 23" "0 \<le> m" "m \<le> 59"
    and "ex_time_exit (sc_exit cfg) = Some (render_hhmm xh xm)" "0 \<le> xh" "xh \<le> 23" "0 \<le> xm" "xm \<le> 59"
  shows "entry_window_closed ny cfg now = Inr (xh * 60 + xm \<le> ny_minute_of_day ny now
    \<or> (h * 60 + m + 5) * us_per_minute < ny_wall ny now mod us_per_day)"
proof -
  have x: "exit_time_reached ny cfg now \<longleftrightarrow> xh * 60 + xm \<le> ny_minute_of_day ny now"
    using assms(7-11) lex_minute_iff [of xm xh "ny_minute_of_day ny now"]
    by (simp add: exit_time_reached_def parse_pair_render Let_def)
  have e: "strategy_entry_time_ny cfg = Some (h, m)"
    using assms(1-6) by (simp add: strategy_entry_time_ny_def time_triggered_sources_def parse_pair_render)
  have r: "replace_time (ny_wall ny now) (h, m) =
      Inr (ny_wall ny now div us_per_day * us_per_day + (h * 60 + m) * us_per_minute)"
    using assms(3-6) by (simp add: replace_time_def)
  have "ny_wall ny now div us_per_day * us_per_day + (h * 60 + m) * us_per_minute
        + entry_window_minutes * us_per_minute < ny_wall ny now
      \<longleftrightarrow> (h * 60 + m + 5) * us_per_minute < ny_wall ny now mod us_per_day"
    using past_window_iff [of "ny_wall ny now" "(h * 60 + m + 5) * us_per_minute"]
    by (simp add: entry_window_minutes_def algebra_simps)
  then show ?thesis using x e r by (simp add: entry_window_closed_def)
qed

definition straddle_entry :: entry_config where
  "straddle_entry = \<lparr>en_signal_source = ''xsp_short_straddle'', en_max_contracts = 10, en_limit_offset = 0.05,
     en_timeout_seconds = 30, en_entry_time = Some ''13:30'', en_trigger_pct = None,
     en_strike_selection = ''premium_target'', en_target_delta = None\<rparr>"

definition straddle_strategy :: strategy_config where
  "straddle_strategy = sample_strategy\<lparr>sc_id := ''xsp_straddle_1330_30'', sc_entry := straddle_entry\<rparr>"

text \<open>New York in summer, and 12 July 2026 at a given minute of its day.\<close>

definition ny_summer :: zone where
  "ny_summer t = -14400000000"

definition ny_time :: "int \<Rightarrow> instant" where
  "ny_time minute = 20646 * us_per_day + minute * us_per_minute + 14400000000"

theorem entry_window_of_straddle_witness:
  "entry_window_closed ny_summer straddle_strategy (ny_time 812) = Inr False
    \<and> entry_window_closed ny_summer straddle_strategy (ny_time 816) = Inr True"
proof -
  have r: "render_hhmm 13 30 = ''13:30''" "render_hhmm 15 30 = ''15:30''" by code_simp+
  have a: "en_signal_source (sc_entry straddle_strategy) = ''xsp_short_straddle''"
    "en_entry_time (sc_entry straddle_strategy) = Some (render_hhmm 13 30)"
    "ex_time_exit (sc_exit straddle_strategy) = Some (render_hhmm 15 30)"
    unfolding r by (simp_all add: straddle_strategy_def straddle_entry_def sample_strategy_def sample_exit_def)
  note w = entry_window_of_straddle [OF a(1,2) _ _ _ _ a(3), of ny_summer]
  have "ny_minute_of_day ny_summer (ny_time 812) = 812" "ny_minute_of_day ny_summer (ny_time 816) = 816"
    "ny_wall ny_summer (ny_time 812) mod us_per_day = 48720000000"
    "ny_wall ny_summer (ny_time 816) mod us_per_day = 48960000000" by code_simp+
  with w [of "ny_time 812"] w [of "ny_time 816"] show ?thesis by (simp add: us_per_minute_def)
qed

text \<open>The entry window does not reopen. If it is closed for a strategy at some time, it is closed
  at every later reading of the New York clock on the same date, whatever the configuration.\<close>

lemma entry_window_stays_closed:
  assumes "entry_window_closed ny cfg t = Inr True"
    and "ny_wall ny t \<le> ny_wall ny t'" "ny_date ny t = ny_date ny t'"
  shows "entry_window_closed ny cfg t' = Inr True"
proof (cases "exit_time_reached ny cfg t")
  case True
  with exit_time_reached_mono [OF assms(2,3)] show ?thesis by (simp add: entry_window_closed_def)
next
  case False
  with assms(1) obtain e w where e: "strategy_entry_time_ny cfg = Some e"
    "replace_time (ny_wall ny t) e = Inr w" "w + entry_window_minutes * us_per_minute < ny_wall ny t"
    by (auto simp: entry_window_closed_def try_bind_eq_Inr split: if_splits option.splits)
  from e(2) assms(3) have "replace_time (ny_wall ny t') e = Inr w"
    by (simp add: replace_time_Inr ny_date_def)
  with e assms(2) show ?thesis by (simp add: entry_window_closed_def)
qed

theorem entry_window_stays_closed_witness:
  "entry_window_closed ny_summer straddle_strategy (ny_time 1000) = Inr True"
  by (rule entry_window_stays_closed [of _ _ "ny_time 900"]) code_simp+

text \<open>The window check raises exactly when the exit time is not reached and the strategy's entry
  time, written in its configuration, has an hour or a minute out of range.\<close>

lemma entry_window_raises_iff:
  "(\<exists>e. entry_window_closed ny cfg now = Inl e) \<longleftrightarrow>
     \<not> exit_time_reached ny cfg now \<and> en_signal_source (sc_entry cfg) = ''xsp_short_straddle''
     \<and> (\<exists>s t. en_entry_time (sc_entry cfg) = Some s \<and> s \<noteq> [] \<and> parse_pair s = Some t \<and> \<not> time_in_range t)"
proof -
  have id: "id_entry_time sid = Some t \<Longrightarrow> time_in_range t" for sid t
    by (auto simp: id_entry_time_def time_in_range_def split: option.splits if_splits)
  have t: "(\<exists>e. try_bind (replace_time w t) (\<lambda>x. Inr (f x)) = Inl e) \<longleftrightarrow> \<not> time_in_range t"
    for w t and f :: "int \<Rightarrow> bool"
    using replace_time_Inl [of w t] by (cases "replace_time w t") auto
  have "(\<exists>e. entry_window_closed ny cfg now = Inl e) \<longleftrightarrow>
      \<not> exit_time_reached ny cfg now \<and> (\<exists>t. strategy_entry_time_ny cfg = Some t \<and> \<not> time_in_range t)"
    by (cases "strategy_entry_time_ny cfg") (simp_all add: entry_window_closed_def t del: split_paired_Ex)
  also have "(\<exists>t. strategy_entry_time_ny cfg = Some t \<and> \<not> time_in_range t) \<longleftrightarrow>
      en_signal_source (sc_entry cfg) = ''xsp_short_straddle''
      \<and> (\<exists>s t. en_entry_time (sc_entry cfg) = Some s \<and> s \<noteq> [] \<and> parse_pair s = Some t \<and> \<not> time_in_range t)"
    using id by (cases "en_entry_time (sc_entry cfg)"; cases "parse_pair (the (en_entry_time (sc_entry cfg)))")
      (auto simp: strategy_entry_time_ny_def time_triggered_sources_def)
  finally show ?thesis .
qed

text \<open>Such a configuration passes the validators: the pattern of \<open>entry_time\<close> asks for digits only.\<close>

definition misconfigured_strategy :: strategy_config where
  "misconfigured_strategy = straddle_strategy\<lparr>sc_entry := straddle_entry\<lparr>en_entry_time := Some ''24:00''\<rparr>\<rparr>"

lemma accepted_entry_time_raises:
  "mk_strategy_config misconfigured_strategy = Inr misconfigured_strategy
    \<and> entry_window_closed ny_summer misconfigured_strategy (ny_time 600)
      = Inl (Value_Error (lit ''hour must be in 0..23''))"
  by (rule conjI) code_simp+

end
