(* ===== verification/Runner_State.thy ===== *)
theory Runner_State
  imports Manual_Control Command_Queue Position_Store Entry_Window
begin

text \<open>
  The state of \<open>ExecutionRunner\<close> (\<^verbatim>\<open>src/app/runner.py\<close>), its lifecycle operations, and the
  reconciliation it runs. An \<open>await\<close> hands control to the event loop: each awaited call is a field of
  \<open>world\<close>, a function from the runner state at the call to the reply and to the state that is found
  when the call returns, so whatever callbacks and background tasks did meanwhile is covered.
  \<open>now\<close> is the clock. The audit log is \<open>cp_store\<close>.
\<close>

datatype runner_status = INITIALIZING | RECONCILING | RUNNING | PAUSED | STOPPING | STOPPED | RUNNER_ERROR

datatype param_value = PV_Bool bool | PV_Float pyfloat | PV_Int int | PV_Str string

record runner =
  rn_parts :: components
  rn_status :: runner_status
  rn_stop_event :: bool
  rn_pause_event :: bool \<comment> \<open>set means not paused\<close>
  rn_risk :: "full_risk option"
  rn_configs :: "(string, strategy_config) pydict"
  rn_overlay :: "(string, (string, param_value) pydict) pydict" \<comment> \<open>\<open>strategy_overrides.yaml\<close>\<close>
  rn_overlay_writable :: bool
  rn_attributions :: attribution_table
  rn_commands :: command_table
  rn_ticks :: nat
  rn_last_reconciliation :: "instant option"
  rn_reconciliation_interval :: pyfloat
  rn_locked_by_disconnect :: bool
  rn_asymmetric :: "uuid set"
  rn_manual_exits :: "uuid set"
  rn_flatten_all :: bool
  rn_exit_attempts :: "(uuid, nat \<times> instant) pydict"
  rn_exit_reasons :: "(uuid, string) pydict"
  rn_traded_today :: "string set"
  rn_traded_date :: "int option"
  rn_retry_after :: "(string, instant) pydict"
  rn_fire_requests :: "string set"

type_synonym 'a awaited = "runner \<Rightarrow> (py_error + 'a) \<times> runner"

record world =
  w_connected :: "bool awaited"
  w_positions :: "position list awaited"
  w_open_orders :: "order_state list awaited"
  w_quotes :: "quote_key list \<Rightarrow> (quote_key, quote_snapshot) pydict awaited"
  w_place :: "order_plan \<Rightarrow> order_state awaited"
  w_cancel :: "string \<Rightarrow> bool awaited"
  w_query :: "(string \<Rightarrow> order_status option awaited) option" \<comment> \<open>\<open>get_order_status\<close>, when the client has one\<close>
  w_bar :: "quote_key \<Rightarrow> runner \<Rightarrow> bar option"
  w_poll :: "strategy_config \<Rightarrow> strategy_signal list awaited"
  w_emit_now :: "strategy_config \<Rightarrow> strategy_signal list awaited"
  w_collect_exits :: "strategy_config \<Rightarrow> uuid set awaited"

text \<open>The state after \<open>__init__\<close>, \<open>_load_configs\<close> and \<open>_wire_components\<close>.\<close>

definition new_runner ::
  "event_store \<Rightarrow> override_manager \<Rightarrow> full_risk \<Rightarrow> (string, strategy_config) pydict \<Rightarrow> attribution_table \<Rightarrow> runner" where
  "new_runner es ovm risk cfgs attributions =
     \<lparr>rn_parts = \<lparr>cp_orders = new_manager es, cp_book = new_book es, cp_overrides = ovm, cp_store = es\<rparr>,
      rn_status = INITIALIZING, rn_stop_event = False, rn_pause_event = True, rn_risk = Some risk,
      rn_configs = cfgs, rn_overlay = [], rn_overlay_writable = True, rn_attributions = attributions,
      rn_commands = [], rn_ticks = 0, rn_last_reconciliation = None, rn_reconciliation_interval = 60,
      rn_locked_by_disconnect = False, rn_asymmetric = {}, rn_manual_exits = {}, rn_flatten_all = False,
      rn_exit_attempts = [], rn_exit_reasons = [], rn_traded_today = {}, rn_traded_date = None,
      rn_retry_after = [], rn_fire_requests = {}\<rparr>"

definition sample_overrides :: override_manager where
  "sample_overrides = \<lparr>ovm_state = default_overrides, ovm_path = True, ovm_writable = True, ovm_file = None\<rparr>"

definition sample_runner :: runner where
  "sample_runner = new_runner new_store sample_overrides sample_risk
     [(''s1'', sample_strategy), (''xsp_straddle_1330_30'', straddle_strategy)] []"

text \<open>A world in which the broker answers at once, holds nothing and refuses every order.\<close>

definition flat_world :: world where
  "flat_world = \<lparr>w_connected = Pair (Inr True), w_positions = Pair (Inr []), w_open_orders = Pair (Inr []),
     w_quotes = (\<lambda>ks. Pair (Inr [])), w_place = (\<lambda>p. Pair (Inl (Broker_Error ''refused''))),
     w_cancel = (\<lambda>b. Pair (Inr True)), w_query = None, w_bar = (\<lambda>k r. None),
     w_poll = (\<lambda>c. Pair (Inr [])), w_emit_now = (\<lambda>c. Pair (Inr [])), w_collect_exits = (\<lambda>c. Pair (Inr {}))\<rparr>"

section \<open>Access\<close>

definition rn_orders :: "runner \<Rightarrow> order_manager" where
  "rn_orders r = (cp_orders (rn_parts r))\<lparr>om_store := cp_store (rn_parts r)\<rparr>"

definition rn_book :: "runner \<Rightarrow> position_book" where
  "rn_book r = (cp_book (rn_parts r))\<lparr>pb_store := cp_store (rn_parts r)\<rparr>"

definition rn_overrides :: "runner \<Rightarrow> overrides_config" where
  "rn_overrides r = ovm_state (cp_overrides (rn_parts r))"

definition locked :: "runner \<Rightarrow> bool" where
  "locked r \<longleftrightarrow> ov_system_locked (rn_overrides r)"

definition put_orders :: "order_manager \<Rightarrow> runner \<Rightarrow> runner" where
  "put_orders om r = r\<lparr>rn_parts := (rn_parts r)\<lparr>cp_orders := om, cp_store := om_store om\<rparr>\<rparr>"

definition put_book :: "position_book \<Rightarrow> runner \<Rightarrow> runner" where
  "put_book b r = r\<lparr>rn_parts := (rn_parts r)\<lparr>cp_book := b, cp_store := pb_store b\<rparr>\<rparr>"

definition put_overrides :: "override_manager \<Rightarrow> runner \<Rightarrow> runner" where
  "put_overrides m r = r\<lparr>rn_parts := (rn_parts r)\<lparr>cp_overrides := m\<rparr>\<rparr>"

definition log_runner :: "instant \<Rightarrow> string \<Rightarrow> payload \<Rightarrow> runner \<Rightarrow> runner" where
  "log_runner now kind p r = r\<lparr>rn_parts := (rn_parts r)\<lparr>cp_store := log_callback kind p now (cp_store (rn_parts r))\<rparr>\<rparr>"

definition lock_runner :: "runner \<Rightarrow> runner" where
  "lock_runner r = put_overrides (snd (lock_system (cp_overrides (rn_parts r)))) r"

definition unlock_runner :: "runner \<Rightarrow> runner" where
  "unlock_runner r = put_overrides (snd (unlock_system (cp_overrides (rn_parts r)))) r"

text \<open>\<open>override_manager.state.system_locked = True\<close>: the flag alone, nothing is persisted.\<close>

definition set_lock_flag :: "runner \<Rightarrow> runner" where
  "set_lock_flag r = (let m = cp_overrides (rn_parts r)
     in put_overrides (m\<lparr>ovm_state := (ovm_state m)\<lparr>ov_system_locked := True\<rparr>\<rparr>) r)"

definition runner_engine :: "full_risk \<Rightarrow> runner \<Rightarrow> risk_engine" where
  "runner_engine risk r = \<lparr>re_risk = risk, re_strategies = rn_configs r, re_overrides = rn_overrides r\<rparr>"

definition runner_cancel :: "world \<Rightarrow> instant \<Rightarrow> uuid \<Rightarrow> runner \<Rightarrow> bool \<times> runner" where
  "runner_cancel w now oid r = (case cancel_request now oid True (rn_orders r) of
     (Cancel_Done b, om) \<Rightarrow> (b, put_orders om r)
   | (Cancel_Await bid, om) \<Rightarrow> (case w_cancel w bid (put_orders om r) of
       (reply, r1) \<Rightarrow> (case cancel_finish now oid reply (rn_orders r1) of (b, om') \<Rightarrow> (b, put_orders om' r1))))"

text \<open>The sweep of stuck cancels, over the orders there were when it began. It waits for the broker's
  status of an order and, when that is still working, for the cancel issued once more.\<close>

definition sweep_stuck_order :: "world \<Rightarrow> instant \<Rightarrow> pyfloat \<Rightarrow> uuid \<Rightarrow> runner \<Rightarrow> runner" where
  "sweep_stuck_order w now max_age oid r =
     (case sweep_select now max_age (w_query w \<noteq> None) oid (rn_orders r) of
        Sweep_Skip \<Rightarrow> r
      | Sweep_Unknown age \<Rightarrow> put_orders (snd (sweep_adopt now oid age None (rn_orders r))) r
      | Sweep_Ask bid age \<Rightarrow> (case the (w_query w) bid r of (reply, r1) \<Rightarrow>
          (case sweep_reply now oid age reply (rn_orders r1) of
             (Sweep_Next, om) \<Rightarrow> put_orders om r1
           | (Sweep_Recancel b, om) \<Rightarrow> (case w_cancel w b (put_orders om r1) of (reply2, r2) \<Rightarrow>
               put_orders (sweep_recancelled now oid reply2 (rn_orders r2)) r2))))"

definition resolve_stuck_cancels :: "world \<Rightarrow> instant \<Rightarrow> pyfloat \<Rightarrow> runner \<Rightarrow> runner" where
  "resolve_stuck_cancels w now max_age r = fold (sweep_stuck_order w now max_age) (dict_keys (om_orders (rn_orders r))) r"

section \<open>Lifecycle\<close>

definition log_lifecycle :: "instant \<Rightarrow> string \<Rightarrow> runner \<Rightarrow> runner" where
  "log_lifecycle now action r =
     log_runner now ''runner_lifecycle'' (P_Dict [(''action'', FStr action), (''timestamp'', FTime now)]) r"

definition stop_runner :: "instant \<Rightarrow> runner \<Rightarrow> runner" where
  "stop_runner now r = log_lifecycle now ''stop_requested'' (r\<lparr>rn_status := STOPPING, rn_stop_event := True\<rparr>)"

definition pause_runner :: "instant \<Rightarrow> runner \<Rightarrow> runner" where
  "pause_runner now r = log_lifecycle now ''paused'' (r\<lparr>rn_pause_event := False, rn_status := PAUSED\<rparr>)"

definition resume_runner :: "instant \<Rightarrow> runner \<Rightarrow> runner" where
  "resume_runner now r = log_lifecycle now ''resumed'' (r\<lparr>rn_pause_event := True, rn_status := RUNNING\<rparr>)"

text \<open>The order sweep of \<open>_shutdown\<close>: every working order is cancelled, in the order of the book.\<close>

definition working_ids :: "order_manager \<Rightarrow> uuid list" where
  "working_ids om = map os_id (filter (\<lambda>o'. os_status o' \<in> {NEW, SUBMITTED, PARTIALLY_FILLED}) (dict_values (om_orders om)))"

definition shutdown_sweep :: "world \<Rightarrow> instant \<Rightarrow> runner \<Rightarrow> runner" where
  "shutdown_sweep w now r = fold (\<lambda>oid r. snd (runner_cancel w now oid r)) (working_ids (rn_orders r)) (r\<lparr>rn_status := STOPPING\<rparr>)"

section \<open>Reconciliation\<close>

definition open_order_ids :: "order_manager \<Rightarrow> uuid list" where
  "open_order_ids om = map os_id (filter (\<lambda>o'. active_status (os_status o')) (dict_values (om_orders om)))"

text \<open>The book is read before the broker is asked, the orders collected before are compared as they
  are afterwards. A broker error leaves the status and propagates.\<close>

definition run_reconciliation :: "world \<Rightarrow> instant \<Rightarrow> bool awaited" where
  "run_reconciliation w now r =
     (let r0 = r\<lparr>rn_status := RECONCILING\<rparr>; ids = open_order_ids (rn_orders r0); book = rn_book r0
      in case w_positions w r0 of
        (Inl e, r1) \<Rightarrow> (Inl e, r1)
      | (Inr bps, r1) \<Rightarrow> (case w_open_orders w r1 of
          (Inl e, r2) \<Rightarrow> (Inl e, r2)
        | (Inr bos, r2) \<Rightarrow>
            (case reconcile now (Inr bps) (Inr bos) (List.map_filter (map_of (om_orders (rn_orders r2))) ids) book
                    (cp_overrides (rn_parts r2)) (cp_store (rn_parts r2)) of
               (Inl e, ovm, es) \<Rightarrow> (Inl e, r2)
             | (Inr report, ovm, es) \<Rightarrow>
                 let r3 = r2\<lparr>rn_parts := (rn_parts r2)\<lparr>cp_overrides := ovm, cp_store := es\<rparr>,
                             rn_last_reconciliation := Some now\<rparr>
                 in if rr_is_clean report
                    then (Inr True, if rn_status r3 = RECONCILING then r3\<lparr>rn_status := RUNNING\<rparr> else r3)
                    else (Inr False, set_lock_flag (r3\<lparr>rn_status := RUNNER_ERROR\<rparr>)))))"

text \<open>After a reconnection: unlock only when the lock came from the disconnect and the books agree.\<close>

definition try_auto_resume :: "world \<Rightarrow> instant \<Rightarrow> runner \<Rightarrow> runner" where
  "try_auto_resume w now r = (case w_connected w r of
       (Inr True, r1) \<Rightarrow> (case run_reconciliation w now r1 of
           (Inr True, r2) \<Rightarrow> log_runner now ''system_auto_resume'' (P_Dict [(''timestamp'', FTime now)])
               ((unlock_runner r2)\<lparr>rn_locked_by_disconnect := False, rn_status := RUNNING\<rparr>)
         | (Inr False, r2) \<Rightarrow> r2\<lparr>rn_locked_by_disconnect := False\<rparr>
         | (Inl e, r2) \<Rightarrow> r2)
     | (_, r1) \<Rightarrow> r1)"

section \<open>Lemmas\<close>

lemma rn_simps [simp, frame_simps]:
  "om_orders (rn_orders (put_orders om r)) = om_orders om" "om_store (rn_orders (put_orders om r)) = om_store om"
  "rn_orders (put_orders om r) = om"
  "rn_book (put_book b r) = b" "pb_positions (rn_book (put_orders om r)) = pb_positions (rn_book r)"
  "om_orders (rn_orders (put_book b r)) = om_orders (rn_orders r)"
  "rn_overrides (put_orders om r) = rn_overrides r" "rn_overrides (put_book b r) = rn_overrides r"
  "locked (put_orders om r) = locked r" "locked (put_book b r) = locked r"
  "rn_overrides (put_overrides m r) = ovm_state m"
  "rn_orders (put_overrides m r) = rn_orders r" "rn_book (put_overrides m r) = rn_book r"
  by (simp_all add: rn_orders_def put_orders_def rn_book_def put_book_def rn_overrides_def locked_def put_overrides_def)

lemma log_runner_simps [simp, frame_simps]:
  "om_orders (rn_orders (log_runner now k p r)) = om_orders (rn_orders r)"
  "pb_positions (rn_book (log_runner now k p r)) = pb_positions (rn_book r)"
  "rn_overrides (log_runner now k p r) = rn_overrides r" "locked (log_runner now k p r) = locked r"
  "rn_configs (log_runner now k p r) = rn_configs r" "rn_overlay (log_runner now k p r) = rn_overlay r"
  "rn_asymmetric (log_runner now k p r) = rn_asymmetric r" "rn_status (log_runner now k p r) = rn_status r"
  "rn_locked_by_disconnect (log_runner now k p r) = rn_locked_by_disconnect r"
  by (simp_all add: log_runner_def rn_orders_def rn_book_def rn_overrides_def locked_def)

lemma put_orders_frame [simp, frame_simps]:
  "rn_configs (put_orders om r) = rn_configs r" "rn_asymmetric (put_orders om r) = rn_asymmetric r"
  "rn_locked_by_disconnect (put_orders om r) = rn_locked_by_disconnect r" "rn_status (put_orders om r) = rn_status r"
  by (simp_all add: put_orders_def)

lemma lock_simps [simp]:
  "locked (lock_runner r)" "\<not> locked (unlock_runner r)" "locked (set_lock_flag r)"
  "om_orders (rn_orders (lock_runner r)) = om_orders (rn_orders r)"
  "om_orders (rn_orders (set_lock_flag r)) = om_orders (rn_orders r)"
  by (auto simp: locked_def lock_runner_def unlock_runner_def set_lock_flag_def lock_system_def unlock_system_def Let_def)

lemma locked_update [simp]:
  "locked (r\<lparr>rn_status := s\<rparr>) = locked r" "locked (r\<lparr>rn_locked_by_disconnect := b\<rparr>) = locked r"
  "locked (r\<lparr>rn_commands := c\<rparr>) = locked r" "locked (r\<lparr>rn_manual_exits := m\<rparr>) = locked r"
  "locked (r\<lparr>rn_flatten_all := b\<rparr>) = locked r" "locked (r\<lparr>rn_fire_requests := f\<rparr>) = locked r"
  "locked (r\<lparr>rn_stop_event := b\<rparr>) = locked r" "locked (r\<lparr>rn_configs := cs\<rparr>) = locked r"
  "locked (r\<lparr>rn_overlay := ol\<rparr>) = locked r"
  by (simp_all add: locked_def rn_overrides_def)

text \<open>What a clean reconciliation has established, and that it never unlocks.\<close>

lemma run_reconciliation_clean:
  assumes "run_reconciliation w now r = (Inr True, r')"
  shows "\<exists>bps bos r1 r2. w_positions w (r\<lparr>rn_status := RECONCILING\<rparr>) = (Inr bps, r1) \<and> w_open_orders w r1 = (Inr bos, r2)
    \<and> positions_agree (get_open_positions (rn_book r)) bps
    \<and> orders_agree (List.map_filter (map_of (om_orders (rn_orders r2))) (open_order_ids (rn_orders r))) bos"
proof -
  let ?r0 = "r\<lparr>rn_status := RECONCILING\<rparr>"
  have eq: "rn_orders ?r0 = rn_orders r" "rn_book ?r0 = rn_book r" by (simp_all add: rn_orders_def rn_book_def)
  obtain bps r1 bos r2 where a: "w_positions w ?r0 = (Inr bps, r1)" "w_open_orders w r1 = (Inr bos, r2)"
    using assms by (auto simp: run_reconciliation_def Let_def split: prod.splits sum.splits)
  let ?ios = "List.map_filter (map_of (om_orders (rn_orders r2))) (open_order_ids (rn_orders r))"
  obtain report es' ovm' where rec: "reconcile now (Inr bps) (Inr bos) ?ios (rn_book r) (cp_overrides (rn_parts r2)) (cp_store (rn_parts r2))
      = (Inr report, ovm', es')"
    and clean: "rr_is_clean report \<longleftrightarrow> positions_agree (get_open_positions (rn_book r)) bps \<and> orders_agree ?ios bos"
    using reconcile_report by blast
  have "rr_is_clean report" using assms a rec by (simp add: run_reconciliation_def Let_def eq split: if_splits)
  with a clean show ?thesis by blast
qed

lemma reconcile_keeps_lock:
  "reconcile now pr orr ios book ovm es = (x, ovm', es') \<Longrightarrow> ov_system_locked (ovm_state ovm) \<Longrightarrow> ov_system_locked (ovm_state ovm')"
  by (auto simp: reconcile_def Let_def lock_system_def split: sum.splits if_splits)

text \<open>C8: reconciliation decides exactly what it is for. When the broker answers, the result is clean iff
  the net position of every contract is the same on both sides, every broker order with an id is ours
  with the same contract, side, quantity and (up to a tick) limit, and every open order of ours with a
  broker id is at the broker. Any mismatch leaves the runner locked and in error, a clean result leaves
  the lock as it was. The lock is made to outlast the process (written to the overrides file) only when
  some contract we believe to hold differs: the engine itself locks for no other mismatch, although its
  module comment, P10-A2 of \<^verbatim>\<open>docs/assumptions.md\<close> and section 4 of the live checklist say that any
  mismatch makes it lock (\<open>broker_only_position_does_not_lock\<close>).\<close>

theorem reconciliation_decides:
  assumes "w_positions w (r\<lparr>rn_status := RECONCILING\<rparr>) = (Inr bps, r1)" "w_open_orders w r1 = (Inr bos, r2)"
    and "held = get_open_positions (rn_book r)"
    and "agree \<longleftrightarrow> positions_agree held bps
      \<and> orders_agree (List.map_filter (map_of (om_orders (rn_orders r2))) (open_order_ids (rn_orders r))) bos"
  shows "\<exists>r'. run_reconciliation w now r = (Inr agree, r') \<and> (locked r' \<longleftrightarrow> locked r2 \<or> \<not> agree)
    \<and> (\<not> agree \<longrightarrow> rn_status r' = RUNNER_ERROR)
    \<and> ovm_file (cp_overrides (rn_parts r')) =
        (if \<exists>k. net_position k held \<noteq> net_position k bps \<and> net_position k held \<noteq> 0
         then ovm_file (snd (lock_system (cp_overrides (rn_parts r2)))) else ovm_file (cp_overrides (rn_parts r2)))"
proof -
  let ?r0 = "r\<lparr>rn_status := RECONCILING\<rparr>"
  have eq: "rn_orders ?r0 = rn_orders r" "rn_book ?r0 = rn_book r" by (simp_all add: rn_orders_def rn_book_def)
  let ?ios = "List.map_filter (map_of (om_orders (rn_orders r2))) (open_order_ids (rn_orders r))"
  let ?severe = "\<exists>k. net_position k held \<noteq> net_position k bps \<and> net_position k held \<noteq> 0"
  let ?ovm = "if ?severe then snd (lock_system (cp_overrides (rn_parts r2))) else cp_overrides (rn_parts r2)"
  obtain report es' where rec: "reconcile now (Inr bps) (Inr bos) ?ios (rn_book r) (cp_overrides (rn_parts r2)) (cp_store (rn_parts r2))
      = (Inr report, ?ovm, es')"
    and "rr_is_clean report \<longleftrightarrow> positions_agree held bps \<and> orders_agree ?ios bos"
    using reconcile_report [of now bps bos ?ios "rn_book r" "cp_overrides (rn_parts r2)" "cp_store (rn_parts r2)", folded assms(3)]
    by (elim exE conjE) (erule that, assumption)
  then have clean: "rr_is_clean report \<longleftrightarrow> agree" by (simp add: assms(4))
  have "agree \<Longrightarrow> \<not> ?severe" using assms(4) by (auto simp: positions_agree_def)
  then show ?thesis
    using assms(1,2) rec clean
    by (auto simp: run_reconciliation_def Let_def eq locked_def rn_overrides_def set_lock_flag_def put_overrides_def)
qed

text \<open>A position that only the broker has: not clean, locked, nothing written.\<close>

definition stray_world :: world where
  "stray_world = flat_world\<lparr>w_positions := Pair (Inr [open_position (sample_fill BUY 2 4) 77])\<rparr>"

theorem reconciliation_decides_witness:
  "\<exists>r'. run_reconciliation stray_world 7 sample_runner = (Inr False, r') \<and> locked r' \<and> \<not> locked sample_runner
     \<and> ovm_file (cp_overrides (rn_parts r')) = None"
proof -
  let ?b = "[open_position (sample_fill BUY 2 4) 77]" and ?r = "sample_runner\<lparr>rn_status := RECONCILING\<rparr>"
  have w: "w_positions stray_world ?r = (Inr ?b, ?r)" "w_open_orders stray_world ?r = (Inr [], ?r)"
    by (simp_all add: stray_world_def flat_world_def)
  have h: "get_open_positions (rn_book sample_runner) = []"
    by (simp add: sample_runner_def new_runner_def rn_book_def new_book_def get_open_positions_def dict_values_def)
  have f: "ovm_file (cp_overrides (rn_parts sample_runner)) = None" "\<not> locked sample_runner" by code_simp+
  have "fst (run_reconciliation stray_world 7 sample_runner) = Inr False" by code_simp
  with reconciliation_decides [OF w h [symmetric] refl, of 7] f show ?thesis
    by (auto simp: net_position_def)
qed

section \<open>Invariants of the runner across awaits\<close>

text \<open>An awaited call keeps a predicate when whatever runs until it returns does.\<close>

definition keeps :: "(runner \<Rightarrow> bool) \<Rightarrow> 'a awaited \<Rightarrow> bool" where
  "keeps I f \<longleftrightarrow> (\<forall>r. I r \<longrightarrow> I (snd (f r)))"

lemma keepsD: "keeps I f \<Longrightarrow> I r \<Longrightarrow> f r = (x, r') \<Longrightarrow> I r'"
  by (metis keeps_def snd_conv)

definition query_keeps :: "(runner \<Rightarrow> bool) \<Rightarrow> world \<Rightarrow> bool" where
  "query_keeps I w \<longleftrightarrow> (\<forall>q bid. w_query w = Some q \<longrightarrow> keeps I (q bid))"

lemma fold_preserves: "(\<And>x s. J s \<Longrightarrow> J (f x s)) \<Longrightarrow> J s \<Longrightarrow> J (fold f xs s)"
  by (induction xs arbitrary: s) auto

text \<open>A loop that establishes \<open>Q\<close> at one element and keeps it at the others.\<close>

lemma fold_reaches:
  assumes "\<And>x s. J s \<Longrightarrow> J (f x s)" "\<And>x s. J s \<Longrightarrow> Q s \<Longrightarrow> Q (f x s)" "\<And>s. J s \<Longrightarrow> Q (f a s)"
  shows "J s \<Longrightarrow> a \<in> set xs \<or> Q s \<Longrightarrow> Q (fold f xs s)"
  by (induction xs arbitrary: s) (auto intro: assms)

text \<open>The sweep keeps what its pieces and the calls it waits for keep.\<close>

lemma sweep_preserves:
  assumes "\<And>bid. keeps I (w_cancel w bid)" "query_keeps I w" "I r"
    and reply: "\<And>r oid age rep. I r \<Longrightarrow> I (put_orders (snd (sweep_reply now oid age rep (rn_orders r))) r)"
    and recancelled: "\<And>r oid rep. I r \<Longrightarrow> I (put_orders (sweep_recancelled now oid rep (rn_orders r)) r)"
  shows "I (resolve_stuck_cancels w now max_age r)"
  unfolding resolve_stuck_cancels_def
proof (rule fold_preserves [where J = I, OF _ assms(3)])
  fix oid r assume r: "I r"
  show "I (sweep_stuck_order w now max_age oid r)"
  proof (cases "sweep_select now max_age (w_query w \<noteq> None) oid (rn_orders r)")
    case (Sweep_Unknown age)
    have "sweep_adopt now oid age None (rn_orders r) = sweep_reply now oid age (Inr None) (rn_orders r)"
      by (simp add: sweep_reply_def)
    with Sweep_Unknown reply [OF r, of oid age "Inr None"] show ?thesis by (simp add: sweep_stuck_order_def)
  next
    case (Sweep_Ask bid age)
    then obtain q where q: "w_query w = Some q"
      by (auto simp: sweep_select_def Let_def split: option.splits if_splits)
    obtain rep r1 where a: "q bid r = (rep, r1)" by force
    have "keeps I (q bid)" using assms(2) q by (simp add: query_keeps_def)
    from keepsD [OF this r a] have r1: "I r1" .
    obtain nxt om where s: "sweep_reply now oid age rep (rn_orders r1) = (nxt, om)" by force
    have om: "I (put_orders om r1)" using reply [OF r1, of oid age rep] s by simp
    show ?thesis
    proof (cases nxt)
      case (Sweep_Recancel b)
      obtain rep2 r2 where c: "w_cancel w b (put_orders om r1) = (rep2, r2)" by force
      have "I r2" by (rule keepsD [OF assms(1) om c])
      from recancelled [OF this] show ?thesis
        using Sweep_Ask q a s Sweep_Recancel c by (simp add: sweep_stuck_order_def)
    qed (use Sweep_Ask q a s om in \<open>simp add: sweep_stuck_order_def\<close>)
  qed (use r in \<open>simp add: sweep_stuck_order_def\<close>)
qed

text \<open>
  The contract between the runner's invariants and its own steps: what the order manager does to its
  orders, logging and locking keep them. Cancelling, alone and in a sweep, then keeps them as well,
  when the broker's cancel call (and, for the sweep of stuck cancels, its status query) does.
\<close>

locale runner_invariant =
  fixes I :: "runner \<Rightarrow> bool"
  assumes orders_step: "I r \<Longrightarrow> sound_step (rn_orders r) om \<Longrightarrow> I (put_orders om r)"
    and log_step: "I r \<Longrightarrow> I (log_runner now k p r)"
    and lock_step: "I r \<Longrightarrow> I (lock_runner r)"
    and status_step: "I r \<Longrightarrow> I (r\<lparr>rn_status := st\<rparr>)"
    and asymmetric_step: "I r \<Longrightarrow> I (r\<lparr>rn_asymmetric := flagged\<rparr>)"
begin

lemma cancel_keeps:
  assumes "\<And>bid. keeps I (w_cancel w bid)" "I r"
  shows "I (snd (runner_cancel w now oid r))"
proof -
  obtain ph om where c: "cancel_request now oid True (rn_orders r) = (ph, om)" by force
  have om: "I (put_orders om r)"
    using orders_step [OF assms(2) cancel_request_sound [of "rn_orders r" now oid True]] c by simp
  show ?thesis
  proof (cases ph)
    case (Cancel_Await bid)
    obtain reply r1 where w: "w_cancel w bid (put_orders om r) = (reply, r1)" by force
    have r1: "I r1" by (rule keepsD [OF assms(1) om w])
    show ?thesis
      using orders_step [OF r1 cancel_finish_sound [of "rn_orders r1" now oid reply]] c Cancel_Await w
      by (simp add: runner_cancel_def split_beta)
  qed (use c om in \<open>simp add: runner_cancel_def\<close>)
qed

lemma fold_keeps: "(\<And>x r. I r \<Longrightarrow> I (f x r)) \<Longrightarrow> I r \<Longrightarrow> I (fold f xs r)"
  by (rule fold_preserves)

lemma sweep_keeps:
  assumes "\<And>bid. keeps I (w_cancel w bid)" "query_keeps I w" "I r"
  shows "I (resolve_stuck_cancels w now max_age r)"
  by (rule sweep_preserves [OF assms]) (erule orders_step, rule sweep_reply_sound sweep_recancelled_sound)+

lemma shutdown_keeps:
  "(\<And>bid. keeps I (w_cancel w bid)) \<Longrightarrow> I r \<Longrightarrow> I (shutdown_sweep w now r)"
  unfolding shutdown_sweep_def by (intro fold_keeps cancel_keeps status_step)

end

lemma locked_asymmetric [simp]: "locked (r\<lparr>rn_asymmetric := flagged\<rparr>) = locked r"
  by (simp add: locked_def rn_overrides_def)

lemma om_ok_store [simp]: "om_ok (om\<lparr>om_store := es\<rparr>) = om_ok om"
  by (simp add: om_ok_def)

lemma om_ok_log [simp]: "om_ok (rn_orders (log_runner now k p r)) = om_ok (rn_orders r)"
  by (simp add: log_runner_def rn_orders_def)

interpretation lock_inv: runner_invariant locked
  by unfold_locales simp_all

interpretation orders_inv: runner_invariant "\<lambda>r. om_ok (rn_orders r)"
proof unfold_locales
  fix r :: runner and st flagged
  assume "om_ok (rn_orders r)"
  then show "om_ok (rn_orders (lock_runner r))" "om_ok (rn_orders (r\<lparr>rn_status := st\<rparr>))"
    "om_ok (rn_orders (r\<lparr>rn_asymmetric := flagged\<rparr>))"
    by (simp_all add: lock_runner_def put_overrides_def rn_orders_def)
qed (auto simp: sound_step_def)

end
