(* ===== verification/Runner_Control.thy ===== *)
theory Runner_Control
  imports Runner_State
begin

text \<open>
  The control plane of the runner: \<open>_apply_strategy_update\<close> with its overlay file,
  \<open>_apply_strategy_overrides_file\<close>, and \<open>_process_commands\<close>. A JSON object inside a payload is the
  list of its key and value pairs. \<open>float(s)\<close> of a text and \<open>str(v)\<close> of a value that is neither text,
  \<open>None\<close> nor a truth value are library functions: the parameters \<open>fl\<close> and \<open>render\<close>. A result text is
  kept as its template.
\<close>

section \<open>Editing a strategy\<close>

datatype param_type = T_Bool | T_Float | T_Int | T_Str

datatype param = P_Enabled | P_Stop_Loss | P_Take_Profit | P_Time_Exit | P_Max_Contracts | P_Entry_Time
  | P_Trigger | P_Strike_Selection | P_Target_Delta | P_Sizing | P_Leverage | P_Reentry

definition editable_strategy_params :: "(string \<times> param) list" where
  "editable_strategy_params = [(''enabled'', P_Enabled), (''exit.stop_loss_pct'', P_Stop_Loss),
     (''exit.take_profit_pct'', P_Take_Profit), (''exit.time_exit_utc'', P_Time_Exit),
     (''entry.max_contracts'', P_Max_Contracts), (''entry.entry_time'', P_Entry_Time),
     (''entry.trigger_pct'', P_Trigger), (''entry.strike_selection'', P_Strike_Selection),
     (''entry.target_delta'', P_Target_Delta), (''position_sizing_pct'', P_Sizing),
     (''leverage'', P_Leverage), (''allow_reentry'', P_Reentry)]"

fun param_type_of :: "param \<Rightarrow> param_type" where
  "param_type_of P_Enabled = T_Bool" | "param_type_of P_Stop_Loss = T_Float" | "param_type_of P_Take_Profit = T_Float"
| "param_type_of P_Time_Exit = T_Str" | "param_type_of P_Max_Contracts = T_Int" | "param_type_of P_Entry_Time = T_Str"
| "param_type_of P_Trigger = T_Float" | "param_type_of P_Strike_Selection = T_Str" | "param_type_of P_Target_Delta = T_Float"
| "param_type_of P_Sizing = T_Float" | "param_type_of P_Leverage = T_Float" | "param_type_of P_Reentry = T_Bool"

fun py_str :: "(farg \<Rightarrow> string) \<Rightarrow> farg \<Rightarrow> string" where
  "py_str render (FStr s) = s"
| "py_str render FNone = ''None''"
| "py_str render (FBool b) = (if b then ''True'' else ''False'')"
| "py_str render x = render x"

text \<open>\<open>bool\<close>, \<open>float\<close>, \<open>int\<close>, \<open>str\<close> of a payload value; \<open>None\<close> is a \<open>ValueError\<close> or \<open>TypeError\<close>.\<close>

fun to_float :: "(string \<Rightarrow> pyfloat option) \<Rightarrow> farg \<Rightarrow> pyfloat option" where
  "to_float fl (FFloat x) = Some x"
| "to_float fl (FInt i) = Some (of_int i)"
| "to_float fl (FBool b) = Some (if b then 1 else 0)"
| "to_float fl (FStr s) = fl s"
| "to_float fl _ = None"

fun to_int :: "farg \<Rightarrow> int option" where
  "to_int (FInt i) = Some i"
| "to_int (FFloat x) = Some (py_int x)"
| "to_int (FBool b) = Some (if b then 1 else 0)"
| "to_int (FStr s) = py_parse_int s"
| "to_int _ = None"

definition to_bool :: "(farg \<Rightarrow> string) \<Rightarrow> farg \<Rightarrow> bool" where
  "to_bool render x = (case x of FBool b \<Rightarrow> b
     | _ \<Rightarrow> List.map lower_char (py_str render x) \<in> {''1'', ''true'', ''yes'', ''on''})"

definition coerce :: "(string \<Rightarrow> pyfloat option) \<Rightarrow> (farg \<Rightarrow> string) \<Rightarrow> param_type \<Rightarrow> farg \<Rightarrow> param_value option" where
  "coerce fl render t raw = (case t of
       T_Bool \<Rightarrow> Some (PV_Bool (to_bool render raw))
     | T_Float \<Rightarrow> map_option PV_Float (to_float fl raw)
     | T_Int \<Rightarrow> map_option PV_Int (to_int raw)
     | T_Str \<Rightarrow> Some (PV_Str (py_str render raw)))"

text \<open>\<open>setattr\<close> on the configuration object. A coerced value has the parameter's type.\<close>

fun pv_bool :: "param_value \<Rightarrow> bool" where "pv_bool (PV_Bool b) = b" | "pv_bool _ = False"
fun pv_float :: "param_value \<Rightarrow> pyfloat" where "pv_float (PV_Float x) = x" | "pv_float _ = 0"
fun pv_int :: "param_value \<Rightarrow> int" where "pv_int (PV_Int i) = i" | "pv_int _ = 0"
fun pv_str :: "param_value \<Rightarrow> string" where "pv_str (PV_Str s) = s" | "pv_str _ = []"

definition on_entry :: "(entry_config \<Rightarrow> entry_config) \<Rightarrow> strategy_config \<Rightarrow> strategy_config" where
  "on_entry f c = c\<lparr>sc_entry := f (sc_entry c)\<rparr>"

definition on_exit :: "(exit_config \<Rightarrow> exit_config) \<Rightarrow> strategy_config \<Rightarrow> strategy_config" where
  "on_exit f c = c\<lparr>sc_exit := f (sc_exit c)\<rparr>"

fun set_param :: "param \<Rightarrow> param_value \<Rightarrow> strategy_config \<Rightarrow> strategy_config" where
  "set_param P_Enabled v c = c\<lparr>sc_enabled := pv_bool v\<rparr>"
| "set_param P_Stop_Loss v c = on_exit (\<lambda>e. e\<lparr>ex_stop_loss_pct := Some (pv_float v)\<rparr>) c"
| "set_param P_Take_Profit v c = on_exit (\<lambda>e. e\<lparr>ex_take_profit_pct := Some (pv_float v)\<rparr>) c"
| "set_param P_Time_Exit v c = on_exit (\<lambda>e. e\<lparr>ex_time_exit := Some (pv_str v)\<rparr>) c"
| "set_param P_Max_Contracts v c = on_entry (\<lambda>e. e\<lparr>en_max_contracts := pv_int v\<rparr>) c"
| "set_param P_Entry_Time v c = on_entry (\<lambda>e. e\<lparr>en_entry_time := Some (pv_str v)\<rparr>) c"
| "set_param P_Trigger v c = on_entry (\<lambda>e. e\<lparr>en_trigger_pct := Some (pv_float v)\<rparr>) c"
| "set_param P_Strike_Selection v c = on_entry (\<lambda>e. e\<lparr>en_strike_selection := pv_str v\<rparr>) c"
| "set_param P_Target_Delta v c = on_entry (\<lambda>e. e\<lparr>en_target_delta := Some (pv_float v)\<rparr>) c"
| "set_param P_Sizing v c = c\<lparr>sc_sizing_pct := Some (pv_float v)\<rparr>"
| "set_param P_Leverage v c = c\<lparr>sc_leverage := Some (pv_float v)\<rparr>"
| "set_param P_Reentry v c = c\<lparr>sc_allow_reentry := pv_bool v\<rparr>"

definition set_key :: "string \<times> param_value \<Rightarrow> strategy_config \<Rightarrow> strategy_config" where
  "set_key kv c = (case map_of editable_strategy_params (fst kv) of None \<Rightarrow> c | Some p \<Rightarrow> set_param p (snd kv) c)"

text \<open>The loop over the changes; it stops at the first bad one and keeps what it has already set.\<close>

fun apply_changes ::
  "(string \<Rightarrow> pyfloat option) \<Rightarrow> (farg \<Rightarrow> string) \<Rightarrow> (string \<times> farg) list \<Rightarrow> (string, param_value) pydict
     \<Rightarrow> strategy_config \<Rightarrow> (string + (string, param_value) pydict) \<times> strategy_config" where
  "apply_changes fl render [] applied c = (Inr applied, c)"
| "apply_changes fl render ((k, raw) # rest) applied c =
     (case map_of editable_strategy_params k of
        None \<Rightarrow> (Inl ''error: param {} is not editable'', c)
      | Some p \<Rightarrow> (case coerce fl render (param_type_of p) raw of
            None \<Rightarrow> (Inl ''error: bad value {} for {}'', c)
          | Some v \<Rightarrow> apply_changes fl render rest (AList.update k v applied) (set_param p v c)))"

definition dict_merge :: "('k, 'v) pydict \<Rightarrow> ('k, 'v) pydict \<Rightarrow> ('k, 'v) pydict" where
  "dict_merge new d = fold (\<lambda>(k, v). AList.update k v) new d"

definition applied_arg :: "(string, param_value) pydict \<Rightarrow> farg" where
  "applied_arg d = FList (map (\<lambda>(k, v). FList [FStr k, case v of PV_Bool b \<Rightarrow> FBool b | PV_Float x \<Rightarrow> FFloat x
     | PV_Int i \<Rightarrow> FInt i | PV_Str s \<Rightarrow> FStr s]) d)"

definition apply_strategy_update ::
  "(string \<Rightarrow> pyfloat option) \<Rightarrow> (farg \<Rightarrow> string) \<Rightarrow> instant \<Rightarrow> string \<Rightarrow> (string \<times> farg) list \<Rightarrow> runner \<Rightarrow> string \<times> runner" where
  "apply_strategy_update fl render now sid changes r =
     (case map_of (rn_configs r) sid of
        None \<Rightarrow> (''error: unknown strategy {}'', r)
      | Some c \<Rightarrow> (case apply_changes fl render changes [] c of (res, c') \<Rightarrow>
          let r1 = r\<lparr>rn_configs := AList.update sid c' (rn_configs r)\<rparr>
          in (case res of
                Inl msg \<Rightarrow> (msg, r1)
              | Inr applied \<Rightarrow>
                  if applied = [] then (''error: no changes supplied'', r1)
                  else
                    let r2 = (if rn_overlay_writable r1
                              then r1\<lparr>rn_overlay := AList.update sid
                                       (dict_merge applied (dict_default (rn_overlay r1) sid [])) (rn_overlay r1)\<rparr>
                              else r1)
                    in (''applied {}'', log_runner now ''strategy_updated'' (P_Dict [(''strategy_id'', FStr sid),
                          (''changes'', applied_arg applied), (''timestamp'', FTime now)]) r2))))"

text \<open>At startup the overlay goes over the loaded configurations.\<close>

definition apply_strategy_overrides_file ::
  "(string, (string, param_value) pydict) pydict \<Rightarrow> (string, strategy_config) pydict \<Rightarrow> (string, strategy_config) pydict" where
  "apply_strategy_overrides_file overlay cfgs =
     fold (\<lambda>(sid, changes) cs. case map_of cs sid of None \<Rightarrow> cs
        | Some c \<Rightarrow> AList.update sid (fold set_key changes c) cs) overlay cfgs"

section \<open>Commands\<close>

definition payload_get :: "string \<Rightarrow> (string \<times> farg) list \<Rightarrow> py_error + farg" where
  "payload_get k p = (case map_of p k of None \<Rightarrow> Inl (Key_Error k) | Some v \<Rightarrow> Inr v)"

definition to_uuid :: "farg \<Rightarrow> py_error + uuid" where
  "to_uuid x = (case x of FId i \<Rightarrow> Inr i | _ \<Rightarrow> Inl (Value_Error (lit ''badly formed hexadecimal UUID string'')))"

fun farg_truthy :: "farg \<Rightarrow> bool" where
  "farg_truthy (FStr s) \<longleftrightarrow> s \<noteq> []"
| "farg_truthy (FInt i) \<longleftrightarrow> i \<noteq> 0"
| "farg_truthy (FFloat x) \<longleftrightarrow> x \<noteq> 0"
| "farg_truthy (FBool b) \<longleftrightarrow> b"
| "farg_truthy FNone \<longleftrightarrow> False"
| "farg_truthy (FList xs) \<longleftrightarrow> xs \<noteq> []"
| "farg_truthy _ \<longleftrightarrow> True"

fun object_items :: "farg list \<Rightarrow> (string \<times> farg) list" where
  "object_items (FList [FStr k, v] # xs) = (k, v) # object_items xs"
| "object_items _ = []"

definition as_object :: "farg \<Rightarrow> (string \<times> farg) list option" where
  "as_object x = (case x of FList xs \<Rightarrow> Some (object_items xs) | _ \<Rightarrow> None)"

definition mark_command :: "instant \<Rightarrow> uuid \<Rightarrow> string \<Rightarrow> string \<Rightarrow> runner \<Rightarrow> runner" where
  "mark_command now cid status result r = (case mark cid status result now (rn_commands r) of
     Inl e \<Rightarrow> r | Inr t \<Rightarrow> r\<lparr>rn_commands := t\<rparr>)"

text \<open>One branch of the dispatch: the state after it and whether the loop goes on to log the command
  (\<open>continue\<close> skips that). An exception is \<open>Inl\<close>, with the state it left behind.\<close>

type_synonym command_outcome = "(py_error + bool) \<times> runner"

definition cmd_exit_position :: "instant \<Rightarrow> uuid \<Rightarrow> (string \<times> farg) list \<Rightarrow> runner \<Rightarrow> command_outcome" where
  "cmd_exit_position now cid payload r =
     (case try_bind (payload_get ''position_id'' payload) to_uuid of
        Inl e \<Rightarrow> (Inl e, r)
      | Inr pid \<Rightarrow> (case map_of (pb_positions (rn_book r)) pid of
          Some p \<Rightarrow>
            if open_status (ps_status p)
            then (Inr True, mark_command now cid ''done'' ''queued for exit via ExitManager''
                    (r\<lparr>rn_manual_exits := insert pid (rn_manual_exits r)\<rparr>))
            else (Inr False, mark_command now cid ''failed'' ''position {} not open'' r)
        | None \<Rightarrow> (Inr False, mark_command now cid ''failed'' ''position {} not open'' r)))"

definition cmd_cancel_order :: "world \<Rightarrow> instant \<Rightarrow> uuid \<Rightarrow> (string \<times> farg) list \<Rightarrow> runner \<Rightarrow> command_outcome" where
  "cmd_cancel_order w now cid payload r =
     (case try_bind (payload_get ''order_id'' payload) to_uuid of
        Inl e \<Rightarrow> (Inl e, r)
      | Inr oid \<Rightarrow> (case runner_cancel w now oid r of (ok, r1) \<Rightarrow>
          (Inr True, mark_command now cid (if ok then ''done'' else ''failed'')
             (if ok then ''cancel requested'' else ''order not active'') r1)))"

definition cmd_pause_strategy :: "(farg \<Rightarrow> string) \<Rightarrow> instant \<Rightarrow> uuid \<Rightarrow> (string \<times> farg) list \<Rightarrow> runner \<Rightarrow> command_outcome" where
  "cmd_pause_strategy render now cid payload r =
     (case payload_get ''strategy_id'' payload of
        Inl e \<Rightarrow> (Inl e, r)
      | Inr v \<Rightarrow>
          let sid = py_str render v; m = cp_overrides (rn_parts r)
          in if farg_truthy (case map_of payload ''paused'' of None \<Rightarrow> FBool True | Some x \<Rightarrow> x)
             then (Inr True, mark_command now cid ''done'' ''{} paused'' (put_overrides (snd (pause_strategy sid m)) r))
             else (Inr True, mark_command now cid ''done'' ''{} resumed'' (put_overrides (snd (resume_strategy sid m)) r)))"

definition cmd_fire_straddle ::
  "zone \<Rightarrow> (farg \<Rightarrow> string) \<Rightarrow> instant \<Rightarrow> uuid \<Rightarrow> (string \<times> farg) list \<Rightarrow> runner \<Rightarrow> command_outcome" where
  "cmd_fire_straddle ny render now cid payload r =
     (let raw = (case map_of payload ''strategy_id'' of None \<Rightarrow> FNone | Some x \<Rightarrow> x);
          sid = (if farg_truthy raw then py_str render raw else ''xsp_straddle_manual'')
      in case map_of (rn_configs r) sid of
           None \<Rightarrow> (Inr True, mark_command now cid ''failed'' ''unknown strategy {}'' r)
         | Some cfg \<Rightarrow>
             if en_signal_source (sc_entry cfg) \<noteq> ''xsp_short_straddle''
             then (Inr True, mark_command now cid ''failed'' ''{} is not a straddle strategy'' r)
             else if \<not> sc_enabled cfg \<or> sid \<in> set (ov_paused (rn_overrides r))
             then (Inr True, mark_command now cid ''failed'' ''{} disabled/paused'' r)
             else (case entry_window_closed ny cfg now of
                 Inl e \<Rightarrow> (Inl e, r)
               | Inr True \<Rightarrow> (Inr True, mark_command now cid ''failed'' ''entry window closed (past exit time / 15:30 ET cutoff)'' r)
               | Inr False \<Rightarrow> (Inr True, mark_command now cid ''done'' ''{} will fire on next tick (<30s)''
                   (r\<lparr>rn_fire_requests := insert sid (rn_fire_requests r)\<rparr>))))"

definition starts_with_error :: "string \<Rightarrow> bool" where
  "starts_with_error s \<longleftrightarrow> take 5 s = ''error''"

definition cmd_update_strategy ::
  "(string \<Rightarrow> pyfloat option) \<Rightarrow> (farg \<Rightarrow> string) \<Rightarrow> instant \<Rightarrow> uuid \<Rightarrow> (string \<times> farg) list \<Rightarrow> runner \<Rightarrow> command_outcome" where
  "cmd_update_strategy fl render now cid payload r =
     (let sid = py_str render (case map_of payload ''strategy_id'' of None \<Rightarrow> FStr [] | Some x \<Rightarrow> x);
          raw = (case map_of payload ''changes'' of None \<Rightarrow> FNone | Some x \<Rightarrow> x)
      in case as_object (if farg_truthy raw then raw else FList []) of
           Some changes \<Rightarrow> (case apply_strategy_update fl render now sid changes r of (result, r1) \<Rightarrow>
             (Inr True, mark_command now cid (if starts_with_error result then ''failed'' else ''done'') result r1))
         | None \<Rightarrow> if map_of (rn_configs r) sid = None
                then (Inr True, mark_command now cid ''failed'' ''error: unknown strategy {}'' r)
                else (Inl (Type_Error ''object has no attribute items''), r))"

definition cmd_unlock_system :: "world \<Rightarrow> instant \<Rightarrow> uuid \<Rightarrow> runner \<Rightarrow> command_outcome" where
  "cmd_unlock_system w now cid r = (case run_reconciliation w now r of
       (Inl e, r1) \<Rightarrow> (Inl e, r1)
     | (Inr True, r1) \<Rightarrow> (Inr True, mark_command now cid ''done'' ''unlocked (reconciliation clean)''
         ((unlock_runner r1)\<lparr>rn_locked_by_disconnect := False, rn_status := RUNNING\<rparr>))
     | (Inr False, r1) \<Rightarrow> (Inr True, mark_command now cid ''failed''
         ''reconciliation NOT clean: lock kept; resolve mismatch first (or flatten_all and retry)'' r1))"

text \<open>\<open>restart_runner\<close> and \<open>shutdown_runner\<close> spawn \<open>stop()\<close>, which runs at the next await; nothing
  between them reads what it sets.\<close>

definition dispatch_command ::
  "zone \<Rightarrow> (string \<Rightarrow> pyfloat option) \<Rightarrow> (farg \<Rightarrow> string) \<Rightarrow> world \<Rightarrow> instant \<Rightarrow> command_row \<Rightarrow> runner \<Rightarrow> command_outcome" where
  "dispatch_command ny fl render w now row r =
     (let cid = cr_id row; typ = cr_type row; payload = cr_payload row
      in if typ = ''exit_position'' then cmd_exit_position now cid payload r
         else if typ = ''cancel_order'' then cmd_cancel_order w now cid payload r
         else if typ = ''pause_strategy'' then cmd_pause_strategy render now cid payload r
         else if typ = ''flatten_all'' then
           (Inr True, mark_command now cid ''done'' ''flatten_all latched'' (r\<lparr>rn_flatten_all := True\<rparr>))
         else if typ = ''fire_straddle'' then cmd_fire_straddle ny render now cid payload r
         else if typ = ''update_strategy'' then cmd_update_strategy fl render now cid payload r
         else if typ = ''unlock_system'' then cmd_unlock_system w now cid r
         else if typ = ''lock_system'' then (Inr True, mark_command now cid ''done'' ''locked'' (lock_runner r))
         else if typ = ''restart_runner'' then (Inr True, stop_runner now (mark_command now cid ''done'' ''restarting'' r))
         else if typ = ''shutdown_runner'' then (Inr True, stop_runner now (mark_command now cid ''done'' ''shutting down'' r))
         else (Inr True, mark_command now cid ''failed'' ''unknown type {}'' r))"

definition process_command ::
  "zone \<Rightarrow> (string \<Rightarrow> pyfloat option) \<Rightarrow> (farg \<Rightarrow> string) \<Rightarrow> world \<Rightarrow> instant \<Rightarrow> command_row \<Rightarrow> runner \<Rightarrow> runner" where
  "process_command ny fl render w now row r = (case dispatch_command ny fl render w now row r of
       (Inr True, r1) \<Rightarrow> log_runner now ''control_command'' (P_Dict [(''command_id'', FId (cr_id row)),
           (''type'', FStr (cr_type row)), (''payload'', FList (map (\<lambda>(k, v). FList [FStr k, v]) (cr_payload row))),
           (''timestamp'', FTime now)]) r1
     | (Inr False, r1) \<Rightarrow> r1
     | (Inl e, r1) \<Rightarrow> mark_command now (cr_id row) ''failed'' (error_text e) r1)"

definition process_commands ::
  "zone \<Rightarrow> (string \<Rightarrow> pyfloat option) \<Rightarrow> (farg \<Rightarrow> string) \<Rightarrow> world \<Rightarrow> instant \<Rightarrow> runner \<Rightarrow> runner" where
  "process_commands ny fl render w now r =
     fold (process_command ny fl render w now) (fetch_pending 10 (rn_commands r)) r"

section \<open>The overlay\<close>

lemma set_param_overwrite: "set_param p v (set_param p u c) = set_param p v c"
  by (cases p) (simp_all add: on_entry_def on_exit_def)

lemma set_param_commute: "p \<noteq> q \<Longrightarrow> set_param p v (set_param q u c) = set_param q u (set_param p v c)"
  by (cases p; cases q) (simp_all add: on_entry_def on_exit_def)

lemma editable_inj:
  assumes "map_of editable_strategy_params k = Some p" "map_of editable_strategy_params l = Some p"
  shows "k = l"
proof -
  have "distinct (map snd editable_strategy_params)" by code_simp
  then have "inj_on snd (set editable_strategy_params)" by (simp add: distinct_map)
  moreover have "(k, p) \<in> set editable_strategy_params" "(l, p) \<in> set editable_strategy_params"
    using assms by (auto dest: map_of_SomeD)
  ultimately show ?thesis by (metis inj_onD snd_conv prod.inject)
qed

lemma set_key_overwrite: "set_key (k, v) (set_key (k, u) c) = set_key (k, v) c"
  by (simp add: set_key_def set_param_overwrite split: option.split)

lemma set_key_commute: "k \<noteq> l \<Longrightarrow> set_key (k, v) (set_key (l, u) c) = set_key (l, u) (set_key (k, v) c)"
  by (cases "map_of editable_strategy_params k"; cases "map_of editable_strategy_params l")
    (auto simp: set_key_def intro!: set_param_commute dest: editable_inj)

lemma fold_set_key_commute:
  "k \<notin> set (map fst d) \<Longrightarrow> fold set_key d (set_key (k, v) c) = set_key (k, v) (fold set_key d c)"
proof (induction d arbitrary: c)
  case (Cons a d)
  obtain l u where a: "a = (l, u)" by force
  with Cons.prems have "k \<noteq> l" by auto
  with Cons a show ?case by (simp add: set_key_commute [of k l, symmetric])
qed simp

lemma fold_set_key_update:
  "wf_dict d \<Longrightarrow> fold set_key (AList.update k v d) c = set_key (k, v) (fold set_key d c)"
proof (induction d arbitrary: c)
  case (Cons a d)
  obtain l u where a: "a = (l, u)" by force
  show ?case
  proof (cases "l = k")
    case True
    then have "k \<notin> set (map fst d)" using Cons.prems a by (simp add: wf_dict_def)
    from fold_set_key_commute [OF this, of v] fold_set_key_commute [OF this, of u] True a
    show ?thesis by (simp add: set_key_overwrite)
  next
    case False
    with Cons a show ?thesis by (simp add: wf_dict_def)
  qed
qed simp

lemma fold_set_key_merge:
  "wf_dict d \<Longrightarrow> wf_dict (dict_merge new d) \<and> fold set_key (dict_merge new d) c = fold set_key new (fold set_key d c)"
proof (induction new arbitrary: d)
  case (Cons a new)
  obtain k v where a: "a = (k, v)" by force
  from Cons.IH [of "AList.update k v d"] Cons.prems show ?case
    by (simp add: a dict_merge_def fold_set_key_update)
qed (simp add: dict_merge_def)

lemma apply_changes_Inr:
  "apply_changes fl render changes applied c = (Inr applied', c') \<Longrightarrow> wf_dict applied \<Longrightarrow>
   c = fold set_key applied c0 \<Longrightarrow> wf_dict applied' \<and> c' = fold set_key applied' c0"
proof (induction changes arbitrary: applied c)
  case (Cons a changes)
  obtain k raw where a: "a = (k, raw)" by force
  then obtain p v where p: "map_of editable_strategy_params k = Some p"
    and r: "apply_changes fl render changes (AList.update k v applied) (set_param p v c) = (Inr applied', c')"
    using Cons.prems(1) by (auto split: option.splits)
  have "set_param p v c = set_key (k, v) c" by (simp add: set_key_def p)
  also have "\<dots> = fold set_key (AList.update k v applied) c0"
    using Cons.prems(2,3) by (simp only: fold_set_key_update)
  finally have "set_param p v c = fold set_key (AList.update k v applied) c0" .
  with Cons.IH [OF r] Cons.prems(2) show ?case by simp
qed simp

text \<open>The overlay as a function on the configurations.\<close>

lemma update_present_map:
  "wf_dict d \<Longrightarrow> map_of d k = Some v \<Longrightarrow> AList.update k w d = map (\<lambda>(i, x). (i, if i = k then w else x)) d"
proof (induction d)
  case (Cons a d)
  obtain i x where a: "a = (i, x)" by force
  have "k \<notin> set (map fst d) \<Longrightarrow> map (\<lambda>(i, x). (i, if i = k then w else x)) d = d"
    by (rule map_idI) (auto simp: image_iff)
  with Cons a show ?case by (auto simp: wf_dict_def)
qed simp

lemma overlay_eq:
  assumes "wf_dict cfgs"
  shows "wf_dict overlay \<Longrightarrow> apply_strategy_overrides_file overlay cfgs
    = map (\<lambda>(sid, c). (sid, fold set_key (dict_default overlay sid []) c)) cfgs"
  using assms unfolding apply_strategy_overrides_file_def
proof (induction overlay arbitrary: cfgs)
  case Nil
  then show ?case by (simp add: dict_default_def)
next
  case (Cons a overlay)
  obtain sid changes where a: "a = (sid, changes)" by force
  have no: "map_of overlay sid = None" and wf: "wf_dict overlay"
    using Cons.prems(1) a by (simp_all add: wf_dict_def map_of_eq_None_iff)
  define cfgs1 where "cfgs1 = (case map_of cfgs sid of None \<Rightarrow> cfgs | Some c \<Rightarrow> AList.update sid (fold set_key changes c) cfgs)"
  have c1: "cfgs1 = map (\<lambda>(i, c). (i, if i = sid then fold set_key changes c else c)) cfgs"
  proof (cases "map_of cfgs sid")
    case None
    then have "\<forall>x \<in> set cfgs. fst x \<noteq> sid" by (auto simp: map_of_eq_None_iff)
    then have "map (\<lambda>(i, c). (i, if i = sid then fold set_key changes c else c)) cfgs = cfgs"
      by (intro map_idI) auto
    then show ?thesis using None by (simp add: cfgs1_def)
  next
    case (Some c)
    have "c' = c" if "(sid, c') \<in> set cfgs" for c'
      using that Some Cons.prems(2) by (simp add: wf_dict_def)
    then show ?thesis
      using Some update_present_map [OF Cons.prems(2) Some] by (auto simp: cfgs1_def)
  qed
  have "wf_dict cfgs1" using Cons.prems(2) by (simp add: c1 wf_dict_def o_def split_beta)
  from Cons.IH [OF wf this] have "fold (\<lambda>(sid, changes) cs. case map_of cs sid of None \<Rightarrow> cs
      | Some c \<Rightarrow> AList.update sid (fold set_key changes c) cs) overlay cfgs1
    = map (\<lambda>(sid, c). (sid, fold set_key (dict_default overlay sid []) c)) cfgs1" .
  also have "\<dots> = map (\<lambda>(i, c). (i, fold set_key (dict_default (a # overlay) i []) c)) cfgs"
    unfolding c1 using no by (simp add: a dict_default_def split_beta)
  finally show ?case by (simp add: a cfgs1_def)
qed

text \<open>Restarting would give the configurations the runner works with.\<close>

definition overlay_in_sync :: "(string, strategy_config) pydict \<Rightarrow> runner \<Rightarrow> bool" where
  "overlay_in_sync base r \<longleftrightarrow> wf_dict base \<and> wf_dict (rn_overlay r) \<and> (\<forall>(sid, d) \<in> set (rn_overlay r). wf_dict d)
     \<and> rn_configs r = apply_strategy_overrides_file (rn_overlay r) base"

lemma overlay_wf: "overlay_in_sync base r \<Longrightarrow> wf_dict (dict_default (rn_overlay r) sid [])"
  by (auto simp: overlay_in_sync_def dict_default_def split: option.split dest!: map_of_SomeD)

lemma map_of_overlaid:
  "map_of (map (\<lambda>(sid, c). (sid, f sid c)) cfgs) i = map_option (f i) (map_of cfgs i)"
  by (induction cfgs) auto

lemma apply_changes_error: "apply_changes fl render changes applied c = (Inl msg, c') \<Longrightarrow> msg \<noteq> ''applied {}''"
  by (induction changes arbitrary: applied c) (auto split: option.splits)

text \<open>C35: a strategy update that is answered with \<open>applied\<close> survives a restart, when the overlay is in step and
  can be written. If loading the base files and the overlay gives the configurations the runner works with
  now, and the overlay file is writable, then after an update answered with \<open>applied\<close> loading them gives
  the updated configurations. Without that it need not: an update refused for a later key changes the
  live configuration only (\<open>refused_update_changes_configuration\<close>), and an overlay that cannot be written is
  only logged.\<close>

theorem strategy_update_survives_restart:
  assumes sync: "overlay_in_sync base r" and w: "rn_overlay_writable r"
    and up: "apply_strategy_update fl render now sid changes r = (''applied {}'', r')"
  shows "overlay_in_sync base r'"
proof -
  let ?ol = "rn_overlay r" and ?d = "dict_default (rn_overlay r) sid []"
  have wf: "wf_dict base" "wf_dict ?ol" "wf_dict ?d" "\<forall>(s, d) \<in> set ?ol. wf_dict d"
    using sync overlay_wf [OF sync] by (simp_all add: overlay_in_sync_def)
  have cfgs: "rn_configs r = map (\<lambda>(s, c). (s, fold set_key (dict_default ?ol s []) c)) base"
    using sync overlay_eq [OF wf(1,2)] by (simp add: overlay_in_sync_def)
  obtain c where c: "map_of (rn_configs r) sid = Some c"
    using up by (cases "map_of (rn_configs r) sid") (simp_all add: apply_strategy_update_def)
  then obtain c0 where c0: "map_of base sid = Some c0" "c = fold set_key ?d c0"
    by (auto simp: cfgs map_of_overlaid)
  obtain applied c' where ch: "apply_changes fl render changes [] c = (Inr applied, c')"
    using up by (cases "apply_changes fl render changes [] c"; cases "fst (apply_changes fl render changes [] c)")
      (auto simp: apply_strategy_update_def c dest: apply_changes_error)
  have ne: "applied \<noteq> []" using up by (auto simp: apply_strategy_update_def c ch Let_def)
  have app: "wf_dict applied" "\<And>c0. c = fold set_key [] c0 \<Longrightarrow> c' = fold set_key applied c0"
    using apply_changes_Inr [OF ch, of c] apply_changes_Inr [OF ch] by auto
  define ol' where "ol' = AList.update sid (dict_merge applied ?d) ?ol"
  have r': "rn_configs r' = AList.update sid c' (rn_configs r)" "rn_overlay r' = ol'"
    using up w ne by (auto simp: apply_strategy_update_def c ch Let_def ol'_def)
  have c': "c' = fold set_key (dict_merge applied ?d) c0"
    using app(2) [of c] fold_set_key_merge [OF wf(3), of applied c0] c0(2) by simp
  have wf': "wf_dict ol'" using wf(2) by (simp add: ol'_def)
  have "\<forall>(s, d) \<in> set ol'. wf_dict d"
  proof safe
    fix s d assume "(s, d) \<in> set ol'"
    then have "map_of ol' s = Some d" using wf' by (simp add: wf_dict_def)
    then show "wf_dict d" using wf(4) fold_set_key_merge [OF wf(3)]
      by (auto simp: ol'_def split: if_splits dest!: map_of_SomeD)
  qed
  moreover have "rn_configs r' = apply_strategy_overrides_file ol' base"
  proof -
    have "wf_dict (rn_configs r)" using wf(1) by (simp add: cfgs wf_dict_def o_def split_beta)
    then have "rn_configs r' = map (\<lambda>(i, x). (i, if i = sid then c' else x)) (rn_configs r)"
      using update_present_map [OF _ c] r'(1) by simp
    also have "\<dots> = map (\<lambda>(s, x). (s, fold set_key (dict_default ol' s []) x)) base"
    proof -
      have "x = c0" if "(sid, x) \<in> set base" for x using that c0(1) wf(1) by (simp add: wf_dict_def)
      then show ?thesis unfolding cfgs by (auto simp: c' ol'_def dict_default_def)
    qed
    finally show ?thesis using overlay_eq [OF wf(1) wf'] by simp
  qed
  ultimately show ?thesis using wf wf' r' by (simp add: overlay_in_sync_def)
qed

definition no_text :: "string \<Rightarrow> pyfloat option" where
  "no_text s = None"

definition no_render :: "farg \<Rightarrow> string" where
  "no_render x = []"

definition sample_changes :: "(string \<times> farg) list" where
  "sample_changes = [(''exit.stop_loss_pct'', FFloat 0.3), (''enabled'', FStr ''no'')]"

theorem strategy_update_survives_restart_witness:
  "overlay_in_sync (rn_configs sample_runner)
     (snd (apply_strategy_update no_text no_render 7 ''s1'' sample_changes sample_runner))"
proof (rule strategy_update_survives_restart [of _ sample_runner])
  show "overlay_in_sync (rn_configs sample_runner) sample_runner"
    by (simp add: overlay_in_sync_def sample_runner_def new_runner_def apply_strategy_overrides_file_def wf_dict_def)
  show "rn_overlay_writable sample_runner" by (simp add: sample_runner_def new_runner_def)
  have "fst (apply_strategy_update no_text no_render 7 ''s1'' sample_changes sample_runner) = ''applied {}''"
    by code_simp
  then show "apply_strategy_update no_text no_render 7 ''s1'' sample_changes sample_runner = (''applied {}'',
      snd (apply_strategy_update no_text no_render 7 ''s1'' sample_changes sample_runner))"
    by (metis prod.collapse)
qed

text \<open>An update that is refused because of a later key has already changed the live configuration,
  and it is not written to the overlay.\<close>

lemma refused_update_changes_configuration:
  "let res = apply_strategy_update no_text no_render 7 ''s1''
         [(''enabled'', FBool False), (''underlying'', FStr ''SPX'')] sample_runner
   in fst res = ''error: param {} is not editable'' \<and> rn_overlay (snd res) = []
      \<and> map_option sc_enabled (map_of (rn_configs (snd res)) ''s1'') = Some False"
  by code_simp

text \<open>The updates bypass the validators of the configuration models.\<close>

lemma update_accepts_invalid_value:
  "map_option (\<lambda>c. mk_strategy_config c) (map_of (rn_configs (snd (apply_strategy_update no_text no_render 7 ''s1''
       [(''exit.stop_loss_pct'', FFloat (-0.5))] sample_runner))) ''s1'')
     = Some (Inl (Validation_Error ''stop_loss_pct''))"
  by code_simp

section \<open>Commands are answered\<close>

lemma mark_command_pending:
  "st = ''done'' \<or> st = ''failed'' \<Longrightarrow> pending_ids (rn_commands (mark_command now cid st res r)) = pending_ids (rn_commands r) - {cid}"
  using mark_pending_ids [of cid st res now "rn_commands r"]
  by (auto simp: mark_command_def mark_def terminal_of_text_def)

lemma frame_commands [simp]:
  "rn_commands (log_runner now k p r) = rn_commands r" "rn_commands (stop_runner now r) = rn_commands r"
  by (simp_all add: log_runner_def stop_runner_def log_lifecycle_def)

lemma branch_answers:
  "cmd_exit_position now cid p r = (Inr b, r') \<Longrightarrow> cid \<notin> pending_ids (rn_commands r')"
  "cmd_cancel_order w now cid p r = (Inr b, r') \<Longrightarrow> cid \<notin> pending_ids (rn_commands r')"
  "cmd_pause_strategy render now cid p r = (Inr b, r') \<Longrightarrow> cid \<notin> pending_ids (rn_commands r')"
  "cmd_fire_straddle ny render now cid p r = (Inr b, r') \<Longrightarrow> cid \<notin> pending_ids (rn_commands r')"
  "cmd_unlock_system w now cid r = (Inr b, r') \<Longrightarrow> cid \<notin> pending_ids (rn_commands r')"
  by (auto simp: cmd_exit_position_def cmd_cancel_order_def cmd_pause_strategy_def cmd_fire_straddle_def
      cmd_unlock_system_def Let_def mark_command_pending split: sum.splits option.splits prod.splits bool.splits if_splits)

lemma update_answers:
  "cmd_update_strategy fl render now cid p r = (Inr b, r') \<Longrightarrow> cid \<notin> pending_ids (rn_commands r')"
  unfolding cmd_update_strategy_def Let_def
  by (split option.split_asm) (auto simp: mark_command_pending split: if_splits prod.splits)

lemma dispatch_answers:
  "dispatch_command ny fl render w now row r = (Inr b, r') \<Longrightarrow> cr_id row \<notin> pending_ids (rn_commands r')"
  by (auto simp: dispatch_command_def Let_def mark_command_pending branch_answers update_answers split: if_splits)

text \<open>Every command the runner takes from the queue is answered. After it has been processed its
  row is not pending any more, whichever branch ran, whether it raised, and whatever else happened
  while it waited for the broker.\<close>

lemma command_always_answered:
  "cr_id row \<notin> pending_ids (rn_commands (process_command ny fl render w now row r))"
proof (cases "dispatch_command ny fl render w now row r")
  case (Pair res r1)
  show ?thesis
  proof (cases res)
    case (Inl e)
    with Pair show ?thesis by (simp add: process_command_def mark_command_pending)
  next
    case (Inr b)
    with Pair dispatch_answers [of ny fl render w now row r b r1] show ?thesis
      by (cases b) (simp_all add: process_command_def)
  qed
qed

section \<open>Locks\<close>

lemma run_reconciliation_locked:
  assumes "keeps locked (w_positions w)" "keeps locked (w_open_orders w)" "locked r" "run_reconciliation w now r = (x, r')"
  shows "locked r'"
proof -
  have r0: "locked (r\<lparr>rn_status := RECONCILING\<rparr>)" using assms(3) by simp
  obtain x1 r1 where p: "w_positions w (r\<lparr>rn_status := RECONCILING\<rparr>) = (x1, r1)" by force
  have r1: "locked r1" by (rule keepsD [OF assms(1) r0 p])
  obtain x2 r2 where q: "w_open_orders w r1 = (x2, r2)" by force
  have r2: "locked r2" by (rule keepsD [OF assms(2) r1 q])
  show ?thesis
  proof (cases "(\<exists>e. x1 = Inl e) \<or> (\<exists>e. x2 = Inl e)")
    case True
    then show ?thesis using assms(4) p q r1 r2 by (auto simp: run_reconciliation_def Let_def split: sum.splits)
  next
    case False
    then obtain bps bos where b: "x1 = Inr bps" "x2 = Inr bos" by (metis sum.exhaust)
    obtain y ovm es where rec: "reconcile now (Inr bps) (Inr bos) (List.map_filter (map_of (om_orders (rn_orders r2)))
        (open_order_ids (rn_orders (r\<lparr>rn_status := RECONCILING\<rparr>)))) (rn_book (r\<lparr>rn_status := RECONCILING\<rparr>))
        (cp_overrides (rn_parts r2)) (cp_store (rn_parts r2)) = (y, ovm, es)" by (metis prod_cases3)
    have "ov_system_locked (ovm_state ovm)"
      using reconcile_keeps_lock [OF rec] r2 by (simp add: locked_def rn_overrides_def)
    then show ?thesis
      using assms(4) p q b rec r2
      by (auto simp: run_reconciliation_def Let_def locked_def rn_overrides_def set_lock_flag_def put_overrides_def
          split: sum.splits if_splits)
  qed
qed

lemma locked_frame [simp]:
  "locked (mark_command now cid st res r) = locked r" "locked (stop_runner now r) = locked r"
  by (simp_all add: mark_command_def stop_runner_def log_lifecycle_def split: sum.split)

lemma pause_keeps_lock [simp]:
  "locked (put_overrides (snd (pause_strategy sid (cp_overrides (rn_parts r)))) r) = locked r"
  "locked (put_overrides (snd (resume_strategy sid (cp_overrides (rn_parts r)))) r) = locked r"
  by (simp_all add: locked_def pause_strategy_def resume_strategy_def Let_def) (simp_all add: rn_overrides_def)

lemma apply_update_locked: "locked (snd (apply_strategy_update fl render now sid changes r)) = locked r"
proof (cases "map_of (rn_configs r) sid")
  case (Some c)
  obtain res c' where "apply_changes fl render changes [] c = (res, c')" by force
  with Some show ?thesis by (cases res) (simp_all add: apply_strategy_update_def Let_def)
qed (simp add: apply_strategy_update_def)

lemma outcome_intros:
  fixes I :: "runner \<Rightarrow> bool"
  shows "(b \<Longrightarrow> I (snd x)) \<Longrightarrow> (\<not> b \<Longrightarrow> I (snd y)) \<Longrightarrow> I (snd (if b then x else y))"
  "(v = None \<Longrightarrow> I (snd x)) \<Longrightarrow> (\<And>a. v = Some a \<Longrightarrow> I (snd (f a)))
    \<Longrightarrow> I (snd (case v of None \<Rightarrow> x | Some a \<Rightarrow> f a))"
  "(\<And>a. u = Inl a \<Longrightarrow> I (snd (g a))) \<Longrightarrow> (\<And>a. u = Inr a \<Longrightarrow> I (snd (h a)))
    \<Longrightarrow> I (snd (case u of Inl a \<Rightarrow> g a | Inr a \<Rightarrow> h a))"
  "I (snd x) \<Longrightarrow> I (snd y) \<Longrightarrow> I (snd (case d of True \<Rightarrow> x | False \<Rightarrow> y))"
  by (auto split: option.split sum.split bool.split)

text \<open>What the single pieces of the commands keep, all commands but \<open>unlock_system\<close> keep.\<close>

lemma dispatch_keeps:
  fixes I :: "runner \<Rightarrow> bool"
  assumes r: "I r" and ty: "cr_type row \<noteq> ''unlock_system''"
    and cancel: "\<And>oid. I (snd (runner_cancel w now oid r))"
    and frame: "\<And>cid st res r. I r \<Longrightarrow> I (mark_command now cid st res r)" "\<And>r. I r \<Longrightarrow> I (stop_runner now r)"
      "I (lock_runner r)" "\<And>sid. I (put_overrides (snd (pause_strategy sid (cp_overrides (rn_parts r)))) r)"
      "\<And>sid. I (put_overrides (snd (resume_strategy sid (cp_overrides (rn_parts r)))) r)"
      "\<And>x. I (r\<lparr>rn_manual_exits := x\<rparr>)" "\<And>x. I (r\<lparr>rn_flatten_all := x\<rparr>)" "\<And>x. I (r\<lparr>rn_fire_requests := x\<rparr>)"
      "\<And>sid changes. I (snd (apply_strategy_update fl render now sid changes r))"
  shows "I (snd (dispatch_command ny fl render w now row r))"
proof -
  have e: "I (snd (cmd_exit_position now cid p r))" for cid p
    unfolding cmd_exit_position_def by (intro outcome_intros [where I = I]) (simp_all add: r frame)
  have c: "I (snd (cmd_cancel_order w now cid p r))" for cid p
    unfolding cmd_cancel_order_def by (intro outcome_intros [where I = I]) (simp_all add: r frame cancel split_beta)
  have p: "I (snd (cmd_pause_strategy render now cid p r))" for cid p
    unfolding cmd_pause_strategy_def Let_def by (intro outcome_intros [where I = I]) (simp_all add: r frame)
  have f: "I (snd (cmd_fire_straddle ny render now cid p r))" for cid p
    unfolding cmd_fire_straddle_def Let_def by (intro outcome_intros [where I = I]) (simp_all add: r frame)
  have u: "I (snd (cmd_update_strategy fl render now cid p r))" for cid p
    unfolding cmd_update_strategy_def Let_def by (intro outcome_intros [where I = I]) (simp_all add: r frame split_beta)
  show ?thesis
    unfolding dispatch_command_def Let_def
    by (intro outcome_intros [where I = I] e c p f u) (simp_all add: r frame ty)
qed

lemma dispatch_locked:
  assumes "\<And>bid. keeps locked (w_cancel w bid)" "locked r" "cr_type row \<noteq> ''unlock_system''"
  shows "locked (snd (dispatch_command ny fl render w now row r))"
  by (rule dispatch_keeps [where I = locked])
    (use assms lock_inv.cancel_keeps [OF assms(1,2)] in \<open>simp_all add: apply_update_locked\<close>)

text \<open>C9: a command releases the lock only if it is \<open>unlock_system\<close> and a reconciliation done for it
  was clean: the net position of every contract was the same in the book and at the broker, and the
  open orders agreed. Every other command, and a reconciliation that is not clean or fails, leaves the
  system locked. Assumed is that the other tasks running meanwhile do not release the lock.\<close>

theorem unlock_needs_agreement:
  assumes "keeps locked (w_positions w)" "keeps locked (w_open_orders w)" "\<And>bid. keeps locked (w_cancel w bid)"
    and "locked r" "\<not> locked (process_command ny fl render w now row r)"
  shows "cr_type row = ''unlock_system''
    \<and> (\<exists>bps bos r1 r2. w_positions w (r\<lparr>rn_status := RECONCILING\<rparr>) = (Inr bps, r1) \<and> w_open_orders w r1 = (Inr bos, r2)
        \<and> positions_agree (get_open_positions (rn_book r)) bps
        \<and> orders_agree (List.map_filter (map_of (om_orders (rn_orders r2))) (open_order_ids (rn_orders r))) bos)"
proof -
  have d: "\<not> locked (snd (dispatch_command ny fl render w now row r))"
    using assms(5) by (auto simp: process_command_def split: prod.splits sum.splits bool.splits)
  with dispatch_locked [OF assms(3,4)] have ty: "cr_type row = ''unlock_system''" by blast
  obtain x r' where rec: "run_reconciliation w now r = (x, r')" by force
  have "locked r'" by (rule run_reconciliation_locked [OF assms(1,2,4) rec])
  moreover have "\<not> locked (snd (cmd_unlock_system w now (cr_id row) r))"
    using d ty by (simp add: dispatch_command_def Let_def)
  ultimately have "x = Inr True"
    using rec by (auto simp: cmd_unlock_system_def split: sum.splits bool.splits)
  with ty rec run_reconciliation_clean [of w now r r'] show ?thesis by blast
qed

definition sample_command :: "string \<Rightarrow> (string \<times> farg) list \<Rightarrow> command_row" where
  "sample_command typ payload = \<lparr>cr_id = 3, cr_type = typ, cr_payload = payload, cr_status = Pending,
     cr_created = 0, cr_processed = None, cr_result = None\<rparr>"

theorem unlock_needs_agreement_witness:
  "positions_agree (get_open_positions (rn_book (lock_runner sample_runner))) []"
proof -
  have "\<not> locked (process_command ny_summer no_text no_render flat_world 7 (sample_command ''unlock_system'' []) (lock_runner sample_runner))"
    by code_simp
  from unlock_needs_agreement [OF _ _ _ _ this]
  show ?thesis by (auto simp: keeps_def flat_world_def)
qed

end
