(* ===== verification/Leg_Coordination.thy ===== *)
theory Leg_Coordination
  imports Runner_State
begin

text \<open>
  \<open>_manage_active_orders\<close> of \<^verbatim>\<open>src/app/runner.py\<close>: the fail-closed reaction to broker rejections, the
  timeouts of entry orders, and the coordination of the legs of one entry over replacement chains.
  The walk along \<open>superseded_by\<close> is a loop that would not end on a cycle: \<open>own_chain\<close> is a partial
  function, and it is shown that the links of a reachable order manager never form a cycle.
\<close>

section \<open>Rejections and timeouts\<close>

definition active_entry_status :: "order_status \<Rightarrow> bool" where
  "active_entry_status st \<longleftrightarrow> st \<in> {NEW, RISK_CHECKED, SUBMITTED, PARTIALLY_FILLED}"

text \<open>The body of the loops that cancel: the order is looked at when its turn comes.\<close>

definition cancel_when :: "world \<Rightarrow> instant \<Rightarrow> (order_state \<Rightarrow> bool) \<Rightarrow> uuid \<Rightarrow> runner \<Rightarrow> runner" where
  "cancel_when w now P oid r = (case map_of (om_orders (rn_orders r)) oid of None \<Rightarrow> r
     | Some o' \<Rightarrow> if P o' then snd (runner_cancel w now oid r) else r)"

definition clear_rejected :: "runner \<Rightarrow> runner" where
  "clear_rejected r = put_orders ((rn_orders r)\<lparr>om_rejected := {}\<rparr>) r"

definition handle_rejections :: "world \<Rightarrow> instant \<Rightarrow> runner \<Rightarrow> runner" where
  "handle_rejections w now r =
     (let rejected = sorted_list_of_set (om_rejected (rn_orders r));
          r1 = fold (cancel_when w now (\<lambda>o'. active_entry_status (os_status o')))
                 (dict_keys (om_orders (rn_orders r))) (lock_runner r)
      in clear_rejected (log_runner now ''system_lock_rejection'' (P_Dict
           [(''rejected_order_ids'', FList (map FId rejected)), (''timestamp'', FTime now)]) r1))"

text \<open>\<open>setdefault(key, []).append(x)\<close> over a list.\<close>

definition group_by :: "('a \<Rightarrow> 'k) \<Rightarrow> 'a list \<Rightarrow> ('k, 'a list) pydict" where
  "group_by key xs = fold (\<lambda>x d. AList.update (key x) (dict_default d (key x) [] @ [x]) d) xs []"

definition entry_orders :: "order_manager \<Rightarrow> order_state list" where
  "entry_orders om = filter os_is_entry (dict_values (om_orders om))"

definition timed_out :: "instant \<Rightarrow> strategy_config \<Rightarrow> order_state \<Rightarrow> bool" where
  "timed_out now cfg o' \<longleftrightarrow> active_entry_status (os_status o')
     \<and> of_int (en_timeout_seconds (sc_entry cfg)) \<le> seconds_between now (os_created o')"

definition cancel_timed_out :: "world \<Rightarrow> instant \<Rightarrow> string \<times> order_state list \<Rightarrow> runner \<Rightarrow> runner" where
  "cancel_timed_out w now grp r = (case map_of (rn_configs r) (fst grp) of None \<Rightarrow> r
     | Some cfg \<Rightarrow> fold (cancel_when w now (timed_out now cfg)) (map os_id (snd grp)) r)"

section \<open>Legs\<close>

datatype batch_key = Batch string | Batch_Day int

definition order_batch :: "order_state \<Rightarrow> batch_key" where
  "order_batch o' = (if truthy (os_batch o') then Batch (the (os_batch o')) else Batch_Day (os_created o' div us_per_day))"

definition failed_leg :: "order_state \<Rightarrow> bool" where
  "failed_leg o' \<longleftrightarrow> os_status o' \<in> {CANCELLED, REJECTED, ERROR} \<and> os_filled o' = 0"

partial_function (option) own_chain ::
  "(uuid, order_state) pydict \<Rightarrow> order_state \<Rightarrow> uuid set \<Rightarrow> uuid set option" where
  "own_chain orders o' acc = (case os_superseded_by o' of
       None \<Rightarrow> Some acc
     | Some n \<Rightarrow> (case map_of orders n of
           None \<Rightarrow> Some (insert n acc)
         | Some o2 \<Rightarrow> own_chain orders o2 (insert n acc)))"

definition same_contract :: "option_contract \<Rightarrow> option_contract \<Rightarrow> bool" where
  "same_contract c d \<longleftrightarrow> oc_symbol c = oc_symbol d \<and> oc_expiry c = oc_expiry d
     \<and> oc_strike c = oc_strike d \<and> oc_right c = oc_right d"

definition entry_or_created :: "position \<Rightarrow> instant" where
  "entry_or_created p = (case ps_entry_time p of Some t \<Rightarrow> t | None \<Rightarrow> ps_created p)"

text \<open>Whether a position lost its peer to the failed leg; \<open>None\<close> when the walk does not end.\<close>

definition broken_peer ::
  "(uuid, order_state) pydict \<Rightarrow> string \<Rightarrow> batch_key \<Rightarrow> order_state \<Rightarrow> position \<Rightarrow> bool option" where
  "broken_peer orders sid key failed p =
     (if ps_strategy p \<noteq> sid then Some False
      else case map_of orders (ps_entry_order p) of
        Some e \<Rightarrow>
          if order_batch e \<noteq> key then Some False
          else map_option (\<lambda>chain. os_id failed \<notin> chain) (own_chain orders e {ps_entry_order p})
      | None \<Rightarrow>
          if 180 < \<bar>seconds_between (entry_or_created p) (os_created failed)\<bar> then Some False
          else Some (\<not> same_contract (os_contract failed) (ps_contract p)))"

fun flag_positions ::
  "(uuid, order_state) pydict \<Rightarrow> string \<Rightarrow> batch_key \<Rightarrow> order_state \<Rightarrow> position list \<Rightarrow> uuid set \<Rightarrow> uuid set option" where
  "flag_positions orders sid key failed [] flagged = Some flagged"
| "flag_positions orders sid key failed (p # ps) flagged =
     (case broken_peer orders sid key failed p of
        None \<Rightarrow> None
      | Some b \<Rightarrow> flag_positions orders sid key failed ps (if b then insert (ps_id p) flagged else flagged))"

definition chain_terminals :: "(uuid, order_state) pydict \<Rightarrow> uuid list \<Rightarrow> order_state list" where
  "chain_terminals orders ids = filter (\<lambda>o'. os_superseded_by o' = None) (List.map_filter (map_of orders) ids)"

definition coordinate_batch ::
  "world \<Rightarrow> instant \<Rightarrow> position list \<Rightarrow> string \<Rightarrow> batch_key \<times> order_state list \<Rightarrow> runner \<Rightarrow> runner option" where
  "coordinate_batch w now open_positions sid batch r =
     (let terminals = chain_terminals (om_orders (rn_orders r)) (map os_id (snd batch))
      in case List.find failed_leg terminals of
           None \<Rightarrow> Some r
         | Some failed \<Rightarrow>
             let r1 = fold (cancel_when w now (\<lambda>o'. os_id o' \<noteq> os_id failed \<and> active_entry_status (os_status o')))
                        (map os_id terminals) r
             in map_option (\<lambda>flagged. r1\<lparr>rn_asymmetric := flagged\<rparr>)
                  (flag_positions (om_orders (rn_orders r1)) sid (fst batch) failed open_positions (rn_asymmetric r1)))"

fun fold_option :: "('a \<Rightarrow> 's \<Rightarrow> 's option) \<Rightarrow> 'a list \<Rightarrow> 's \<Rightarrow> 's option" where
  "fold_option f [] s = Some s"
| "fold_option f (x # xs) s = Option.bind (f x s) (fold_option f xs)"

definition coordinate_strategy ::
  "world \<Rightarrow> instant \<Rightarrow> position list \<Rightarrow> string \<times> order_state list \<Rightarrow> runner \<Rightarrow> runner option" where
  "coordinate_strategy w now open_positions grp r =
     fold_option (coordinate_batch w now open_positions (fst grp)) (group_by order_batch (snd grp)) r"

definition coordinate_legs :: "world \<Rightarrow> instant \<Rightarrow> (string, order_state list) pydict \<Rightarrow> runner \<Rightarrow> runner option" where
  "coordinate_legs w now groups r =
     fold_option (coordinate_strategy w now (get_open_positions (rn_book r))) groups r"

definition manage_active_orders :: "world \<Rightarrow> instant \<Rightarrow> runner \<Rightarrow> runner option" where
  "manage_active_orders w now r =
     (let r0 = resolve_stuck_cancels w now 20 r
      in if om_rejected (rn_orders r0) \<noteq> {} then Some (handle_rejections w now r0)
         else let groups = group_by os_strategy (entry_orders (rn_orders r0))
              in coordinate_legs w now groups (fold (cancel_timed_out w now) groups r0))"

section \<open>Replacement chains\<close>

definition replaced_by :: "(uuid, order_state) pydict \<Rightarrow> uuid \<Rightarrow> uuid \<Rightarrow> bool" where
  "replaced_by orders i j \<longleftrightarrow> (\<exists>o'. map_of orders i = Some o' \<and> os_superseded_by o' = Some j)"

lemma om_ok_links:
  assumes "om_ok om" "map_of (om_orders om) i = Some o'" "os_superseded_by o' = Some n"
  shows "map_of (om_orders om) n \<noteq> None" "key_index i (om_orders om) < key_index n (om_orders om)"
  using assms by (auto simp: om_ok_def)

lemma key_index_less:
  assumes "map_of d k \<noteq> None"
  shows "key_index k d < length d"
proof -
  have k: "k \<in> set (map fst d)" using assms by (simp add: map_of_eq_None_iff)
  then have "takeWhile (\<lambda>x. x \<noteq> k) (map fst d) \<noteq> map fst d"
    by (metis (mono_tags, lifting) set_takeWhileD)
  then have "length (takeWhile (\<lambda>x. x \<noteq> k) (map fst d)) \<noteq> length (map fst d)"
    by (metis takeWhile_eq_take take_all order_refl)
  then show ?thesis
    using length_takeWhile_le [of "\<lambda>x. x \<noteq> k" "map fst d"] by (simp add: key_index_def)
qed

lemma chain_step: "replaced_by orders i j \<Longrightarrow> {k. (replaced_by orders)\<^sup>*\<^sup>* i k} = insert i {k. (replaced_by orders)\<^sup>*\<^sup>* j k}"
  by (auto simp: replaced_by_def elim: converse_rtranclpE intro: converse_rtranclp_into_rtranclp)

lemma own_chain_reaches:
  assumes "om_ok om"
  shows "map_of (om_orders om) i = Some o' \<Longrightarrow>
    own_chain (om_orders om) o' acc = Some (acc \<union> ({j. (replaced_by (om_orders om))\<^sup>*\<^sup>* i j} - {i}))"
proof (induction "length (om_orders om) - key_index i (om_orders om)" arbitrary: i o' acc rule: less_induct)
  case less
  let ?d = "om_orders om"
  show ?case
  proof (cases "os_superseded_by o'")
    case None
    then have "{j. (replaced_by ?d)\<^sup>*\<^sup>* i j} = {i}"
      using less.prems by (auto simp: replaced_by_def elim: converse_rtranclpE)
    then show ?thesis using None by (subst own_chain.simps) simp
  next
    case (Some n)
    have n: "map_of ?d n \<noteq> None" "key_index i ?d < key_index n ?d"
      using om_ok_links [OF assms less.prems Some] by auto
    then obtain o2 where o2: "map_of ?d n = Some o2" by auto
    have lt: "length ?d - key_index n ?d < length ?d - key_index i ?d"
      using n key_index_less [of ?d n] by linarith
    have rep: "replaced_by ?d i n" using less.prems Some by (simp add: replaced_by_def)
    have up: "(replaced_by ?d)\<^sup>*\<^sup>* n k \<Longrightarrow> key_index n ?d \<le> key_index k ?d" for k
      by (induction rule: rtranclp_induct) (auto simp: replaced_by_def dest: om_ok_links(2) [OF assms])
    then have i: "\<not> (replaced_by ?d)\<^sup>*\<^sup>* n i" using n(2) by (metis leD)
    have "own_chain ?d o' acc = own_chain ?d o2 (insert n acc)"
      using Some o2 by (subst own_chain.simps) simp
    also have "\<dots> = Some (insert n acc \<union> ({j. (replaced_by ?d)\<^sup>*\<^sup>* n j} - {n}))"
      by (rule less.hyps [OF lt o2])
    also have "insert n acc \<union> ({j. (replaced_by ?d)\<^sup>*\<^sup>* n j} - {n})
        = acc \<union> ({j. (replaced_by ?d)\<^sup>*\<^sup>* i j} - {i})"
      using chain_step [OF rep] i by auto
    finally show ?thesis .
  qed
qed

lemma own_chain_returns:
  "om_ok om \<Longrightarrow> map_of (om_orders om) i = Some o' \<Longrightarrow>
   own_chain (om_orders om) o' {i} = Some {j. (replaced_by (om_orders om))\<^sup>*\<^sup>* i j}"
  by (simp add: own_chain_reaches) auto

section \<open>What the steps keep\<close>

lemma clear_sound: "sound_step om (om\<lparr>om_rejected := {}\<rparr>)"
  by (auto simp: sound_step_def om_ok_def keeps_orders_def audited_def intro: exI [of _ "[]"])

lemma fold_option_preserves:
  "(\<And>x s s'. J s \<Longrightarrow> f x s = Some s' \<Longrightarrow> J s') \<Longrightarrow> J s \<Longrightarrow> fold_option f xs s = Some s' \<Longrightarrow> J s'"
  by (induction xs arbitrary: s) (auto simp: bind_eq_Some_conv)

context runner_invariant
begin

lemma cancel_when_keeps: "(\<And>bid. keeps I (w_cancel w bid)) \<Longrightarrow> I r \<Longrightarrow> I (cancel_when w now P oid r)"
  by (simp add: cancel_when_def cancel_keeps split: option.split)

lemma timeouts_keep: "(\<And>bid. keeps I (w_cancel w bid)) \<Longrightarrow> I r \<Longrightarrow> I (cancel_timed_out w now grp r)"
  by (simp add: cancel_timed_out_def split: option.split) (blast intro: fold_keeps cancel_when_keeps)

lemma rejections_keep: "(\<And>bid. keeps I (w_cancel w bid)) \<Longrightarrow> I r \<Longrightarrow> I (handle_rejections w now r)"
  unfolding handle_rejections_def clear_rejected_def Let_def
  by (intro orders_step [OF _ clear_sound] log_step fold_keeps cancel_when_keeps lock_step)

lemma fold_option_keeps:
  "(\<And>x r r'. I r \<Longrightarrow> f x r = Some r' \<Longrightarrow> I r') \<Longrightarrow> I r \<Longrightarrow> fold_option f xs r = Some r' \<Longrightarrow> I r'"
  by (rule fold_option_preserves)

lemma batch_keeps:
  assumes "\<And>bid. keeps I (w_cancel w bid)" "I r" "coordinate_batch w now ps sid batch r = Some r'"
  shows "I r'"
  using assms(2,3)
  by (auto simp: coordinate_batch_def Let_def split: option.splits
      intro!: asymmetric_step fold_keeps cancel_when_keeps [OF assms(1)])

lemma strategy_keeps:
  assumes "\<And>bid. keeps I (w_cancel w bid)" "I r" "coordinate_strategy w now ps grp r = Some r'"
  shows "I r'"
  using assms(2,3) unfolding coordinate_strategy_def
  by (rule fold_option_keeps [rotated 1]) (rule batch_keeps [OF assms(1)])

lemma legs_keep:
  assumes "\<And>bid. keeps I (w_cancel w bid)" "I r" "coordinate_legs w now groups r = Some r'"
  shows "I r'"
  using assms(2,3) unfolding coordinate_legs_def
  by (rule fold_option_keeps [rotated 1]) (rule strategy_keeps [OF assms(1)])

lemma manage_keeps:
  assumes "\<And>bid. keeps I (w_cancel w bid)" "query_keeps I w" "I r" "manage_active_orders w now r = Some r'"
  shows "I r'"
proof -
  let ?r0 = "resolve_stuck_cancels w now 20 r"
  have r0: "I ?r0" by (rule sweep_keeps [OF assms(1-3)])
  show ?thesis
  proof (cases "om_rejected (rn_orders ?r0) = {}")
    case True
    let ?g = "group_by os_strategy (entry_orders (rn_orders ?r0))"
    have "coordinate_legs w now ?g (fold (cancel_timed_out w now) ?g ?r0) = Some r'"
      using assms(4) True by (simp add: manage_active_orders_def Let_def)
    then show ?thesis
      by (rule legs_keep [OF assms(1), rotated 1]) (intro fold_keeps timeouts_keep assms(1) r0)
  next
    case False
    then have "r' = handle_rejections w now ?r0"
      using assms(4) by (simp add: manage_active_orders_def Let_def)
    then show ?thesis by (simp only: rejections_keep [OF assms(1) r0])
  qed
qed

end

section \<open>The coordination returns\<close>

text \<open>What is looked for: a position of the strategy, of the same entry, whose own chain does not lead
  to the failed leg; or one of unknown entry, close in time and of another contract.\<close>

definition lost_its_peer :: "(uuid, order_state) pydict \<Rightarrow> string \<Rightarrow> batch_key \<Rightarrow> order_state \<Rightarrow> position \<Rightarrow> bool" where
  "lost_its_peer orders sid key failed p \<longleftrightarrow> ps_strategy p = sid
     \<and> (case map_of orders (ps_entry_order p) of
          Some e \<Rightarrow> order_batch e = key \<and> \<not> (replaced_by orders)\<^sup>*\<^sup>* (ps_entry_order p) (os_id failed)
        | None \<Rightarrow> \<bar>seconds_between (entry_or_created p) (os_created failed)\<bar> \<le> 180
                   \<and> \<not> same_contract (os_contract failed) (ps_contract p))"

lemma broken_peer_eq:
  assumes "om_ok om"
  shows "broken_peer (om_orders om) sid key failed p = Some (lost_its_peer (om_orders om) sid key failed p)"
  by (cases "map_of (om_orders om) (ps_entry_order p)")
    (auto simp: broken_peer_def lost_its_peer_def own_chain_returns [OF assms])

lemma flag_positions_eq:
  assumes "om_ok om"
  shows "flag_positions (om_orders om) sid key failed ps flagged =
    Some (flagged \<union> ps_id ` {p \<in> set ps. lost_its_peer (om_orders om) sid key failed p})"
  by (induction ps arbitrary: flagged) (auto simp: broken_peer_eq [OF assms])

lemma fold_option_returns:
  "(\<And>x r. I r \<Longrightarrow> \<exists>r'. f x r = Some r' \<and> I r') \<Longrightarrow> I r \<Longrightarrow> \<exists>r'. fold_option f xs r = Some r'"
proof (induction xs arbitrary: r)
  case (Cons x xs)
  from Cons.prems obtain r1 where r1: "f x r = Some r1" "I r1" by blast
  from Cons.IH [OF Cons.prems(1) r1(2)] r1(1) show ?case by auto
qed simp

abbreviation runner_ok :: "runner \<Rightarrow> bool" where
  "runner_ok r \<equiv> om_ok (rn_orders r)"

lemma batch_returns:
  assumes "\<And>bid. keeps runner_ok (w_cancel w bid)" "runner_ok r"
  shows "\<exists>r'. coordinate_batch w now ps sid batch r = Some r' \<and> runner_ok r'"
proof -
  have "\<exists>r'. coordinate_batch w now ps sid batch r = Some r'"
  proof (cases "List.find failed_leg (chain_terminals (om_orders (rn_orders r)) (map os_id (snd batch)))")
    case (Some failed)
    have "runner_ok (fold (cancel_when w now P) ids r)" for P ids
      by (intro orders_inv.fold_keeps orders_inv.cancel_when_keeps assms)
    with Some show ?thesis by (simp add: coordinate_batch_def Let_def flag_positions_eq)
  qed (simp add: coordinate_batch_def Let_def)
  with orders_inv.batch_keeps [OF assms] show ?thesis by blast
qed

lemma strategy_returns:
  assumes "\<And>bid. keeps runner_ok (w_cancel w bid)" "runner_ok r"
  shows "\<exists>r'. coordinate_strategy w now ps grp r = Some r' \<and> runner_ok r'"
proof -
  have "\<exists>r'. coordinate_strategy w now ps grp r = Some r'"
    unfolding coordinate_strategy_def by (rule fold_option_returns [OF batch_returns [OF assms(1)] assms(2)])
  with orders_inv.strategy_keeps [OF assms] show ?thesis by blast
qed

lemma legs_return:
  "(\<And>bid. keeps runner_ok (w_cancel w bid)) \<Longrightarrow> runner_ok r \<Longrightarrow> \<exists>r'. coordinate_legs w now groups r = Some r'"
  unfolding coordinate_legs_def by (rule fold_option_returns [OF strategy_returns])

section \<open>Properties\<close>

text \<open>Walking the replacement chain of an order returns, for every order of a manager that any
  interleaving of its operations has reached, with exactly the order and its successive replacements:
  the links never form a cycle, so the \<open>while\<close> loop of the leg coordination ends.\<close>

lemma own_chain_is_replacement_chain:
  assumes "om_step\<^sup>*\<^sup>* (new_manager es) om" "map_of (om_orders om) i = Some o'"
  shows "own_chain (om_orders om) o' {i} = Some {j. (replaced_by (om_orders om))\<^sup>*\<^sup>* i j}"
  by (rule own_chain_returns [OF orders.inv_reachable [OF refl assms(1)] assms(2)])

theorem own_chain_is_replacement_chain_witness:
  "own_chain (om_orders sample_cancelled) (the (map_of (om_orders sample_cancelled) 21)) {21}
     = Some {j. (replaced_by (om_orders sample_cancelled))\<^sup>*\<^sup>* 21 j}"
proof -
  have "map_option os_id (map_of (om_orders sample_cancelled) 21) = Some 21" by code_simp
  then obtain o' where "map_of (om_orders sample_cancelled) 21 = Some o'" by auto
  with own_chain_is_replacement_chain [OF sample_cancelled_reachable this] show ?thesis by simp
qed

text \<open>After a leg of an entry has failed, the positions flagged for flattening are exactly those
  that were flagged before and those of the strategy that lost their peer: positions of the same
  entry whose own replacement chain does not contain the failed order, and, when the entry order is
  unknown, those entered within three minutes of it in another contract.\<close>

lemma flagged_positions_lost_peer:
  assumes "om_step\<^sup>*\<^sup>* (new_manager es) om"
  shows "flag_positions (om_orders om) sid key failed ps flagged =
    Some (flagged \<union> ps_id ` {p \<in> set ps. lost_its_peer (om_orders om) sid key failed p})"
  by (rule flag_positions_eq [OF orders.inv_reachable [OF refl assms]])

theorem flagged_positions_lost_peer_witness:
  "flag_positions (om_orders sample_cancelled) ''s'' (Batch_Day 0) (the (map_of (om_orders sample_cancelled) 21)) [open_position (sample_fill BUY 2 4) 1] {} =
    Some ({} \<union> ps_id ` {p \<in> set [open_position (sample_fill BUY 2 4) 1]. lost_its_peer (om_orders sample_cancelled) ''s'' (Batch_Day 0)
      (the (map_of (om_orders sample_cancelled) 21)) p})"
  by (rule flagged_positions_lost_peer [OF sample_cancelled_reachable])

lemma manage_returns:
  assumes "\<And>bid. keeps (\<lambda>r. om_ok (rn_orders r)) (w_cancel w bid)" "query_keeps (\<lambda>r. om_ok (rn_orders r)) w"
    and "om_ok (rn_orders r)"
  shows "\<exists>r'. manage_active_orders w now r = Some r' \<and> om_ok (rn_orders r')"
proof -
  have "\<exists>r'. manage_active_orders w now r = Some r'"
    using assms(1) orders_inv.sweep_keeps [OF assms, of now 20]
    by (simp add: manage_active_orders_def Let_def legs_return orders_inv.fold_keeps orders_inv.timeouts_keep)
  with orders_inv.manage_keeps [OF assms] show ?thesis by blast
qed

text \<open>C28: the handling of active orders returns and keeps the order manager well formed, provided
  what runs while it waits for the broker's replies to its status queries and cancels keeps it well
  formed.\<close>

theorem manage_active_orders_returns:
  assumes "\<And>bid. keeps (\<lambda>r. om_ok (rn_orders r)) (w_cancel w bid)" "query_keeps (\<lambda>r. om_ok (rn_orders r)) w"
    and "om_ok (rn_orders r)"
  shows "\<exists>r'. manage_active_orders w now r = Some r' \<and> om_ok (rn_orders r')"
  by (rule manage_returns [OF assms])

theorem manage_active_orders_returns_witness:
  "\<exists>r'. manage_active_orders flat_world 7 sample_runner = Some r' \<and> om_ok (rn_orders r')"
  by (rule manage_active_orders_returns)
    (simp_all add: keeps_def query_keeps_def flat_world_def sample_runner_def new_runner_def rn_orders_def new_manager_ok)

section \<open>Fail closed\<close>

text \<open>The order, if there is one, does not satisfy \<open>P\<close>. The loops that cancel look for orders that may
  still be filled; what they looked for is gone when they are through.\<close>

definition quiet :: "(order_state \<Rightarrow> bool) \<Rightarrow> uuid \<Rightarrow> runner \<Rightarrow> bool" where
  "quiet P i r \<longleftrightarrow> (\<forall>o'. map_of (om_orders (rn_orders r)) i = Some o' \<longrightarrow> \<not> P o')"

definition cancellable :: "(order_state \<Rightarrow> bool) \<Rightarrow> bool" where
  "cancellable P \<longleftrightarrow> (\<forall>o'. P o' \<longrightarrow> active_entry_status (os_status o'))"




lemma not_cancellable:
  "cancellable P \<Longrightarrow> P o' \<Longrightarrow> os_status o' \<noteq> CANCEL_PENDING \<and> \<not> terminal_status (os_status o')"
  by (auto simp: cancellable_def active_entry_status_def)

lemma request_quiet:
  assumes "cancellable P" "runner_ok r" "i = oid \<or> quiet P i r"
  shows "quiet P i (put_orders (snd (cancel_request now oid hard (rn_orders r))) r)"
proof (cases "map_of (om_orders (rn_orders r)) oid")
  case (Some o0)
  then have id: "os_id o0 = oid" using assms(2) by (auto simp: om_ok_def keyed_by_def)
  show ?thesis
  proof (cases "i = oid")
    case True
    have "\<exists>o1. map_of (om_orders (snd (cancel_request now oid hard (rn_orders r)))) oid = Some o1
        \<and> (os_status o1 = CANCEL_PENDING \<or> terminal_status (os_status o1))"
      using Some id by (cases hard) (auto simp: cancel_request_def Let_def)
    with True not_cancellable [OF assms(1)] show ?thesis by (auto simp: quiet_def)
  next
    case False
    then have "map_of (om_orders (snd (cancel_request now oid hard (rn_orders r)))) i = map_of (om_orders (rn_orders r)) i"
      using Some id by (cases hard) (auto simp: cancel_request_def Let_def)
    with False assms(3) show ?thesis by (simp add: quiet_def)
  qed
qed (use assms(3) in \<open>auto simp: quiet_def cancel_request_def\<close>)

lemma finish_quiet:
  assumes "cancellable P" "runner_ok r" "quiet P i r"
  shows "quiet P i (put_orders (snd (cancel_finish now oid reply (rn_orders r))) r)"
proof (cases "map_of (om_orders (rn_orders r)) oid")
  case (Some o0)
  then have id: "os_id o0 = oid" using assms(2) by (auto simp: om_ok_def keyed_by_def)
  have "map_of (om_orders (snd (cancel_finish now oid reply (rn_orders r)))) i = map_of (om_orders (rn_orders r)) i
      \<or> (\<exists>o1. map_of (om_orders (snd (cancel_finish now oid reply (rn_orders r)))) i = Some o1 \<and> os_status o1 = ERROR)"
    using Some id by (cases reply) (auto simp: cancel_finish_def)
  with assms(3) show ?thesis by (auto simp: quiet_def dest: not_cancellable [OF assms(1)])
qed (use assms(3) in \<open>auto simp: quiet_def cancel_finish_def split: sum.split\<close>)

lemma cancel_quiet:
  assumes "cancellable P" "\<And>bid. keeps runner_ok (w_cancel w bid)" "\<And>bid. keeps (quiet P i) (w_cancel w bid)"
    and "runner_ok r" "i = oid \<or> quiet P i r"
  shows "quiet P i (snd (runner_cancel w now oid r))"
proof -
  obtain ph om where c: "cancel_request now oid True (rn_orders r) = (ph, om)" by force
  have om: "quiet P i (put_orders om r)" "runner_ok (put_orders om r)"
    using request_quiet [OF assms(1,4,5), of now True] cancel_request_sound [of "rn_orders r" now oid True] assms(4) c
    by (simp_all add: sound_step_def)
  show ?thesis
  proof (cases ph)
    case (Cancel_Await bid)
    obtain reply r1 where w: "w_cancel w bid (put_orders om r) = (reply, r1)" by force
    show ?thesis
      using finish_quiet [OF assms(1) keepsD [OF assms(2) om(2) w] keepsD [OF assms(3) om(1) w]] c Cancel_Await w
      by (simp add: runner_cancel_def split_beta)
  qed (use c om in \<open>simp add: runner_cancel_def\<close>)
qed

lemma cancel_when_quiet:
  assumes "cancellable P" "\<And>bid. keeps runner_ok (w_cancel w bid)" "\<And>bid. keeps (quiet P i) (w_cancel w bid)" "runner_ok r"
  shows "quiet P i r \<Longrightarrow> quiet P i (cancel_when w now P' oid r)" "quiet P i (cancel_when w now P i r)"
proof -
  have c: "quiet P i (snd (runner_cancel w now oid r))" if "i = oid \<or> quiet P i r" for oid
    by (rule cancel_quiet [OF assms(1-4) that])
  show "quiet P i r \<Longrightarrow> quiet P i (cancel_when w now P' oid r)"
    using c by (auto simp: cancel_when_def split: option.split)
  show "quiet P i (cancel_when w now P i r)"
    using c [of i] by (auto simp: cancel_when_def quiet_def split: option.split)
qed

lemma cancel_all_quiet:
  assumes P: "cancellable P" and w: "\<And>bid. keeps runner_ok (w_cancel w bid)" "\<And>bid. keeps (quiet P i) (w_cancel w bid)"
    and r: "runner_ok r" "i \<in> set ids \<or> quiet P i r"
  shows "quiet P i (fold (cancel_when w now P) ids r)"
proof (rule fold_reaches [where J = runner_ok and Q = "quiet P i" and a = i, OF _ _ _ r])
  fix oid r1 assume ok: "runner_ok r1"
  show "runner_ok (cancel_when w now P oid r1)" by (rule orders_inv.cancel_when_keeps [OF w(1) ok])
  show "quiet P i r1 \<Longrightarrow> quiet P i (cancel_when w now P oid r1)" by (rule cancel_when_quiet(1) [OF P w ok])
  show "quiet P i (cancel_when w now P i r1)" by (rule cancel_when_quiet(2) [OF P w ok])
qed

text \<open>Entry orders whose time is up.\<close>

lemma timed_out_cancellable: "cancellable (timed_out now cfg)"
  by (simp add: cancellable_def timed_out_def)

lemma dict_default_update: "dict_default (AList.update k v d) k' x = (if k' = k then v else dict_default d k' x)"
  by (simp add: dict_default_def)

lemma group_by_lookup: "dict_default (group_by key xs) k [] = filter (\<lambda>x. key x = k) xs"
proof -
  have "dict_default (fold (\<lambda>x d. AList.update (key x) (dict_default d (key x) [] @ [x]) d) xs d) k []
      = dict_default d k [] @ filter (\<lambda>x. key x = k) xs" for d
    by (induction xs arbitrary: d) (simp_all add: dict_default_update)
  from this [of "[]"] show ?thesis by (simp add: group_by_def dict_default_def)
qed

lemma group_by_has: "x \<in> set xs \<Longrightarrow> (key x, filter (\<lambda>y. key y = key x) xs) \<in> set (group_by key xs)"
proof -
  assume "x \<in> set xs"
  then have "filter (\<lambda>y. key y = key x) xs \<noteq> []" by (auto simp: filter_empty_conv)
  then have "map_of (group_by key xs) (key x) = Some (filter (\<lambda>y. key y = key x) xs)"
    using group_by_lookup [of key xs "key x"] by (auto simp: dict_default_def split: option.splits)
  then show ?thesis by (rule map_of_SomeD)
qed

definition configured :: "string \<Rightarrow> strategy_config \<Rightarrow> runner \<Rightarrow> bool" where
  "configured sid cfg r \<longleftrightarrow> map_of (rn_configs r) sid = Some cfg"

lemma configured_cancel:
  assumes "\<And>bid. keeps (configured sid cfg) (w_cancel w bid)" "configured sid cfg r"
  shows "configured sid cfg (cancel_when w now P oid r)"
proof -
  have p: "configured sid cfg (put_orders om r) = configured sid cfg r" for om r
    by (simp add: configured_def)
  have "configured sid cfg (snd (runner_cancel w now oid r))"
    using assms by (auto simp: runner_cancel_def p keeps_def split: prod.splits cancel_phase.splits) (metis p snd_conv)
  with assms(2) show ?thesis by (simp add: cancel_when_def split: option.split)
qed

lemma legs_quiet:
  assumes P: "cancellable P" and w: "\<And>bid. keeps runner_ok (w_cancel w bid)" "\<And>bid. keeps (quiet P i) (w_cancel w bid)"
    and "runner_ok r" "quiet P i r" "coordinate_legs w now groups r = Some r'"
  shows "quiet P i r'"
proof -
  let ?J = "\<lambda>r. runner_ok r \<and> quiet P i r"
  have c: "?J (cancel_when w now P' oid r)" if "?J r" for P' oid r
    using that orders_inv.cancel_when_keeps [OF w(1)] cancel_when_quiet(1) [OF P w] by blast
  have b: "?J r'" if "?J r" "coordinate_batch w now ps sid batch r = Some r'" for ps sid batch r r'
  proof -
    have f: "?J (fold (cancel_when w now P') ids r)" for P' ids
      by (rule fold_preserves [where J = ?J]) (use c that(1) in blast)+
    have "quiet P i (r2\<lparr>rn_asymmetric := x\<rparr>) = quiet P i r2" for r2 x
      by (simp add: quiet_def rn_orders_def)
    with that f show ?thesis
      by (auto simp: coordinate_batch_def Let_def split: option.splits intro!: orders_inv.asymmetric_step)
  qed
  have "?J r'"
  proof (rule fold_option_preserves [where J = ?J, OF _ _ assms(6) [unfolded coordinate_legs_def]])
    fix grp r1 r2 assume a: "?J r1" "coordinate_strategy w now (get_open_positions (rn_book r)) grp r1 = Some r2"
    show "?J r2"
      by (rule fold_option_preserves [where J = ?J, OF _ a(1) a(2) [unfolded coordinate_strategy_def]]) (rule b)
  qed (use assms(4,5) in blast)
  then show ?thesis ..
qed


lemma sweep_rejected [simp]:
  "om_rejected (snd (sweep_reply now oid age rep om)) = om_rejected om"
  "om_rejected (sweep_recancelled now oid rep2 om) = om_rejected om"
  by (auto simp: sweep_reply_def sweep_adopt_def sweep_recancelled_def split: sum.split option.split)





text \<open>C27: an entry order does not outlive its timeout. When no rejection is being handled, the handling
  of active orders leaves no entry order of a configured strategy new, risk checked, submitted or
  partially filled whose age has reached the strategy's \<open>order_timeout_seconds\<close>. Assumed is that what
  runs while it waits for the broker keeps the orders well formed, the configuration, and does not
  make the order active again.\<close>

theorem overdue_entries_cancelled:
  assumes "\<And>bid. keeps (\<lambda>r. om_ok (rn_orders r)) (w_cancel w bid)"
    and "\<And>bid. keeps (quiet (timed_out now cfg) i) (w_cancel w bid)" "\<And>bid. keeps (configured sid cfg) (w_cancel w bid)"
    and "query_keeps (\<lambda>r. om_ok (rn_orders r)) w" "query_keeps (configured sid cfg) w"
    and "om_ok (rn_orders r)" "configured sid cfg r"
    and "swept = resolve_stuck_cancels w now 20 r" "om_rejected (rn_orders swept) = {}"
    and "map_of (om_orders (rn_orders swept)) i = Some o'" "os_is_entry o'" "os_strategy o' = sid"
  shows "\<exists>r'. manage_active_orders w now r = Some r' \<and> quiet (timed_out now cfg) i r'"
proof -
  let ?r0 = "swept" and ?P = "timed_out now cfg"
  let ?groups = "group_by os_strategy (entry_orders (rn_orders swept))"
  let ?grp = "(sid, filter (\<lambda>y. os_strategy y = sid) (entry_orders (rn_orders swept)))"
  let ?J = "\<lambda>r. runner_ok r \<and> configured sid cfg r"
  note P = timed_out_cancellable [of now cfg]
  have "configured sid cfg swept"
    unfolding assms(8) by (rule sweep_preserves [OF assms(3,5,7)]) (simp_all add: configured_def)
  then have ok: "?J ?r0" using orders_inv.sweep_keeps [OF assms(1,4,6)] assms(8) by simp
  then have k: "wf_dict (om_orders (rn_orders swept))" "os_id o' = i" using assms(10) by (auto simp: om_ok_def keyed_by_def)
  then have "o' \<in> set (entry_orders (rn_orders swept))"
    using assms(10,11) by (auto simp: entry_orders_def in_values_iff)
  then have g: "?grp \<in> set ?groups"
    and i: "i \<in> set (map os_id (snd ?grp))"
    using group_by_has [of o' "entry_orders (rn_orders swept)" os_strategy] assms(12) k(2) by auto
  have j: "?J (cancel_when w now P' oid s)" if "?J s" for P' oid s
    using that orders_inv.cancel_when_keeps [OF assms(1)] configured_cancel [OF assms(3)] by blast
  have J: "?J (cancel_timed_out w now grp s)" if "?J s" for grp s
    unfolding cancel_timed_out_def using that
    by (auto split: option.split intro: fold_preserves [where J = runner_ok] fold_preserves [where J = "configured sid cfg"]
        configured_cancel [OF assms(3)] orders_inv.cancel_when_keeps [OF assms(1)])
  have Q: "quiet ?P i (cancel_timed_out w now grp s)" if "?J s" "quiet ?P i s" for grp s
  proof -
    let ?K = "\<lambda>s. runner_ok s \<and> quiet ?P i s"
    have "?K (fold (cancel_when w now P') ids s)" for P' ids
      by (rule fold_preserves [where J = ?K])
        (use orders_inv.cancel_when_keeps [OF assms(1)] cancel_when_quiet(1) [OF P assms(1,2)] that in blast)+
    with that show ?thesis by (simp add: cancel_timed_out_def split: option.split)
  qed
  have R: "quiet ?P i (cancel_timed_out w now ?grp s)" if "?J s" for s
    using cancel_all_quiet [OF P assms(1,2) _ disjI1 [OF i], of s] that
    by (simp add: cancel_timed_out_def configured_def)
  let ?r1 = "fold (cancel_timed_out w now) ?groups ?r0"
  have q: "quiet ?P i ?r1"
    by (rule fold_reaches [where J = ?J and Q = "quiet ?P i" and a = ?grp and f = "cancel_timed_out w now",
        OF J Q R ok disjI1 [OF g]])
  have r1: "runner_ok ?r1" using fold_preserves [where J = ?J and f = "cancel_timed_out w now", OF J ok] by blast
  have m: "manage_active_orders w now r = coordinate_legs w now ?groups ?r1"
    using assms(8,9) by (simp add: manage_active_orders_def Let_def)
  obtain r' where r': "coordinate_legs w now ?groups ?r1 = Some r'"
    using legs_return [OF assms(1) r1] by blast
  from m r' legs_quiet [OF P assms(1,2) r1 q r'] show ?thesis by simp
qed

lemma sweep_nothing:
  "(\<And>i o'. map_of (om_orders (rn_orders r)) i = Some o' \<Longrightarrow> os_status o' \<noteq> CANCEL_PENDING) \<Longrightarrow>
   resolve_stuck_cancels w now age r = r"
proof -
  assume a: "\<And>i o'. map_of (om_orders (rn_orders r)) i = Some o' \<Longrightarrow> os_status o' \<noteq> CANCEL_PENDING"
  have "sweep_stuck_order w now age i r = r" for i
    using a [of i] by (auto simp: sweep_stuck_order_def sweep_select_def split: option.split)
  then have "fold (sweep_stuck_order w now age) ids r = r" for ids by (induction ids) simp_all
  then show ?thesis by (simp add: resolve_stuck_cancels_def)
qed




text \<open>An entry order of ten minutes ago.\<close>

definition aged_orders :: order_manager where
  "aged_orders = put_order ((sample_reply SUBMITTED)\<lparr>os_id := 21, os_is_entry := True, os_strategy := ''s1''\<rparr>) (new_manager new_store)"

definition aged_runner :: runner where
  "aged_runner = put_orders aged_orders sample_runner"

lemma aged_order: "om_orders aged_orders = [(21, (sample_reply SUBMITTED)\<lparr>os_id := 21, os_is_entry := True, os_strategy := ''s1''\<rparr>)]"
  by (simp add: aged_orders_def put_order_def new_manager_def)

lemma aged_runner_ok: "om_ok (rn_orders aged_runner)"
proof -
  let ?o = "(sample_reply SUBMITTED)\<lparr>os_id := 21, os_is_entry := True, os_strategy := ''s1''\<rparr>"
  have "0 < os_quantity ?o" "os_superseded_by ?o = None"
    by (simp_all add: sample_reply_def) (simp_all add: intent_plan_def sample_approval_def)
  then show ?thesis
    by (simp add: aged_runner_def om_ok_def aged_order keyed_by_def wf_dict_def) (simp add: aged_orders_def put_order_def new_manager_def)
qed

theorem overdue_entries_cancelled_witness:
  "\<exists>r'. manage_active_orders flat_world 600000005 aged_runner = Some r' \<and> quiet (timed_out 600000005 sample_strategy) 21 r'
     \<and> \<not> quiet (timed_out 600000005 sample_strategy) 21 aged_runner"
proof -
  let ?o = "(sample_reply SUBMITTED)\<lparr>os_id := 21, os_is_entry := True, os_strategy := ''s1''\<rparr>"
  have k: "keeps I (w_cancel flat_world bid)" for I bid by (simp add: keeps_def flat_world_def)
  note o' = aged_order
  have st: "os_status ?o = SUBMITTED" by (simp add: sample_reply_def)
  have q: "query_keeps I flat_world" for I by (simp add: query_keeps_def flat_world_def)
  have sw: "aged_runner = resolve_stuck_cancels flat_world 600000005 20 aged_runner"
    by (rule sweep_nothing [symmetric]) (use st in \<open>auto simp: aged_runner_def o' split: if_splits\<close>)
  have c: "configured ''s1'' sample_strategy aged_runner"
    by (simp add: configured_def aged_runner_def sample_runner_def new_runner_def)
  have "om_rejected (rn_orders aged_runner) = {}" by (simp add: aged_runner_def aged_orders_def put_order_def new_manager_def)
  moreover have "map_of (om_orders (rn_orders aged_runner)) 21 = Some ?o" by (simp add: aged_runner_def o')
  moreover have "timed_out 600000005 sample_strategy ?o" by code_simp
  then have "\<not> quiet (timed_out 600000005 sample_strategy) 21 aged_runner" by (simp add: quiet_def aged_runner_def o')
  ultimately show ?thesis
    using overdue_entries_cancelled [OF k k k q q aged_runner_ok c sw] by simp
qed

end
