(* ===== verification/Entry_Flow.thy ===== *)
theory Entry_Flow
  imports Leg_Coordination Risk_Engine
begin

text \<open>
  The entry half of \<open>_process_tick\<close> of \<^verbatim>\<open>src/app/runner.py\<close>: which strategies are asked for signals,
  the risk evaluation of a batch of signals, its all-or-nothing submission, and the rejection of the
  whole batch. \<open>uu\<close> is the supply of the \<open>uuid4()\<close> draws of one strategy's turn: signal \<open>k\<close> of the
  batch takes the draws \<open>4k .. 4k+3\<close>; \<open>batch\<close> is the tag drawn for the batch. \<open>ny\<close> and \<open>local\<close> are the
  zone and the machine's UTC offset, \<open>priority\<close> the broker's configured adaptive priority.
\<close>

definition default_algo :: "string option \<Rightarrow> string option" where
  "default_algo priority =
     (if priority = Some ''Urgent'' then Some ''adaptive_urgent''
      else if priority = Some ''Normal'' then Some ''adaptive_normal''
      else if priority = Some ''Patient'' then Some ''adaptive_patient'' else None)"

definition refresh_traded_today :: "zone \<Rightarrow> instant \<Rightarrow> py_error + unit \<Rightarrow> runner \<Rightarrow> runner" where
  "refresh_traded_today ny now db r =
     (if rn_traded_date r = Some (ny_date ny now) then r
      else r\<lparr>rn_traded_date := Some (ny_date ny now),
             rn_traded_today := (case db of Inl e \<Rightarrow> {}
               | Inr _ \<Rightarrow> strategies_traded_on ny (ny_date ny now) (rn_attributions r))\<rparr>)"

text \<open>The coroutine \<open>submit_intent\<close> as the runner awaits it.\<close>

definition runner_submit ::
  "world \<Rightarrow> instant \<Rightarrow> uuid \<Rightarrow> uuid \<Rightarrow> order_intent \<Rightarrow> risk_decision \<Rightarrow> reprice_config \<Rightarrow> string option \<Rightarrow> unit awaited" where
  "runner_submit w now plan_id oid i d cfg algo r =
     (case submit_prepare now plan_id oid i d False algo (rn_orders r) of
        Inl e \<Rightarrow> (Inl e, r)
      | Inr (p, om) \<Rightarrow> (case w_place w p (put_orders om r) of
          (reply, r1) \<Rightarrow> (Inr (), put_orders (submit_complete now oid False (Some cfg) reply (rn_orders r1)) r1)))"

fun run_each :: "('a \<Rightarrow> unit awaited) \<Rightarrow> 'a list \<Rightarrow> unit awaited" where
  "run_each f [] r = (Inr (), r)"
| "run_each f (x # xs) r = (case f x r of (Inl e, r1) \<Rightarrow> (Inl e, r1) | (Inr _, r1) \<Rightarrow> run_each f xs r1)"

section \<open>The risk evaluation of a batch\<close>

definition position_info_of :: "position \<Rightarrow> position_info" where
  "position_info_of p = \<lparr>pi_strategy = ps_strategy p, pi_underlying = oc_symbol (ps_contract p),
     pi_status = ps_status p, pi_quantity = ps_quantity p\<rparr>"

definition closed_pnl :: "position_book \<Rightarrow> pyfloat" where
  "closed_pnl b = sum_list (map ps_realized (filter (\<lambda>p. ps_status p = CLOSED) (dict_values (pb_positions b))))"

definition entry_state :: "instant \<Rightarrow> runner \<Rightarrow> quote_snapshot option \<Rightarrow> system_state" where
  "entry_state now r quote =
     \<lparr>ss_positions = map position_info_of (get_open_positions (rn_book r)),
      ss_open_orders = int (length (open_order_ids (rn_orders r))), ss_daily_pnl = closed_pnl (rn_book r),
      ss_strategy_pnl = [], ss_quote = quote, ss_kill_switch = False,
      ss_current_time = Some (utc now), ss_last_trades = []\<rparr>"

definition quoted :: "quote_key \<Rightarrow> py_error + (quote_key, quote_snapshot) pydict \<Rightarrow> quote_snapshot option" where
  "quoted key reply = (case reply of Inl e \<Rightarrow> None | Inr quotes \<Rightarrow> map_of quotes key)"

record leg =
  lg_index :: nat
  lg_signal :: strategy_signal
  lg_decision :: risk_decision
  lg_quote :: "quote_snapshot option"

text \<open>The books are read before the quote is awaited, the switches when the engine runs.\<close>

definition evaluate_signal ::
  "world \<Rightarrow> int \<Rightarrow> (nat \<Rightarrow> uuid) \<Rightarrow> full_risk \<Rightarrow> instant \<Rightarrow> nat \<Rightarrow> strategy_signal \<Rightarrow> leg awaited" where
  "evaluate_signal w local uu risk now k sg r =
     (let key = to_quote_symbol (sg_contract sg)
      in case w_quotes w [key] r of (reply, r1) \<Rightarrow>
        (case evaluate (runner_engine risk r1) local (uu (4 * k)) (utc now) sg (entry_state now r (quoted key reply)) of
           Inl e \<Rightarrow> (Inl e, r1)
         | Inr d \<Rightarrow> (Inr \<lparr>lg_index = k, lg_signal = sg, lg_decision = d, lg_quote = quoted key reply\<rparr>, r1)))"

fun evaluate_signals ::
  "world \<Rightarrow> int \<Rightarrow> (nat \<Rightarrow> uuid) \<Rightarrow> full_risk \<Rightarrow> instant \<Rightarrow> nat \<Rightarrow> strategy_signal list \<Rightarrow> leg list awaited" where
  "evaluate_signals w local uu risk now k [] r = (Inr [], r)"
| "evaluate_signals w local uu risk now k (sg # sgs) r =
     (case evaluate_signal w local uu risk now k sg r of
        (Inl e, r1) \<Rightarrow> (Inl e, r1)
      | (Inr l, r1) \<Rightarrow> (case evaluate_signals w local uu risk now (Suc k) sgs r1 of
          (Inl e, r2) \<Rightarrow> (Inl e, r2)
        | (Inr ls, r2) \<Rightarrow> (Inr (l # ls), r2)))"

section \<open>Submission\<close>

definition touch_limit :: "quote_snapshot \<Rightarrow> pyfloat option" where
  "touch_limit q = (case (q_bid q, q_ask q) of (Some b, Some a) \<Rightarrow> Some ((b + a) / 2)
     | (None, Some a) \<Rightarrow> Some a | (Some b, None) \<Rightarrow> Some b | (None, None) \<Rightarrow> None)"

text \<open>The limit: that of the signal, else the last trade, the middle, the ask, the bid.\<close>

definition entry_limit :: "strategy_signal \<Rightarrow> quote_snapshot option \<Rightarrow> pyfloat option" where
  "entry_limit sg quote = (case sg_limit sg of Some x \<Rightarrow> Some x
     | None \<Rightarrow> (case quote of None \<Rightarrow> None | Some q \<Rightarrow>
         (case q_last q of Some l \<Rightarrow> if 0 < l then Some l else touch_limit q | None \<Rightarrow> touch_limit q)))"

definition entry_intent ::
  "instant \<Rightarrow> uuid \<Rightarrow> string \<Rightarrow> strategy_signal \<Rightarrow> risk_decision \<Rightarrow> pyfloat \<Rightarrow> order_intent" where
  "entry_intent now fresh batch sg d limit =
     \<lparr>oi_id = fresh, oi_signal_id = sg_id sg, oi_decision_id = rd_id d, oi_position_id = None,
      oi_is_entry = True, oi_strategy = sg_strategy sg, oi_contract = sg_contract sg,
      oi_side = (if sg_direction sg = LONG then BUY else SELL), oi_quantity = rd_allowed d,
      oi_limit = limit, oi_timestamp = now, oi_batch = Some batch\<rparr>"

definition entry_reprice :: "strategy_config \<Rightarrow> string option \<Rightarrow> reprice_config" where
  "entry_reprice cfg algo = default_reprice\<lparr>rc_enabled := True, rc_max_attempts := 6, rc_interval := 2,
     rc_timeout := of_int (en_timeout_seconds (sc_entry cfg)), rc_cross_after := Some 4,
     rc_cross_offset := 1/20, rc_in_place := (algo = None)\<rparr>"

text \<open>A leg without a positive limit is skipped; an error of the submission is logged.\<close>

definition submit_leg ::
  "world \<Rightarrow> instant \<Rightarrow> strategy_config \<Rightarrow> string option \<Rightarrow> string \<Rightarrow> (nat \<Rightarrow> uuid) \<Rightarrow> leg \<Rightarrow> unit awaited" where
  "submit_leg w now cfg algo batch uu l r =
     (let k = lg_index l; d = lg_decision l; r0 = log_runner now ''risk_decision'' (P_Decision d) r
      in case entry_limit (lg_signal l) (lg_quote l) of
           None \<Rightarrow> (Inr (), r0)
         | Some limit \<Rightarrow>
             if limit \<le> 0 then (Inr (), r0)
             else (case mk_intent (entry_intent now (uu (4 * k + 1)) batch (lg_signal l) d limit) of
                 Inl e \<Rightarrow> (Inl e, r0)
               | Inr i \<Rightarrow> (case runner_submit w now (uu (4 * k + 2)) (uu (4 * k + 3)) i d (entry_reprice cfg algo) algo r0 of
                   (Inl e, r1) \<Rightarrow> (Inr (), log_runner now ''error'' (P_Dict [(''source'', FStr ''order_submission''),
                       (''signal_id'', FId (sg_id (lg_signal l))), (''error'', FStr (error_text e)), (''timestamp'', FTime now)]) r1)
                 | (Inr _, r1) \<Rightarrow> (Inr (), r1))))"

definition peer_rejected :: "risk_decision \<Rightarrow> risk_decision" where
  "peer_rejected d = (if approved d then d\<lparr>rd_status := DECISION_REJECTED, rd_allowed := 0,
     rd_blocking := [lit ''peer_signal_rejected'']\<rparr> else d)"

definition retry_delay :: instant where
  "retry_delay = 30000000"

definition reject_batch :: "instant \<Rightarrow> string \<Rightarrow> leg list \<Rightarrow> runner \<Rightarrow> runner" where
  "reject_batch now sid legs r =
     fold (\<lambda>l. log_runner now ''risk_decision'' (P_Decision (peer_rejected (lg_decision l)))) legs
       (r\<lparr>rn_retry_after := AList.update sid (now + retry_delay) (rn_retry_after r)\<rparr>)"

definition log_signals :: "instant \<Rightarrow> strategy_signal list \<Rightarrow> runner \<Rightarrow> runner" where
  "log_signals now sgs r = fold (\<lambda>sg. log_runner now ''signal'' (P_Signal sg)) sgs r"

definition enter_batch ::
  "world \<Rightarrow> int \<Rightarrow> (nat \<Rightarrow> uuid) \<Rightarrow> full_risk \<Rightarrow> instant \<Rightarrow> string \<Rightarrow> strategy_config \<Rightarrow> string option \<Rightarrow> string
     \<Rightarrow> strategy_signal list \<Rightarrow> unit awaited" where
  "enter_batch w local uu risk now sid cfg algo batch sgs r =
     (case evaluate_signals w local uu risk now 0 sgs (log_signals now sgs r) of
        (Inl e, r1) \<Rightarrow> (Inl e, r1)
      | (Inr legs, r1) \<Rightarrow>
          if list_all (\<lambda>l. approved (lg_decision l)) legs then run_each (submit_leg w now cfg algo batch uu) legs r1
          else (Inr (), reject_batch now sid legs r1))"

section \<open>Which strategy is asked\<close>

definition strategy_flat :: "string \<Rightarrow> runner \<Rightarrow> bool" where
  "strategy_flat sid r \<longleftrightarrow> \<not> list_ex (\<lambda>p. ps_strategy p = sid) (get_open_positions (rn_book r))
     \<and> \<not> list_ex (\<lambda>o'. os_strategy o' = sid \<and> active_status (os_status o')) (dict_values (om_orders (rn_orders r)))"

definition backing_off :: "instant \<Rightarrow> string \<Rightarrow> runner \<Rightarrow> bool" where
  "backing_off now sid r \<longleftrightarrow> (case map_of (rn_retry_after r) sid of None \<Rightarrow> False | Some t \<Rightarrow> now < t)"

definition ask_strategy ::
  "world \<Rightarrow> int \<Rightarrow> (nat \<Rightarrow> uuid) \<Rightarrow> full_risk \<Rightarrow> instant \<Rightarrow> string \<Rightarrow> strategy_config \<Rightarrow> string option \<Rightarrow> string
     \<Rightarrow> bool \<Rightarrow> unit awaited" where
  "ask_strategy w local uu risk now sid cfg algo batch fire r =
     (case (if fire then w_emit_now w cfg r else w_poll w cfg r) of
        (Inl e, r1) \<Rightarrow> (Inr (), log_runner now ''error'' (P_Dict [(''source'', FStr ''strategy_poll''),
           (''strategy_id'', FStr sid), (''error'', FStr (error_text e)), (''timestamp'', FTime now)]) r1)
      | (Inr sgs, r1) \<Rightarrow> if sgs = [] then (Inr (), r1)
          else enter_batch w local uu risk now sid cfg algo batch sgs r1)"

text \<open>The request of the operator is consumed whatever becomes of it.\<close>

definition take_fire :: "string \<Rightarrow> runner \<Rightarrow> runner" where
  "take_fire sid r = (if sid \<in> rn_fire_requests r then r\<lparr>rn_fire_requests := rn_fire_requests r - {sid}\<rparr> else r)"

definition strategy_turn ::
  "zone \<Rightarrow> world \<Rightarrow> int \<Rightarrow> (string \<Rightarrow> nat \<Rightarrow> uuid) \<Rightarrow> full_risk \<Rightarrow> instant \<Rightarrow> string option \<Rightarrow> (string \<Rightarrow> string)
     \<Rightarrow> string \<times> strategy_config \<Rightarrow> unit awaited" where
  "strategy_turn ny w local uu risk now algo tag scfg r = (case scfg of (sid, cfg) \<Rightarrow>
     if \<not> sc_enabled cfg then (Inr (), r)
     else if sid \<in> set (ov_paused (rn_overrides r)) then (Inr (), r)
     else
       let fire = sid \<in> rn_fire_requests r;
           r0 = take_fire sid r
       in case entry_window_closed ny cfg now of
            Inl e \<Rightarrow> (Inl e, r0)
          | Inr shut \<Rightarrow>
              if shut then (Inr (), r0)
              else if \<not> fire \<and> \<not> sc_allow_reentry cfg \<and> sid \<in> rn_traded_today r0 then (Inr (), r0)
              else if \<not> fire \<and> backing_off now sid r0 then (Inr (), r0)
              else if \<not> strategy_flat sid r0 then (Inr (), r0)
              else ask_strategy w local (uu sid) risk now sid cfg algo (tag sid) fire r0)"

text \<open>The lock is read once, before the first strategy.\<close>

definition process_entries ::
  "zone \<Rightarrow> world \<Rightarrow> int \<Rightarrow> (string \<Rightarrow> nat \<Rightarrow> uuid) \<Rightarrow> full_risk \<Rightarrow> instant \<Rightarrow> string option \<Rightarrow> (string \<Rightarrow> string)
     \<Rightarrow> unit awaited" where
  "process_entries ny w local uu risk now algo tag r =
     (if locked r then (Inr (), r)
      else run_each (strategy_turn ny w local uu risk now algo tag) (rn_configs r) r)"

section \<open>The evaluation of a batch\<close>

fun after_quotes :: "world \<Rightarrow> strategy_signal list \<Rightarrow> runner \<Rightarrow> runner" where
  "after_quotes w [] r = r"
| "after_quotes w (sg # sgs) r = after_quotes w sgs (snd (w_quotes w [to_quote_symbol (sg_contract sg)] r))"

text \<open>Whether the engine's contract permits signal \<open>j\<close> of a batch whose evaluation begins in \<open>r\<close>: the
  books as they are before its quote is asked for, the switches as they are after.\<close>

definition leg_quote :: "world \<Rightarrow> strategy_signal list \<Rightarrow> runner \<Rightarrow> nat \<Rightarrow> quote_snapshot option" where
  "leg_quote w sgs r j = (let key = to_quote_symbol (sg_contract (sgs ! j))
     in quoted key (fst (w_quotes w [key] (after_quotes w (take j sgs) r))))"

definition leg_permitted :: "world \<Rightarrow> int \<Rightarrow> full_risk \<Rightarrow> instant \<Rightarrow> strategy_signal list \<Rightarrow> runner \<Rightarrow> nat \<Rightarrow> bool" where
  "leg_permitted w local risk now sgs r j \<longleftrightarrow>
     entry_permitted (runner_engine risk (after_quotes w (take (Suc j) sgs) r)) local (sgs ! j)
       (entry_state now (after_quotes w (take j sgs) r) (leg_quote w sgs r j)) (utc now)"

lemma leg_shift:
  assumes "r1 = snd (w_quotes w [to_quote_symbol (sg_contract sg)] r)"
  shows "leg_quote w (sg # sgs) r (Suc j) = leg_quote w sgs r1 j"
    "leg_permitted w local risk now (sg # sgs) r (Suc j) = leg_permitted w local risk now sgs r1 j"
  by (simp_all add: leg_quote_def leg_permitted_def assms)

text \<open>What an approved signal is worth: what it asks for, within the contract limit and the premium budget
  of one trade, and at least one contract.\<close>

definition permitted_quantity :: "full_risk \<Rightarrow> strategy_signal \<Rightarrow> int" where
  "permitted_quantity risk sg =
     (let g = fr_global risk; q = min (sg_quantity sg) (gr_max_contracts g)
      in max 1 (case sg_limit sg of None \<Rightarrow> q
           | Some x \<Rightarrow> if x = 0 \<or> gr_max_premium g = 0 then q else min q (py_int (gr_max_premium g / (\<bar>x\<bar> * 100)))))"

lemma compute_allowed_eq: "fst (compute_allowed_quantity e sg) = permitted_quantity (re_risk e) sg"
  by (auto simp: compute_allowed_quantity_def permitted_quantity_def Let_def min_def split: option.split)

lemma permitted_quantity_pos [simp]: "1 \<le> permitted_quantity risk sg"
  by (simp add: permitted_quantity_def Let_def)

lemma permitted_quantity_le: "permitted_quantity risk sg \<le> max 1 (sg_quantity sg)"
  by (auto simp: permitted_quantity_def Let_def split: option.split)

lemma evaluate_signal_returns:
  assumes "cutoff_time (fr_global risk) = Inr ct" and r1: "r1 = snd (w_quotes w [to_quote_symbol (sg_contract sg)] r)"
  shows "\<exists>l. evaluate_signal w local uu risk now k sg r = (Inr l, r1) \<and> lg_index l = k \<and> lg_signal l = sg
    \<and> lg_quote l = leg_quote w (sg # sgs) r 0 \<and> rd_id (lg_decision l) = uu (4 * k)
    \<and> (approved (lg_decision l) \<longleftrightarrow> leg_permitted w local risk now (sg # sgs) r 0)
    \<and> (approved (lg_decision l) \<longrightarrow> 1 \<le> rd_allowed (lg_decision l) \<and> rd_allowed (lg_decision l) \<le> max 1 (sg_quantity sg)
      \<and> rd_allowed (lg_decision l) = permitted_quantity risk sg)"
proof -
  let ?key = "to_quote_symbol (sg_contract sg)"
  let ?q = "quoted ?key (fst (w_quotes w [?key] r))"
  let ?e = "runner_engine risk r1" and ?st = "entry_state now r ?q"
  have "cutoff_time (fr_global (re_risk ?e)) = Inr ct" using assms(1) by (simp add: runner_engine_def)
  then obtain d where d: "evaluate ?e local (uu (4 * k)) (utc now) sg ?st = Inr d"
    using evaluate_no_raise [where e = ?e and st = ?st and clock = "utc now" and sg = sg and local = local and fresh = "uu (4 * k)"]
    by (auto simp: entry_state_def utc_def)
  then have "rd_id d = uu (4 * k)"
    by (auto simp: evaluate_def Let_def try_bind_eq_Inr split: if_splits prod.splits)
  moreover have b: "1 \<le> fst (compute_allowed_quantity ?e sg) \<and> fst (compute_allowed_quantity ?e sg) \<le> max 1 (sg_quantity sg)"
    using compute_allowed_quantity_bounds [of ?e sg] by linarith
  moreover have "(approved d \<longleftrightarrow> entry_permitted ?e local sg ?st (utc now)) \<and> (approved d \<longrightarrow> 1 \<le> rd_allowed d \<and> rd_allowed d \<le> max 1 (sg_quantity sg)
      \<and> rd_allowed d = permitted_quantity risk sg)"
    by (rule evaluate_cases [OF d refl]) (use b in \<open>simp_all add: approved_def entry_state_def compute_allowed_eq runner_engine_def\<close>)
  ultimately show ?thesis
    using d permitted_quantity_le [of risk sg] by (simp add: evaluate_signal_def Let_def split_beta leg_quote_def leg_permitted_def r1)
qed

definition leg_of :: "world \<Rightarrow> int \<Rightarrow> (nat \<Rightarrow> uuid) \<Rightarrow> full_risk \<Rightarrow> instant \<Rightarrow> strategy_signal list \<Rightarrow> runner
    \<Rightarrow> nat \<Rightarrow> nat \<Rightarrow> leg \<Rightarrow> bool" where
  "leg_of w local uu risk now sgs r k j l \<longleftrightarrow> lg_index l = k + j \<and> lg_signal l = sgs ! j
     \<and> lg_quote l = leg_quote w sgs r j \<and> rd_id (lg_decision l) = uu (4 * (k + j))
     \<and> (approved (lg_decision l) \<longleftrightarrow> leg_permitted w local risk now sgs r j)
     \<and> (approved (lg_decision l) \<longrightarrow> 1 \<le> rd_allowed (lg_decision l) \<and> rd_allowed (lg_decision l) \<le> max 1 (sg_quantity (sgs ! j))
        \<and> rd_allowed (lg_decision l) = permitted_quantity risk (sgs ! j))"

lemma evaluate_signals_returns:
  assumes "cutoff_time (fr_global risk) = Inr ct"
  shows "\<exists>legs. evaluate_signals w local uu risk now k sgs r = (Inr legs, after_quotes w sgs r)
    \<and> length legs = length sgs \<and> (\<forall>j < length sgs. leg_of w local uu risk now sgs r k j (legs ! j))"
proof (induction sgs arbitrary: k r)
  case (Cons sg sgs)
  let ?r1 = "snd (w_quotes w [to_quote_symbol (sg_contract sg)] r)"
  obtain l where l: "evaluate_signal w local uu risk now k sg r = (Inr l, ?r1)"
    "leg_of w local uu risk now (sg # sgs) r k 0 l"
    using evaluate_signal_returns [OF assms refl, of w local uu now k sg r sgs] by (auto simp: leg_of_def)
  obtain legs where legs: "evaluate_signals w local uu risk now (Suc k) sgs ?r1 = (Inr legs, after_quotes w sgs ?r1)"
    "length legs = length sgs" "\<forall>j < length sgs. leg_of w local uu risk now sgs ?r1 (Suc k) j (legs ! j)"
    using Cons.IH by blast
  have "leg_of w local uu risk now (sg # sgs) r k j ((l # legs) ! j)" if "j < length (sg # sgs)" for j
    using that l(2) legs(2,3) by (cases j) (auto simp: leg_of_def leg_shift [OF refl])
  with l legs show ?case by (intro exI [of _ "l # legs"]) simp
qed simp

section \<open>Turns\<close>

definition may_ask :: "zone \<Rightarrow> instant \<Rightarrow> string \<Rightarrow> strategy_config \<Rightarrow> runner \<Rightarrow> bool" where
  "may_ask ny now sid cfg r \<longleftrightarrow> sc_enabled cfg \<and> sid \<notin> set (ov_paused (rn_overrides r))
     \<and> entry_window_closed ny cfg now = Inr False
     \<and> (sid \<in> rn_fire_requests r
        \<or> (sc_allow_reentry cfg \<or> sid \<notin> rn_traded_today r) \<and> \<not> backing_off now sid r)
     \<and> strategy_flat sid r"

lemma take_fire_frame [simp]:
  "rn_traded_today (take_fire sid r) = rn_traded_today r" "backing_off now sid (take_fire s r) = backing_off now sid r"
  "strategy_flat sid (take_fire s r) = strategy_flat sid r"
  "rn_orders (take_fire s r) = rn_orders r" "rn_book (take_fire s r) = rn_book r"
  by (simp_all add: take_fire_def backing_off_def strategy_flat_def rn_orders_def rn_book_def)

lemma turn_cases:
  "(may_ask ny now sid cfg r \<and> strategy_turn ny w local uu risk now algo tag (sid, cfg) r
      = ask_strategy w local (uu sid) risk now sid cfg algo (tag sid) (sid \<in> rn_fire_requests r) (take_fire sid r))
   \<or> (\<not> may_ask ny now sid cfg r \<and> snd (strategy_turn ny w local uu risk now algo tag (sid, cfg) r) \<in> {r, take_fire sid r})"
proof (cases "entry_window_closed ny cfg now")
  case (Inr shut)
  then show ?thesis
    by (cases "sid \<in> rn_fire_requests r"; cases shut) (auto simp: strategy_turn_def may_ask_def Let_def)
qed (auto simp: strategy_turn_def may_ask_def Let_def)

section \<open>Rejected batches\<close>

lemma fold_log_frame:
  "om_orders (rn_orders (fold (\<lambda>x. log_runner now k (f x)) xs r)) = om_orders (rn_orders r)"
  "rn_retry_after (fold (\<lambda>x. log_runner now k (f x)) xs r) = rn_retry_after r"
  "rn_fire_requests (fold (\<lambda>x. log_runner now k (f x)) xs r) = rn_fire_requests r"
  by (induction xs arbitrary: r) (simp_all, simp_all add: log_runner_def)

lemma backed_off_turn:
  assumes "map_of (rn_retry_after r) sid = Some t" "now < t" "sid \<notin> rn_fire_requests r"
  shows "snd (strategy_turn ny w local uu risk now algo tag (sid, cfg) r) = r"
  using assms by (auto simp: strategy_turn_def take_fire_def Let_def backing_off_def split: sum.split)

lemma rejected_batch:
  assumes "cutoff_time (fr_global risk) = Inr ct" "j < length sgs"
    and "\<not> leg_permitted w local risk now sgs (log_signals now sgs r) j"
  shows "\<exists>legs. enter_batch w local uu risk now sid cfg algo batch sgs r
    = (Inr (), reject_batch now sid legs (after_quotes w sgs (log_signals now sgs r)))"
proof -
  let ?r = "log_signals now sgs r"
  obtain legs where legs: "evaluate_signals w local uu risk now 0 sgs ?r = (Inr legs, after_quotes w sgs ?r)"
    "length legs = length sgs" "\<forall>j < length sgs. leg_of w local uu risk now sgs ?r 0 j (legs ! j)"
    using evaluate_signals_returns [OF assms(1)] by blast
  with assms(2,3) have "\<not> approved (lg_decision (legs ! j))" "legs ! j \<in> set legs" by (auto simp: leg_of_def)
  then have "\<not> list_all (\<lambda>l. approved (lg_decision l)) legs" by (auto simp: list_all_iff)
  with legs(1) show ?thesis by (auto simp: enter_batch_def)
qed

lemma reject_batch_frame:
  "om_orders (rn_orders (reject_batch now sid legs r)) = om_orders (rn_orders r)"
  "map_of (rn_retry_after (reject_batch now sid legs r)) sid = Some (now + retry_delay)"
  "rn_fire_requests (reject_batch now sid legs r) = rn_fire_requests r"
  by (simp_all add: reject_batch_def fold_log_frame) (simp add: rn_orders_def)

section \<open>Submitted batches\<close>

definition has_order :: "uuid \<Rightarrow> (order_state \<Rightarrow> bool) \<Rightarrow> runner \<Rightarrow> bool" where
  "has_order i P r \<longleftrightarrow> (\<exists>o'. map_of (om_orders (rn_orders r)) i = Some o' \<and> P o')"




definition fresh_order :: "uuid \<Rightarrow> runner \<Rightarrow> bool" where
  "fresh_order i r \<longleftrightarrow> map_of (om_orders (rn_orders r)) i = None"





lemma has_order_log [simp]: "has_order i P (log_runner now k p r) = has_order i P r"
  "fresh_order i (log_runner now k p r) = fresh_order i r"
  by (simp_all add: has_order_def fresh_order_def)





section \<open>Wait until flat\<close>

definition orders_of :: "string \<Rightarrow> runner \<Rightarrow> uuid set" where
  "orders_of sid r = {i. has_order i (\<lambda>o'. os_strategy o' = sid) r}"

text \<open>The strategy is not flat, has no orders but the given ones, and they are none of the draws.\<close>

definition busy_with :: "string \<Rightarrow> uuid set \<Rightarrow> uuid set \<Rightarrow> runner \<Rightarrow> bool" where
  "busy_with sid old draws r \<longleftrightarrow> \<not> strategy_flat sid r \<and> orders_of sid r \<subseteq> old - draws
     \<and> keyed_by os_id (om_orders (rn_orders r))"

lemma flat_iff:
  "wf_dict (om_orders (rn_orders r)) \<Longrightarrow> strategy_flat sid r \<longleftrightarrow>
     \<not> list_ex (\<lambda>p. ps_strategy p = sid) (get_open_positions (rn_book r))
     \<and> (\<forall>i. \<not> has_order i (\<lambda>o'. os_strategy o' = sid \<and> active_status (os_status o')) r)"
  by (auto simp: strategy_flat_def has_order_def list_ex_iff in_values_iff)

lemma open_positions_frame: "pb_positions b' = pb_positions b \<Longrightarrow> get_open_positions b' = get_open_positions b"
  by (simp add: get_open_positions_def)

text \<open>What other strategies' orders do.\<close>

lemma busy_put:
  assumes "busy_with sid old draws r" "om_orders om = AList.update oid x (om_orders (rn_orders r))"
    and "os_id x = oid" "os_strategy x \<noteq> sid" "oid \<in> draws"
  shows "busy_with sid old draws (put_orders om r)"
proof -
  have k: "keyed_by os_id (om_orders (rn_orders r))" "keyed_by os_id (om_orders om)"
    using assms(1-3) by (auto simp: busy_with_def intro: keyed_by_update)
  have "\<not> has_order oid (\<lambda>o'. os_strategy o' = sid) r"
    using assms(1,5) by (auto simp: busy_with_def orders_of_def)
  then have h: "has_order i (\<lambda>o'. os_strategy o' = sid \<and> P o') (put_orders om r)
      \<longleftrightarrow> has_order i (\<lambda>o'. os_strategy o' = sid \<and> P o') r" for i P
    using assms(2,4) by (auto simp: has_order_def)
  have "strategy_flat sid (put_orders om r) = strategy_flat sid r"
    using k by (simp add: flat_iff keyed_by_def h open_positions_frame [OF rn_simps(5)])
  moreover have "orders_of sid (put_orders om r) = orders_of sid r"
    using h [of _ "\<lambda>o'. True"] by (simp add: orders_of_def)
  ultimately show ?thesis using assms(1) k by (simp add: busy_with_def)
qed

lemma busy_frame:
  assumes "om_orders (rn_orders r') = om_orders (rn_orders r)" "pb_positions (rn_book r') = pb_positions (rn_book r)"
  shows "busy_with sid old draws r' = busy_with sid old draws r"
  by (simp add: busy_with_def strategy_flat_def orders_of_def has_order_def assms(1) open_positions_frame [OF assms(2)])

lemma busy_log [simp]: "busy_with sid old draws (log_runner now k p r) = busy_with sid old draws r"
  by (rule busy_frame) simp_all

lemma busy_fold_log:
  "busy_with sid old draws (fold (\<lambda>x. log_runner now k (f x)) xs r) = busy_with sid old draws r"
  by (induction xs arbitrary: r) simp_all

lemma busy_submit:
  assumes "\<And>p. keeps (busy_with sid old draws) (w_place w p)" "busy_with sid old draws r"
    and "oi_strategy i \<noteq> sid" "oid \<in> draws"
  shows "busy_with sid old draws (snd (runner_submit w now plan_id oid i d cfg algo r))"
proof (cases "submit_prepare now plan_id oid i d False algo (rn_orders r)")
  case (Inr pom)
  obtain p om where pom: "pom = (p, om)" by force
  let ?n = "plan_order now oid p (Some (op_limit p)) algo (oi_batch i)"
  note f = submit_prepare_Inr [OF Inr [unfolded pom]]
  have n: "os_strategy ?n \<noteq> sid" using f assms(3) by (simp add: plan_order_def intent_plan_def)
  have om: "om_orders om = AList.update oid (set_status now RISK_CHECKED ?n) (om_orders (rn_orders r))"
    using f by simp
  have r0: "busy_with sid old draws (put_orders om r)"
    by (rule busy_put [OF assms(2) om]) (use n assms(4) in simp_all)
  obtain reply r1 where pl: "w_place w p (put_orders om r) = (reply, r1)" by force
  have r1: "busy_with sid old draws r1" by (rule keepsD [OF assms(1) r0 pl])
  let ?om = "submit_complete now oid False (Some cfg) reply (rn_orders r1)"
  have "busy_with sid old draws (put_orders ?om r1)"
  proof (cases "map_of (om_orders (rn_orders r1)) oid")
    case None
    then have "submit_complete now oid False (Some cfg) reply (rn_orders r1) = rn_orders r1"
      by (simp add: submit_complete_def)
    then show ?thesis using busy_frame [of "put_orders (rn_orders r1) r1" r1] r1 by simp
  next
    case (Some o')
    have o': "os_id o' = oid" using r1 Some by (simp add: busy_with_def keyed_by_def)
    have "oid \<notin> orders_of sid r1" using r1 assms(4) by (auto simp: busy_with_def)
    then have st: "os_strategy o' \<noteq> sid" using Some by (simp add: orders_of_def has_order_def)
    have "\<exists>x. om_orders ?om = AList.update oid x (om_orders (rn_orders r1)) \<and> os_id x = oid \<and> os_strategy x = os_strategy o'"
      by (cases reply) (use Some o' in \<open>auto simp: submit_complete_def Let_def\<close>)
    then show ?thesis using busy_put [OF r1, of ?om oid] st assms(4) by auto
  qed
  with Inr pom pl show ?thesis by (simp add: runner_submit_def)
qed (use assms(2) in \<open>simp add: runner_submit_def\<close>)

lemma run_each_keeps:
  "(\<And>x r. x \<in> set xs \<Longrightarrow> I r \<Longrightarrow> I (snd (f x r))) \<Longrightarrow> I r \<Longrightarrow> I (snd (run_each f xs r))"
proof (induction xs arbitrary: r)
  case (Cons x xs)
  have "I (snd (f x r))" by (rule Cons.prems) (use Cons.prems in simp_all)
  with Cons show ?case by (auto simp: split_beta split: sum.split)
qed simp

lemma busy_leg:
  assumes "\<And>p. keeps (busy_with sid old draws) (w_place w p)" "busy_with sid old draws r"
    and "sg_strategy (lg_signal l) \<noteq> sid" "\<And>k. uu (4 * k + 3) \<in> draws"
  shows "busy_with sid old draws (snd (submit_leg w now cfg algo batch uu l r))"
proof -
  let ?r0 = "log_runner now ''risk_decision'' (P_Decision (lg_decision l)) r"
  have r0: "busy_with sid old draws ?r0" using assms(2) by simp
  have sub: "busy_with sid old draws (snd (runner_submit w now plan_id (uu (4 * lg_index l + 3)) i d c a ?r0))"
    if "mk_intent (entry_intent now fresh batch (lg_signal l) d limit) = Inr i" for plan_id i d c a fresh limit
    by (rule busy_submit [OF assms(1) r0]) (use that assms(3,4) in \<open>auto simp: mk_intent_def entry_intent_def split: if_splits\<close>)
  show ?thesis
    using r0 sub by (auto simp: submit_leg_def Let_def split_beta split: option.split sum.split)
qed

lemma legs_signals:
  "evaluate_signals w local uu risk now k sgs r = (Inr legs, r1) \<Longrightarrow> l \<in> set legs \<Longrightarrow> lg_signal l \<in> set sgs"
proof (induction sgs arbitrary: k r legs r1)
  case (Cons sg sgs)
  then obtain x r2 ls where e: "evaluate_signal w local uu risk now k sg r = (Inr x, r2)"
    "evaluate_signals w local uu risk now (Suc k) sgs r2 = (Inr ls, r1)" "legs = x # ls"
    by (auto split: prod.splits sum.splits)
  have "lg_signal x = sg" using e(1) by (auto simp: evaluate_signal_def Let_def split: prod.splits sum.splits)
  with Cons.IH [OF e(2)] Cons.prems(2) e(3) show ?case by auto
qed simp

lemma busy_evaluate:
  assumes "\<And>ks. keeps (busy_with sid old draws) (w_quotes w ks)"
  shows "busy_with sid old draws r \<Longrightarrow> busy_with sid old draws (snd (evaluate_signals w local uu risk now k sgs r))"
proof (induction sgs arbitrary: k r)
  case (Cons sg sgs)
  obtain x r1 where e: "evaluate_signal w local uu risk now k sg r = (x, r1)" by force
  have "r1 = snd (w_quotes w [to_quote_symbol (sg_contract sg)] r)"
    using e by (auto simp: evaluate_signal_def Let_def split: prod.splits sum.splits)
  then have "busy_with sid old draws r1" using assms Cons.prems by (simp add: keeps_def)
  with Cons.IH e show ?case by (auto simp: split_beta split: sum.split)
qed simp

lemma busy_batch:
  assumes "\<And>ks. keeps (busy_with sid old draws) (w_quotes w ks)" "\<And>p. keeps (busy_with sid old draws) (w_place w p)"
    and "busy_with sid old draws r" "\<And>k. uu (4 * k + 3) \<in> draws" "\<And>sg. sg \<in> set sgs \<Longrightarrow> sg_strategy sg \<noteq> sid"
  shows "busy_with sid old draws (snd (enter_batch w local uu risk now s cfg algo batch sgs r))"
proof -
  have r0: "busy_with sid old draws (log_signals now sgs r)"
    using assms(3) by (simp add: log_signals_def busy_fold_log)
  obtain x r1 where e: "evaluate_signals w local uu risk now 0 sgs (log_signals now sgs r) = (x, r1)" by force
  have r1: "busy_with sid old draws r1" using busy_evaluate [OF assms(1) r0] e by (metis snd_conv)
  show ?thesis
  proof (cases x)
    case (Inr legs)
    have "sg_strategy (lg_signal l) \<noteq> sid" if "l \<in> set legs" for l
      using legs_signals [OF e [unfolded Inr] that] assms(5) by blast
    then have "busy_with sid old draws (snd (run_each (submit_leg w now cfg algo batch uu) legs r1))"
      using busy_leg [OF assms(2)] assms(4) by (intro run_each_keeps [where I = "busy_with sid old draws", OF _ r1]) auto
    moreover have "busy_with sid old draws (reject_batch now s legs r1)"
    proof -
      have "busy_with sid old draws (r1\<lparr>rn_retry_after := x\<rparr>)" for x
        by (rule iffD2 [OF busy_frame r1]) (simp_all add: rn_orders_def rn_book_def)
      then show ?thesis by (simp add: reject_batch_def busy_fold_log)
    qed
    ultimately show ?thesis using e Inr by (simp add: enter_batch_def)
  qed (use e r1 in \<open>simp add: enter_batch_def\<close>)
qed

text \<open>A provider answers for the strategy it was asked about.\<close>

definition answers_for :: "string \<Rightarrow> strategy_signal list awaited \<Rightarrow> bool" where
  "answers_for sid f \<longleftrightarrow> (\<forall>r sgs r'. f r = (Inr sgs, r') \<longrightarrow> (\<forall>sg \<in> set sgs. sg_strategy sg = sid))"

lemma answers_forD: "answers_for sid f \<Longrightarrow> f r = (Inr sgs, r') \<Longrightarrow> sg \<in> set sgs \<Longrightarrow> sg_strategy sg = sid"
  unfolding answers_for_def by blast

lemma busy_ask:
  assumes w: "\<And>ks. keeps (busy_with sid old draws) (w_quotes w ks)" "\<And>p. keeps (busy_with sid old draws) (w_place w p)"
      "keeps (busy_with sid old draws) (w_poll w cfg)" "keeps (busy_with sid old draws) (w_emit_now w cfg)"
    and "busy_with sid old draws r" "\<And>k. uu (4 * k + 3) \<in> draws"
    and "answers_for s (w_poll w cfg)" "answers_for s (w_emit_now w cfg)" "s \<noteq> sid"
  shows "busy_with sid old draws (snd (ask_strategy w local uu risk now s cfg algo batch fire r))"
proof -
  let ?f = "if fire then w_emit_now w cfg else w_poll w cfg"
  obtain x r1 where f: "?f r = (x, r1)" by force
  have r1: "busy_with sid old draws r1" using keepsD [OF w(3) assms(5)] keepsD [OF w(4) assms(5)] f by (cases fire) simp_all
  have eq: "(if fire then w_emit_now w cfg r else w_poll w cfg r) = (x, r1)" using f by (cases fire) simp_all
  show ?thesis
  proof (cases x)
    case (Inr sgs)
    have "sg_strategy sg \<noteq> sid" if "sg \<in> set sgs" for sg
      using answers_forD [OF assms(7) _ that] answers_forD [OF assms(8) _ that] f Inr assms(9) by (cases fire) auto
    from busy_batch [where uu = uu, OF w(1,2) r1 assms(6) this] Inr eq r1 show ?thesis
      by (simp add: ask_strategy_def)
  qed (use eq r1 in \<open>simp add: ask_strategy_def\<close>)
qed

lemma busy_turn:
  assumes w: "\<And>ks. keeps (busy_with sid old draws) (w_quotes w ks)" "\<And>p. keeps (busy_with sid old draws) (w_place w p)"
      "\<And>cfg. keeps (busy_with sid old draws) (w_poll w cfg)" "\<And>cfg. keeps (busy_with sid old draws) (w_emit_now w cfg)"
    and "busy_with sid old draws r" "\<And>s k. uu s (4 * k + 3) \<in> draws"
    and "answers_for s (w_poll w cfg)" "answers_for s (w_emit_now w cfg)"
  shows "busy_with sid old draws (snd (strategy_turn ny w local uu risk now algo tag (s, cfg) r))"
proof -
  have r0: "busy_with sid old draws (take_fire s r)"
    using assms(5) busy_frame [of "take_fire s r" r] by simp
  have flat: "\<not> strategy_flat sid r" using assms(5) by (simp add: busy_with_def)
  show ?thesis
  proof (cases "may_ask ny now s cfg r")
    case True
    with flat have "s \<noteq> sid" by (auto simp: may_ask_def)
    then have "busy_with sid old draws (snd (ask_strategy w local (uu s) risk now s cfg algo (tag s) f (take_fire s r)))" for f
      by (intro busy_ask [OF w(1,2) w(3) w(4) r0]) (use assms(6-8) in auto)
    with True turn_cases [of ny now s cfg r w local uu risk algo tag] show ?thesis by auto
  next
    case False
    with turn_cases [of ny now s cfg r w local uu risk algo tag] r0 assms(5) show ?thesis by auto
  qed
qed

section \<open>Properties\<close>

text \<open>C7: a batch is all or nothing. When the engine's contract does not permit even one signal of the
  batch, no order is created for any of them, and the strategy is left alone for the next thirty
  seconds: in every turn before that, whatever the time, configuration and zone, nothing happens for
  it unless the operator asks for it.\<close>

theorem unpermitted_leg_blocks_batch:
  assumes "cutoff_time (fr_global risk) = Inr ct" "j < length sgs"
    and "\<not> leg_permitted w local risk now sgs (log_signals now sgs r) j"
  shows "\<exists>r'. enter_batch w local uu risk now sid cfg algo batch sgs r = (Inr (), r')
    \<and> om_orders (rn_orders r') = om_orders (rn_orders (after_quotes w sgs (log_signals now sgs r)))
    \<and> (\<forall>ny w2 local2 uu2 risk2 now2 algo2 tag2 cfg2. now2 < now + 30000000 \<and> sid \<notin> rn_fire_requests r' \<longrightarrow>
         snd (strategy_turn ny w2 local2 uu2 risk2 now2 algo2 tag2 (sid, cfg2) r') = r')"
proof -
  obtain legs where "enter_batch w local uu risk now sid cfg algo batch sgs r
      = (Inr (), reject_batch now sid legs (after_quotes w sgs (log_signals now sgs r)))"
    using rejected_batch [OF assms] by blast
  then show ?thesis
    by (intro exI [of _ "reject_batch now sid legs (after_quotes w sgs (log_signals now sgs r))"] conjI allI impI)
      (auto simp: reject_batch_frame retry_delay_def intro!: backed_off_turn)
qed

lemma sample_cutoff: "\<exists>ct. cutoff_time (fr_global sample_risk) = Inr ct"
proof -
  have "\<not> isl (cutoff_time (fr_global sample_risk))" by code_simp
  then show ?thesis by (cases "cutoff_time (fr_global sample_risk)") auto
qed

text \<open>Reading off a computed evaluation whether a single signal is permitted.\<close>

lemma single_leg_permitted:
  assumes "cutoff_time (fr_global risk) = Inr ct"
    and "case fst (evaluate_signals w local uu risk now 0 [sg] r) of Inr [l] \<Rightarrow> approved (lg_decision l) = b | _ \<Rightarrow> False"
    and "leg_permitted w local risk now [sg] r 0 = b \<Longrightarrow> P"
  shows P
proof -
  obtain legs where legs: "evaluate_signals w local uu risk now 0 [sg] r = (Inr legs, after_quotes w [sg] r)"
    "length legs = 1" "leg_of w local uu risk now [sg] r 0 0 (legs ! 0)"
    using evaluate_signals_returns [OF assms(1), of w local uu now 0 "[sg]" r] by auto
  then obtain l where "legs = [l]" by (cases legs) auto
  with legs assms(2) have "leg_permitted w local risk now [sg] r 0 = b" by (simp add: leg_of_def)
  then show P by (rule assms(3))
qed

theorem unpermitted_leg_blocks_batch_witness:
  "\<exists>r'. enter_batch flat_world 0 (\<lambda>k. k) sample_risk 1001000000 ''s1'' sample_strategy None ''b''
       [sample_signal 10 2] sample_runner = (Inr (), r') \<and> om_orders (rn_orders r') = []"
proof -
  let ?r = "log_signals 1001000000 [sample_signal 10 2] sample_runner"
  obtain ct where ct: "cutoff_time (fr_global sample_risk) = Inr ct" using sample_cutoff by blast
  have aq: "after_quotes flat_world sgs r = r" for sgs r by (induction sgs arbitrary: r) (simp_all add: flat_world_def)
  have "case fst (evaluate_signals flat_world 0 (\<lambda>k. k) sample_risk 1001000000 0 [sample_signal 10 2] ?r) of
      Inr [l] \<Rightarrow> approved (lg_decision l) = False | _ \<Rightarrow> False" by code_simp
  with ct have "\<not> leg_permitted flat_world 0 sample_risk 1001000000 [sample_signal 10 2] ?r 0"
    by (rule single_leg_permitted) simp
  moreover have "om_orders (rn_orders ?r) = []" by code_simp
  ultimately show ?thesis
    using unpermitted_leg_blocks_batch [OF ct, of 0 "[sample_signal 10 2]" flat_world 0 1001000000 sample_runner]
    unfolding aq by (metis length_Cons zero_less_Suc)
qed


definition quoting_world :: world where
  "quoting_world = flat_world\<lparr>w_quotes := (\<lambda>ks. Pair (Inr [(to_quote_symbol sample_contract, sample_quote)]))\<rparr>"

lemma quoting_after [simp]: "after_quotes quoting_world sgs r = r" "snd (w_quotes quoting_world ks r) = r"
  by (induction sgs arbitrary: r) (simp_all add: quoting_world_def)



text \<open>C10: a strategy waits until it is flat. While a strategy has an open position or a working order,
  the entry half of a tick creates no order for it, whichever strategies are configured and whatever
  they answer. Assumed is that providers answer for the strategy they were asked about, that drawn
  identifiers are not those of the strategy's orders, and that what runs during the awaited calls
  neither makes the strategy flat nor gives it an order.\<close>

theorem entries_wait_until_flat:
  assumes "\<not> strategy_flat sid r" "keyed_by os_id (om_orders (rn_orders r))"
    and "\<And>s k. uu s (4 * k + 3) \<notin> orders_of sid r"
    and "\<And>s cfg. (s, cfg) \<in> set (rn_configs r) \<Longrightarrow> answers_for s (w_poll w cfg) \<and> answers_for s (w_emit_now w cfg)"
    and "\<And>ks. keeps (busy_with sid (orders_of sid r) (range (\<lambda>(s, k). uu s (4 * k + 3)))) (w_quotes w ks)"
    and "\<And>p. keeps (busy_with sid (orders_of sid r) (range (\<lambda>(s, k). uu s (4 * k + 3)))) (w_place w p)"
    and "\<And>cfg. keeps (busy_with sid (orders_of sid r) (range (\<lambda>(s, k). uu s (4 * k + 3)))) (w_poll w cfg)"
    and "\<And>cfg. keeps (busy_with sid (orders_of sid r) (range (\<lambda>(s, k). uu s (4 * k + 3)))) (w_emit_now w cfg)"
  shows "orders_of sid (snd (process_entries ny w local uu risk now algo tag r)) \<subseteq> orders_of sid r"
proof -
  let ?D = "range (\<lambda>(s, k). uu s (4 * k + 3))"
  let ?I = "busy_with sid (orders_of sid r) ?D"
  have r: "?I r" using assms(1-3) by (auto simp: busy_with_def)
  have "?I (snd (run_each (strategy_turn ny w local uu risk now algo tag) (rn_configs r) r))"
  proof (rule run_each_keeps [where I = ?I, OF _ r])
    fix scfg r1 assume a: "scfg \<in> set (rn_configs r)" "?I r1"
    obtain s cfg where scfg: "scfg = (s, cfg)" by force
    have d: "uu s (4 * k + 3) \<in> ?D" for s k by (rule image_eqI [of _ _ "(s, k)"]) simp_all
    show "?I (snd (strategy_turn ny w local uu risk now algo tag scfg r1))"
      unfolding scfg by (rule busy_turn [where uu = uu and draws = ?D, OF assms(5-8) a(2) d]) (use assms(4) a(1) scfg in auto)
  qed
  with r have "?I (snd (process_entries ny w local uu risk now algo tag r))" by (simp add: process_entries_def)
  then show ?thesis by (auto simp: busy_with_def)
qed

definition busy_runner :: runner where
  "busy_runner = put_orders sample_submitted sample_runner"

theorem entries_wait_until_flat_witness:
  "orders_of ''s'' (snd (process_entries ny_summer quoting_world 0 (\<lambda>s k. 100 + k) sample_risk 7 None (\<lambda>s. s) busy_runner))
     \<subseteq> orders_of ''s'' busy_runner"
proof (rule entries_wait_until_flat)
  show "\<not> strategy_flat ''s'' busy_runner" by code_simp
  show "keyed_by os_id (om_orders (rn_orders busy_runner))"
    using orders.inv_reachable [OF refl sample_submitted_reachable] by (simp add: busy_runner_def om_ok_def)
  have k: "map fst (om_orders sample_submitted) = [21]" by code_simp
  then have "i = 21" if "map_of (om_orders sample_submitted) i = Some o'" for i o'
    using map_of_SomeD [OF that] by (metis fst_conv image_eqI list.set_map list.simps(15) list.set(1) singletonD)
  then show "100 + (4 * k + 3) \<notin> orders_of ''s'' busy_runner" for k
    by (fastforce simp: orders_of_def has_order_def busy_runner_def)
qed (simp_all add: quoting_world_def flat_world_def answers_for_def keeps_def)

section \<open>Checks the runner does not feed\<close>

text \<open>The runner never passes per-strategy profits, trade times or the kill switch to the engine: three of
  its checks cannot block an entry. The account's daily loss is that of closed positions; a loss
  realised by a partial exit of a position that is still open is not in it.\<close>

lemma unfed_checks_never_block:
  "0 < pr_max_daily_loss (fr_per_strategy (re_risk e)) \<Longrightarrow> check_strategy_daily_loss_limit e sg (entry_state now r quote) = []"
  "check_kill_switch (entry_state now r quote) = []"
  "check_cooldown e sg (entry_state now r quote) t = Inr []"
  by (simp_all add: check_strategy_daily_loss_limit_def check_kill_switch_def check_cooldown_def entry_state_def
      dict_default_def Let_def split: option.split)

lemma daily_loss_misses_partial_exits:
  "let b = snd (handle_fill 8 9 (sample_fill SELL 1 1) None (snd (handle_fill 7 9 (sample_fill BUY 2 4) None (new_book new_store))))
   in closed_pnl b = 0 \<and> sum_list (map ps_realized (dict_values (pb_positions b))) = -300"
  by code_simp

end
