(* ===== verification/Exit_Manager.thy ===== *)
theory Exit_Manager
  imports Position_Manager Bars
begin

text \<open>
  \<^verbatim>\<open>src/portfolio/exit_manager.py\<close>: the exit conditions of open positions. \<open>exit_trigger\<close> is the
  priority chain (flatten, time, strategy, stop and target), \<open>stop_hit\<close> the hybrid stop on bars and
  ticks, \<open>check_position\<close> the rest of the loop body, \<open>check_exits\<close> the loop. An exception of
  the \<open>OrderIntent\<close> constructor ends the loop; the events logged before it stay in the store. \<open>ids k\<close>
  are the identifiers made by \<open>uuid4()\<close>.
\<close>

definition intrabar_guard_buffer :: pyfloat where
  "intrabar_guard_buffer = 15 / 100"

text \<open>The side of the quote the exit would trade at.\<close>

definition touch :: "position \<Rightarrow> quote_snapshot \<Rightarrow> pyfloat option" where
  "touch p q = (if ps_side p = BUY then q_bid q else q_ask q)"

definition mid_price :: "quote_snapshot \<Rightarrow> pyfloat option" where
  "mid_price q = (case (q_bid q, q_ask q) of (Some b, Some a) \<Rightarrow> Some ((b + a) / 2) | _ \<Rightarrow> None)"

definition priority_limit :: "position \<Rightarrow> quote_snapshot option \<Rightarrow> pyfloat option" where
  "priority_limit p quote = (case Option.bind quote (touch p) of Some x \<Rightarrow> Some x | None \<Rightarrow> ps_current p)"

definition eval_price :: "position \<Rightarrow> quote_snapshot \<Rightarrow> pyfloat option" where
  "eval_price p q =
     (if ps_use_mid p then (case mid_price q of Some m \<Rightarrow> Some m | None \<Rightarrow> touch p q) else touch p q)"

definition usable_bar ::
  "zone \<Rightarrow> instant \<Rightarrow> position \<Rightarrow> (quote_key, bar) pydict \<Rightarrow> bar option" where
  "usable_bar ny entry_time p bars =
     (case (case map_of bars (to_quote_symbol (ps_contract p)) of
              Some b \<Rightarrow> Some b | None \<Rightarrow> map_of bars (Symbol_Key (oc_symbol (ps_contract p)))) of
        None \<Rightarrow> None
      | Some b \<Rightarrow> if br_minute b \<le> zone_minute ny entry_time then None else Some b)"

definition stop_hit :: "position \<Rightarrow> bar option \<Rightarrow> pyfloat option \<Rightarrow> pyfloat option \<Rightarrow> bool" where
  "stop_hit p bar mid ev = (case ps_stop p of None \<Rightarrow> False | Some stop \<Rightarrow>
     (case bar of
        Some b \<Rightarrow>
          if (ps_side p = BUY \<and> br_low b \<le> stop) \<or> (ps_side p = SELL \<and> br_high b \<ge> stop) then True
          else (case mid of None \<Rightarrow> False | Some m \<Rightarrow>
            (ps_side p = BUY \<and> m \<le> stop * (1 - intrabar_guard_buffer))
            \<or> (ps_side p = SELL \<and> m \<ge> stop * (1 + intrabar_guard_buffer)))
      | None \<Rightarrow> (case ev of None \<Rightarrow> False | Some e \<Rightarrow>
            (ps_side p = BUY \<and> e \<le> stop) \<or> (ps_side p = SELL \<and> e \<ge> stop))))"

definition target_hit :: "position \<Rightarrow> pyfloat \<Rightarrow> bool" where
  "target_hit p e = (case ps_target p of None \<Rightarrow> False | Some t \<Rightarrow>
     (ps_side p = BUY \<and> e \<ge> t) \<or> (ps_side p = SELL \<and> e \<le> t))"

definition price_trigger ::
  "zone \<Rightarrow> instant \<Rightarrow> (quote_key, bar) pydict \<Rightarrow> pyfloat option \<Rightarrow> pyfloat option
     \<Rightarrow> position \<Rightarrow> quote_snapshot \<Rightarrow> py_error + (string \<times> pyfloat option) option" where
  "price_trigger ny now bars max_spread max_age p q =
     try_bind (case max_age of None \<Rightarrow> Inr (True, None)
               | Some a \<Rightarrow> validate_quote_freshness 0 (Some q) (utc now) a) (\<lambda>(fresh, _).
     if \<not> fresh then Inr None
     else if (case max_spread of None \<Rightarrow> False | Some m \<Rightarrow> \<not> fst (validate_quote_prices (Some q) m)) then Inr None
     else
       let entry_time = (case ps_entry_time p of Some t \<Rightarrow> t | None \<Rightarrow> ps_created p)
       in if seconds_between now entry_time < 10 then Inr None
       else
         let ev = eval_price p q;
             hit = stop_hit p (usable_bar ny entry_time p bars) (mid_price q) ev
         in if hit then
              Inr (Some (''stop_loss'', case touch p q of Some x \<Rightarrow> Some x | None \<Rightarrow> ev))
            else (case ev of
                None \<Rightarrow> Inr None
              | Some e \<Rightarrow> if target_hit p e then Inr (Some (''take_profit'', Some e)) else Inr None))"

definition exit_trigger ::
  "zone \<Rightarrow> instant \<Rightarrow> (quote_key, quote_snapshot) pydict \<Rightarrow> (quote_key, bar) pydict \<Rightarrow> bool \<Rightarrow> uuid set
     \<Rightarrow> pyfloat option \<Rightarrow> pyfloat option \<Rightarrow> position \<Rightarrow> py_error + (string \<times> pyfloat option) option" where
  "exit_trigger ny now quotes bars force strategy_exits max_spread max_age p =
     (let quote = contract_quote quotes (ps_contract p)
      in if force then Inr (Some (''force_flatten'', priority_limit p quote))
      else if (case ps_time_exit p of None \<Rightarrow> False | Some t \<Rightarrow> t \<le> now)
        then Inr (Some (''time_exit'', priority_limit p quote))
      else if ps_id p \<in> strategy_exits then Inr (Some (''strategy_exit'', priority_limit p quote))
      else (case quote of None \<Rightarrow> Inr None
            | Some q \<Rightarrow> price_trigger ny now bars max_spread max_age p q))"

definition exit_limit :: "pyfloat \<Rightarrow> pyfloat" where
  "exit_limit x = py_round 2 (if x \<le> 0 then 1/100 else x)"

definition exit_intent :: "instant \<Rightarrow> (nat \<Rightarrow> uuid) \<Rightarrow> position \<Rightarrow> pyfloat \<Rightarrow> order_intent" where
  "exit_intent now ids p limit = \<lparr>oi_id = ids 2, oi_signal_id = ids 0, oi_decision_id = ids 1,
     oi_position_id = Some (ps_id p), oi_is_entry = False, oi_strategy = ps_strategy p,
     oi_contract = ps_contract p, oi_side = opposite_side (ps_side p), oi_quantity = ps_quantity p,
     oi_limit = limit, oi_timestamp = now, oi_batch = None\<rparr>"

type_synonym exit_signal = "position \<times> order_intent \<times> string"

definition check_position ::
  "zone \<Rightarrow> instant \<Rightarrow> (quote_key, quote_snapshot) pydict \<Rightarrow> (quote_key, bar) pydict \<Rightarrow> bool \<Rightarrow> uuid set
     \<Rightarrow> pyfloat option \<Rightarrow> pyfloat option \<Rightarrow> (nat \<Rightarrow> uuid) \<Rightarrow> position \<Rightarrow> event_store
     \<Rightarrow> (py_error + exit_signal option) \<times> event_store" where
  "check_position ny now quotes bars force strategy_exits max_spread max_age ids p es =
     (if \<not> open_status (ps_status p) then (Inr None, es)
      else case exit_trigger ny now quotes bars force strategy_exits max_spread max_age p of
        Inl e \<Rightarrow> (Inl e, es)
      | Inr None \<Rightarrow> (Inr None, es)
      | Inr (Some (reason, limit)) \<Rightarrow>
          (case (case limit of Some x \<Rightarrow> Some x
                 | None \<Rightarrow> if reason = ''force_flatten'' then ps_current p else None) of
             None \<Rightarrow> (Inr None, log_callback ''exit_deferred_no_quote'' (P_Dict
                [(''position_id'', FId (ps_id p)), (''trigger'', FStr reason), (''timestamp'', FTime now)]) now es)
           | Some x \<Rightarrow>
               (case mk_intent (exit_intent now ids p (exit_limit x)) of
                  Inl e \<Rightarrow> (Inl e, es)
                | Inr i \<Rightarrow> (Inr (Some (p, i, reason)), log_callback ''exit_triggered'' (P_Dict
                    [(''position_id'', FId (ps_id p)), (''trigger'', FStr reason),
                     (''contract'', contract_arg (ps_contract p)), (''quantity'', FInt (ps_quantity p)),
                     (''exit_limit_price'', FFloat (exit_limit x)), (''timestamp'', FTime now)]) now es))))"

fun check_exits ::
  "zone \<Rightarrow> instant \<Rightarrow> (quote_key, quote_snapshot) pydict \<Rightarrow> (quote_key, bar) pydict \<Rightarrow> bool \<Rightarrow> uuid set
     \<Rightarrow> pyfloat option \<Rightarrow> pyfloat option \<Rightarrow> (nat \<Rightarrow> uuid) \<Rightarrow> position list \<Rightarrow> event_store
     \<Rightarrow> (py_error + exit_signal list) \<times> event_store" where
  "check_exits ny now quotes bars force sx spread age ids [] es = (Inr [], es)"
| "check_exits ny now quotes bars force sx spread age ids (p # ps) es =
     (case check_position ny now quotes bars force sx spread age ids p es of
        (Inl e, es') \<Rightarrow> (Inl e, es')
      | (Inr x, es') \<Rightarrow>
          (case check_exits ny now quotes bars force sx spread age (\<lambda>k. ids (k + 3)) ps es' of
             (Inl e, es'') \<Rightarrow> (Inl e, es'')
           | (Inr xs, es'') \<Rightarrow> (Inr (case x of None \<Rightarrow> xs | Some s \<Rightarrow> s # xs), es'')))"

section \<open>Lemmas\<close>

lemma exit_limit_near: "\<bar>exit_limit x - (if x \<le> 0 then 1/100 else x)\<bar> \<le> 1 / 200"
  using py_round_near [of 2 "if x \<le> 0 then 1/100 else x"] by (simp add: exit_limit_def)

lemma mk_intent_Inr: "mk_intent i = Inr j \<longleftrightarrow> j = i \<and> oi_strategy i \<noteq> [] \<and> 0 < oi_quantity i \<and> 0 < oi_limit i"
  by (auto simp: mk_intent_def)

text \<open>What a signal of the loop looks like.\<close>

definition reduce_only_signal :: "instant \<Rightarrow> position \<Rightarrow> order_intent \<Rightarrow> bool" where
  "reduce_only_signal now p i \<longleftrightarrow> open_status (ps_status p) \<and> \<not> oi_is_entry i
     \<and> oi_position_id i = Some (ps_id p) \<and> oi_strategy i = ps_strategy p \<and> oi_contract i = ps_contract p
     \<and> oi_side i = opposite_side (ps_side p) \<and> oi_quantity i = ps_quantity p \<and> 0 < oi_quantity i
     \<and> 0 < oi_limit i \<and> oi_timestamp i = now"

lemma check_position_signal:
  assumes "check_position ny now quotes bars force sx spread age ids p es = (Inr (Some (q, i, r)), es')"
  shows "q = p \<and> reduce_only_signal now p i
    \<and> (\<exists>limit. exit_trigger ny now quotes bars force sx spread age p = Inr (Some (r, limit))
        \<and> (\<exists>x. (limit = Some x \<or> limit = None \<and> ps_current p = Some x) \<and> oi_limit i = exit_limit x))"
  using assms unfolding check_position_def
  by (auto simp: mk_intent_Inr exit_intent_def reduce_only_signal_def split: if_splits sum.splits option.splits prod.splits)

lemma check_exits_signals:
  "check_exits ny now quotes bars force sx spread age ids ps es = (Inr xs, es') \<Longrightarrow> (p, i, r) \<in> set xs \<Longrightarrow>
   p \<in> set ps \<and> (\<exists>ids' es1 es2. check_position ny now quotes bars force sx spread age ids' p es1 = (Inr (Some (p, i, r)), es2))"
proof (induction ps arbitrary: ids es xs es')
  case (Cons a ps)
  obtain x es1 where c: "check_position ny now quotes bars force sx spread age ids a es = (Inr x, es1)"
    using Cons.prems(1) by (auto split: prod.splits sum.splits)
  then obtain ys where t: "check_exits ny now quotes bars force sx spread age (\<lambda>k. ids (k + 3)) ps es1 = (Inr ys, es')"
    and xs: "xs = (case x of None \<Rightarrow> ys | Some s \<Rightarrow> s # ys)"
    using Cons.prems(1) by (auto split: prod.splits sum.splits)
  show ?case
  proof (cases "(p, i, r) \<in> set ys")
    case True
    from Cons.IH [OF t True] show ?thesis by auto
  next
    case False
    then have x: "x = Some (p, i, r)" using Cons.prems(2) xs by (auto split: option.splits)
    with c check_position_signal [of ny now quotes bars force sx spread age ids a es p i r es1]
    show ?thesis by auto
  qed
qed simp

lemma py_round2_pos: "0 < py_round 2 x \<longleftrightarrow> 1 / 200 < x"
proof -
  have "0 < py_round 2 x \<longleftrightarrow> 0 < round_half_even (x * 100)"
    by (simp add: py_round_def zero_less_divide_iff)
  also have "\<dots> \<longleftrightarrow> 1 / 2 < x * 100"
  proof
    assume "0 < round_half_even (x * 100)"
    then have pos: "1 \<le> round_half_even (x * 100)" by simp
    show "1 / 2 < x * 100"
    proof (rule ccontr)
      assume "\<not> 1 / 2 < x * 100"
      then have le: "x * 100 \<le> 1 / 2" by simp
      then have "\<lfloor>x * 100\<rfloor> \<le> 0" by linarith
      with pos le show False
        by (cases "\<lfloor>x * 100\<rfloor> = 0") (auto simp: round_half_even_def Let_def split: if_splits)
    qed
  next
    assume gt: "1 / 2 < x * 100"
    then have "0 \<le> \<lfloor>x * 100\<rfloor>" by linarith
    then show "0 < round_half_even (x * 100)"
    proof (cases "\<lfloor>x * 100\<rfloor> = 0")
      case True
      with gt show ?thesis by (simp add: round_half_even_def Let_def)
    next
      case False
      with \<open>0 \<le> \<lfloor>x * 100\<rfloor>\<close> have "1 \<le> \<lfloor>x * 100\<rfloor>" by linarith
      moreover have "\<lfloor>x * 100\<rfloor> \<le> round_half_even (x * 100)" by (simp add: round_half_even_def Let_def)
      ultimately show ?thesis by linarith
    qed
  qed
  finally show ?thesis by (simp add: field_simps)
qed

lemma exit_limit_pos: "0 < exit_limit x \<longleftrightarrow> x \<le> 0 \<or> 1 / 200 < x"
  by (auto simp: exit_limit_def py_round2_pos)

lemma price_trigger_total: "\<exists>r. price_trigger ny now bars spread age p q = Inr r"
proof -
  have "\<exists>v. (case age of None \<Rightarrow> Inr (True, None) | Some a \<Rightarrow> validate_quote_freshness 0 (Some q) (utc now) a) = Inr v"
    by (cases age) (auto simp: validate_quote_freshness_eq Let_def)
  then obtain fresh r where "(case age of None \<Rightarrow> Inr (True, None)
      | Some a \<Rightarrow> validate_quote_freshness 0 (Some q) (utc now) a) = Inr (fresh, r)" by force
  then show ?thesis by (auto simp: price_trigger_def Let_def split: option.split)
qed

lemma exit_trigger_total: "\<exists>r. exit_trigger ny now quotes bars force sx spread age p = Inr r"
  using price_trigger_total by (auto simp: exit_trigger_def Let_def split: option.split)

text \<open>What the loop decides about one position: nothing, a deferral, or a reason and a price.\<close>

definition exit_decision ::
  "zone \<Rightarrow> instant \<Rightarrow> (quote_key, quote_snapshot) pydict \<Rightarrow> (quote_key, bar) pydict \<Rightarrow> bool \<Rightarrow> uuid set
     \<Rightarrow> pyfloat option \<Rightarrow> pyfloat option \<Rightarrow> position \<Rightarrow> (string \<times> pyfloat) option" where
  "exit_decision ny now quotes bars force sx spread age p =
     (if \<not> open_status (ps_status p) then None
      else case exit_trigger ny now quotes bars force sx spread age p of
        Inr (Some (r, Some x)) \<Rightarrow> Some (r, x)
      | Inr (Some (r, None)) \<Rightarrow> if r = ''force_flatten'' then map_option (Pair r) (ps_current p) else None
      | _ \<Rightarrow> None)"

lemma check_position_decision:
  "fst (check_position ny now quotes bars force sx spread age ids p es) =
     (case exit_decision ny now quotes bars force sx spread age p of
        None \<Rightarrow> Inr None
      | Some (r, x) \<Rightarrow> (case mk_intent (exit_intent now ids p (exit_limit x)) of
            Inl e \<Rightarrow> Inl e | Inr i \<Rightarrow> Inr (Some (p, i, r))))"
proof -
  obtain t where t: "exit_trigger ny now quotes bars force sx spread age p = Inr t"
    using exit_trigger_total by blast
  show ?thesis
    by (cases t) (auto simp: check_position_def exit_decision_def t
        split: option.split sum.split prod.split)
qed

definition can_exit :: "position \<Rightarrow> pyfloat \<Rightarrow> bool" where
  "can_exit p x \<longleftrightarrow> ps_strategy p \<noteq> [] \<and> 0 < ps_quantity p \<and> 0 < exit_limit x"

lemma check_exits_decisions:
  assumes "\<forall>p \<in> set ps. \<forall>r x. exit_decision ny now quotes bars force sx spread age p = Some (r, x) \<longrightarrow> can_exit p x"
  shows "\<exists>xs es'. check_exits ny now quotes bars force sx spread age ids ps es = (Inr xs, es')
    \<and> map (\<lambda>(p, i, r). (p, r, oi_limit i)) xs =
        [(p, r, exit_limit x). p \<leftarrow> ps,
           (r, x) \<leftarrow> (case exit_decision ny now quotes bars force sx spread age p of None \<Rightarrow> [] | Some d \<Rightarrow> [d])]"
  using assms
proof (induction ps arbitrary: ids es)
  case (Cons p ps)
  let ?d = "exit_decision ny now quotes bars force sx spread age p"
  obtain v es1 where c: "check_position ny now quotes bars force sx spread age ids p es = (v, es1)"
    by (cases "check_position ny now quotes bars force sx spread age ids p es")
  from Cons.IH [of "\<lambda>k. ids (k + 3)" es1] Cons.prems obtain xs es' where
    t: "check_exits ny now quotes bars force sx spread age (\<lambda>k. ids (k + 3)) ps es1 = (Inr xs, es')"
    and m: "map (\<lambda>(p, i, r). (p, r, oi_limit i)) xs =
        [(p, r, exit_limit x). p \<leftarrow> ps,
           (r, x) \<leftarrow> (case exit_decision ny now quotes bars force sx spread age p of None \<Rightarrow> [] | Some d \<Rightarrow> [d])]"
    by auto
  show ?case
  proof (cases ?d)
    case None
    then have "v = Inr None" using check_position_decision [of ny now quotes bars force sx spread age ids p es] c by simp
    with c t m None show ?thesis by simp
  next
    case (Some d)
    obtain r x where d: "d = (r, x)" by (cases d)
    let ?i = "exit_intent now ids p (exit_limit x)"
    have "can_exit p x" using Cons.prems Some d by simp
    then have "mk_intent ?i = Inr ?i" by (simp add: mk_intent_Inr can_exit_def exit_intent_def)
    then have "v = Inr (Some (p, ?i, r))"
      using check_position_decision [of ny now quotes bars force sx spread age ids p es] c Some d by simp
    with c t m Some d show ?thesis by (simp add: exit_intent_def)
  qed
qed simp

lemma check_exits_aborts:
  assumes "p \<in> set ps" "exit_decision ny now quotes bars force sx spread age p = Some (r, x)" "\<not> can_exit p x"
  shows "isl (fst (check_exits ny now quotes bars force sx spread age ids ps es))"
  using assms(1)
proof (induction ps arbitrary: ids es)
  case (Cons a ps)
  obtain v es1 where c: "check_position ny now quotes bars force sx spread age ids a es = (v, es1)"
    by (cases "check_position ny now quotes bars force sx spread age ids a es")
  show ?case
  proof (cases "a = p")
    case True
    have "\<nexists>j. mk_intent (exit_intent now ids p (exit_limit x)) = Inr j"
      using assms(3) by (auto simp: mk_intent_Inr can_exit_def exit_intent_def)
    then obtain e where "mk_intent (exit_intent now ids p (exit_limit x)) = Inl e"
      by (cases "mk_intent (exit_intent now ids p (exit_limit x))") auto
    then have "v = Inl e"
      using check_position_decision [of ny now quotes bars force sx spread age ids p es] c True assms(2) by simp
    with c show ?thesis by simp
  next
    case False
    then have "isl (fst (check_exits ny now quotes bars force sx spread age (\<lambda>k. ids (k + 3)) ps es1))"
      using Cons by simp
    with c show ?thesis by (auto split: sum.splits prod.splits)
  qed
qed simp

section \<open>Properties\<close>

text \<open>C26: exits only ever reduce. Every signal of the loop is for one of the given positions, an
  open one, and its intent is a non-entry order on the opposite side, for the position's contract,
  strategy and entire quantity, at a positive limit no more than half a cent from the price of the
  trigger (one cent when that is not positive).\<close>

theorem exits_reduce_only:
  assumes "check_exits ny now quotes bars force sx spread age ids ps es = (Inr xs, es')" and "(p, i, r) \<in> set xs"
  shows "p \<in> set ps \<and> reduce_only_signal now p i
    \<and> (\<exists>x. exit_decision ny now quotes bars force sx spread age p = Some (r, x)
        \<and> \<bar>oi_limit i - (if x \<le> 0 then 1/100 else x)\<bar> \<le> 1 / 200)"
proof -
  from check_exits_signals [OF assms] obtain ids' es1 es2 where p: "p \<in> set ps"
    and c: "check_position ny now quotes bars force sx spread age ids' p es1 = (Inr (Some (p, i, r)), es2)" by blast
  have "fst (check_position ny now quotes bars force sx spread age ids' p es1) = Inr (Some (p, i, r))"
    using c by simp
  then obtain x where d: "exit_decision ny now quotes bars force sx spread age p = Some (r, x)"
    and m: "mk_intent (exit_intent now ids' p (exit_limit x)) = Inr i"
    unfolding check_position_decision by (auto split: option.splits sum.splits prod.splits)
  have "oi_limit i = exit_limit x" using m by (simp add: mk_intent_Inr exit_intent_def)
  with p d check_position_signal [OF c] exit_limit_near [of x] show ?thesis by auto
qed

definition sample_open :: position where
  "sample_open = (open_position (sample_fill BUY 2 4) 1)\<lparr>ps_stop := Some (7/2)\<rparr>"

definition sample_option_quote :: "pyfloat \<Rightarrow> quote_snapshot" where
  "sample_option_quote bid = \<lparr>q_symbol = to_quote_symbol (ps_contract sample_open), q_bid = Some bid,
     q_ask = Some (bid + 1/10), q_last = None, q_volume = None, q_delta = None, q_close = None,
     q_timestamp = utc 20000000\<rparr>"

definition sample_quotes :: "pyfloat \<Rightarrow> (quote_key, quote_snapshot) pydict" where
  "sample_quotes bid = [(to_quote_symbol (ps_contract sample_open), sample_option_quote bid)]"

theorem exits_reduce_only_witness:
  "\<exists>i es'. check_exits (\<lambda>t. 0) 20000000 (sample_quotes 3) [] False {} (Some 10) (Some 5) id [sample_open] new_store
      = (Inr [(sample_open, i, ''stop_loss'')], es') \<and> oi_side i = SELL \<and> oi_quantity i = 2 \<and> oi_limit i = 3
    \<and> reduce_only_signal 20000000 sample_open i"
proof -
  let ?c = "check_exits (\<lambda>t. 0) 20000000 (sample_quotes 3) [] False {} (Some 10) (Some 5) id [sample_open] new_store"
  let ?i = "exit_intent 20000000 id sample_open 3"
  have c: "?c = (Inr [(sample_open, ?i, ''stop_loss'')], snd ?c)" by code_simp
  have "oi_side ?i = SELL" "oi_quantity ?i = 2" "oi_limit ?i = 3" by code_simp+
  with c exits_reduce_only [OF c, of sample_open ?i "''stop_loss''"] show ?thesis by (metis list.set_intros(1))
qed

definition flatten_price :: "(quote_key, quote_snapshot) pydict \<Rightarrow> position \<Rightarrow> pyfloat option" where
  "flatten_price quotes p = priority_limit p (contract_quote quotes (ps_contract p))"

lemma exit_decision_flatten:
  "exit_decision ny now quotes bars True sx spread age p =
     (if open_status (ps_status p) then map_option (Pair ''force_flatten'') (flatten_price quotes p) else None)"
  by (auto simp: exit_decision_def exit_trigger_def flatten_price_def priority_limit_def Let_def split: option.split)

text \<open>Force flatten misses nothing. When the open positions are well formed and no exit price
  lies strictly between nothing and half a cent, flattening returns exactly one exit for every open
  position that has a price, in order; the price is the touch of its quote or its current price.\<close>

lemma flatten_covers_all:
  assumes "\<forall>p \<in> set ps. open_status (ps_status p) \<longrightarrow> ps_strategy p \<noteq> [] \<and> 0 < ps_quantity p"
    and "\<forall>p \<in> set ps. \<forall>x. flatten_price quotes p = Some x \<longrightarrow> x \<le> 0 \<or> 1 / 200 < x"
  shows "\<exists>xs es'. check_exits ny now quotes bars True sx spread age ids ps es = (Inr xs, es')
    \<and> map fst xs = filter (\<lambda>p. open_status (ps_status p) \<and> flatten_price quotes p \<noteq> None) ps
    \<and> (\<forall>(p, i, r) \<in> set xs. r = ''force_flatten'' \<and> oi_limit i = exit_limit (the (flatten_price quotes p)))"
proof -
  let ?l = "[(p, r, exit_limit x). p \<leftarrow> ps,
      (r, x) \<leftarrow> (case exit_decision ny now quotes bars True sx spread age p of None \<Rightarrow> [] | Some d \<Rightarrow> [d])]"
  have h: "\<forall>p \<in> set ps. \<forall>r x. exit_decision ny now quotes bars True sx spread age p = Some (r, x) \<longrightarrow> can_exit p x"
    using assms unfolding exit_decision_flatten can_exit_def exit_limit_pos by (auto split: if_splits)
  obtain xs es' where c: "check_exits ny now quotes bars True sx spread age ids ps es = (Inr xs, es')"
    and m: "map (\<lambda>(p, i, r). (p, r, oi_limit i)) xs = ?l"
    using check_exits_decisions [OF h, of ids es] by blast
  have "map fst xs = map fst ?l" unfolding m [symmetric] by (simp add: comp_def case_prod_unfold)
  also have "\<dots> = filter (\<lambda>p. open_status (ps_status p) \<and> flatten_price quotes p \<noteq> None) ps"
    by (induction ps) (auto simp: exit_decision_flatten)
  finally have f: "map fst xs = filter (\<lambda>p. open_status (ps_status p) \<and> flatten_price quotes p \<noteq> None) ps" .
  have "r = ''force_flatten'' \<and> oi_limit i = exit_limit (the (flatten_price quotes p))"
    if "(p, i, r) \<in> set xs" for p i r
  proof -
    have "(p, r, oi_limit i) \<in> set (map (\<lambda>(p, i, r). (p, r, oi_limit i)) xs)" using that by force
    then show ?thesis unfolding m
      by (auto simp: exit_decision_flatten map_option_case split: if_splits option.splits)
  qed
  with c f show ?thesis by fast
qed

theorem flatten_covers_all_witness:
  "\<exists>xs es'. check_exits (\<lambda>t. 0) 6 (sample_quotes 3) [] True {} None None id
      [sample_open, sample_open\<lparr>ps_status := CLOSED\<rparr>] new_store = (Inr xs, es') \<and> map fst xs = [sample_open]"
proof -
  let ?ps = "[sample_open, sample_open\<lparr>ps_status := CLOSED\<rparr>]"
  have h1: "\<forall>p \<in> set ?ps. open_status (ps_status p) \<longrightarrow> ps_strategy p \<noteq> [] \<and> 0 < ps_quantity p" by code_simp
  have pr: "flatten_price (sample_quotes 3) p = Some 3" if "p \<in> set ?ps" for p
  proof -
    have "\<forall>p \<in> set ?ps. flatten_price (sample_quotes 3) p = Some 3" by code_simp
    with that show ?thesis by blast
  qed
  then have h2: "\<forall>p \<in> set ?ps. \<forall>x. flatten_price (sample_quotes 3) p = Some x \<longrightarrow> x \<le> 0 \<or> 1 / 200 < x" by simp
  have f: "filter (\<lambda>p. open_status (ps_status p) \<and> flatten_price (sample_quotes 3) p \<noteq> None) ?ps = [sample_open]"
    by code_simp
  from flatten_covers_all [OF h1 h2, of "\<lambda>t. 0" 6 "[]" "{}" None None id new_store] f show ?thesis by auto
qed

text \<open>But one price in that half-cent interval stops the whole flatten: the limit rounds to zero,
  the intent's constructor raises, and no position is exited.\<close>

lemma subcent_price_aborts_flatten:
  assumes "p \<in> set ps" "open_status (ps_status p)" "flatten_price quotes p = Some x" "0 < x" "x \<le> 1 / 200"
  shows "\<exists>e es'. check_exits ny now quotes bars True sx spread age ids ps es = (Inl e, es')"
proof -
  have "exit_decision ny now quotes bars True sx spread age p = Some (''force_flatten'', x)"
    using assms by (simp add: exit_decision_flatten)
  moreover have "\<not> can_exit p x" using assms(4,5) by (auto simp: can_exit_def exit_limit_pos)
  ultimately have "isl (fst (check_exits ny now quotes bars True sx spread age ids ps es))"
    using assms(1) by (intro check_exits_aborts)
  then show ?thesis by (metis isl_def prod.collapse)
qed

theorem subcent_price_aborts_flatten_witness:
  "\<exists>e es'. check_exits (\<lambda>t. 0) 6 (sample_quotes (1/250)) [] True {} None None id
      [sample_open, sample_open\<lparr>ps_id := 2\<rparr>] new_store = (Inl e, es')"
proof -
  have "sample_open\<lparr>ps_id := 2\<rparr> \<in> set [sample_open, sample_open\<lparr>ps_id := 2\<rparr>]"
    and "open_status (ps_status (sample_open\<lparr>ps_id := 2\<rparr>))"
    and "flatten_price (sample_quotes (1/250)) (sample_open\<lparr>ps_id := 2\<rparr>) = Some (1/250)"
    by (simp, code_simp, code_simp)
  from subcent_price_aborts_flatten [OF this] show ?thesis by simp
qed

definition at_or_beyond :: "order_side \<Rightarrow> pyfloat \<Rightarrow> pyfloat \<Rightarrow> bool" where
  "at_or_beyond side x level \<longleftrightarrow> of_int (side_sign side) * x \<le> of_int (side_sign side) * level"

definition stop_breached :: "position \<Rightarrow> bar option \<Rightarrow> pyfloat option \<Rightarrow> pyfloat option \<Rightarrow> bool" where
  "stop_breached p b mid ev \<longleftrightarrow> (\<exists>stop. ps_stop p = Some stop
     \<and> ((\<exists>c. b = Some c \<and> at_or_beyond (ps_side p) (if ps_side p = BUY then br_low c else br_high c) stop)
        \<or> (\<exists>c m. b = Some c \<and> mid = Some m
              \<and> at_or_beyond (ps_side p) m (stop * (1 - of_int (side_sign (ps_side p)) * (15 / 100))))
        \<or> (\<exists>e. b = None \<and> ev = Some e \<and> at_or_beyond (ps_side p) e stop)))"

lemma stop_hit_iff: "stop_hit p b mid ev \<longleftrightarrow> stop_breached p b mid ev"
  by (cases "ps_side p")
    (auto simp: stop_hit_def stop_breached_def at_or_beyond_def intrabar_guard_buffer_def split: option.splits)

definition usable_quote :: "instant \<Rightarrow> pyfloat option \<Rightarrow> pyfloat option \<Rightarrow> quote_snapshot \<Rightarrow> bool" where
  "usable_quote now spread age q \<longleftrightarrow>
     (\<forall>a. age = Some a \<longrightarrow> fresh_quote 0 (Some q) (utc now) a)
     \<and> (\<forall>m. spread = Some m \<longrightarrow> tradeable_prices (Some q) m)"

definition entry_instant :: "position \<Rightarrow> instant" where
  "entry_instant p = (case ps_entry_time p of Some t \<Rightarrow> t | None \<Rightarrow> ps_created p)"

lemma price_trigger_eq:
  "price_trigger ny now bars spread age p q =
     (if usable_quote now spread age q \<and> 10 \<le> seconds_between now (entry_instant p) then
        let ev = eval_price p q
        in if stop_breached p (usable_bar ny (entry_instant p) p bars) (mid_price q) ev
           then Inr (Some (''stop_loss'', case touch p q of Some x \<Rightarrow> Some x | None \<Rightarrow> ev))
           else (case ev of None \<Rightarrow> Inr None
             | Some e \<Rightarrow> if target_hit p e then Inr (Some (''take_profit'', Some e)) else Inr None)
      else Inr None)"
proof -
  obtain fr where f: "(case age of None \<Rightarrow> Inr (True, None)
      | Some a \<Rightarrow> validate_quote_freshness 0 (Some q) (utc now) a) = (Inr fr :: py_error + bool \<times> fstr option)"
    and fst: "fst fr \<longleftrightarrow> (\<forall>a. age = Some a \<longrightarrow> fresh_quote 0 (Some q) (utc now) a)"
  proof (cases age)
    case (Some a)
    show ?thesis
      by (rule validate_quote_freshness_cases [of 0 "Some q" "utc now" a]) (use Some that in auto)
  qed (use that in auto)
  have s: "(case spread of None \<Rightarrow> False | Some m \<Rightarrow> \<not> fst (validate_quote_prices (Some q) m))
      \<longleftrightarrow> \<not> (\<forall>m. spread = Some m \<longrightarrow> tradeable_prices (Some q) m)"
  proof (cases spread)
    case (Some m)
    show ?thesis by (rule validate_quote_prices_cases [of "Some q" m]) (use Some in auto)
  qed simp
  obtain g r where fr: "fr = (g, r)" by (cases fr)
  have u: "usable_quote now spread age q \<longleftrightarrow> g \<and> (\<forall>m. spread = Some m \<longrightarrow> tradeable_prices (Some q) m)"
    using fst fr by (simp add: usable_quote_def)
  show ?thesis
    unfolding price_trigger_def f s fr u try_bind_simps prod.case entry_instant_def [symmetric] stop_hit_iff
    by (auto simp: Let_def not_less)
qed

text \<open>The bar need not be one of the option. The code falls back on the bar of the underlying, whose
  price is on another scale: a short option at 3 with its stop at 6 is stopped out because the index
  traded at 700, and left alone without that bar. (The comment there speaks of a bar that is available
  for this contract.)\<close>

definition sample_short :: position where
  "sample_short = sample_open\<lparr>ps_side := SELL, ps_stop := Some 6\<rparr>"

definition underlying_bar :: bar where
  "underlying_bar = \<lparr>br_symbol = Symbol_Key (oc_symbol (ps_contract sample_short)), br_minute = 5, br_open = 699,
     br_high = 700, br_low = 698, br_close = 699, br_ticks = 3\<rparr>"

lemma underlying_bar_stops_option:
  "exit_trigger (\<lambda>t. 0) 20000000 (sample_quotes 3) [(br_symbol underlying_bar, underlying_bar)] False {} (Some 10) (Some 5) sample_short
     = Inr (Some (''stop_loss'', Some (31/10)))"
  "exit_trigger (\<lambda>t. 0) 20000000 (sample_quotes 3) [] False {} (Some 10) (Some 5) sample_short = Inr None"
  by code_simp+

text \<open>C25: the hybrid stop. Where neither flatten, time nor strategy exits apply, the stop fires iff
  the quote is usable, the position is at least ten seconds old, and the stop level is breached: by
  the extreme of a completed bar of a minute after the entry minute, or by a mid price 15 percent
  beyond the stop, or, when there is no such bar, by the evaluation price itself. The bar is the
  contract's or, when it has none, that of its underlying (\<open>usable_bar\<close>, as the code has it): a comment
  in the code promises only the first, and P6-A5 of \<^verbatim>\<open>docs/assumptions.md\<close> only quotes.\<close>

theorem stop_loss_iff:
  assumes "\<forall>t. ps_time_exit p = Some t \<longrightarrow> now < t" and "ps_id p \<notin> sx"
  shows "(\<exists>x. exit_trigger ny now quotes bars False sx spread age p = Inr (Some (''stop_loss'', x)))
    \<longleftrightarrow> (\<exists>q. contract_quote quotes (ps_contract p) = Some q \<and> usable_quote now spread age q
          \<and> 10 \<le> seconds_between now (entry_instant p)
          \<and> stop_breached p (usable_bar ny (entry_instant p) p bars) (mid_price q) (eval_price p q))"
proof (cases "contract_quote quotes (ps_contract p)")
  case None
  with assms show ?thesis by (auto simp: exit_trigger_def Let_def split: option.splits)
next
  case (Some q)
  then have "exit_trigger ny now quotes bars False sx spread age p = price_trigger ny now bars spread age p q"
    using assms by (auto simp: exit_trigger_def Let_def split: option.splits)
  then show ?thesis using Some by (auto simp: price_trigger_eq Let_def split: option.splits)
qed

theorem stop_loss_iff_witness:
  "\<exists>x. exit_trigger (\<lambda>t. 0) 20000000 (sample_quotes 3) [] False {} (Some 10) (Some 5) sample_open
     = Inr (Some (''stop_loss'', x))"
proof -
  let ?q = "sample_option_quote 3"
  have h: "\<forall>t. ps_time_exit sample_open = Some t \<longrightarrow> 20000000 < t" "ps_id sample_open \<notin> {}"
    by (simp_all add: sample_open_def open_position_def)
  have "contract_quote (sample_quotes 3) (ps_contract sample_open) = Some ?q" by code_simp
  moreover have "usable_quote 20000000 (Some 10) (Some 5) ?q"
  proof -
    have "fst (validate_quote_prices (Some ?q) 10)" by code_simp
    then have "tradeable_prices (Some ?q) 10"
      by (rule_tac validate_quote_prices_cases [of "Some ?q" 10]) auto
    moreover have "fresh_quote 0 (Some ?q) (utc 20000000) 5" by code_simp
    ultimately show ?thesis by (simp add: usable_quote_def)
  qed
  moreover have "10 \<le> seconds_between 20000000 (entry_instant sample_open)" by code_simp
  moreover have "stop_hit sample_open (usable_bar (\<lambda>t. 0) (entry_instant sample_open) sample_open [])
      (mid_price ?q) (eval_price sample_open ?q)" by code_simp
  ultimately show ?thesis unfolding stop_loss_iff [OF h] stop_hit_iff by blast
qed

end
