(* ===== verification/Exit_Flow.thy ===== *)
theory Exit_Flow
  imports Entry_Flow Exit_Manager
begin

text \<open>
  The exit half of \<open>_process_tick\<close> of \<^verbatim>\<open>src/app/runner.py\<close>: \<open>_check_exits\<close> with its retry throttle and the
  cancelling of opposite orders, and \<open>_apply_exit_rules\<close>, which gives a position its stop, target and
  time exit. \<open>from_ny\<close> is the instant of a New York wall clock. The set of quote symbols is asked for
  in some order of the set; here it is that of the first occurrences.
\<close>

section \<open>Exit rules\<close>

definition exit_fraction :: "pyfloat \<Rightarrow> pyfloat" where
  "exit_fraction pct = (if 1 \<le> pct then pct / 100 else pct)"

definition loss_price :: "position \<Rightarrow> pyfloat \<Rightarrow> pyfloat" where
  "loss_price p pct = ps_avg_entry p * (if ps_side p = BUY then 1 - exit_fraction pct else 1 + exit_fraction pct)"

definition profit_price :: "position \<Rightarrow> pyfloat \<Rightarrow> pyfloat" where
  "profit_price p pct = ps_avg_entry p * (if ps_side p = BUY then 1 + exit_fraction pct else 1 - exit_fraction pct)"

text \<open>A time that does not parse or is out of range is logged and ignored.\<close>

definition time_exit_of :: "zone \<Rightarrow> (int \<Rightarrow> instant) \<Rightarrow> exit_config \<Rightarrow> instant \<Rightarrow> instant option" where
  "time_exit_of ny from_ny e ref =
     (if ex_max_hold_seconds e \<noteq> None \<and> ex_max_hold_seconds e \<noteq> Some 0
      then Some (ref + the (ex_max_hold_seconds e) * 1000000)
      else case Option.bind (ex_time_exit e) parse_pair of
        None \<Rightarrow> None
      | Some hm \<Rightarrow> (case replace_time (ny_wall ny ref) hm of Inl err \<Rightarrow> None | Inr wall \<Rightarrow> Some (from_ny wall)))"

definition apply_exit_rules :: "zone \<Rightarrow> (int \<Rightarrow> instant) \<Rightarrow> instant \<Rightarrow> position \<Rightarrow> instant \<Rightarrow> runner \<Rightarrow> runner" where
  "apply_exit_rules ny from_ny now p ref r =
     (case map_of (rn_configs r) (ps_strategy p) of
        None \<Rightarrow> r
      | Some cfg \<Rightarrow>
          if \<not> open_status (ps_status p) then r
          else
            let e = sc_exit cfg;
                stop = map_option (loss_price p) (ex_stop_loss_pct e);
                target = map_option (profit_price p) (ex_take_profit_pct e);
                time_exit = time_exit_of ny from_ny e ref
            in if stop \<noteq> None \<or> target \<noteq> None \<or> time_exit \<noteq> None
               then put_book (set_exit_rules now (ps_id p) stop target time_exit (ex_use_mid e) (rn_book r)) r
               else r)"

section \<open>The check\<close>

definition positions_with_pending_exit_orders :: "order_manager \<Rightarrow> uuid set" where
  "positions_with_pending_exit_orders om = set (List.map_filter os_position_id
     (filter (\<lambda>o'. \<not> os_is_entry o' \<and> active_status (os_status o')) (dict_values (om_orders om))))"

definition tidy_exits :: "uuid set \<Rightarrow> runner \<Rightarrow> runner" where
  "tidy_exits open_ids r = r\<lparr>rn_asymmetric := rn_asymmetric r \<inter> open_ids, rn_manual_exits := rn_manual_exits r \<inter> open_ids,
     rn_exit_attempts := filter (\<lambda>kv. fst kv \<in> open_ids) (rn_exit_attempts r)\<rparr>"

definition exit_symbols :: "position list \<Rightarrow> quote_key list" where
  "exit_symbols ps = remdups (concat (map (\<lambda>p. [to_quote_symbol (ps_contract p), Symbol_Key (oc_symbol (ps_contract p))]) ps))"

fun collect_provider_exits :: "world \<Rightarrow> string set \<Rightarrow> (string \<times> strategy_config) list \<Rightarrow> runner \<Rightarrow> uuid set \<times> runner" where
  "collect_provider_exits w sids [] r = ({}, r)"
| "collect_provider_exits w sids ((sid, cfg) # rest) r =
     (if \<not> sc_enabled cfg \<or> sid \<notin> sids then collect_provider_exits w sids rest r
      else case w_collect_exits w cfg r of
        (reply, r1) \<Rightarrow> (case collect_provider_exits w sids rest r1 of
          (ids, r2) \<Rightarrow> ((case reply of Inl e \<Rightarrow> {} | Inr flagged \<Rightarrow> flagged) \<union> ids, r2)))"

text \<open>The retry throttle: what is remembered of a position is the number of attempts and the last.\<close>

definition throttled :: "instant \<Rightarrow> (nat \<times> instant) option \<Rightarrow> bool" where
  "throttled now entry = (case entry of None \<Rightarrow> False
     | Some (attempts, last_at) \<Rightarrow> 5 \<le> attempts \<and> seconds_between now last_at < 60
         \<or> 1 \<le> attempts \<and> seconds_between now last_at < 10)"

definition note_attempt :: "instant \<Rightarrow> (nat \<times> instant) option \<Rightarrow> nat \<times> instant" where
  "note_attempt now entry = ((case entry of None \<Rightarrow> 0 | Some (attempts, last_at) \<Rightarrow> attempts) + 1, now)"

definition exit_approval :: "order_intent \<Rightarrow> risk_decision" where
  "exit_approval i = \<lparr>rd_id = oi_decision_id i, rd_signal_id = oi_signal_id i, rd_status = APPROVED,
     rd_allowed = oi_quantity i, rd_blocking = [], rd_warnings = []\<rparr>"

definition exit_reprice :: "string option \<Rightarrow> reprice_config" where
  "exit_reprice algo = default_reprice\<lparr>rc_enabled := True, rc_max_attempts := 20, rc_interval := 1, rc_timeout := 120,
     rc_cross_after := Some 3, rc_cross_offset := 1/20, rc_in_place := (algo = None)\<rparr>"

definition blocks_exit :: "position \<Rightarrow> order_intent \<Rightarrow> order_state \<Rightarrow> bool" where
  "blocks_exit p i o' \<longleftrightarrow> os_status o' \<in> {NEW, SUBMITTED, PARTIALLY_FILLED}
     \<and> os_contract o' = ps_contract p \<and> os_side o' \<noteq> oi_side i"

definition submit_exit ::
  "world \<Rightarrow> instant \<Rightarrow> uuid \<Rightarrow> uuid \<Rightarrow> string option \<Rightarrow> exit_signal \<Rightarrow> runner \<Rightarrow> runner" where
  "submit_exit w now plan_id oid algo sig r = (case sig of (p, i, reason) \<Rightarrow>
     let entry = map_of (rn_exit_attempts r) (ps_id p)
     in if throttled now entry then r
        else
          let r1 = r\<lparr>rn_exit_attempts := AList.update (ps_id p) (note_attempt now entry) (rn_exit_attempts r)\<rparr>;
              r2 = fold (cancel_when w now (blocks_exit p i)) (dict_keys (om_orders (rn_orders r1))) r1;
              r3 = r2\<lparr>rn_exit_reasons := AList.update (ps_id p)
                        (if ps_id p \<in> rn_manual_exits r2 then ''manual'' else reason) (rn_exit_reasons r2)\<rparr>
          in snd (runner_submit w now plan_id oid i (exit_approval i) (exit_reprice algo) algo r3))"

text \<open>Signal \<open>k\<close> of the check takes the draws \<open>2k\<close> and \<open>2k+1\<close> for its plan and order.\<close>

fun submit_exits :: "world \<Rightarrow> instant \<Rightarrow> (nat \<Rightarrow> uuid) \<Rightarrow> string option \<Rightarrow> exit_signal list \<Rightarrow> runner \<Rightarrow> runner" where
  "submit_exits w now uu algo [] r = r"
| "submit_exits w now uu algo (sig # sigs) r =
     submit_exits w now (\<lambda>k. uu (k + 2)) algo sigs (submit_exit w now (uu 0) (uu 1) algo sig r)"

definition put_store :: "event_store \<Rightarrow> runner \<Rightarrow> runner" where
  "put_store es r = r\<lparr>rn_parts := (rn_parts r)\<lparr>cp_store := es\<rparr>\<rparr>"

text \<open>The rest of the check, for the positions \<open>eligible\<close> among the open ones. A failed quote request
  counts as no quotes; the exit manager sees the positions as they are after the awaits.\<close>

definition check_eligible ::
  "zone \<Rightarrow> world \<Rightarrow> instant \<Rightarrow> (nat \<Rightarrow> uuid) \<Rightarrow> (nat \<Rightarrow> uuid) \<Rightarrow> string option \<Rightarrow> position list \<Rightarrow> position list \<Rightarrow> unit awaited" where
  "check_eligible ny w now ids uu algo open_positions eligible r =
     (let symbols = exit_symbols open_positions
      in case w_quotes w symbols r of (reply, r1) \<Rightarrow>
        let quotes = (case reply of Inl e \<Rightarrow> [] | Inr qs \<Rightarrow> qs);
            r2 = put_book (update_position_prices now quotes (rn_book r1)) r1;
            bars = List.map_filter (\<lambda>k. map_option (Pair k) (w_bar w k r2)) symbols
        in case collect_provider_exits w (set (map ps_strategy eligible)) (rn_configs r2) r2 of (flagged, r3) \<Rightarrow>
          (case check_exits ny now quotes bars (rn_flatten_all r3) (rn_asymmetric r3 \<union> rn_manual_exits r3 \<union> flagged)
                  (map_option (\<lambda>c. fr_max_spread_pct c * 2) (rn_risk r3)) (map_option fr_exit_max_age (rn_risk r3)) ids
                  (List.map_filter (map_of (pb_positions (rn_book r3))) (map ps_id eligible)) (cp_store (rn_parts r3)) of
             (Inl e, es) \<Rightarrow> (Inl e, put_store es r3)
           | (Inr sigs, es) \<Rightarrow> (Inr (), submit_exits w now uu algo sigs (put_store es r3))))"

definition check_exits_tick ::
  "zone \<Rightarrow> world \<Rightarrow> instant \<Rightarrow> (nat \<Rightarrow> uuid) \<Rightarrow> (nat \<Rightarrow> uuid) \<Rightarrow> string option \<Rightarrow> unit awaited" where
  "check_exits_tick ny w now ids uu algo r =
     (let open_positions = get_open_positions (rn_book r)
      in if open_positions = [] then
           (Inr (), r\<lparr>rn_asymmetric := {}, rn_manual_exits := {}, rn_flatten_all := False\<rparr>)
         else
           let r1 = tidy_exits (set (map ps_id open_positions)) r;
               pending = positions_with_pending_exit_orders (rn_orders r1);
               eligible = filter (\<lambda>p. ps_id p \<notin> pending) open_positions
           in if eligible = [] then (Inr (), r1)
              else check_eligible ny w now ids uu algo open_positions eligible r1)"

section \<open>The throttle\<close>

text \<open>The times at which a position whose exit stays due is tried, when it is looked at at the times given.\<close>

fun attempt_times :: "(nat \<times> instant) option \<Rightarrow> instant list \<Rightarrow> instant list" where
  "attempt_times entry [] = []"
| "attempt_times entry (t # ts) =
     (if throttled t entry then attempt_times entry ts else t # attempt_times (Some (note_attempt t entry)) ts)"

lemma attempts_spaced:
  "1 \<le> n \<Longrightarrow> i < length (attempt_times (Some (n, t0)) ts) \<Longrightarrow>
   (let earlier = (t0 # attempt_times (Some (n, t0)) ts) ! i; later = attempt_times (Some (n, t0)) ts ! i
    in 10 \<le> seconds_between later earlier \<and> (5 \<le> n + i \<longrightarrow> 60 \<le> seconds_between later earlier))"
proof (induction ts arbitrary: n t0 i)
  case (Cons t ts)
  show ?case
  proof (cases "throttled t (Some (n, t0))")
    case False
    then have eq: "attempt_times (Some (n, t0)) (t # ts) = t # attempt_times (Some (Suc n, t)) ts"
      by (simp add: note_attempt_def)
    show ?thesis
    proof (cases i)
      case 0
      with False Cons.prems(1) eq show ?thesis by (auto simp: throttled_def)
    next
      case (Suc j)
      with Cons.IH [of "Suc n" j t] Cons.prems(2) eq show ?thesis by (simp add: Let_def)
    qed
  qed (use Cons in simp)
qed simp

text \<open>Exit orders of one position are not sent in bursts. Whatever the times at which its exit is
  found due, consecutive attempts are at least ten seconds apart, and from the fifth attempt on at
  least sixty; the first time is always an attempt, and so is any time sixty seconds after the last.\<close>

lemma exit_attempts_spaced:
  assumes "attempts = attempt_times None ts" "Suc i < length attempts"
  shows "10 \<le> seconds_between (attempts ! Suc i) (attempts ! i)
    \<and> (4 \<le> i \<longrightarrow> 60 \<le> seconds_between (attempts ! Suc i) (attempts ! i))
    \<and> hd attempts = hd ts
    \<and> (\<forall>n t t0. 60 \<le> seconds_between t t0 \<longrightarrow> \<not> throttled t (Some (n, t0)))"
proof -
  obtain t ts' where ts: "ts = t # ts'" using assms by (cases ts) auto
  then have a: "attempts = t # attempt_times (Some (1, t)) ts'"
    using assms(1) by (simp add: throttled_def note_attempt_def)
  have "10 \<le> seconds_between (attempts ! Suc i) (attempts ! i)
      \<and> (4 \<le> i \<longrightarrow> 60 \<le> seconds_between (attempts ! Suc i) (attempts ! i))"
    using attempts_spaced [of 1 i t ts'] assms(2) by (simp add: a Let_def)
  moreover have "hd attempts = hd ts" by (simp add: a ts)
  moreover have "\<not> throttled t (Some (n, t0))" if "60 \<le> seconds_between t t0" for n t t0
    using that by (auto simp: throttled_def)
  ultimately show ?thesis by blast
qed

theorem exit_attempts_spaced_witness:
  "attempt_times None [0, 1000000, 10000000, 15000000] = [0, 10000000]
   \<and> 10 \<le> seconds_between ([0, 10000000] ! Suc 0) ([0, 10000000] ! 0)"
proof -
  have a: "attempt_times None [0, 1000000, 10000000, 15000000] = [0, 10000000]" by code_simp
  with exit_attempts_spaced [OF a [symmetric], of 0] show ?thesis by simp
qed

section \<open>Exit rules\<close>

lemma exit_fraction_pos: "0 < pct \<Longrightarrow> 0 < exit_fraction pct"
  by (simp add: exit_fraction_def)

lemma exit_fraction_less: "pct < 100 \<Longrightarrow> exit_fraction pct < 1"
  by (simp add: exit_fraction_def)

definition on_loss_side :: "position \<Rightarrow> pyfloat \<Rightarrow> bool" where
  "on_loss_side p x \<longleftrightarrow> (if ps_side p = BUY then x < ps_avg_entry p else ps_avg_entry p < x)"

lemma loss_price_side: "0 < ps_avg_entry p \<Longrightarrow> 0 < pct \<Longrightarrow> on_loss_side p (loss_price p pct)"
  using exit_fraction_pos [of pct] by (simp add: on_loss_side_def loss_price_def)

lemma profit_price_side:
  "0 < ps_avg_entry p \<Longrightarrow> 0 < pct \<Longrightarrow> profit_price p pct \<noteq> ps_avg_entry p \<and> \<not> on_loss_side p (profit_price p pct)"
  using exit_fraction_pos [of pct] by (simp add: on_loss_side_def profit_price_def)

lemma rule_price_pos:
  "0 < ps_avg_entry p \<Longrightarrow> 0 < pct \<Longrightarrow> pct < 100 \<Longrightarrow> 0 < loss_price p pct \<and> 0 < profit_price p pct"
  using exit_fraction_less [of pct] exit_fraction_pos [of pct] by (simp add: loss_price_def profit_price_def add_pos_pos)

text \<open>The exit rules protect. When exit rules of a validated configuration are applied to an open
  position of the book, its stop is on the losing side of its average entry price and its target
  strictly on the winning side, each set exactly when configured, the stop is positive for
  percentages below 100, a holding time counts from the reference time, and no other position is
  touched.\<close>

lemma exit_rules_sides:
  assumes "map_of (rn_configs r) (ps_strategy p) = Some cfg" "mk_exit_config (sc_exit cfg) = Inr e"
    and "open_status (ps_status p)" "map_of (pb_positions (rn_book r)) (ps_id p) = Some p" "0 < ps_avg_entry p"
    and "ex_stop_loss_pct e \<noteq> None \<or> ex_take_profit_pct e \<noteq> None"
    and "r' = apply_exit_rules ny from_ny now p ref r"
  shows "\<exists>p'. map_of (pb_positions (rn_book r')) (ps_id p) = Some p'
    \<and> (case ex_stop_loss_pct e of None \<Rightarrow> ps_stop p' = None
        | Some pct \<Rightarrow> \<exists>x. ps_stop p' = Some x \<and> on_loss_side p x \<and> (pct < 100 \<longrightarrow> 0 < x))
    \<and> (case ex_take_profit_pct e of None \<Rightarrow> ps_target p' = None
        | Some pct \<Rightarrow> \<exists>x. ps_target p' = Some x \<and> x \<noteq> ps_avg_entry p \<and> \<not> on_loss_side p x)
    \<and> (\<forall>n. ex_max_hold_seconds e = Some n \<longrightarrow> ps_time_exit p' = Some (ref + n * 1000000))
    \<and> (\<forall>i. i \<noteq> ps_id p \<longrightarrow> map_of (pb_positions (rn_book r')) i = map_of (pb_positions (rn_book r)) i)"
proof -
  have e: "sc_exit cfg = e" "opt_pos (ex_stop_loss_pct e)" "opt_pos (ex_take_profit_pct e)"
    "\<And>n. ex_max_hold_seconds e = Some n \<Longrightarrow> 0 < n"
    using assms(2) by (auto simp: mk_exit_config_def try_bind_eq_Inr split: if_splits option.splits)
  let ?stop = "map_option (loss_price p) (ex_stop_loss_pct e)" and ?target = "map_option (profit_price p) (ex_take_profit_pct e)"
  let ?t = "time_exit_of ny from_ny e ref"
  have r': "r' = put_book (set_exit_rules now (ps_id p) ?stop ?target ?t (ex_use_mid e) (rn_book r)) r"
    using assms(1,3,6,7) e(1) by (auto simp: apply_exit_rules_def Let_def)
  let ?p = "p\<lparr>ps_stop := ?stop, ps_target := ?target, ps_time_exit := ?t, ps_use_mid := ex_use_mid e, ps_updated := now\<rparr>"
  have pos: "pb_positions (rn_book r') = AList.update (ps_id p) ?p (pb_positions (rn_book r))"
    using assms(4) by (simp add: r' set_exit_rules_def)
  have "case ex_stop_loss_pct e of None \<Rightarrow> ?stop = None
      | Some pct \<Rightarrow> \<exists>x. ?stop = Some x \<and> on_loss_side p x \<and> (pct < 100 \<longrightarrow> 0 < x)"
    using e(2) loss_price_side [OF assms(5)] rule_price_pos [OF assms(5)] by (auto simp: opt_pos_def split: option.splits)
  moreover have "case ex_take_profit_pct e of None \<Rightarrow> ?target = None
      | Some pct \<Rightarrow> \<exists>x. ?target = Some x \<and> x \<noteq> ps_avg_entry p \<and> \<not> on_loss_side p x"
    using e(3) profit_price_side [OF assms(5)] by (auto simp: opt_pos_def split: option.splits)
  moreover have "?t = Some (ref + n * 1000000)" if "ex_max_hold_seconds e = Some n" for n
    using e(4) [OF that] that by (simp add: time_exit_of_def)
  ultimately show ?thesis by (intro exI [of _ ?p] conjI) (auto simp: pos split: option.splits)
qed

definition protected_position :: position where
  "protected_position = (open_position (sample_fill BUY 2 4) 5)\<lparr>ps_strategy := ''s1''\<rparr>"

definition protected_runner :: runner where
  "protected_runner = put_book ((new_book new_store)\<lparr>pb_positions := [(5, protected_position)]\<rparr>) sample_runner"

theorem exit_rules_sides_witness:
  "\<exists>p' x. map_of (pb_positions (rn_book (apply_exit_rules ny_summer (\<lambda>x. x) 7 protected_position 7 protected_runner))) 5 = Some p'
     \<and> ps_stop p' = Some x \<and> 0 < x \<and> x < ps_avg_entry protected_position"
proof -
  have p: "ps_strategy protected_position = ''s1''" "ps_id protected_position = 5" "ps_side protected_position = BUY"
    "open_status (ps_status protected_position)" "0 < ps_avg_entry protected_position"
    by code_simp+
  have c: "map_of (rn_configs protected_runner) (ps_strategy protected_position) = Some sample_strategy"
    by (simp add: p protected_runner_def put_book_def sample_runner_def new_runner_def)
  have e: "mk_exit_config (sc_exit sample_strategy) = Inr sample_exit" by code_simp
  have b: "map_of (pb_positions (rn_book protected_runner)) (ps_id protected_position) = Some protected_position"
    by (simp add: p protected_runner_def)
  have s: "ex_stop_loss_pct sample_exit = Some 0.5" by (simp add: sample_exit_def)
  from exit_rules_sides [OF c e p(4) b p(5) _ refl, of ny_summer "\<lambda>x. x" 7 7] s p(2,3) show ?thesis
    by (auto simp: on_loss_side_def)
qed

text \<open>The time exit and the entry window agree. For a strategy with an exit time the position's
  time exit is that time on the New York day of its entry, and on that day the strategy's exit bound
  on new entries holds exactly from that moment on: it never enters after its positions are to be
  closed, and never stops entering before. Assumed is that the wall clock in question is one that
  New York shows.\<close>

lemma time_exit_closes_entries:
  assumes "ex_max_hold_seconds (sc_exit cfg) = None"
    and "ex_time_exit (sc_exit cfg) = Some (render_hhmm h m)" "0 \<le> h" "h \<le> 23" "0 \<le> m" "m \<le> 59"
    and "\<exists>t. ny_wall ny t = ny_date ny ref * us_per_day + (h * 60 + m) * us_per_minute"
    and "\<And>t. ny_wall ny (from_ny (ny_wall ny t)) = ny_wall ny t"
  shows "\<exists>t. time_exit_of ny from_ny (sc_exit cfg) ref = Some t \<and> ny_date ny t = ny_date ny ref
    \<and> ny_minute_of_day ny t = h * 60 + m
    \<and> (\<forall>now. ny_date ny now = ny_date ny ref \<longrightarrow> (exit_time_reached ny cfg now \<longleftrightarrow> ny_wall ny t \<le> ny_wall ny now))"
proof -
  let ?wall = "ny_date ny ref * us_per_day + (h * 60 + m) * us_per_minute"
  let ?t = "from_ny ?wall"
  have t: "time_exit_of ny from_ny (sc_exit cfg) ref = Some ?t"
    using assms(1-6) by (simp add: time_exit_of_def parse_pair_render replace_time_def ny_date_def)
  have w: "ny_wall ny ?t = ?wall" using assms(7,8) by metis
  have day: "0 \<le> (h * 60 + m) * us_per_minute" "(h * 60 + m) * us_per_minute < us_per_day"
    using assms(3-6) by (simp_all add: us_per_minute_def us_per_day_def)
  then have d: "ny_date ny ?t = ny_date ny ref" and mod: "ny_wall ny ?t mod us_per_day = (h * 60 + m) * us_per_minute"
    using w by (simp_all add: ny_date_def)
  have min: "ny_minute_of_day ny ?t = h * 60 + m" unfolding ny_minute_of_day_def mod by (simp add: us_per_minute_def)
  have "exit_time_reached ny cfg now \<longleftrightarrow> ny_wall ny ?t \<le> ny_wall ny now" if same: "ny_date ny now = ny_date ny ref" for now
  proof -
    have "exit_time_reached ny cfg now \<longleftrightarrow> h * 60 + m \<le> ny_minute_of_day ny now"
      using assms(2-6) lex_minute_iff [of m h "ny_minute_of_day ny now"]
      by (simp add: exit_time_reached_def parse_pair_render Let_def)
    also have "\<dots> \<longleftrightarrow> (h * 60 + m) * us_per_minute \<le> ny_wall ny now mod us_per_day"
      by (simp add: ny_minute_of_day_def us_per_minute_def) linarith
    also have "\<dots> \<longleftrightarrow> ?wall \<le> ny_date ny ref * us_per_day + ny_wall ny now mod us_per_day" by simp
    also have "ny_date ny ref * us_per_day + ny_wall ny now mod us_per_day = ny_wall ny now"
      unfolding same [symmetric] by (simp add: ny_date_def)
    also have "?wall = ny_wall ny ?t" by (rule w [symmetric])
    finally show ?thesis .
  qed
  with t d min show ?thesis by blast
qed

theorem time_exit_closes_entries_witness:
  "\<exists>t. time_exit_of ny_summer (\<lambda>x. x + 14400000000) sample_exit 7 = Some t \<and> ny_minute_of_day ny_summer t = 930"
proof -
  have c: "ex_max_hold_seconds (sc_exit sample_strategy) = None"
    "ex_time_exit (sc_exit sample_strategy) = Some (render_hhmm 15 30)" "sc_exit sample_strategy = sample_exit"
    by code_simp+
  have z: "\<exists>t. ny_wall ny_summer t = x" for x
    by (rule exI [of _ "x + 14400000000"]) (simp add: ny_wall_def ny_summer_def)
  from time_exit_closes_entries [OF c(1,2) _ _ _ _ z, of "\<lambda>x. x + 14400000000" 7] show ?thesis
    by (auto simp: c(3) ny_wall_def ny_summer_def)
qed

text \<open>An order that works against an exit on \<open>side\<close>: of the same contract, on the other side, and
  possibly live at the broker.\<close>

definition works_against :: "option_contract \<Rightarrow> order_side \<Rightarrow> order_state \<Rightarrow> bool" where
  "works_against c side o' \<longleftrightarrow> os_contract o' = c \<and> os_side o' \<noteq> side
     \<and> (os_status o' = NEW \<or> os_status o' = SUBMITTED \<or> os_status o' = PARTIALLY_FILLED)"

lemma blocks_exit_eq: "blocks_exit p i = works_against (ps_contract p) (oi_side i)"
  by (rule ext) (auto simp: blocks_exit_def works_against_def)

text \<open>C30: an exit is not sent against working orders. When an exit is submitted, no order that the book
  held when the exit's turn came and that is of the same contract on the other side is new, submitted or
  partially filled any more: each has been cancelled first, whichever strategy it was for. Assumed is
  that what runs while the cancels are awaited keeps the orders well formed and brings no such order
  back. An opposite order that is risk checked (on its way to the broker) or waiting for its cancel, or
  that comes into the book during those awaits, is not looked for and not covered.\<close>

theorem exit_unopposed:
  assumes "\<not> throttled now (map_of (rn_exit_attempts r) (ps_id p))" "om_ok (rn_orders r)"
    and "\<And>bid. keeps (\<lambda>r. om_ok (rn_orders r)) (w_cancel w bid)"
    and "\<And>bid j. keeps (quiet (works_against (ps_contract p) (oi_side i)) j) (w_cancel w bid)"
  shows "\<exists>r3. submit_exit w now plan_id oid algo (p, i, reason) r
      = snd (runner_submit w now plan_id oid i (exit_approval i) (exit_reprice algo) algo r3)
    \<and> (\<forall>j \<in> set (dict_keys (om_orders (rn_orders r))). \<forall>o'. map_of (om_orders (rn_orders r3)) j = Some o' \<longrightarrow>
         os_contract o' = ps_contract p \<longrightarrow> os_side o' \<noteq> oi_side i \<longrightarrow>
         os_status o' \<noteq> NEW \<and> os_status o' \<noteq> SUBMITTED \<and> os_status o' \<noteq> PARTIALLY_FILLED)"
proof -
  let ?r1 = "r\<lparr>rn_exit_attempts := AList.update (ps_id p) (note_attempt now (map_of (rn_exit_attempts r) (ps_id p))) (rn_exit_attempts r)\<rparr>"
  let ?P = "works_against (ps_contract p) (oi_side i)"
  let ?r2 = "fold (cancel_when w now ?P) (dict_keys (om_orders (rn_orders r))) ?r1"
  let ?r3 = "?r2\<lparr>rn_exit_reasons := AList.update (ps_id p) (if ps_id p \<in> rn_manual_exits ?r2 then ''manual'' else reason) (rn_exit_reasons ?r2)\<rparr>"
  have o1: "rn_orders ?r1 = rn_orders r" by (simp add: rn_orders_def)
  have c: "cancellable ?P" by (auto simp: cancellable_def works_against_def active_entry_status_def)
  have "quiet ?P j ?r2" if "j \<in> set (dict_keys (om_orders (rn_orders r)))" for j
    by (rule cancel_all_quiet [OF c assms(3,4)]) (use that assms(2) in \<open>simp_all add: o1\<close>)
  then have "\<forall>j \<in> set (dict_keys (om_orders (rn_orders r))). quiet ?P j ?r3"
    by (simp add: quiet_def rn_orders_def)
  moreover have "submit_exit w now plan_id oid algo (p, i, reason) r
      = snd (runner_submit w now plan_id oid i (exit_approval i) (exit_reprice algo) algo ?r3)"
    using assms(1) by (simp add: submit_exit_def Let_def o1 blocks_exit_eq)
  ultimately show ?thesis by (intro exI [of _ ?r3]) (auto simp: quiet_def works_against_def)
qed

text \<open>The order of the witness is for the contract and on the other side, and works at the broker.\<close>

definition opposed_position :: position where
  "opposed_position = sample_open\<lparr>ps_contract := os_contract (sample_reply SUBMITTED)\<rparr>"

definition opposing_intent :: order_intent where
  "opposing_intent = (sample_intent (Some 1))\<lparr>oi_side := (if os_side (sample_reply SUBMITTED) = BUY then SELL else BUY)\<rparr>"

theorem exit_unopposed_witness:
  "works_against (ps_contract opposed_position) (oi_side opposing_intent) (the (map_of (om_orders (rn_orders aged_runner)) 21))
   \<and> (\<exists>r3. submit_exit flat_world 7 30 31 None (opposed_position, opposing_intent, ''stop_loss'') aged_runner
      = snd (runner_submit flat_world 7 30 31 opposing_intent (exit_approval opposing_intent) (exit_reprice None) None r3)
    \<and> (\<forall>o'. map_of (om_orders (rn_orders r3)) 21 = Some o' \<longrightarrow>
         os_contract o' = ps_contract opposed_position \<longrightarrow> os_side o' \<noteq> oi_side opposing_intent \<longrightarrow> os_status o' \<noteq> SUBMITTED))"
proof -
  have "\<not> throttled 7 (map_of (rn_exit_attempts aged_runner) (ps_id opposed_position))" by code_simp
  moreover have "21 \<in> set (dict_keys (om_orders (rn_orders aged_runner)))" by code_simp
  moreover have "keeps I (w_cancel flat_world bid)" for I bid by (simp add: keeps_def flat_world_def)
  moreover have "works_against (ps_contract opposed_position) (oi_side opposing_intent) (the (map_of (om_orders (rn_orders aged_runner)) 21))"
    by code_simp
  ultimately show ?thesis
    using exit_unopposed [OF _ aged_runner_ok, of 7 opposed_position flat_world opposing_intent 30 31 None "''stop_loss''"] by blast
qed

end
