(* ===== verification/Fill_Flow.thy ===== *)
theory Fill_Flow
  imports Exit_Flow
begin

text \<open>
  What fills, commissions and a restart do to the books, in \<^verbatim>\<open>src/app/runner.py\<close>: the chained fill
  callback of \<open>register_fill_handler\<close>, \<open>_on_commission\<close>, and \<open>_seed_positions_from_broker\<close>. \<open>clock\<close> and
  \<open>db\<close> are the times and outcomes of the attempts to write a position's attribution row. The chained
  callback hands the write to a background task: it returns the task, \<open>persist_in_background\<close> runs it
  on the position as it is then.
\<close>

section \<open>Fills\<close>

definition aligned_fill :: "fill_event \<Rightarrow> order_manager \<Rightarrow> fill_event" where
  "aligned_fill f om = (case find_order_by_broker_id (fe_broker_id f) om of
     None \<Rightarrow> f | Some o' \<Rightarrow> f\<lparr>fe_order_id := os_id o'\<rparr>)"


definition store_position :: "(nat \<Rightarrow> instant) \<Rightarrow> (uuid \<Rightarrow> nat \<Rightarrow> db_reply) \<Rightarrow> uuid \<Rightarrow> string option \<Rightarrow> runner \<Rightarrow> runner" where
  "store_position clock db pid reason r = (case map_of (pb_positions (rn_book r)) pid of
       None \<Rightarrow> r
     | Some p \<Rightarrow> r\<lparr>rn_attributions := upsert_position clock (db pid) p reason (rn_attributions r)\<rparr>)"


section \<open>Commissions\<close>

definition commissioned :: "pyfloat \<Rightarrow> position \<Rightarrow> position" where
  "commissioned c p = p\<lparr>ps_realized := ps_realized p - c, ps_commission_paid := py_round 6 (ps_commission_paid p + c)\<rparr>"

definition ordered_by :: "uuid \<Rightarrow> position \<Rightarrow> bool" where
  "ordered_by oid p \<longleftrightarrow> ps_entry_order p = oid \<or> oid \<in> set (ps_exit_orders p)"

definition on_commission ::
  "(nat \<Rightarrow> instant) \<Rightarrow> (uuid \<Rightarrow> nat \<Rightarrow> db_reply) \<Rightarrow> uuid \<Rightarrow> pyfloat \<Rightarrow> runner \<Rightarrow> runner" where
  "on_commission clock db oid c r =
     (case List.find (ordered_by oid) (dict_values (pb_positions (rn_book r))) of
        None \<Rightarrow> r
      | Some p \<Rightarrow> store_position clock db (ps_id p) None (put_book (put_position (commissioned c p) (rn_book r)) r))"

section \<open>Seeding\<close>

definition heuristic_strategy :: "(string, strategy_config) pydict \<Rightarrow> position \<Rightarrow> string option" where
  "heuristic_strategy cfgs p = map_option fst
     (List.find (\<lambda>(sid, cfg). sc_enabled cfg \<and> sc_underlying cfg = oc_symbol (ps_contract p)) cfgs)"

definition known_row :: "(string, strategy_config) pydict \<Rightarrow> attribution option \<Rightarrow> attribution option" where
  "known_row cfgs attr = (case attr of None \<Rightarrow> None
     | Some a \<Rightarrow> if map_of cfgs (at_strategy a) \<noteq> None then Some a else None)"

definition seeded_position ::
  "(string, strategy_config) pydict \<Rightarrow> instant \<Rightarrow> attribution option \<Rightarrow> position \<Rightarrow> position \<times> string option \<times> instant" where
  "seeded_position cfgs now attr p =
     (let known = known_row cfgs attr;
          matched = (case known of Some a \<Rightarrow> Some (at_strategy a) | None \<Rightarrow> heuristic_strategy cfgs p);
          entry = (case Option.bind known at_entry_time of Some t \<Rightarrow> t | None \<Rightarrow> now)
      in (p\<lparr>ps_id := (case known of Some a \<Rightarrow> at_id a | None \<Rightarrow> ps_id p),
            ps_strategy := (if truthy matched then the matched else ''unknown''),
            ps_status := OPEN, ps_entry_time := Some entry, ps_created := entry, ps_updated := now\<rparr>,
          matched, entry))"

definition attribution_source :: "(string, strategy_config) pydict \<Rightarrow> attribution option \<Rightarrow> position \<Rightarrow> farg" where
  "attribution_source cfgs attr p =
     (if known_row cfgs attr \<noteq> None then FStr ''position_store''
      else if heuristic_strategy cfgs p \<noteq> None then FStr ''underlying_heuristic'' else FNone)"

definition seed_one_position ::
  "zone \<Rightarrow> (int \<Rightarrow> instant) \<Rightarrow> (nat \<Rightarrow> instant) \<Rightarrow> (uuid \<Rightarrow> nat \<Rightarrow> db_reply) \<Rightarrow> instant
     \<Rightarrow> position \<times> attribution option \<Rightarrow> runner \<Rightarrow> runner" where
  "seed_one_position ny from_ny clock db now pa r = (case pa of (bpos, attr) \<Rightarrow>
     case seeded_position (rn_configs r) now attr bpos of (p, matched, entry) \<Rightarrow>
       let r1 = log_runner now ''position_seeded_from_broker'' (P_Dict
                  [(''position_id'', FId (ps_id p)), (''strategy_id'', FStr (ps_strategy p)),
                   (''attribution_source'', attribution_source (rn_configs r) attr bpos),
                   (''contract'', contract_arg (ps_contract p)), (''side'', side_arg (ps_side p)),
                   (''quantity'', FInt (ps_quantity p)), (''average_entry_price'', FFloat (ps_avg_entry p)),
                   (''timestamp'', FTime now)]) (put_book (put_position p (rn_book r)) r);
           r2 = (if truthy matched then apply_exit_rules ny from_ny now p entry r1 else r1)
       in store_position clock db (ps_id p) None r2)"

text \<open>One position of the broker: shared by several attribution rows it is split into one per row.
  \<open>reads bpos\<close> is what the lookup for it meets, \<open>sweep\<close> what the final sweep does; a lookup that cannot
  open the database raises, and seeding with it.\<close>

definition seed_shares :: "attribution list \<Rightarrow> position \<Rightarrow> (position \<times> attribution option) list" where
  "seed_shares rows bpos =
     (case rows of
        [] \<Rightarrow> [(bpos, None)]
      | [a] \<Rightarrow> [(bpos, Some a)]
      | rows \<Rightarrow> map (\<lambda>a. (bpos\<lparr>ps_quantity := at_quantity a, ps_avg_entry := at_avg_entry a\<rparr>, Some a)) rows)"

definition seed_broker_position ::
  "zone \<Rightarrow> (int \<Rightarrow> instant) \<Rightarrow> (nat \<Rightarrow> instant) \<Rightarrow> (uuid \<Rightarrow> nat \<Rightarrow> db_reply) \<Rightarrow> (position \<Rightarrow> db_query) \<Rightarrow> instant
     \<Rightarrow> position \<Rightarrow> unit awaited" where
  "seed_broker_position ny from_ny clock db reads now bpos r =
     (if ps_quantity bpos = 0 then (Inr (), r)
      else case find_all_open_attributions (reads bpos) (contract_identity (ps_contract bpos)) (rn_attributions r) of
        Inl e \<Rightarrow> (Inl e, r)
      | Inr rows \<Rightarrow> (Inr (), fold (seed_one_position ny from_ny clock db now) (seed_shares rows bpos) r))"

definition seeded_keys :: "position list \<Rightarrow> (string \<times> string \<times> pyfloat \<times> option_right) set" where
  "seeded_keys bps = set (map (\<lambda>p. contract_identity (ps_contract p)) (filter (\<lambda>p. ps_quantity p \<noteq> 0) bps))"

definition seed_positions_from_broker ::
  "zone \<Rightarrow> (int \<Rightarrow> instant) \<Rightarrow> world \<Rightarrow> (nat \<Rightarrow> instant) \<Rightarrow> (uuid \<Rightarrow> nat \<Rightarrow> db_reply) \<Rightarrow> (position \<Rightarrow> db_query)
     \<Rightarrow> db_query \<Rightarrow> instant \<Rightarrow> unit awaited" where
  "seed_positions_from_broker ny from_ny w clock db reads sweep now r =
     (case w_positions w r of
        (Inl e, r1) \<Rightarrow> (Inr (), r1)
      | (Inr bps, r1) \<Rightarrow>
          if bps = [] then (Inr (), r1)
          else case run_each (seed_broker_position ny from_ny clock db reads now) bps r1 of
            (Inl e, r2) \<Rightarrow> (Inl e, r2)
          | (Inr _, r2) \<Rightarrow> (case mark_closed_if_absent sweep now (seeded_keys bps) (rn_attributions r2) of
              (res, table) \<Rightarrow> (map_sum id (\<lambda>n. ()) res, r2\<lparr>rn_attributions := table\<rparr>)))"

section \<open>Lemmas\<close>


text \<open>The exit rules touch the rule fields of one position only.\<close>

definition same_holding_data :: "position \<Rightarrow> position \<Rightarrow> bool" where
  "same_holding_data p q \<longleftrightarrow> ps_id p = ps_id q \<and> ps_strategy p = ps_strategy q \<and> ps_contract p = ps_contract q
     \<and> ps_entry_time p = ps_entry_time q \<and> ps_created p = ps_created q \<and> ps_status p = ps_status q
     \<and> ps_quantity p = ps_quantity q \<and> ps_avg_entry p = ps_avg_entry q"

lemma exit_rules_data:
  assumes "map_of (pb_positions (rn_book r)) i = Some p" "\<And>q. map_of (pb_positions (rn_book r)) (ps_id x) = Some q \<Longrightarrow> ps_id q = ps_id x"
  shows "\<exists>q. map_of (pb_positions (rn_book (apply_exit_rules ny from_ny now x ref r))) i = Some q \<and> same_holding_data p q"
proof -
  have "\<exists>q. map_of (pb_positions (set_exit_rules now (ps_id x) st tg te um (rn_book r))) i = Some q \<and> same_holding_data p q" for st tg te um
    using assms by (cases "map_of (pb_positions (rn_book r)) (ps_id x)") (auto simp: set_exit_rules_def same_holding_data_def)
  moreover have "same_holding_data p p" by (simp add: same_holding_data_def)
  ultimately show ?thesis
    using assms(1) by (auto simp: apply_exit_rules_def Let_def split: option.split)
qed

lemma exit_rules_frame [simp]:
  "rn_attributions (apply_exit_rules ny from_ny now p ref r) = rn_attributions r"
  "rn_traded_today (apply_exit_rules ny from_ny now p ref r) = rn_traded_today r"
  "rn_configs (apply_exit_rules ny from_ny now p ref r) = rn_configs r"
  "rn_exit_reasons (apply_exit_rules ny from_ny now p ref r) = rn_exit_reasons r"
  by (simp_all add: apply_exit_rules_def put_book_def Let_def split: option.split)

lemma matches_aligned: "matches_fill (f\<lparr>fe_order_id := x\<rparr>) = matches_fill f"
  by (rule ext) (simp add: matches_fill_def)

lemma aligned_frame [simp]:
  "fe_strategy (aligned_fill f om) = fe_strategy f" "fe_timestamp (aligned_fill f om) = fe_timestamp f"
  "fe_contract (aligned_fill f om) = fe_contract f" "matches_fill (aligned_fill f om) = matches_fill f"
  by (simp_all add: aligned_fill_def matches_aligned split: option.split)


section \<open>Properties\<close>





definition total_realized :: "runner \<Rightarrow> pyfloat" where
  "total_realized r = sum_list (map ps_realized (dict_values (pb_positions (rn_book r))))"

lemma sum_update_present:
  "wf_dict d \<Longrightarrow> map_of d k = Some v \<Longrightarrow>
   sum_list (map (g :: _ \<Rightarrow> pyfloat) (dict_values (AList.update k x d))) = sum_list (map g (dict_values d)) - g v + g x"
proof (induction d)
  case (Cons a d)
  show ?case
  proof (cases "fst a = k")
    case True
    with Cons.prems have "k \<notin> set (map fst d)" by (auto simp: wf_dict_def)
    with True Cons.prems show ?thesis by (cases a) (simp add: dict_values_def)
  next
    case False
    with Cons.prems Cons.IH show ?thesis by (cases a) (auto simp: dict_values_def wf_dict_def)
  qed
qed simp

lemma store_position_frame [simp]:
  "rn_book (store_position clock db pid reason r) = rn_book r"
  "rn_configs (store_position clock db pid reason r) = rn_configs r"
  by (simp_all add: store_position_def rn_book_def split: option.split)

text \<open>A commission is netted exactly once. Reporting a commission for an order lowers the sum of the
  realised profits of the book by that amount when a position was entered or exited by the order, by
  nothing otherwise, and at most one position changes, keeping everything but its profit and the
  commission paid.\<close>

lemma commission_nets_once:
  assumes "keyed_by ps_id (pb_positions (rn_book r))" "r' = on_commission clock db oid c r"
  shows "total_realized r' = total_realized r
      - (if list_ex (ordered_by oid) (dict_values (pb_positions (rn_book r))) then c else 0)
    \<and> (\<exists>i. \<forall>j. j \<noteq> i \<longrightarrow> map_of (pb_positions (rn_book r')) j = map_of (pb_positions (rn_book r)) j)
    \<and> (\<forall>i p p'. map_of (pb_positions (rn_book r)) i = Some p \<and> map_of (pb_positions (rn_book r')) i = Some p' \<longrightarrow>
         same_holding_data p p')"
proof (cases "List.find (ordered_by oid) (dict_values (pb_positions (rn_book r)))")
  case None
  then have "r' = r" "\<not> list_ex (ordered_by oid) (dict_values (pb_positions (rn_book r)))"
    using assms(2) find_NoneD [OF None] by (simp_all add: on_commission_def None list_ex_iff)
  then show ?thesis by (auto simp: same_holding_data_def)
next
  case (Some p)
  have p: "p \<in> set (dict_values (pb_positions (rn_book r)))" "ordered_by oid p" using find_SomeD [OF Some] by auto
  then obtain k where "map_of (pb_positions (rn_book r)) k = Some p"
    using assms(1) in_values_iff [of "pb_positions (rn_book r)" p] unfolding keyed_by_def by blast
  with assms(1) have k: "map_of (pb_positions (rn_book r)) (ps_id p) = Some p" "wf_dict (pb_positions (rn_book r))"
    by (auto simp: keyed_by_def)
  have r': "pb_positions (rn_book r') = AList.update (ps_id p) (commissioned c p) (pb_positions (rn_book r))"
    using assms(2) Some by (simp add: on_commission_def) (simp add: commissioned_def)
  have "total_realized r' = total_realized r - c"
    using sum_update_present [OF k(2,1)] by (simp add: total_realized_def r' commissioned_def)
  moreover have "list_ex (ordered_by oid) (dict_values (pb_positions (rn_book r)))" using p by (auto simp: list_ex_iff)
  moreover have "\<forall>j. j \<noteq> ps_id p \<longrightarrow> map_of (pb_positions (rn_book r')) j = map_of (pb_positions (rn_book r)) j"
    by (simp add: r')
  moreover have "same_holding_data p1 p2"
    if "map_of (pb_positions (rn_book r)) i = Some p1" "map_of (pb_positions (rn_book r')) i = Some p2" for i p1 p2
    using that k(1) by (auto simp: r' same_holding_data_def commissioned_def split: if_splits)
  ultimately show ?thesis by (auto simp del: map_of_update)
qed

theorem commission_nets_once_witness:
  "total_realized (on_commission (\<lambda>k. 8) (\<lambda>i k. DB_Error) 7 (3/2) protected_runner) = total_realized protected_runner - 3/2"
proof -
  have "pb_positions (rn_book protected_runner) = [(5, protected_position)]" by (simp add: protected_runner_def)
  moreover have "ps_id protected_position = 5" "ordered_by 7 protected_position"
    by (simp_all add: protected_position_def open_position_def ordered_by_def sample_fill_def)
  ultimately show ?thesis
    using commission_nets_once [of protected_runner _ "\<lambda>k. 8" "\<lambda>i k. DB_Error" 7 "3/2"]
    by (simp add: keyed_by_def wf_dict_def dict_values_def)
qed

section \<open>Restarts\<close>

text \<open>What seeding keeps of the attribution rows.\<close>

definition row_outline :: "attribution \<Rightarrow> uuid \<times> (string \<times> string \<times> pyfloat \<times> option_right) \<times> string \<times> bool" where
  "row_outline a = (at_id a, at_contract a, at_strategy a, open_status (at_status a))"

abbreviation outline :: "runner \<Rightarrow> (uuid \<times> (string \<times> string \<times> pyfloat \<times> option_right) \<times> string \<times> bool) list" where
  "outline r \<equiv> map row_outline (rn_attributions r)"

lemma outline_ids: "map row_outline t = map row_outline t' \<Longrightarrow> map at_id t = map at_id t'"
proof -
  assume "map row_outline t = map row_outline t'"
  then have "map fst (map row_outline t) = map fst (map row_outline t')" by simp
  then show ?thesis by (simp add: row_outline_def o_def)
qed

lemma upsert_outline:
  assumes "distinct (map at_id t)" "a \<in> set t" "at_id a = ps_id p" "at_strategy a = ps_strategy p"
    "open_status (at_status a)" "open_status (ps_status p)"
  shows "map row_outline (upsert_position clock reply p reason t) = map row_outline t"
proof -
  have "row_outline (conflict_update (position_row now p reason) x) = row_outline x" if "x \<in> set t" "at_id x = ps_id p" for x now
  proof -
    have "x = a" using assms(1-3) that by (auto simp: distinct_map inj_on_def)
    with assms(4-6) show ?thesis by (simp add: row_outline_def conflict_update_def position_row_def)
  qed
  then have "map row_outline (upsert_once now p reason t) = map row_outline t" for now
    using assms(2) assms(3) [symmetric] by (auto simp: upsert_once_def Let_def)
  with upsert_position_cases [of clock reply p reason t] show ?thesis by metis
qed

lemma seed_one_outline:
  assumes "distinct (map at_id (rn_attributions r))" "row_outline a \<in> set (outline r)" "open_status (at_status a)"
    "map_of (rn_configs r) (at_strategy a) \<noteq> None" "at_strategy a \<noteq> []"
  shows "outline (seed_one_position ny from_ny clock db now (bpos, Some a) r) = outline r"
    "rn_configs (seed_one_position ny from_ny clock db now (bpos, Some a) r) = rn_configs r"
proof -
  obtain p matched entry where s: "seeded_position (rn_configs r) now (Some a) bpos = (p, matched, entry)"
    by (metis prod_cases3)
  then have p: "ps_id p = at_id a" "ps_strategy p = at_strategy a" "ps_status p = OPEN"
    using assms(4,5) by (auto simp: seeded_position_def known_row_def Let_def)
  define r1 where "r1 = log_runner now ''position_seeded_from_broker'' (P_Dict
                  [(''position_id'', FId (ps_id p)), (''strategy_id'', FStr (ps_strategy p)),
                   (''attribution_source'', attribution_source (rn_configs r) (Some a) bpos),
                   (''contract'', contract_arg (ps_contract p)), (''side'', side_arg (ps_side p)),
                   (''quantity'', FInt (ps_quantity p)), (''average_entry_price'', FFloat (ps_avg_entry p)),
                   (''timestamp'', FTime now)]) (put_book (put_position p (rn_book r)) r)"
  define r2 where "r2 = (if truthy matched then apply_exit_rules ny from_ny now p entry r1 else r1)"
  have e: "seed_one_position ny from_ny clock db now (bpos, Some a) r = store_position clock db (ps_id p) None r2"
    by (simp add: seed_one_position_def s r1_def r2_def Let_def)
  have m: "map_of (pb_positions (rn_book r1)) (ps_id p) = Some p" by (simp add: r1_def)
  have f1: "rn_attributions r1 = rn_attributions r" "rn_configs r1 = rn_configs r"
    by (simp_all add: r1_def log_runner_def put_book_def)
  then have f: "rn_attributions r2 = rn_attributions r" "rn_configs r2 = rn_configs r" by (simp_all add: r2_def)
  obtain q where q: "map_of (pb_positions (rn_book r2)) (ps_id p) = Some q" "same_holding_data p q"
    using exit_rules_data [OF m, of p ny from_ny now entry] m by (cases "truthy matched") (auto simp: r2_def same_holding_data_def)
  obtain b where b: "b \<in> set (rn_attributions r)" "row_outline b = row_outline a" using assms(2) by auto
  have "map row_outline (upsert_position clock (db (ps_id p)) q None (rn_attributions r)) = outline r"
    by (rule upsert_outline [OF assms(1) b(1)]) (use b(2) p q(2) assms(3) in \<open>auto simp: row_outline_def same_holding_data_def open_status_def\<close>)
  then show "outline (seed_one_position ny from_ny clock db now (bpos, Some a) r) = outline r"
    by (simp add: e store_position_def q(1) f)
  show "rn_configs (seed_one_position ny from_ny clock db now (bpos, Some a) r) = rn_configs r" by (simp add: e f)
qed

text \<open>The rows are attributed: open ones to configured strategies, and every position the broker holds
  has one.\<close>

definition rows_attributed :: "(string, strategy_config) pydict \<Rightarrow> attribution_table \<Rightarrow> bool" where
  "rows_attributed cfgs t \<longleftrightarrow> distinct (map at_id t)
     \<and> (\<forall>a \<in> set t. open_status (at_status a) \<longrightarrow> map_of cfgs (at_strategy a) \<noteq> None \<and> at_strategy a \<noteq> [])"

definition has_open_row :: "attribution_table \<Rightarrow> position \<Rightarrow> bool" where
  "has_open_row t p \<longleftrightarrow> (\<exists>a \<in> set t. at_contract a = contract_identity (ps_contract p) \<and> open_status (at_status a))"

lemma outline_attributed:
  "map row_outline t = map row_outline t' \<Longrightarrow> rows_attributed cfgs t = rows_attributed cfgs t' \<and> has_open_row t p = has_open_row t' p"
proof -
  assume o': "map row_outline t = map row_outline t'"
  have A: "rows_attributed cfgs t \<longleftrightarrow> distinct (map fst (map row_outline t))
      \<and> (\<forall>(i, c, s, op) \<in> set (map row_outline t). op \<longrightarrow> map_of cfgs s \<noteq> None \<and> s \<noteq> [])" for t
    by (auto simp: rows_attributed_def row_outline_def o_def)
  have B: "has_open_row t p \<longleftrightarrow> (\<exists>(i, c, s, op) \<in> set (map row_outline t). c = contract_identity (ps_contract p) \<and> op)" for t
    by (auto simp: has_open_row_def row_outline_def)
  show ?thesis unfolding A [of t] A [of t'] B [of t] B [of t'] o' by simp
qed

lemma seed_broker_outline:
  assumes "rows_attributed (rn_configs r) (rn_attributions r)" "ps_quantity bpos \<noteq> 0 \<longrightarrow> has_open_row (rn_attributions r) bpos"
    and "ps_quantity bpos \<noteq> 0 \<longrightarrow> reads bpos = Query_Ok"
  shows "\<exists>r'. seed_broker_position ny from_ny clock db reads now bpos r = (Inr (), r') \<and> outline r' = outline r
    \<and> rn_configs r' = rn_configs r"
proof (cases "ps_quantity bpos = 0")
  case False
  let ?t = "rn_attributions r"
  let ?key = "contract_identity (ps_contract bpos)"
  have rows: "set (open_rows ?key ?t) = {a \<in> set ?t. at_contract a = ?key \<and> open_status (at_status a)}"
    by (simp add: open_rows_def)
  then have "open_rows ?key ?t \<noteq> []" using assms(2) False by (force simp: has_open_row_def)
  then have "\<exists>a. attr = Some a \<and> a \<in> set (open_rows ?key ?t)"
    if "(p, attr) \<in> set (seed_shares (open_rows ?key ?t) bpos)" for p attr
    using that by (auto simp: seed_shares_def split: list.splits)
  then have sh: "\<forall>(p, attr) \<in> set (seed_shares (open_rows ?key ?t) bpos). \<exists>a. attr = Some a \<and> a \<in> set ?t \<and> open_status (at_status a)"
    unfolding rows by blast
  have "outline (fold (seed_one_position ny from_ny clock db now) shares r1) = outline r
      \<and> rn_configs (fold (seed_one_position ny from_ny clock db now) shares r1) = rn_configs r"
    if "outline r1 = outline r" "rn_configs r1 = rn_configs r"
      "\<forall>(p, attr) \<in> set shares. \<exists>a. attr = Some a \<and> a \<in> set ?t \<and> open_status (at_status a)" for shares r1
    using that
  proof (induction shares arbitrary: r1)
    case (Cons s shares)
    obtain p a where s: "s = (p, Some a)" "a \<in> set ?t" "open_status (at_status a)" using Cons.prems(3) by (cases s) auto
    have att: "rows_attributed (rn_configs r1) (rn_attributions r1)"
      using assms(1) outline_attributed [OF Cons.prems(1)] Cons.prems(2) by simp
    have "row_outline a \<in> set (outline r1)" unfolding Cons.prems(1) using s(2) by simp
    from seed_one_outline [OF _ this s(3)] att assms(1) s(2,3) Cons.prems(2)
    have "outline (seed_one_position ny from_ny clock db now s r1) = outline r1"
      "rn_configs (seed_one_position ny from_ny clock db now s r1) = rn_configs r1"
      by (simp_all add: rows_attributed_def s(1))
    with Cons.IH [of "seed_one_position ny from_ny clock db now s r1"] Cons.prems show ?case by simp
  qed simp
  from this [OF refl refl sh] show ?thesis using False assms(3) by (simp add: seed_broker_position_def find_all_open_attributions_def)
qed (simp add: seed_broker_position_def)

text \<open>C32: a restart adds no rows to the attribution store. When the broker answers with at least one
  position, the rows of the store are keyed by position, its open rows belong to configured strategies,
  every position the broker holds has an open row, and the lookups of these rows succeed, then seeding
  raises nothing, writes no new row and changes the contract and strategy of none, whether or not its
  writes get through. If the final sweep gets through as well, no open row is left for a contract the
  broker does not hold; if it fails, the open rows are those of before.\<close>

theorem restart_adds_no_rows:
  assumes "w_positions w r = (Inr bps, r1)" "bps \<noteq> []" "rows_attributed (rn_configs r1) (rn_attributions r1)"
    and "\<And>p. p \<in> set bps \<Longrightarrow> ps_quantity p \<noteq> 0 \<Longrightarrow> has_open_row (rn_attributions r1) p \<and> reads p = Query_Ok"
    and "sweep = Query_Ok \<or> sweep = Query_Failed"
  shows "\<exists>r'. seed_positions_from_broker ny from_ny w clock db reads sweep now r = (Inr (), r')
    \<and> map (\<lambda>a. (at_id a, at_contract a, at_strategy a)) (rn_attributions r')
      = map (\<lambda>a. (at_id a, at_contract a, at_strategy a)) (rn_attributions r1)
    \<and> (sweep = Query_Ok \<longrightarrow> (\<forall>a \<in> set (rn_attributions r'). open_status (at_status a) \<longrightarrow> at_contract a \<in> seeded_keys bps))
    \<and> (sweep = Query_Failed \<longrightarrow> map (\<lambda>a. open_status (at_status a)) (rn_attributions r')
         = map (\<lambda>a. open_status (at_status a)) (rn_attributions r1))"
proof -
  let ?each = "run_each (seed_broker_position ny from_ny clock db reads now)"
  have "\<exists>r3. ?each ps r2 = (Inr (), r3) \<and> outline r3 = outline r1 \<and> rn_configs r3 = rn_configs r1"
    if "outline r2 = outline r1" "rn_configs r2 = rn_configs r1" "set ps \<subseteq> set bps" for ps r2
    using that
  proof (induction ps arbitrary: r2)
    case (Cons p ps)
    have "rows_attributed (rn_configs r2) (rn_attributions r2)" "ps_quantity p \<noteq> 0 \<longrightarrow> has_open_row (rn_attributions r2) p"
      "ps_quantity p \<noteq> 0 \<longrightarrow> reads p = Query_Ok"
      using outline_attributed [OF Cons.prems(1)] assms(3,4) Cons.prems(2,3) by auto
    from seed_broker_outline [where reads = reads and bpos = p, OF this, of ny from_ny clock db now] obtain r3 where
      "seed_broker_position ny from_ny clock db reads now p r2 = (Inr (), r3)" "outline r3 = outline r1" "rn_configs r3 = rn_configs r1"
      using Cons.prems by auto
    with Cons.IH [of r3] Cons.prems(3) show ?case by simp
  qed simp
  then obtain r2 where r2: "?each bps r1 = (Inr (), r2)" "outline r2 = outline r1" by blast
  define r' where "r' = r2\<lparr>rn_attributions := snd (mark_closed_if_absent sweep now (seeded_keys bps) (rn_attributions r2))\<rparr>"
  have run: "seed_positions_from_broker ny from_ny w clock db reads sweep now r = (Inr (), r')"
    using assms(1,2,5) r2(1)
    by (auto simp: seed_positions_from_broker_def r'_def mark_closed_if_absent_def close_absent_def Let_def)
  let ?f = "\<lambda>a. (at_id a, at_contract a, at_strategy a)"
  have "map ?f (rn_attributions r') = map ?f (rn_attributions r2)" by (auto simp: r'_def sweep_unfold)
  also have "\<dots> = map (\<lambda>(i, c, s, op). (i, c, s)) (outline r2)" by (simp add: row_outline_def o_def)
  also have "\<dots> = map ?f (rn_attributions r1)" by (simp add: r2(2) row_outline_def o_def)
  finally have rows: "map ?f (rn_attributions r') = map ?f (rn_attributions r1)" .
  have "map (\<lambda>(i, c, s, op). op) (outline r2) = map (\<lambda>(i, c, s, op). op) (outline r1)" by (simp add: r2(2))
  then have "sweep = Query_Failed \<longrightarrow> map (\<lambda>a. open_status (at_status a)) (rn_attributions r')
      = map (\<lambda>a. open_status (at_status a)) (rn_attributions r1)"
    by (simp add: r'_def sweep_unfold row_outline_def o_def)
  with run rows show ?thesis by (auto simp: r'_def sweep_unfold open_status_def)
qed

text \<open>A broker position, its row, and a runner that has just started.\<close>

definition held_position :: position where
  "held_position = (open_position (sample_fill BUY 2 4) 77)\<lparr>ps_strategy := []\<rparr>"

definition held_row :: attribution where
  "held_row = (position_row 0 (open_position (sample_fill BUY 2 4) 9) None)\<lparr>at_strategy := ''s1''\<rparr>"

definition holding_world :: world where
  "holding_world = flat_world\<lparr>w_positions := Pair (Inr [held_position])\<rparr>"

theorem restart_adds_no_rows_witness:
  "\<exists>r'. seed_positions_from_broker ny_summer (\<lambda>x. x) holding_world (\<lambda>k. 8) (\<lambda>i k. DB_Ok) (\<lambda>p. Query_Ok) Query_Ok 7
     (sample_runner\<lparr>rn_attributions := [held_row]\<rparr>) = (Inr (), r') \<and> map at_id (rn_attributions r') = [9]"
proof -
  let ?r = "sample_runner\<lparr>rn_attributions := [held_row]\<rparr>"
  have w: "w_positions holding_world ?r = (Inr [held_position], ?r)" by (simp add: holding_world_def)
  have h: "at_id held_row = 9" "at_strategy held_row = ''s1''" "open_status (at_status held_row)"
    "at_contract held_row = contract_identity (ps_contract held_position)"
    by code_simp+
  have "rows_attributed (rn_configs ?r) (rn_attributions ?r)"
    using h by (simp add: rows_attributed_def) (simp add: sample_runner_def new_runner_def)
  moreover have "has_open_row (rn_attributions ?r) held_position" using h by (simp add: has_open_row_def)
  then have p: "has_open_row (rn_attributions ?r) p \<and> Query_Ok = Query_Ok" if "p \<in> set [held_position]" for p
    using that by simp
  ultimately obtain r' where r': "seed_positions_from_broker ny_summer (\<lambda>x. x) holding_world (\<lambda>k. 8) (\<lambda>i k. DB_Ok) (\<lambda>p. Query_Ok) Query_Ok 7 ?r = (Inr (), r')"
    "map (\<lambda>a. (at_id a, at_contract a, at_strategy a)) (rn_attributions r') = map (\<lambda>a. (at_id a, at_contract a, at_strategy a)) (rn_attributions ?r)"
    using restart_adds_no_rows [OF w, of "\<lambda>p. Query_Ok" Query_Ok ny_summer "\<lambda>x. x" "\<lambda>k. 8" "\<lambda>i k. DB_Ok" 7] by blast
  from r'(2) h have "map (\<lambda>a. (at_id a, at_contract a, at_strategy a)) (rn_attributions r') = [(9, at_contract held_row, ''s1'')]" by simp
  then have "map fst (map (\<lambda>a. (at_id a, at_contract a, at_strategy a)) (rn_attributions r')) = [9]" by simp
  then have "map at_id (rn_attributions r') = [9]" by (simp add: o_def)
  with r'(1) show ?thesis by (intro exI conjI)
qed

text \<open>A lookup that fails is taken for a store without rows: the position is seeded under the broker's id
  and a second open row is written for the contract.\<close>

lemma failed_lookup_adds_row:
  "map at_id (rn_attributions (snd (seed_broker_position ny_summer (\<lambda>x. x) (\<lambda>k. 8) (\<lambda>i k. DB_Ok)
     (\<lambda>p. Query_Failed) 7 held_position (sample_runner\<lparr>rn_attributions := [held_row]\<rparr>)))) = [9, 77]"
  by code_simp

text \<open>Two rows on one contract whose strategies are no longer configured: both shares keep the broker's
  position id, the second replaces the first in the book, and its quantity is lost.\<close>

definition orphan_rows :: attribution_table where
  "orphan_rows = [held_row\<lparr>at_strategy := ''gone1''\<rparr>, held_row\<lparr>at_id := 10, at_strategy := ''gone2'', at_quantity := 3\<rparr>]"

lemma orphan_shares_collapse:
  "let r = sample_runner\<lparr>rn_attributions := orphan_rows\<rparr>;
       seeded = get_open_positions (rn_book (snd (seed_broker_position ny_summer (\<lambda>x. x) (\<lambda>k. 8) (\<lambda>i k. DB_Ok)
                  (\<lambda>p. Query_Ok) 7 (held_position\<lparr>ps_quantity := 5\<rparr>) r)))
   in map ps_id seeded = [77] \<and> map ps_quantity seeded = [3]"
  by code_simp

end
