(* ===== verification/Runner_Tick.thy ===== *)
theory Runner_Tick
  imports Runner_Control Fill_Flow
begin

text \<open>
  The tick and the main loop of \<^verbatim>\<open>src/app/runner.py\<close>: the snapshot for the dashboard, with its
  single-row table of \<^verbatim>\<open>src/storage/runtime_state.py\<close>, \<open>_process_tick\<close>, one iteration of
  \<open>_main_loop\<close>, and \<open>start\<close> up to the loop. A tick may not end only if the leg coordination does not:
  its result is an option. \<open>surroundings\<close> collects what a tick takes from outside: the world, zones,
  parsing and printing of numbers, the supplies of fresh identifiers, the broker's adaptive priority
  and the configuration the risk engine was built with.
\<close>

section \<open>The snapshot\<close>

record position_view =
  pv_id :: uuid
  pv_strategy :: string
  pv_contract :: farg
  pv_side :: order_side
  pv_quantity :: int
  pv_avg_entry :: pyfloat
  pv_current :: "pyfloat option"
  pv_unrealized :: "pyfloat option"
  pv_stop :: "pyfloat option"
  pv_time_exit :: "instant option"

record order_view =
  wo_id :: uuid
  wo_strategy :: string
  wo_is_entry :: bool
  wo_contract :: option_contract
  wo_side :: order_side
  wo_quantity :: int
  wo_filled :: int
  wo_limit :: pyfloat
  wo_status :: order_status
  wo_ref :: "order_ref option"

record strategy_view =
  sv_id :: string
  sv_enabled :: bool
  sv_paused :: bool
  sv_allow_reentry :: bool
  sv_traded_today :: bool
  sv_source :: string
  sv_entry_time :: "string option"
  sv_trigger_pct :: "pyfloat option"
  sv_max_contracts :: int
  sv_stop_loss_pct :: "pyfloat option"
  sv_take_profit_pct :: "pyfloat option"
  sv_time_exit :: "string option"
  sv_sizing_pct :: "pyfloat option"
  sv_leverage :: "pyfloat option"

record pnl_view =
  nv_realized :: pyfloat
  nv_unrealized :: pyfloat
  nv_total :: pyfloat

record snapshot =
  sn_timestamp :: instant
  sn_tick :: nat
  sn_strategies :: "strategy_view list"
  sn_status :: runner_status
  sn_locked :: bool
  sn_reduce_only :: bool
  sn_paused :: "string list"
  sn_flatten_all :: bool
  sn_positions :: "position_view list"
  sn_orders :: "order_view list"
  sn_pnl :: "(string, pnl_view) pydict"

definition unrealized_now :: "position \<Rightarrow> pyfloat option" where
  "unrealized_now p =
     (if open_status (ps_status p)
      then map_option (\<lambda>c. (c - ps_avg_entry p) * of_int (ps_quantity p)
             * of_int (if oc_multiplier (ps_contract p) = 0 then 100 else oc_multiplier (ps_contract p))
             * of_int (side_sign (ps_side p))) (ps_current p)
      else None)"

definition view_position :: "position \<Rightarrow> position_view" where
  "view_position p = \<lparr>pv_id = ps_id p, pv_strategy = ps_strategy p, pv_contract = contract_arg (ps_contract p),
     pv_side = ps_side p, pv_quantity = ps_quantity p, pv_avg_entry = ps_avg_entry p, pv_current = ps_current p,
     pv_unrealized = map_option (py_round 2) (unrealized_now p), pv_stop = ps_stop p, pv_time_exit = ps_time_exit p\<rparr>"

definition view_order :: "order_state \<Rightarrow> order_view" where
  "view_order o' = \<lparr>wo_id = os_id o', wo_strategy = os_strategy o', wo_is_entry = os_is_entry o',
     wo_contract = os_contract o', wo_side = os_side o', wo_quantity = os_quantity o', wo_filled = os_filled o',
     wo_limit = os_limit o', wo_status = os_status o', wo_ref = os_ref o'\<rparr>"

definition view_strategy :: "runner \<Rightarrow> string \<times> strategy_config \<Rightarrow> strategy_view" where
  "view_strategy r sc = (case sc of (sid, cfg) \<Rightarrow>
     \<lparr>sv_id = sid, sv_enabled = sc_enabled cfg, sv_paused = sid \<in> set (ov_paused (rn_overrides r)),
      sv_allow_reentry = sc_allow_reentry cfg, sv_traded_today = sid \<in> rn_traded_today r,
      sv_source = en_signal_source (sc_entry cfg), sv_entry_time = en_entry_time (sc_entry cfg),
      sv_trigger_pct = en_trigger_pct (sc_entry cfg), sv_max_contracts = en_max_contracts (sc_entry cfg),
      sv_stop_loss_pct = ex_stop_loss_pct (sc_exit cfg), sv_take_profit_pct = ex_take_profit_pct (sc_exit cfg),
      sv_time_exit = ex_time_exit (sc_exit cfg), sv_sizing_pct = sc_sizing_pct cfg, sv_leverage = sc_leverage cfg\<rparr>)"

text \<open>The running totals per strategy: realised, unrealised.\<close>

definition add_position_pnl :: "position \<Rightarrow> (string, pyfloat \<times> pyfloat) pydict \<Rightarrow> (string, pyfloat \<times> pyfloat) pydict" where
  "add_position_pnl p d = (case dict_default d (ps_strategy p) (0, 0) of (realized, unrealized) \<Rightarrow>
     AList.update (ps_strategy p)
       (realized + ps_realized p, unrealized + (case unrealized_now p of None \<Rightarrow> 0 | Some u \<Rightarrow> u)) d)"

definition strategy_pnl :: "position list \<Rightarrow> (string, pyfloat \<times> pyfloat) pydict" where
  "strategy_pnl ps = fold add_position_pnl ps []"

definition view_pnl :: "pyfloat \<times> pyfloat \<Rightarrow> pnl_view" where
  "view_pnl x = \<lparr>nv_realized = py_round 2 (fst x), nv_unrealized = py_round 2 (snd x), nv_total = py_round 2 (fst x + snd x)\<rparr>"

definition create_runtime_snapshot :: "instant \<Rightarrow> runner \<Rightarrow> snapshot" where
  "create_runtime_snapshot now r =
     (let positions = dict_values (pb_positions (rn_book r))
      in \<lparr>sn_timestamp = now, sn_tick = rn_ticks r, sn_strategies = map (view_strategy r) (rn_configs r),
          sn_status = rn_status r, sn_locked = locked r, sn_reduce_only = ov_reduce_only (rn_overrides r),
          sn_paused = ov_paused (rn_overrides r), sn_flatten_all = rn_flatten_all r,
          sn_positions = map view_position (filter (\<lambda>p. open_status (ps_status p)) positions),
          sn_orders = map view_order (filter (\<lambda>o'. active_status (os_status o')) (dict_values (om_orders (rn_orders r)))),
          sn_pnl = map (\<lambda>(sid, x). (sid, view_pnl x)) (strategy_pnl positions)\<rparr>)"

text \<open>The table has one row at most; a failed write is logged and leaves it.\<close>

type_synonym state_table = "(snapshot \<times> instant) option"

definition write_snapshot :: "instant \<Rightarrow> bool \<Rightarrow> snapshot \<Rightarrow> state_table \<Rightarrow> state_table" where
  "write_snapshot now ok s t = (if ok then Some (s, now) else t)"

section \<open>The tick\<close>

record surroundings =
  sr_world :: world
  sr_ny :: zone
  sr_from_ny :: "int \<Rightarrow> instant"
  sr_local :: int
  sr_float :: "string \<Rightarrow> pyfloat option"
  sr_render :: "farg \<Rightarrow> string"
  sr_priority :: "string option"
  sr_risk :: full_risk
  sr_store_read :: "py_error + unit" \<comment> \<open>of the traded-today set\<close>
  sr_entry_ids :: "string \<Rightarrow> nat \<Rightarrow> uuid"
  sr_batch_tag :: "string \<Rightarrow> string"
  sr_signal_ids :: "nat \<Rightarrow> uuid" \<comment> \<open>of the exit manager\<close>
  sr_exit_ids :: "nat \<Rightarrow> uuid"

definition disconnect_lock :: "instant \<Rightarrow> runner \<Rightarrow> runner" where
  "disconnect_lock now r = log_runner now ''system_lock_disconnect'' (P_Dict [(''timestamp'', FTime now)])
     ((set_lock_flag r)\<lparr>rn_locked_by_disconnect := True\<rparr>)"

text \<open>Entries, then exits; an error of the exits is logged and goes no further.\<close>

definition trade :: "surroundings \<Rightarrow> instant \<Rightarrow> unit awaited" where
  "trade sr now r =
     (let algo = default_algo (sr_priority sr); r1 = refresh_traded_today (sr_ny sr) now (sr_store_read sr) r
      in case process_entries (sr_ny sr) (sr_world sr) (sr_local sr) (sr_entry_ids sr) (sr_risk sr) now algo (sr_batch_tag sr) r1 of
           (Inl e, r2) \<Rightarrow> (Inl e, r2)
         | (Inr _, r2) \<Rightarrow> (Inr (), snd (check_exits_tick (sr_ny sr) (sr_world sr) now (sr_signal_ids sr) (sr_exit_ids sr) algo r2)))"

definition process_tick :: "surroundings \<Rightarrow> instant \<Rightarrow> runner \<Rightarrow> ((py_error + unit) \<times> runner) option" where
  "process_tick sr now r = (case w_connected (sr_world sr) r of
       (Inl e, r1) \<Rightarrow> Some (Inl e, r1)
     | (Inr up, r1) \<Rightarrow>
         if \<not> up then Some (Inr (), disconnect_lock now r1)
         else map_option (trade sr now)
                (manage_active_orders (sr_world sr) now
                   (process_commands (sr_ny sr) (sr_float sr) (sr_render sr) (sr_world sr) now r1)))"

text \<open>The snapshot at the end of a tick that was not cut short.\<close>

definition publish :: "instant \<Rightarrow> bool \<Rightarrow> runner \<Rightarrow> state_table \<Rightarrow> state_table" where
  "publish now ok r t = write_snapshot now ok (create_runtime_snapshot now r) t"

section \<open>The main loop\<close>

datatype loop_next = Loop_Ends | Loop_Waits | Loop_Sleeps | Loop_Raises py_error

definition reconcile_due :: "instant \<Rightarrow> runner \<Rightarrow> bool" where
  "reconcile_due now r = (case rn_last_reconciliation r of None \<Rightarrow> False
     | Some t \<Rightarrow> rn_reconciliation_interval r \<le> seconds_between now t)"

definition log_tick_error :: "instant \<Rightarrow> (py_error + unit) \<times> runner \<Rightarrow> runner" where
  "log_tick_error now result = (case result of
       (Inr _, r) \<Rightarrow> r
     | (Inl e, r) \<Rightarrow> log_runner now ''error'' (P_Dict [(''source'', FStr ''runner_tick''), (''tick'', FInt (int (rn_ticks r))),
         (''error'', FStr (error_text e)), (''timestamp'', FTime now)]) r)"

definition periodic_reconciliation :: "world \<Rightarrow> instant \<Rightarrow> runner \<Rightarrow> loop_next \<times> runner" where
  "periodic_reconciliation w now r =
     (if reconcile_due now r
      then (case run_reconciliation w now r of (Inl e, r1) \<Rightarrow> (Loop_Raises e, r1) | (Inr _, r1) \<Rightarrow> (Loop_Sleeps, r1))
      else (Loop_Sleeps, r))"

definition loop_iteration :: "surroundings \<Rightarrow> instant \<Rightarrow> runner \<Rightarrow> (loop_next \<times> runner) option" where
  "loop_iteration sr now r =
     (if rn_stop_event r then Some (Loop_Ends, r)
      else if \<not> rn_pause_event r then Some (Loop_Waits, r)
      else
        let r1 = (if locked r \<and> rn_locked_by_disconnect r then try_auto_resume (sr_world sr) now r else r);
            r2 = r1\<lparr>rn_ticks := rn_ticks r1 + 1\<rparr>
        in map_option (\<lambda>result. periodic_reconciliation (sr_world sr) now (log_tick_error now result)) (process_tick sr now r2))"

section \<open>Start\<close>

text \<open>\<open>start\<close> after the configuration is loaded and the components are wired, up to the loop. A broker
  that does not connect, or a failing reconciliation, ends it there.\<close>

definition enter_loop :: "zone \<Rightarrow> (int \<Rightarrow> instant) \<Rightarrow> world \<Rightarrow> (nat \<Rightarrow> instant) \<Rightarrow> (uuid \<Rightarrow> nat \<Rightarrow> db_reply)
    \<Rightarrow> (position \<Rightarrow> db_query) \<Rightarrow> db_query \<Rightarrow> instant \<Rightarrow> unit awaited \<Rightarrow> unit awaited" where
  "enter_loop ny from_ny w clock db reads sweep now connect r =
     (case connect (log_lifecycle now ''starting'' (r\<lparr>rn_status := INITIALIZING\<rparr>)) of
        (Inl e, r1) \<Rightarrow> (Inl e, r1)
      | (Inr _, r1) \<Rightarrow> (case seed_positions_from_broker ny from_ny w clock db reads sweep now r1 of
          (Inl e, r2) \<Rightarrow> (Inl e, r2)
        | (Inr _, r2) \<Rightarrow> (case run_reconciliation w now r2 of
            (Inl e, r3) \<Rightarrow> (Inl e, r3)
          | (Inr _, r3) \<Rightarrow> (Inr (), log_lifecycle now ''started'' (r3\<lparr>rn_status := RUNNING\<rparr>)))))"

section \<open>Switches\<close>

lemma switch_frames [simp]:
  "cp_overrides (rn_parts (put_orders om r)) = cp_overrides (rn_parts r)"
  "cp_overrides (rn_parts (put_book b r)) = cp_overrides (rn_parts r)"
  "cp_overrides (rn_parts (put_store es r)) = cp_overrides (rn_parts r)"
  "cp_overrides (rn_parts (log_runner now k p r)) = cp_overrides (rn_parts r)"
  "cp_overrides (rn_parts (take_fire sid r)) = cp_overrides (rn_parts r)"
  "cp_overrides (rn_parts (tidy_exits ids r)) = cp_overrides (rn_parts r)"
  "cp_overrides (rn_parts (refresh_traded_today ny now db r)) = cp_overrides (rn_parts r)"
  by (simp_all add: put_orders_def put_book_def put_store_def log_runner_def take_fire_def tidy_exits_def refresh_traded_today_def)

definition switch_marks :: "runner \<Rightarrow> bool \<times> command_table" where
  "switch_marks r = (rn_locked_by_disconnect r, rn_commands r)"

lemma mark_frames [simp]:
  "switch_marks (put_orders om r) = switch_marks r" "switch_marks (put_book b r) = switch_marks r"
  "switch_marks (put_store es r) = switch_marks r" "switch_marks (log_runner now k p r) = switch_marks r"
  "switch_marks (take_fire sid r) = switch_marks r" "switch_marks (tidy_exits ids r) = switch_marks r"
  "switch_marks (refresh_traded_today ny now db r) = switch_marks r" "switch_marks (put_overrides m r) = switch_marks r"
  "switch_marks (r\<lparr>rn_status := st\<rparr>) = switch_marks r" "switch_marks (r\<lparr>rn_asymmetric := x\<rparr>) = switch_marks r"
  "switch_marks (r\<lparr>rn_retry_after := y\<rparr>) = switch_marks r" "switch_marks (r\<lparr>rn_exit_attempts := z\<rparr>) = switch_marks r"
  "switch_marks (r\<lparr>rn_exit_reasons := u\<rparr>) = switch_marks r"
  "switch_marks (r\<lparr>rn_asymmetric := x, rn_manual_exits := v, rn_flatten_all := w\<rparr>) = switch_marks r"
  by (simp_all add: switch_marks_def put_orders_def put_book_def put_store_def log_runner_def take_fire_def tidy_exits_def
      refresh_traded_today_def put_overrides_def)

text \<open>
  A predicate of the operator's switches, which the tick reads and only ever tightens: it depends on
  the overrides, the mark of a lost connection and the queue of commands alone, and locking keeps it.
  Whatever the tick does apart from commands then keeps it.
\<close>

locale switch_invariant =
  fixes I :: "runner \<Rightarrow> bool"
  assumes switches_only: "cp_overrides (rn_parts r') = cp_overrides (rn_parts r) \<Longrightarrow> switch_marks r' = switch_marks r \<Longrightarrow> I r \<Longrightarrow> I r'"
    and lock_switch: "I r \<Longrightarrow> I (lock_runner r)"
    and flag_switch: "I r \<Longrightarrow> I (set_lock_flag r)"
begin

lemma switch_frame:
  "I r \<Longrightarrow> I (put_orders om r)" "I r \<Longrightarrow> I (put_book b r)" "I r \<Longrightarrow> I (put_store es r)"
  "I r \<Longrightarrow> I (log_runner now k p r)" "I r \<Longrightarrow> I (take_fire sid r)" "I r \<Longrightarrow> I (tidy_exits ids r)"
  "I r \<Longrightarrow> I (refresh_traded_today ny now db r)" "I r \<Longrightarrow> I (r\<lparr>rn_status := st\<rparr>)" "I r \<Longrightarrow> I (r\<lparr>rn_asymmetric := x\<rparr>)"
  "I r \<Longrightarrow> I (r\<lparr>rn_retry_after := y\<rparr>)" "I r \<Longrightarrow> I (r\<lparr>rn_exit_attempts := z\<rparr>)" "I r \<Longrightarrow> I (r\<lparr>rn_exit_reasons := u\<rparr>)"
  "I r \<Longrightarrow> I (r\<lparr>rn_asymmetric := x, rn_manual_exits := v, rn_flatten_all := w\<rparr>)"
  by (erule switches_only [rotated 2], simp, simp)+

end

sublocale switch_invariant \<subseteq> runner_invariant I
  by unfold_locales (auto intro: switch_frame lock_switch)

text \<open>What is awaited keeps the predicate, the broker's cancels included.\<close>

definition world_keeps :: "(runner \<Rightarrow> bool) \<Rightarrow> world \<Rightarrow> bool" where
  "world_keeps I w \<longleftrightarrow> keeps I (w_connected w) \<and> keeps I (w_positions w) \<and> keeps I (w_open_orders w)
     \<and> (\<forall>ks. keeps I (w_quotes w ks)) \<and> (\<forall>p. keeps I (w_place w p)) \<and> (\<forall>b. keeps I (w_cancel w b)) \<and> query_keeps I w
     \<and> (\<forall>c. keeps I (w_poll w c)) \<and> (\<forall>c. keeps I (w_emit_now w c)) \<and> (\<forall>c. keeps I (w_collect_exits w c))"

lemma world_keepsD:
  "world_keeps I w \<Longrightarrow> keeps I (w_connected w)" "world_keeps I w \<Longrightarrow> keeps I (w_positions w)"
  "world_keeps I w \<Longrightarrow> keeps I (w_open_orders w)" "world_keeps I w \<Longrightarrow> keeps I (w_quotes w ks)"
  "world_keeps I w \<Longrightarrow> keeps I (w_place w p)" "world_keeps I w \<Longrightarrow> keeps I (w_cancel w b)"
  "world_keeps I w \<Longrightarrow> keeps I (w_poll w c)" "world_keeps I w \<Longrightarrow> keeps I (w_emit_now w c)"
  "world_keeps I w \<Longrightarrow> keeps I (w_collect_exits w c)" "world_keeps I w \<Longrightarrow> query_keeps I w"
  by (simp_all add: world_keeps_def)

context switch_invariant
begin

lemma awaited: "keeps I f \<Longrightarrow> I r \<Longrightarrow> I (snd (f r))"
  by (simp add: keeps_def)

lemma submit_switch:
  assumes "world_keeps I w" "I r"
  shows "I (snd (runner_submit w now plan_id oid i d cfg algo r))"
proof (cases "submit_prepare now plan_id oid i d False algo (rn_orders r)")
  case (Inr pom)
  obtain p om where pom: "pom = (p, om)" by force
  have "I (snd (w_place w p (put_orders om r)))"
    by (rule awaited [OF world_keepsD(5) [OF assms(1)] switch_frame(1) [OF assms(2)]])
  then have "I (put_orders om' (snd (w_place w p (put_orders om r))))" for om' by (rule switch_frame(1))
  with Inr pom show ?thesis by (simp add: runner_submit_def split_beta)
qed (use assms(2) in \<open>simp add: runner_submit_def\<close>)

lemma leg_switch:
  assumes "world_keeps I w" "I r"
  shows "I (snd (submit_leg w now cfg algo batch uu l r))"
proof -
  have r0: "I (log_runner now k p r)" for k p by (rule switch_frame(4) [OF assms(2)])
  have "I (snd (runner_submit w now plan_id oid i d c a (log_runner now k p r)))" for plan_id oid i d c a k p
    by (rule submit_switch [OF assms(1) r0])
  with r0 show ?thesis
    by (auto simp: submit_leg_def Let_def split_beta intro: switch_frame(4) split: option.split sum.split)
qed

lemma evaluate_switch:
  assumes "world_keeps I w"
  shows "I r \<Longrightarrow> I (snd (evaluate_signals w local uu risk now k sgs r))"
proof (induction sgs arbitrary: k r)
  case (Cons sg sgs)
  have "I (snd (evaluate_signal w local uu risk now k sg r))"
    using awaited [OF world_keepsD(4) [OF assms] Cons.prems]
    by (auto simp: evaluate_signal_def Let_def split_beta split: sum.split)
  with Cons.IH show ?case by (auto simp: split_beta split: sum.split)
qed simp

lemma logs_switch: "I r \<Longrightarrow> I (fold (\<lambda>x. log_runner now k (f x)) xs r)"
  by (rule fold_keeps) (rule switch_frame(4))

lemma batch_switch:
  assumes "world_keeps I w" "I r"
  shows "I (snd (enter_batch w local uu risk now sid cfg algo batch sgs r))"
proof -
  obtain x r1 where e: "evaluate_signals w local uu risk now 0 sgs (log_signals now sgs r) = (x, r1)" by force
  have r1: "I r1"
    using evaluate_switch [OF assms(1), of "log_signals now sgs r"] logs_switch [OF assms(2)] e
    unfolding log_signals_def by (metis snd_conv)
  have "I (snd (run_each (submit_leg w now cfg algo batch uu) legs r1))" for legs
    by (rule run_each_keeps [where I = I]) (rule leg_switch [OF assms(1)], use r1 in auto)
  moreover have "I (reject_batch now sid legs r1)" for legs
    unfolding reject_batch_def by (rule logs_switch [OF switch_frame(10) [OF r1]])
  ultimately show ?thesis using e r1 by (auto simp: enter_batch_def split: sum.split)
qed

lemma turn_switch:
  assumes "world_keeps I w" "I r"
  shows "I (snd (strategy_turn ny w local uu risk now algo tag scfg r))"
proof -
  obtain sid cfg where s: "scfg = (sid, cfg)" by force
  have r0: "I (take_fire sid r)" by (rule switch_frame(5) [OF assms(2)])
  have "I (snd (ask_strategy w local uu' risk now sid cfg algo batch fire (take_fire sid r)))" for uu' batch fire
  proof -
    obtain x r1 where f: "(if fire then w_emit_now w cfg (take_fire sid r) else w_poll w cfg (take_fire sid r)) = (x, r1)" by force
    have r1: "I r1"
      using awaited [OF world_keepsD(7) [OF assms(1)] r0, of cfg] awaited [OF world_keepsD(8) [OF assms(1)] r0, of cfg] f
      by (cases fire) simp_all
    show ?thesis
      using f r1 batch_switch [OF assms(1) r1] by (auto simp: ask_strategy_def intro: switch_frame(4) split: sum.split)
  qed
  with turn_cases [of ny now sid cfg r w local uu risk algo tag] r0 assms(2) show ?thesis unfolding s by auto
qed

lemma entries_switch:
  assumes "world_keeps I w" "I r"
  shows "I (snd (process_entries ny w local uu risk now algo tag r))"
proof -
  have "I (snd (run_each (strategy_turn ny w local uu risk now algo tag) (rn_configs r) r))"
    by (rule run_each_keeps [where I = I]) (rule turn_switch [OF assms(1)], use assms(2) in auto)
  with assms(2) show ?thesis by (simp add: process_entries_def)
qed

lemma collect_switch: "world_keeps I w \<Longrightarrow> I r \<Longrightarrow> I (snd (collect_provider_exits w sids cfgs r))"
proof (induction cfgs arbitrary: r)
  case (Cons sc cfgs)
  obtain sid cfg where sc: "sc = (sid, cfg)" by force
  have "I (snd (w_collect_exits w cfg r))" by (rule awaited [OF world_keepsD(9) [OF Cons.prems(1)] Cons.prems(2)])
  from Cons.IH [OF Cons.prems(1) this] Cons.IH [OF Cons.prems] show ?case by (simp add: sc split_beta)
qed simp

lemma exit_switch:
  assumes "world_keeps I w" "I r"
  shows "I (submit_exit w now plan_id oid algo sig r)"
proof -
  obtain p i reason where s: "sig = (p, i, reason)" by (metis prod_cases3)
  have "I (fold (cancel_when w now (blocks_exit p i)) ids (r\<lparr>rn_exit_attempts := z\<rparr>))" for ids z
    by (rule fold_keeps [OF cancel_when_keeps [OF world_keepsD(6) [OF assms(1)]] switch_frame(11) [OF assms(2)]])
  then have "I ((fold (cancel_when w now (blocks_exit p i)) ids (r\<lparr>rn_exit_attempts := z\<rparr>))\<lparr>rn_exit_reasons := u\<rparr>)" for ids z u
    by (rule switch_frame(12))
  with assms(2) submit_switch [OF assms(1)] show ?thesis by (simp add: submit_exit_def s Let_def)
qed

lemma exits_switch: "world_keeps I w \<Longrightarrow> I r \<Longrightarrow> I (submit_exits w now uu algo sigs r)"
  by (induction sigs arbitrary: uu r) (auto intro: exit_switch)

lemma eligible_switch:
  assumes "world_keeps I w" "I r"
  shows "I (snd (check_eligible ny w now ids uu algo ops eligible r))"
proof -
  let ?q = "w_quotes w (exit_symbols ops) r"
  let ?r2 = "put_book (update_position_prices now (case fst ?q of Inl e \<Rightarrow> [] | Inr qs \<Rightarrow> qs) (rn_book (snd ?q))) (snd ?q)"
  have r2: "I ?r2" by (rule switch_frame(2) [OF awaited [OF world_keepsD(4) [OF assms(1)] assms(2)]])
  let ?r3 = "snd (collect_provider_exits w (set (map ps_strategy eligible)) (rn_configs ?r2) ?r2)"
  have "I (put_store es ?r3)" for es by (rule switch_frame(3) [OF collect_switch [OF assms(1) r2]])
  then show ?thesis
    by (simp add: check_eligible_def Let_def split_beta exits_switch [OF assms(1)] split: sum.split)
qed

lemma check_exits_switch:
  assumes "world_keeps I w" "I r"
  shows "I (snd (check_exits_tick ny w now ids uu algo r))"
  using assms(2) eligible_switch [OF assms(1) switch_frame(6) [OF assms(2)]]
  by (simp add: check_exits_tick_def Let_def switch_frame)

lemma trade_switch:
  assumes "world_keeps I (sr_world sr)" "I r"
  shows "I (snd (trade sr now r))"
proof -
  let ?r1 = "refresh_traded_today (sr_ny sr) now (sr_store_read sr) r"
  let ?e = "process_entries (sr_ny sr) (sr_world sr) (sr_local sr) (sr_entry_ids sr) (sr_risk sr) now
    (default_algo (sr_priority sr)) (sr_batch_tag sr) ?r1"
  have "I (snd ?e)" by (rule entries_switch [OF assms(1) switch_frame(7) [OF assms(2)]])
  with check_exits_switch [OF assms(1) this] show ?thesis
    by (auto simp: trade_def Let_def split_beta split: sum.split)
qed

end

lemma locked_overrides: "locked r = ov_system_locked (ovm_state (cp_overrides (rn_parts r)))"
  by (simp add: locked_def rn_overrides_def)

interpretation lock_switch: switch_invariant locked
  by unfold_locales (simp_all add: locked_overrides [of "_ :: runner"] del: lock_simps, simp_all add: locked_overrides [symmetric])

interpretation pause_switch: switch_invariant "\<lambda>r. sid \<in> set (ov_paused (rn_overrides r))" for sid
  by unfold_locales
    (simp_all add: rn_overrides_def lock_runner_def set_lock_flag_def put_overrides_def lock_system_def Let_def)

section \<open>Locks over the whole loop\<close>

definition no_unlock :: "runner \<Rightarrow> bool" where
  "no_unlock r \<longleftrightarrow> (\<forall>row \<in> set (rn_commands r). cr_type row \<noteq> ''unlock_system'')"

text \<open>A lock that does not carry the mark of a lost connection, with no \<open>unlock_system\<close> command queued.\<close>

definition firmly_locked :: "runner \<Rightarrow> bool" where
  "firmly_locked r \<longleftrightarrow> locked r \<and> \<not> rn_locked_by_disconnect r \<and> no_unlock r"


lemma mark_types: "mark cid st res now t = Inr t' \<Longrightarrow> map cr_type t' = map cr_type t"
  by (auto simp: mark_def mark_row_def split: option.splits)

lemma no_unlock_types: "no_unlock r \<longleftrightarrow> ''unlock_system'' \<notin> set (map cr_type (rn_commands r))"
  by (force simp: no_unlock_def)

lemma firm_mark [simp]: "firmly_locked (mark_command now cid st res r) = firmly_locked r"
  using mark_types [of cid st res now "rn_commands r"] locked_frame(1) [of now cid st res r]
  by (cases "mark cid st res now (rn_commands r)") (simp_all add: firmly_locked_def no_unlock_types mark_command_def)

lemma firm_frames [simp]:
  "firmly_locked (r\<lparr>rn_manual_exits := x\<rparr>) = firmly_locked r" "firmly_locked (r\<lparr>rn_flatten_all := b\<rparr>) = firmly_locked r"
  "firmly_locked (r\<lparr>rn_fire_requests := y\<rparr>) = firmly_locked r" "firmly_locked (r\<lparr>rn_ticks := n\<rparr>) = firmly_locked r"
  "firmly_locked (r\<lparr>rn_configs := c\<rparr>) = firmly_locked r" "firmly_locked (r\<lparr>rn_overlay := ol\<rparr>) = firmly_locked r"
  "firmly_locked (r\<lparr>rn_status := st\<rparr>) = firmly_locked r" "firmly_locked (r\<lparr>rn_stop_event := b\<rparr>) = firmly_locked r"
  "firmly_locked (r\<lparr>rn_status := st, rn_stop_event := b\<rparr>) = firmly_locked r"
  "firmly_locked (log_runner now k p r) = firmly_locked r"
  by (simp_all add: firmly_locked_def no_unlock_def locked_overrides log_runner_def)











definition sample_surroundings :: surroundings where
  "sample_surroundings = \<lparr>sr_world = flat_world, sr_ny = ny_summer, sr_from_ny = (\<lambda>x. x), sr_local = 0, sr_float = no_text,
     sr_render = no_render, sr_priority = None, sr_risk = sample_risk, sr_store_read = Inr (), sr_entry_ids = (\<lambda>s k. 100 + k),
     sr_batch_tag = (\<lambda>s. s), sr_signal_ids = (\<lambda>k. 200 + k), sr_exit_ids = (\<lambda>k. 300 + k)\<rparr>"

lemma flat_keeps: "world_keeps I flat_world"
  by (simp add: world_keeps_def keeps_def query_keeps_def flat_world_def)


text \<open>A manual lock is lifted without any command by a lost connection: the tick that finds the broker
  away sets the mark over it, and the iteration after the reconnection, finding the books clean, takes
  the lock for its own.\<close>

definition away_surroundings :: surroundings where
  "away_surroundings = sample_surroundings\<lparr>sr_world := flat_world\<lparr>w_connected := Pair (Inr False)\<rparr>\<rparr>"

lemma disconnect_marks_any_lock: "rn_locked_by_disconnect (disconnect_lock now r) \<and> locked (disconnect_lock now r)"
  by (simp add: disconnect_lock_def)

lemma disconnect_lifts_manual_lock:
  "let manual = process_command ny_summer no_text no_render flat_world 6 (sample_command ''lock_system'' []) sample_runner
   in locked manual \<and> \<not> rn_locked_by_disconnect manual
     \<and> map_option (\<lambda>r'. locked r') (fold_option (\<lambda>(sr, now) r. map_option snd (loop_iteration sr now r))
          [(away_surroundings, 7), (sample_surroundings, 8)] manual) = Some False"
  by code_simp

text \<open>The lock of a lost connection is lifted only by agreement. An attempt to resume unlocks only
  when the broker was connected again and the reconciliation done for it found the net position of
  every contract and the open orders to agree with the broker.\<close>

lemma auto_resume_needs_agreement:
  assumes "world_keeps locked w" "locked r" "\<not> locked (try_auto_resume w now r)"
  shows "\<exists>r0 bps bos r1 r2. w_connected w r = (Inr True, r0)
    \<and> w_positions w (r0\<lparr>rn_status := RECONCILING\<rparr>) = (Inr bps, r1) \<and> w_open_orders w r1 = (Inr bos, r2)
    \<and> positions_agree (get_open_positions (rn_book r0)) bps
    \<and> orders_agree (List.map_filter (map_of (om_orders (rn_orders r2))) (open_order_ids (rn_orders r0))) bos"
proof -
  obtain c r0 where c: "w_connected w r = (c, r0)" by force
  have l: "locked r0" by (rule keepsD [OF world_keepsD(1) [OF assms(1)] assms(2) c])
  then have up: "c = Inr True" using assms(3) c by (auto simp: try_auto_resume_def split: sum.splits bool.splits)
  obtain x r' where rec: "run_reconciliation w now r0 = (x, r')" by force
  have "locked r'" by (rule run_reconciliation_locked [OF world_keepsD(2,3) [OF assms(1)] l rec])
  then have "x = Inr True" using assms(3) c up rec by (auto simp: try_auto_resume_def split: sum.splits bool.splits)
  with run_reconciliation_clean [of w now r0 r'] rec c up show ?thesis by blast
qed

theorem auto_resume_needs_agreement_witness:
  "positions_agree (get_open_positions (rn_book (lock_runner sample_runner))) []"
proof -
  have u: "\<not> locked (try_auto_resume flat_world 7 (lock_runner sample_runner))" by code_simp
  from auto_resume_needs_agreement [OF flat_keeps _ u] show ?thesis by (auto simp: flat_world_def)
qed

text \<open>Protect mode. When the system is locked after the commands and the order handling of a tick,
  the tick asks no strategy for signals and sends no entry, and still checks and sends exits: what it
  does from there is the exit check alone.\<close>

lemma locked_tick_only_exits:
  assumes "w_connected (sr_world sr) r = (Inr True, r1)"
    and "manage_active_orders (sr_world sr) now
           (process_commands (sr_ny sr) (sr_float sr) (sr_render sr) (sr_world sr) now r1) = Some r2"
    and "locked r2"
  shows "process_tick sr now r = Some (Inr (), snd (check_exits_tick (sr_ny sr) (sr_world sr) now (sr_signal_ids sr) (sr_exit_ids sr)
      (default_algo (sr_priority sr)) (refresh_traded_today (sr_ny sr) now (sr_store_read sr) r2)))"
  using assms lock_switch.switch_frame(7) [OF assms(3), of "sr_ny sr" now "sr_store_read sr"]
  by (simp add: process_tick_def trade_def process_entries_def Let_def)

theorem locked_tick_only_exits_witness:
  "\<exists>r2. locked r2 \<and> process_tick sample_surroundings 7 (lock_runner sample_runner)
     = Some (Inr (), snd (check_exits_tick ny_summer flat_world 7 (\<lambda>k. 200 + k) (\<lambda>k. 300 + k) None
         (refresh_traded_today ny_summer 7 (Inr ()) r2)))"
proof -
  let ?r = "lock_runner sample_runner"
  have s: "sr_world sample_surroundings = flat_world" "sr_ny sample_surroundings = ny_summer" "sr_signal_ids sample_surroundings = (\<lambda>k. 200 + k)"
    "sr_exit_ids sample_surroundings = (\<lambda>k. 300 + k)" "sr_store_read sample_surroundings = Inr ()" "sr_priority sample_surroundings = None"
    by (simp_all add: sample_surroundings_def)
  let ?p = "process_commands ny_summer (sr_float sample_surroundings) (sr_render sample_surroundings) flat_world 7 ?r"
  have cmds: "rn_commands ?r = []" by (simp add: lock_runner_def put_overrides_def sample_runner_def new_runner_def)
  then have p: "?p = ?r" by (simp add: process_commands_def fetch_pending_def)
  have ok: "om_ok (rn_orders ?r)"
    by (rule orders_inv.lock_step) (simp add: sample_runner_def new_runner_def rn_orders_def new_manager_ok)
  have k: "keeps I (w_cancel flat_world b)" for I b by (rule world_keepsD(6) [OF flat_keeps])
  obtain r2 where m: "manage_active_orders flat_world 7 ?p = Some r2"
    using manage_returns [OF k world_keepsD(10) [OF flat_keeps] ok, of 7] unfolding p by blast
  have "locked r2"
    by (rule lock_inv.manage_keeps [OF _ world_keepsD(10) [OF flat_keeps] _ m]) (simp_all add: p k)
  with locked_tick_only_exits [of sample_surroundings ?r ?r 7 r2] m show ?thesis
    by (auto simp: s default_algo_def) (auto simp: flat_world_def)
qed

text \<open>What the dashboard shows as profit of a strategy before rounding is the sum over its positions.\<close>

lemma strategy_pnl_sums:
  "dict_default (strategy_pnl ps) sid (0, 0)
     = (sum_list (map ps_realized (filter (\<lambda>p. ps_strategy p = sid) ps)),
        sum_list (map (\<lambda>p. case unrealized_now p of None \<Rightarrow> 0 | Some u \<Rightarrow> u) (filter (\<lambda>p. ps_strategy p = sid) ps)))"
proof -
  let ?u = "\<lambda>p. case unrealized_now p of None \<Rightarrow> 0 | Some u \<Rightarrow> u"
  let ?f = "filter (\<lambda>p. ps_strategy p = sid)"
  have "dict_default (fold add_position_pnl ps d) sid (0, 0)
      = (fst (dict_default d sid (0, 0)) + sum_list (map ps_realized (?f ps)),
         snd (dict_default d sid (0, 0)) + sum_list (map ?u (?f ps)))" for d
    by (induction ps arbitrary: d) (auto simp: add_position_pnl_def dict_default_update split_beta)
  from this [of "[]"] show ?thesis by (simp add: strategy_pnl_def dict_default_def)
qed

text \<open>The snapshot is faithful on profit and risk. The totals of every strategy in the snapshot are the
  rounded sums over all its positions of the realised, and over its open ones of the unrealised profit
  at the current price; the positions shown are exactly the open ones, the orders exactly those that
  may still be filled.\<close>

lemma snapshot_accounts:
  assumes "s = create_runtime_snapshot now r" "(sid, v) \<in> set (sn_pnl s)"
    and ps_def: "ps = filter (\<lambda>p. ps_strategy p = sid) (dict_values (pb_positions (rn_book r)))"
  shows "nv_realized v = py_round 2 (sum_list (map ps_realized ps))
    \<and> nv_unrealized v = py_round 2 (sum_list (map (\<lambda>p. case unrealized_now p of None \<Rightarrow> 0 | Some u \<Rightarrow> u) ps))
    \<and> map pv_id (sn_positions s) = map ps_id (get_open_positions (rn_book r))
    \<and> map wo_id (sn_orders s) = open_order_ids (rn_orders r)"
proof -
  let ?d = "strategy_pnl (dict_values (pb_positions (rn_book r)))"
  have wf: "wf_dict (fold add_position_pnl qs d)" if "wf_dict d" for qs d
    using that by (induction qs arbitrary: d) (auto simp: add_position_pnl_def split_beta)
  obtain x where x: "(sid, x) \<in> set ?d" "v = view_pnl x"
    using assms(1,2) by (auto simp: create_runtime_snapshot_def Let_def)
  have "wf_dict ?d" by (simp add: strategy_pnl_def wf)
  with x(1) have "dict_default ?d sid (0, 0) = x" by (simp add: wf_dict_def dict_default_def)
  with strategy_pnl_sums [of "dict_values (pb_positions (rn_book r))" sid] have
    "x = (sum_list (map ps_realized ps), sum_list (map (\<lambda>p. case unrealized_now p of None \<Rightarrow> 0 | Some u \<Rightarrow> u) ps))"
    by (simp add: ps_def)
  then show ?thesis
    using x(2) by (simp add: view_pnl_def assms(1) create_runtime_snapshot_def Let_def view_position_def view_order_def
        open_order_ids_def get_open_positions_def o_def)
qed

theorem snapshot_accounts_witness:
  "nv_realized (snd (hd (sn_pnl (create_runtime_snapshot 7 protected_runner)))) = py_round 2 (sum_list (map ps_realized [protected_position]))
   \<and> map pv_id (sn_positions (create_runtime_snapshot 7 protected_runner)) = map ps_id (get_open_positions (rn_book protected_runner))"
proof -
  let ?s = "create_runtime_snapshot 7 protected_runner"
  have v: "dict_values (pb_positions (rn_book protected_runner)) = [protected_position]"
    by (simp add: protected_runner_def dict_values_def)
  then obtain x where x: "sn_pnl ?s = [(''s1'', x)]"
    by (simp add: create_runtime_snapshot_def strategy_pnl_def add_position_pnl_def dict_default_def protected_position_def)
  have "(''s1'', x) \<in> set (sn_pnl ?s)" by (simp add: x)
  moreover have "[protected_position] = filter (\<lambda>p. ps_strategy p = ''s1'') (dict_values (pb_positions (rn_book protected_runner)))"
    by (simp add: v) (simp add: protected_position_def)
  ultimately show ?thesis
    using snapshot_accounts [OF refl, of "''s1''" x 7 protected_runner "[protected_position]"] x by simp
qed

end
