(* ===== verification/Provider_Common.thy ===== *)
theory Provider_Common
  imports Entry_Flow Calendar
begin

text \<open>
  What the strategy providers of \<^verbatim>\<open>src/strategies\<close> share: the prices they read off a quote, the
  validated contracts and signals they build, the look for a trade of the day in the books, the
  sizing by premium. \<open>feed\<close> holds what a provider is answered: the quotes by the number of the request
  within one call, the account, the bars, the historical closes, and the books it was given.
  The contract of a provider is the locale \<open>strategy_provider\<close>.
\<close>

record feed =
  fd_quotes :: "nat \<Rightarrow> quote_key list \<Rightarrow> py_error + (quote_key, quote_snapshot) pydict"
  fd_account :: "py_error + account_state"
  fd_last_bar :: "py_error + bar option" \<comment> \<open>\<open>get_latest_completed_bar("XSP")\<close>\<close>
  fd_bars :: "int \<Rightarrow> py_error + bar list" \<comment> \<open>\<open>get_completed_bars\<close>, when the window up to a wall clock is built\<close>
  fd_close :: "int \<Rightarrow> py_error + pyfloat option" \<comment> \<open>\<open>get_historical_close\<close> at a wall clock\<close>
  fd_book :: "position_book option"

type_synonym signals = "py_error + strategy_signal list"

definition xsp :: quote_key where
  "xsp = Symbol_Key ''XSP''"

definition quote_mid :: "quote_snapshot \<Rightarrow> pyfloat option" where
  "quote_mid q = (case (q_bid q, q_ask q) of (Some b, Some a) \<Rightarrow> Some ((b + a) / 2) | _ \<Rightarrow> None)"

text \<open>The middle, else the last trade, else the close of the day before.\<close>

definition spot_of :: "quote_snapshot \<Rightarrow> pyfloat option" where
  "spot_of q = (case quote_mid q of Some m \<Rightarrow> Some m
     | None \<Rightarrow> (case q_last q of Some l \<Rightarrow> Some l | None \<Rightarrow> q_close q))"

text \<open>\<open>x or d\<close> on an optional number.\<close>

definition or_default :: "pyfloat option \<Rightarrow> pyfloat \<Rightarrow> pyfloat" where
  "or_default x d = (case x of None \<Rightarrow> d | Some v \<Rightarrow> if v = 0 then d else v)"

definition xsp_contract :: "int \<Rightarrow> pyfloat \<Rightarrow> option_right \<Rightarrow> option_contract" where
  "xsp_contract day strike right = \<lparr>oc_symbol = ''XSP'', oc_expiry = expiry_text day, oc_strike = strike,
     oc_right = right, oc_multiplier = 100\<rparr>"

definition mk_contract :: "option_contract \<Rightarrow> py_error + option_contract" where
  "mk_contract c = (if valid_contract c then Inr c else Inl (Validation_Error ''OptionContract''))"

definition mk_signal :: "strategy_signal \<Rightarrow> py_error + strategy_signal" where
  "mk_signal sg = (if valid_signal sg then Inr sg else Inl (Validation_Error ''StrategySignal''))"

definition new_signal ::
  "uuid \<Rightarrow> strategy_config \<Rightarrow> signal_direction \<Rightarrow> option_contract \<Rightarrow> int \<Rightarrow> pyfloat option \<Rightarrow> instant \<Rightarrow> strategy_signal" where
  "new_signal fresh cfg dir c quantity limit now =
     \<lparr>sg_id = fresh, sg_strategy = sc_id cfg, sg_direction = dir, sg_contract = c, sg_quantity = quantity,
      sg_limit = limit, sg_stop = None, sg_take_profit = None, sg_time_exit = None, sg_timestamp = now\<rparr>"

definition positioned_on :: "zone \<Rightarrow> int \<Rightarrow> string \<Rightarrow> position_book option \<Rightarrow> bool" where
  "positioned_on ny day sid book = (case book of None \<Rightarrow> False
     | Some b \<Rightarrow> list_ex (\<lambda>p. ps_strategy p = sid \<and> ny_date ny (entry_or_created p) = day) (dict_values (pb_positions b)))"

text \<open>The price of an option by request \<open>n\<close>: the middle, else the last trade.\<close>

definition premium_mid :: "feed \<Rightarrow> nat \<Rightarrow> option_contract \<Rightarrow> pyfloat option" where
  "premium_mid fd n c = (let key = to_quote_symbol c
     in case quoted key (fd_quotes fd n [key]) of None \<Rightarrow> None
      | Some q \<Rightarrow> (case quote_mid q of Some m \<Rightarrow> Some m | None \<Rightarrow> q_last q))"

definition premium_limit :: "pyfloat option \<Rightarrow> pyfloat option" where
  "premium_limit mid = (case mid of None \<Rightarrow> None | Some m \<Rightarrow> if m = 0 then None else Some (py_round 2 m))"

definition net_liquidation :: "py_error + account_state \<Rightarrow> pyfloat option" where
  "net_liquidation reply = (case reply of Inl e \<Rightarrow> None | Inr a \<Rightarrow> Some (ac_net_liquidation a))"

text \<open>As many contracts as the share of the equity pays for, one at least and \<open>max_contracts\<close> at most; one
  when price or equity are not known.\<close>

definition dynamic_quantity :: "pyfloat option \<Rightarrow> pyfloat option \<Rightarrow> pyfloat \<Rightarrow> int \<Rightarrow> int" where
  "dynamic_quantity mid capital pct max_contracts = (case (mid, capital) of
       (Some m, Some c) \<Rightarrow> if 0 < m \<and> 0 < c then min (max 1 (py_int (c * pct / (m * 100)))) max_contracts else 1
     | _ \<Rightarrow> 1)"

section \<open>The contract of a provider\<close>

text \<open>What the runner and the risk engine may take for granted of a signal: it is the strategy's own,
  passes the model's validation, is dated now, and stays within the configured size.\<close>

definition own_signal :: "strategy_config \<Rightarrow> instant \<Rightarrow> strategy_signal \<Rightarrow> bool" where
  "own_signal cfg now sg \<longleftrightarrow> sg_strategy sg = sc_id cfg \<and> valid_signal sg \<and> sg_timestamp sg = now
     \<and> (1 \<le> en_max_contracts (sc_entry cfg) \<longrightarrow> sg_quantity sg \<le> en_max_contracts (sc_entry cfg))"

lemma mk_signal_own:
  assumes "mk_signal (new_signal fresh cfg dir c k limit now) = Inr sg"
    and "1 \<le> en_max_contracts (sc_entry cfg) \<Longrightarrow> k \<le> en_max_contracts (sc_entry cfg)"
  shows "own_signal cfg now sg"
  using assms by (auto simp: mk_signal_def new_signal_def own_signal_def split: if_splits)

lemma mk_signal_Inr [simp]: "mk_signal sg = Inr sg' \<longleftrightarrow> valid_signal sg \<and> sg' = sg"
  by (auto simp: mk_signal_def)

lemma mk_contract_Inr [simp]: "mk_contract c = Inr c' \<longleftrightarrow> valid_contract c \<and> c' = c"
  by (auto simp: mk_contract_def)

lemma dynamic_quantity_bounds:
  "1 \<le> m \<Longrightarrow> 1 \<le> dynamic_quantity mid capital pct m" "1 \<le> m \<Longrightarrow> dynamic_quantity mid capital pct m \<le> m"
  by (auto simp: dynamic_quantity_def split: option.split)

text \<open>The premium of more than one contract is paid out of the share of the equity.\<close>

lemma premium_within_share:
  assumes "0 < price" "1 < min (max 1 (py_int (capital * pct / (price * 100)))) m"
  shows "of_int (min (max 1 (py_int (capital * pct / (price * 100)))) m) * (price * 100) \<le> capital * pct"
proof -
  let ?x = "capital * pct / (price * 100)"
  have gt: "1 < py_int ?x" using assms(2) by (auto simp: max_def split: if_splits)
  then have "0 \<le> ?x" by (rule_tac ccontr) (simp add: py_int_def)
  then have "of_int (py_int ?x) \<le> ?x" by (rule py_int_le)
  moreover have "(of_int (min (max 1 (py_int ?x)) m) :: rat) \<le> of_int (py_int ?x)"
    using gt by (simp add: min_def max_def)
  ultimately have "of_int (min (max 1 (py_int ?x)) m) \<le> ?x" by (rule order_trans [rotated])
  then show ?thesis using assms(1) by (simp add: pos_le_divide_eq)
qed

locale strategy_provider =
  fixes poll :: "feed \<Rightarrow> strategy_config \<Rightarrow> instant \<Rightarrow> 's \<Rightarrow> signals \<times> 's"
  assumes poll_own: "poll fd cfg now s = (Inr sgs, s') \<Longrightarrow> sg \<in> set sgs \<Longrightarrow> own_signal cfg now sg"
begin

text \<open>The runner's assumption on the providers: they answer for the strategy they were asked about.\<close>

lemma poll_answers:
  assumes "\<And>r. \<exists>fd s. fst (f r) = fst (poll fd cfg now s)"
  shows "answers_for (sc_id cfg) f"
proof -
  have "sg_strategy sg = sc_id cfg" if "f r = (Inr sgs, r')" "sg \<in> set sgs" for r sgs r' sg
  proof -
    obtain fd s where "fst (f r) = fst (poll fd cfg now s)" using assms by blast
    then have "poll fd cfg now s = (Inr sgs, snd (poll fd cfg now s))" using that(1) by (simp add: prod_eq_iff)
    from poll_own [OF this that(2)] show ?thesis by (simp add: own_signal_def)
  qed
  then show ?thesis by (auto simp: answers_for_def)
qed

lemma poll_quantity:
  "poll fd cfg now s = (Inr sgs, s') \<Longrightarrow> sg \<in> set sgs \<Longrightarrow> 1 \<le> sg_quantity sg"
  by (drule (1) poll_own) (simp add: own_signal_def valid_signal_def)

end

text \<open>A feed for examples: the underlying between 500 and 501, options between 3 and 3.2; only the first
  and the last of the keys asked for are quoted.\<close>

fun sample_price :: "quote_key \<Rightarrow> quote_snapshot" where
  "sample_price (Symbol_Key y) = sample_quote\<lparr>q_symbol := Symbol_Key y, q_bid := Some 500, q_ask := Some 501\<rparr>"
| "sample_price (Option_Key y e k r) = sample_quote\<lparr>q_symbol := Option_Key y e k r, q_bid := Some 3, q_ask := Some (16/5)\<rparr>"

definition sample_feed :: feed where
  "sample_feed = \<lparr>fd_quotes = (\<lambda>n ks. Inr (map (\<lambda>k. (k, sample_price k)) (take 1 ks @ take 1 (rev ks)))),
     fd_account = Inr \<lparr>ac_id = ''A'', ac_net_liquidation = 100000, ac_available_funds = 80000,
       ac_buying_power = 400000, ac_daily_pnl = 0\<rparr>,
     fd_last_bar = Inr None, fd_bars = (\<lambda>t. Inr []), fd_close = (\<lambda>t. Inr None), fd_book = None\<rparr>"

text \<open>15:00 on 2024-10-04.\<close>

definition sample_now :: instant where
  "sample_now = 20000 * us_per_day + 900 * us_per_minute"

text \<open>A provider that can also be fired by the operator.\<close>

locale firing_provider = strategy_provider poll
  for poll :: "feed \<Rightarrow> strategy_config \<Rightarrow> instant \<Rightarrow> 's \<Rightarrow> signals \<times> 's" +
  fixes emit :: "feed \<Rightarrow> strategy_config \<Rightarrow> instant \<Rightarrow> 's \<Rightarrow> signals \<times> 's"
  assumes emit_own: "emit fd cfg now s = (Inr sgs, s') \<Longrightarrow> sg \<in> set sgs \<Longrightarrow> own_signal cfg now sg"

end
