(* ===== verification/Short_Straddle.thy ===== *)
theory Short_Straddle
  imports Provider_Common
begin

text \<open>
  \<^verbatim>\<open>src/strategies/xsp_short_straddle.py\<close>: selling an at-the-money call and put of the day. Times of the
  New York wall clock compare as numbers (\<open>ny_wall\<close>). \<open>ids\<close> are the identifiers drawn for the two
  signals. The divisions are by the leverage, which is never zero, and by prices that the checks before
  them have made positive.
\<close>

section \<open>The entry time\<close>

text \<open>The regular expression \<open>xsp_straddle_(\d{2})(\d{2})\<close>, searched from the left.\<close>

definition entry_token_at :: "string \<Rightarrow> (int \<times> int) option" where
  "entry_token_at s =
     (if take 13 s = ''xsp_straddle_'' \<and> 17 \<le> length s \<and> list_all is_digit_char (take 4 (drop 13 s))
      then Some (digits_value (take 2 (drop 13 s)), digits_value (take 2 (drop 15 s))) else None)"

fun parse_entry_time :: "string \<Rightarrow> (int \<times> int) option" where
  "parse_entry_time [] = None"
| "parse_entry_time (c # cs) = (case entry_token_at (c # cs) of Some t \<Rightarrow> Some t | None \<Rightarrow> parse_entry_time cs)"

definition straddle_entry_time :: "strategy_config \<Rightarrow> (int \<times> int) option" where
  "straddle_entry_time cfg =
     (case (if truthy (en_entry_time (sc_entry cfg)) then parse_pair (the (en_entry_time (sc_entry cfg))) else None) of
        Some t \<Rightarrow> Some t
      | None \<Rightarrow> parse_entry_time (sc_id cfg))"

section \<open>The legs\<close>

record straddle_state =
  sd_traded :: "(int \<times> string) set"
  sd_warned :: "(string, pyfloat) pydict"

definition leg_contracts :: "int \<Rightarrow> int \<Rightarrow> option_right \<Rightarrow> option_contract list" where
  "leg_contracts day atm right = map (\<lambda>k. xsp_contract day (of_int k) right) [atm - 12..atm + 12]"

record leg_choice =
  lc_contract :: option_contract
  lc_mid :: pyfloat
  lc_delta :: "pyfloat option"
  lc_diff :: pyfloat

text \<open>How far a quote is from what is looked for: the premium, or the delta, which a put has negative.\<close>

definition leg_diff :: "string \<Rightarrow> pyfloat \<Rightarrow> pyfloat \<Rightarrow> option_right \<Rightarrow> quote_snapshot \<Rightarrow> pyfloat \<Rightarrow> pyfloat option" where
  "leg_diff selection target_premium target_delta right q mid =
     (if selection = ''delta_target''
      then map_option (\<lambda>d. if right = CALL then \<bar>d - target_delta\<bar> else \<bar>d + target_delta\<bar>) (q_delta q)
      else Some \<bar>mid - target_premium\<bar>)"

definition consider_leg ::
  "pyfloat \<Rightarrow> (quote_snapshot \<Rightarrow> pyfloat \<Rightarrow> pyfloat option) \<Rightarrow> (quote_key, quote_snapshot) pydict
     \<Rightarrow> option_contract \<Rightarrow> leg_choice option \<Rightarrow> leg_choice option" where
  "consider_leg max_spread diff_of quotes c best = (case map_of quotes (to_quote_symbol c) of
       None \<Rightarrow> best
     | Some q \<Rightarrow> (case quote_mid q of
         None \<Rightarrow> best
       | Some mid \<Rightarrow>
           if \<not> fst (validate_quote_prices (Some q) max_spread) then best
           else (case diff_of q mid of
               None \<Rightarrow> best
             | Some diff \<Rightarrow>
                 if (case best of None \<Rightarrow> True | Some b \<Rightarrow> diff < lc_diff b)
                 then Some \<lparr>lc_contract = c, lc_mid = mid, lc_delta = q_delta q, lc_diff = diff\<rparr> else best)))"

definition best_leg ::
  "pyfloat \<Rightarrow> (quote_snapshot \<Rightarrow> pyfloat \<Rightarrow> pyfloat option) \<Rightarrow> (quote_key, quote_snapshot) pydict
     \<Rightarrow> option_contract list \<Rightarrow> leg_choice option" where
  "best_leg max_spread diff_of quotes cs = fold (consider_leg max_spread diff_of quotes) cs None"

definition leg_quantity :: "pyfloat \<Rightarrow> pyfloat \<Rightarrow> pyfloat \<Rightarrow> pyfloat \<Rightarrow> int \<Rightarrow> int" where
  "leg_quantity capital margin pct price max_contracts =
     (let share = min (price * 100 / margin) pct
      in min (max 1 (py_int (capital * share / (price * 100)))) max_contracts)"

section \<open>Signals\<close>

definition warn_no_quotes :: "instant \<Rightarrow> string \<Rightarrow> straddle_state \<Rightarrow> straddle_state" where
  "warn_no_quotes now sid s =
     (let t = of_int now / 1000000
      in if 60 \<le> t - dict_default (sd_warned s) sid 0 then s\<lparr>sd_warned := AList.update sid t (sd_warned s)\<rparr> else s)"

definition leg_signals ::
  "(nat \<Rightarrow> uuid) \<Rightarrow> strategy_config \<Rightarrow> instant \<Rightarrow> pyfloat \<Rightarrow> pyfloat \<Rightarrow> pyfloat \<Rightarrow> leg_choice \<Rightarrow> leg_choice \<Rightarrow> signals" where
  "leg_signals ids cfg now capital margin pct c p =
     (let leg = (\<lambda>k l. mk_signal (new_signal (ids k) cfg SHORT (lc_contract l)
           (leg_quantity capital margin pct (lc_mid l) (en_max_contracts (sc_entry cfg)))
           (Some (py_round 2 (lc_mid l))) now))
      in try_bind (leg 0 c) (\<lambda>call. try_bind (leg 1 p) (\<lambda>put. Inr [call, put])))"

text \<open>What a leg is looked for: the target premium by margin and leverage, or the target delta.\<close>

definition straddle_leverage :: "strategy_config \<Rightarrow> pyfloat" where
  "straddle_leverage cfg = or_default (sc_leverage cfg) 12"

definition straddle_share :: "strategy_config \<Rightarrow> pyfloat" where
  "straddle_share cfg = or_default (sc_sizing_pct cfg) (25/1000)"

definition straddle_aim :: "strategy_config \<Rightarrow> pyfloat \<Rightarrow> option_right \<Rightarrow> quote_snapshot \<Rightarrow> pyfloat \<Rightarrow> pyfloat option" where
  "straddle_aim cfg spot = leg_diff (en_strike_selection (sc_entry cfg))
     (spot * 2 * straddle_share cfg / straddle_leverage cfg) (or_default (en_target_delta (sc_entry cfg)) (3/10))"

definition available_capital :: "py_error + account_state \<Rightarrow> pyfloat" where
  "available_capital reply = (case net_liquidation reply of Some x \<Rightarrow> x | None \<Rightarrow> 100000)"

definition build_signals ::
  "zone \<Rightarrow> pyfloat \<Rightarrow> (nat \<Rightarrow> uuid) \<Rightarrow> feed \<Rightarrow> strategy_config \<Rightarrow> instant \<Rightarrow> straddle_state \<Rightarrow> signals \<times> straddle_state" where
  "build_signals ny max_spread ids fd cfg now s =
     (case Option.bind (quoted xsp (fd_quotes fd 0 [xsp])) spot_of of
        None \<Rightarrow> (Inr [], s)
      | Some spot \<Rightarrow>
          let calls = leg_contracts (ny_date ny now) (round_half_even spot) CALL;
              puts = leg_contracts (ny_date ny now) (round_half_even spot) PUT
          in if \<not> list_all valid_contract (calls @ puts) then (Inl (Validation_Error ''OptionContract''), s)
             else (case fd_quotes fd 1 (map to_quote_symbol (calls @ puts)) of
                 Inl e \<Rightarrow> (Inr [], s)
               | Inr quotes \<Rightarrow>
                   (case (best_leg max_spread (straddle_aim cfg spot CALL) quotes calls,
                           best_leg max_spread (straddle_aim cfg spot PUT) quotes puts) of
                         (Some c, Some p) \<Rightarrow>
                           (leg_signals ids cfg now (available_capital (fd_account fd))
                              (spot * 100 * 2 / straddle_leverage cfg) (straddle_share cfg) c p, s)
                       | _ \<Rightarrow> (Inr [], warn_no_quotes now (sc_id cfg) s))))"

definition straddle_poll ::
  "zone \<Rightarrow> pyfloat \<Rightarrow> (nat \<Rightarrow> uuid) \<Rightarrow> feed \<Rightarrow> strategy_config \<Rightarrow> instant \<Rightarrow> straddle_state \<Rightarrow> signals \<times> straddle_state" where
  "straddle_poll ny max_spread ids fd cfg now s =
     (case straddle_entry_time cfg of
        None \<Rightarrow> (Inr [], s)
      | Some t \<Rightarrow> (case replace_time (ny_wall ny now) t of
          Inl e \<Rightarrow> (Inl e, s)
        | Inr entry \<Rightarrow>
            if ny_wall ny now < entry then (Inr [], s)
            else if \<not> sc_allow_reentry cfg \<and> ((ny_date ny now, sc_id cfg) \<in> sd_traded s
                \<or> positioned_on ny (ny_date ny now) (sc_id cfg) (fd_book fd)) then (Inr [], s)
            else build_signals ny max_spread ids fd cfg now s))"

definition straddle_emit_now ::
  "zone \<Rightarrow> pyfloat \<Rightarrow> (nat \<Rightarrow> uuid) \<Rightarrow> feed \<Rightarrow> strategy_config \<Rightarrow> instant \<Rightarrow> straddle_state \<Rightarrow> signals \<times> straddle_state" where
  "straddle_emit_now = build_signals"

section \<open>The choice of a leg\<close>

definition usable_leg ::
  "pyfloat \<Rightarrow> (quote_snapshot \<Rightarrow> pyfloat \<Rightarrow> pyfloat option) \<Rightarrow> (quote_key, quote_snapshot) pydict
     \<Rightarrow> option_contract \<Rightarrow> pyfloat \<Rightarrow> pyfloat \<Rightarrow> bool" where
  "usable_leg max_spread diff_of quotes c mid diff \<longleftrightarrow> (\<exists>q. map_of quotes (to_quote_symbol c) = Some q
     \<and> quote_mid q = Some mid \<and> tradeable_prices (Some q) max_spread \<and> diff_of q mid = Some diff)"

definition offer ::
  "pyfloat \<Rightarrow> (quote_snapshot \<Rightarrow> pyfloat \<Rightarrow> pyfloat option) \<Rightarrow> (quote_key, quote_snapshot) pydict
     \<Rightarrow> option_contract \<Rightarrow> leg_choice option" where
  "offer max_spread diff_of quotes c = consider_leg max_spread diff_of quotes c None"

definition better :: "leg_choice option \<Rightarrow> leg_choice option \<Rightarrow> leg_choice option" where
  "better new best = (case new of None \<Rightarrow> best
     | Some l \<Rightarrow> (case best of None \<Rightarrow> new | Some b \<Rightarrow> if lc_diff l < lc_diff b then new else best))"

lemma consider_better: "consider_leg max_spread diff_of quotes c best = better (offer max_spread diff_of quotes c) best"
  by (simp add: consider_leg_def offer_def better_def split: option.split)

lemma offer_usable:
  "usable_leg max_spread diff_of quotes c mid diff \<longleftrightarrow>
     (\<exists>l. offer max_spread diff_of quotes c = Some l \<and> lc_contract l = c \<and> lc_mid l = mid \<and> lc_diff l = diff)"
  by (auto simp: usable_leg_def offer_def consider_leg_def validate_quote_prices_iff split: option.splits)

lemma offer_contract: "offer max_spread diff_of quotes c = Some l \<Longrightarrow> lc_contract l = c"
  by (auto simp: offer_def consider_leg_def split: option.splits if_splits)

lemma fold_better:
  "case fold (\<lambda>x. better (f x)) xs None of
     None \<Rightarrow> \<forall>x \<in> set xs. f x = None
   | Some b \<Rightarrow> (\<exists>x \<in> set xs. f x = Some b) \<and> (\<forall>x \<in> set xs. \<forall>l. f x = Some l \<longrightarrow> lc_diff b \<le> lc_diff l)"
proof (induction xs rule: rev_induct)
  case (snoc x xs)
  show ?case
  proof (cases "f x")
    case None
    with snoc show ?thesis by (auto simp: better_def split: option.splits)
  next
    case (Some l)
    with snoc show ?thesis by (auto simp: better_def split: option.splits)
  qed
qed simp

text \<open>The result of the loop is the usable candidate with the least distance, if there is one.\<close>

lemma best_leg_least:
  "case best_leg max_spread diff_of quotes cs of
     None \<Rightarrow> \<forall>c \<in> set cs. \<forall>m d. \<not> usable_leg max_spread diff_of quotes c m d
   | Some b \<Rightarrow> lc_contract b \<in> set cs \<and> usable_leg max_spread diff_of quotes (lc_contract b) (lc_mid b) (lc_diff b)
       \<and> (\<forall>c \<in> set cs. \<forall>m d. usable_leg max_spread diff_of quotes c m d \<longrightarrow> lc_diff b \<le> d)"
proof -
  have eq: "best_leg max_spread diff_of quotes cs = fold (\<lambda>c. better (offer max_spread diff_of quotes c)) cs None"
    unfolding best_leg_def by (rule arg_cong [where f = "\<lambda>f. fold f cs None"]) (intro ext, rule consider_better)
  show ?thesis
    using fold_better [where f = "offer max_spread diff_of quotes" and xs = cs]
    unfolding eq offer_usable by (auto split: option.splits dest: offer_contract)
qed

section \<open>What is sold\<close>

text \<open>A signal on the usable contract of a list that is nearest to what is looked for, at its middle.\<close>

definition nearest_leg ::
  "pyfloat \<Rightarrow> (quote_snapshot \<Rightarrow> pyfloat \<Rightarrow> pyfloat option) \<Rightarrow> (quote_key, quote_snapshot) pydict
     \<Rightarrow> option_contract list \<Rightarrow> strategy_signal \<Rightarrow> bool" where
  "nearest_leg max_spread diff_of quotes cs sg \<longleftrightarrow> sg_contract sg \<in> set cs
     \<and> (\<exists>mid diff. usable_leg max_spread diff_of quotes (sg_contract sg) mid diff \<and> sg_limit sg = Some (py_round 2 mid)
        \<and> (\<forall>c \<in> set cs. \<forall>m d. usable_leg max_spread diff_of quotes c m d \<longrightarrow> diff \<le> d))"

lemma leg_signals_Inr:
  assumes "leg_signals ids cfg now capital margin pct c p = Inr sgs"
  shows "\<exists>call put. sgs = [call, put] \<and> own_signal cfg now call \<and> own_signal cfg now put
    \<and> sg_direction call = SHORT \<and> sg_direction put = SHORT
    \<and> sg_contract call = lc_contract c \<and> sg_contract put = lc_contract p
    \<and> sg_limit call = Some (py_round 2 (lc_mid c)) \<and> sg_limit put = Some (py_round 2 (lc_mid p))
    \<and> sg_quantity call = leg_quantity capital margin pct (lc_mid c) (en_max_contracts (sc_entry cfg))
    \<and> sg_quantity put = leg_quantity capital margin pct (lc_mid p) (en_max_contracts (sc_entry cfg))"
proof -
  have le: "leg_quantity capital margin pct x m \<le> m" for x m by (simp add: leg_quantity_def Let_def)
  obtain call put where "sgs = [call, put]"
    "mk_signal (new_signal (ids 0) cfg SHORT (lc_contract c) (leg_quantity capital margin pct (lc_mid c) (en_max_contracts (sc_entry cfg)))
       (Some (py_round 2 (lc_mid c))) now) = Inr call"
    "mk_signal (new_signal (ids 1) cfg SHORT (lc_contract p) (leg_quantity capital margin pct (lc_mid p) (en_max_contracts (sc_entry cfg)))
       (Some (py_round 2 (lc_mid p))) now) = Inr put"
    using assms unfolding leg_signals_def Let_def try_bind_eq_Inr by blast
  then show ?thesis using mk_signal_own [OF _ le] by (fastforce simp: new_signal_def)
qed

lemma leg_contracts_expiry: "c \<in> set (leg_contracts day atm right) \<Longrightarrow> oc_expiry c = expiry_text day \<and> oc_right c = right"
  by (auto simp: leg_contracts_def xsp_contract_def)

lemma build_signals_Inr:
  assumes "build_signals ny max_spread ids fd cfg now s = (Inr sgs, s')" "sgs \<noteq> []"
  obtains spot quotes c p where
    "Option.bind (quoted xsp (fd_quotes fd 0 [xsp])) spot_of = Some spot"
    "fd_quotes fd 1 (map to_quote_symbol (leg_contracts (ny_date ny now) (round_half_even spot) CALL
       @ leg_contracts (ny_date ny now) (round_half_even spot) PUT)) = Inr quotes"
    "best_leg max_spread (straddle_aim cfg spot CALL) quotes (leg_contracts (ny_date ny now) (round_half_even spot) CALL) = Some c"
    "best_leg max_spread (straddle_aim cfg spot PUT) quotes (leg_contracts (ny_date ny now) (round_half_even spot) PUT) = Some p"
    "leg_signals ids cfg now (available_capital (fd_account fd)) (spot * 100 * 2 / straddle_leverage cfg) (straddle_share cfg) c p = Inr sgs"
  using assms by (auto simp: build_signals_def Let_def split: option.splits sum.splits if_splits)

lemma best_leg_nearest:
  assumes "best_leg max_spread diff_of quotes cs = Some b"
    and "sg_contract sg = lc_contract b" "sg_limit sg = Some (py_round 2 (lc_mid b))"
  shows "nearest_leg max_spread diff_of quotes cs sg"
  using best_leg_least [where max_spread = max_spread and diff_of = diff_of and quotes = quotes and cs = cs] assms by (auto simp: nearest_leg_def)

text \<open>A quote is at least as near to what the configuration asks for as another: to the premium that earns
  twice the share of the margin, the underlying over the leverage; or to the target delta, of a put
  counted negative.\<close>

definition as_near :: "strategy_config \<Rightarrow> pyfloat \<Rightarrow> option_right \<Rightarrow> quote_snapshot \<Rightarrow> quote_snapshot \<Rightarrow> bool" where
  "as_near cfg spot right q q' \<longleftrightarrow>
     (let premium = spot * 2 * or_default (sc_sizing_pct cfg) (25/1000) / or_default (sc_leverage cfg) 12;
          wanted = or_default (en_target_delta (sc_entry cfg)) (3/10);
          delta = (if right = PUT then - wanted else wanted)
      in if en_strike_selection (sc_entry cfg) = ''delta_target''
         then (\<exists>d. q_delta q = Some d \<and> (\<forall>d'. q_delta q' = Some d' \<longrightarrow> \<bar>d - delta\<bar> \<le> \<bar>d' - delta\<bar>))
         else (\<forall>m m'. quote_mid q = Some m \<longrightarrow> quote_mid q' = Some m' \<longrightarrow> \<bar>m - premium\<bar> \<le> \<bar>m' - premium\<bar>))"

lemma aim_as_near:
  assumes "straddle_aim cfg spot right q m = Some x" "quote_mid q = Some m" "quote_mid q' = Some m'"
    and "\<And>y. straddle_aim cfg spot right q' m' = Some y \<Longrightarrow> x \<le> y"
  shows "as_near cfg spot right q q'"
  using assms by (cases right) (auto simp: as_near_def straddle_aim_def leg_diff_def straddle_share_def straddle_leverage_def Let_def)

text \<open>The signal sells the contract of the chain around \<open>atm\<close> whose quote is tradeable and as near as any.\<close>

definition sells_nearest ::
  "strategy_config \<Rightarrow> pyfloat \<Rightarrow> pyfloat \<Rightarrow> int \<Rightarrow> (quote_key, quote_snapshot) pydict \<Rightarrow> option_right \<Rightarrow> strategy_signal \<Rightarrow> bool" where
  "sells_nearest cfg max_spread spot day quotes right sg \<longleftrightarrow>
     (\<exists>k q m. \<bar>k - round_half_even spot\<bar> \<le> 12 \<and> sg_contract sg = xsp_contract day (of_int k) right
        \<and> map_of quotes (to_quote_symbol (sg_contract sg)) = Some q \<and> tradeable_prices (Some q) max_spread
        \<and> quote_mid q = Some m \<and> sg_limit sg = Some (py_round 2 m)
        \<and> (\<forall>k' q'. \<bar>k' - round_half_even spot\<bar> \<le> 12
             \<longrightarrow> map_of quotes (to_quote_symbol (xsp_contract day (of_int k') right)) = Some q'
             \<longrightarrow> tradeable_prices (Some q') max_spread \<longrightarrow> as_near cfg spot right q q'))"

lemma tradeable_mid: "tradeable_prices (Some q) max_spread \<Longrightarrow> \<exists>m. quote_mid q = Some m"
proof (cases "quote_mid q")
  case None
  moreover assume "tradeable_prices (Some q) max_spread"
  ultimately show ?thesis by (auto simp: tradeable_prices_def quote_mid_def)
qed simp

lemma nearest_leg_sold:
  assumes "nearest_leg max_spread (straddle_aim cfg spot right) quotes (leg_contracts day (round_half_even spot) right) sg"
  shows "sells_nearest cfg max_spread spot day quotes right sg"
proof -
  let ?cs = "leg_contracts day (round_half_even spot) right"
  obtain m x where sg: "sg_contract sg \<in> set ?cs" "sg_limit sg = Some (py_round 2 m)"
    and u: "usable_leg max_spread (straddle_aim cfg spot right) quotes (sg_contract sg) m x"
    and le: "\<And>c m d. c \<in> set ?cs \<Longrightarrow> usable_leg max_spread (straddle_aim cfg spot right) quotes c m d \<Longrightarrow> x \<le> d"
    using assms by (auto simp: nearest_leg_def)
  from sg(1) obtain k where k: "\<bar>k - round_half_even spot\<bar> \<le> 12" "sg_contract sg = xsp_contract day (of_int k) right"
    unfolding leg_contracts_def set_map image_iff set_upto by (elim bexE) (erule that [rotated], simp add: abs_le_iff)
  from u obtain q where q: "map_of quotes (to_quote_symbol (sg_contract sg)) = Some q" "quote_mid q = Some m"
    "tradeable_prices (Some q) max_spread" "straddle_aim cfg spot right q m = Some x" by (auto simp: usable_leg_def)
  have "as_near cfg spot right q q'" if k': "\<bar>k' - round_half_even spot\<bar> \<le> 12"
    "map_of quotes (to_quote_symbol (xsp_contract day (of_int k') right)) = Some q'" "tradeable_prices (Some q') max_spread" for k' q'
  proof -
    obtain m' where m': "quote_mid q' = Some m'" using tradeable_mid [OF k'(3)] by auto
    have "xsp_contract day (of_int k') right \<in> set ?cs"
      unfolding leg_contracts_def set_map set_upto by (rule imageI) (use k'(1) in auto)
    then show ?thesis using q m' k'(2,3) by (intro aim_as_near) (auto simp: usable_leg_def intro: le)
  qed
  then show ?thesis using k q sg(2) by (auto simp: sells_nearest_def)
qed

text \<open>C13: the legs of a straddle are the nearest that can be traded. Whenever the strategy emits signals
  there are two, valid and of its own, both short: a call and a put expiring on the New York day, each
  the contract of the 25 strikes around the rounded price of the underlying whose quote, among the quotes
  the broker returned for these contracts, is tradeable and closest to the target premium or delta; it is
  offered at the middle of that quote. This is never before the entry time, and, unless re-entry is
  allowed, never on a day on which the books show a position of the strategy.\<close>

theorem straddle_legs_nearest:
  assumes "straddle_poll ny max_spread ids fd cfg now s = (Inr sgs, s')" "sgs \<noteq> []"
    and day: "0 \<le> ny_date ny now" "ny_date ny now \<le> 2932896"
  shows "\<exists>spot quotes call put entry t. sgs = [call, put]
    \<and> Option.bind (quoted xsp (fd_quotes fd 0 [xsp])) spot_of = Some spot
    \<and> fd_quotes fd 1 (map to_quote_symbol (leg_contracts (ny_date ny now) (round_half_even spot) CALL
         @ leg_contracts (ny_date ny now) (round_half_even spot) PUT)) = Inr quotes
    \<and> (\<forall>(right, sg) \<in> {(CALL, call), (PUT, put)}.
         sells_nearest cfg max_spread spot (ny_date ny now) quotes right sg
         \<and> own_signal cfg now sg \<and> sg_direction sg = SHORT \<and> oc_right (sg_contract sg) = right
         \<and> parse_expiry (oc_expiry (sg_contract sg)) = Some (ny_date ny now + 719163))
    \<and> straddle_entry_time cfg = Some t \<and> replace_time (ny_wall ny now) t = Inr entry \<and> entry \<le> ny_wall ny now
    \<and> (sc_allow_reentry cfg \<or> \<not> positioned_on ny (ny_date ny now) (sc_id cfg) (fd_book fd))"
proof -
  obtain t entry where gate: "straddle_entry_time cfg = Some t" "replace_time (ny_wall ny now) t = Inr entry"
      "entry \<le> ny_wall ny now" "sc_allow_reentry cfg \<or> \<not> positioned_on ny (ny_date ny now) (sc_id cfg) (fd_book fd)"
    and b: "build_signals ny max_spread ids fd cfg now s = (Inr sgs, s')"
    using assms(1,2) by (auto simp: straddle_poll_def split: option.splits sum.splits if_splits)
  obtain spot quotes c p where q: "Option.bind (quoted xsp (fd_quotes fd 0 [xsp])) spot_of = Some spot"
    and reply: "fd_quotes fd 1 (map to_quote_symbol (leg_contracts (ny_date ny now) (round_half_even spot) CALL
         @ leg_contracts (ny_date ny now) (round_half_even spot) PUT)) = Inr quotes"
    and c: "best_leg max_spread (straddle_aim cfg spot CALL) quotes (leg_contracts (ny_date ny now) (round_half_even spot) CALL) = Some c"
    and p: "best_leg max_spread (straddle_aim cfg spot PUT) quotes (leg_contracts (ny_date ny now) (round_half_even spot) PUT) = Some p"
    and l: "leg_signals ids cfg now (available_capital (fd_account fd)) (spot * 100 * 2 / straddle_leverage cfg) (straddle_share cfg) c p = Inr sgs"
    by (rule build_signals_Inr [OF b assms(2)])
  obtain call put where sgs: "sgs = [call, put]" "own_signal cfg now call" "own_signal cfg now put"
    "sg_direction call = SHORT" "sg_direction put = SHORT"
    and lc: "sg_contract call = lc_contract c" "sg_limit call = Some (py_round 2 (lc_mid c))"
    and lp: "sg_contract put = lc_contract p" "sg_limit put = Some (py_round 2 (lc_mid p))"
    using leg_signals_Inr [OF l] by blast
  note near = best_leg_nearest [OF c lc] best_leg_nearest [OF p lp]
  have "parse_expiry (expiry_text (ny_date ny now)) = Some (ny_date ny now + 719163)"
    by (rule expiry_text_parses) (use day in simp_all)
  with near have "parse_expiry (oc_expiry (sg_contract sg)) = Some (ny_date ny now + 719163) \<and> oc_right (sg_contract sg) = right"
    if "(right, sg) \<in> {(CALL, call), (PUT, put)}" for right sg
    using that by (auto simp: nearest_leg_def dest!: leg_contracts_expiry)
  with gate q reply near [THEN nearest_leg_sold] sgs show ?thesis
    by (intro exI [of _ spot] exI [of _ quotes] exI [of _ call] exI [of _ put] exI [of _ entry] exI [of _ t]) auto
qed

definition sample_straddle :: strategy_config where
  "sample_straddle = sample_strategy\<lparr>sc_id := ''xsp_straddle_1000_20''\<rparr>"

definition no_straddles :: straddle_state where
  "no_straddles = \<lparr>sd_traded = {}, sd_warned = []\<rparr>"

lemma sample_straddle_sells:
  "\<exists>sg sgs s'. build_signals (\<lambda>t. 0) 15 id sample_feed sample_straddle sample_now no_straddles = (Inr (sg # sgs), s')"
proof -
  let ?b = "build_signals (\<lambda>t. 0) 15 id sample_feed sample_straddle sample_now no_straddles"
  have "case fst ?b of Inr (sg # sgs) \<Rightarrow> True | _ \<Rightarrow> False" by code_simp
  then show ?thesis by (cases ?b) (auto split: sum.splits list.splits)
qed

lemma sample_straddle_polls:
  "straddle_poll (\<lambda>t. 0) 15 id sample_feed sample_straddle sample_now no_straddles
     = build_signals (\<lambda>t. 0) 15 id sample_feed sample_straddle sample_now no_straddles"
proof -
  have "straddle_entry_time sample_straddle = Some (10, 0)"
    "replace_time (ny_wall (\<lambda>t. 0) sample_now) (10, 0) = Inr (20000 * us_per_day + 600 * us_per_minute)"
    "ny_wall (\<lambda>t. 0) sample_now < 20000 * us_per_day + 600 * us_per_minute \<longleftrightarrow> False" by code_simp+
  moreover have "\<not> positioned_on ny day sid (fd_book sample_feed)" "sd_traded no_straddles = {}" for ny day sid
    by (simp_all add: positioned_on_def sample_feed_def no_straddles_def)
  ultimately show ?thesis by (simp add: straddle_poll_def)
qed

theorem straddle_legs_nearest_witness:
  "\<exists>call put s'. straddle_poll (\<lambda>t. 0) 15 id sample_feed sample_straddle sample_now no_straddles = (Inr [call, put], s')
    \<and> sg_direction call = SHORT \<and> oc_right (sg_contract put) = PUT \<and> parse_expiry (oc_expiry (sg_contract put)) = Some 739163"
proof -
  obtain sgs s' where e: "straddle_poll (\<lambda>t. 0) 15 id sample_feed sample_straddle sample_now no_straddles = (Inr sgs, s')"
    and ne: "sgs \<noteq> []"
    using sample_straddle_sells sample_straddle_polls by fastforce
  have d: "ny_date (\<lambda>t. 0) sample_now = 20000"
    by (simp add: ny_date_def ny_wall_def sample_now_def us_per_day_def us_per_minute_def)
  from straddle_legs_nearest [OF e ne] d e show ?thesis by auto
qed

text \<open>The size of a straddle leg: at least one contract and at most \<open>max_contracts\<close>; and when it is more
  than one, its premium at the middle is within the configured share of the capital.\<close>

lemma straddle_size_bounded:
  assumes "build_signals ny max_spread ids fd cfg now s = (Inr sgs, s')" "sg \<in> set sgs" "0 \<le> available_capital (fd_account fd)"
  shows "1 \<le> sg_quantity sg \<and> sg_quantity sg \<le> en_max_contracts (sc_entry cfg)
    \<and> (\<exists>mid. sg_limit sg = Some (py_round 2 mid) \<and> 0 < mid
        \<and> (1 < sg_quantity sg \<longrightarrow> of_int (sg_quantity sg) * (mid * 100) \<le> available_capital (fd_account fd) * straddle_share cfg))"
proof -
  let ?cap = "available_capital (fd_account fd)" and ?pct = "straddle_share cfg" and ?m = "en_max_contracts (sc_entry cfg)"
  have bound: "of_int (leg_quantity ?cap margin ?pct mid ?m) * (mid * 100) \<le> ?cap * ?pct"
    if "0 < mid" "1 < leg_quantity ?cap margin ?pct mid ?m" for margin mid
  proof -
    have "of_int (leg_quantity ?cap margin ?pct mid ?m) * (mid * 100) \<le> ?cap * min (mid * 100 / margin) ?pct"
      using premium_within_share [OF that(1)] that(2) by (simp add: leg_quantity_def Let_def)
    also have "\<dots> \<le> ?cap * ?pct" by (rule mult_left_mono) (use assms(3) in simp_all)
    finally show ?thesis .
  qed
  from assms(2) have ne: "sgs \<noteq> []" by auto
  obtain spot quotes c p where
    c: "best_leg max_spread (straddle_aim cfg spot CALL) quotes (leg_contracts (ny_date ny now) (round_half_even spot) CALL) = Some c"
    and p: "best_leg max_spread (straddle_aim cfg spot PUT) quotes (leg_contracts (ny_date ny now) (round_half_even spot) PUT) = Some p"
    and l: "leg_signals ids cfg now ?cap (spot * 100 * 2 / straddle_leverage cfg) ?pct c p = Inr sgs"
    by (rule build_signals_Inr [OF assms(1) ne])
  have pos: "0 < lc_mid b" if "best_leg max_spread f quotes cs = Some b" for f cs b
    using best_leg_least [where max_spread = max_spread and diff_of = f and quotes = quotes and cs = cs] that by (auto simp: usable_leg_def tradeable_prices_def quote_mid_def)
  have "\<exists>b \<in> {c, p}. sg_limit sg = Some (py_round 2 (lc_mid b)) \<and> own_signal cfg now sg
      \<and> sg_quantity sg = leg_quantity ?cap (spot * 100 * 2 / straddle_leverage cfg) ?pct (lc_mid b) ?m"
    using leg_signals_Inr [OF l] assms(2) by (elim exE conjE) (simp, elim disjE, simp_all)
  then obtain b where b: "b \<in> {c, p}" "sg_limit sg = Some (py_round 2 (lc_mid b))" "own_signal cfg now sg"
    "sg_quantity sg = leg_quantity ?cap (spot * 100 * 2 / straddle_leverage cfg) ?pct (lc_mid b) ?m" by blast
  have mid: "0 < lc_mid b" using b(1) pos [OF c] pos [OF p] by auto
  have "1 \<le> sg_quantity sg" using b(3) by (simp add: own_signal_def valid_signal_def)
  moreover have "sg_quantity sg \<le> ?m" unfolding b(4) by (simp add: leg_quantity_def Let_def)
  ultimately show ?thesis using b(2) mid bound [OF mid] b(4) by metis
qed

theorem straddle_size_bounded_witness:
  "\<exists>sg s'. fst (build_signals (\<lambda>t. 0) 15 id sample_feed sample_straddle sample_now no_straddles) = Inr (sg # s') \<and> 1 \<le> sg_quantity sg"
proof -
  obtain sg sgs s' where e: "build_signals (\<lambda>t. 0) 15 id sample_feed sample_straddle sample_now no_straddles = (Inr (sg # sgs), s')"
    using sample_straddle_sells by blast
  have "0 \<le> available_capital (fd_account sample_feed)" by code_simp
  with straddle_size_bounded [OF e, of sg] e show ?thesis by auto
qed

interpretation straddle: strategy_provider "straddle_poll ny max_spread ids"
proof
  fix fd cfg now s sgs s' sg
  assume a: "straddle_poll ny max_spread ids fd cfg now s = (Inr sgs, s')" and sg: "sg \<in> set sgs"
  then have "build_signals ny max_spread ids fd cfg now s = (Inr sgs, s')"
    by (auto simp: straddle_poll_def split: option.splits sum.splits if_splits)
  with sg show "own_signal cfg now sg"
    by (elim build_signals_Inr) (use sg in \<open>auto dest!: leg_signals_Inr\<close>)
qed

interpretation straddle: firing_provider "straddle_poll ny max_spread ids" "straddle_emit_now ny max_spread ids"
proof
  fix fd cfg now s sgs s' sg
  assume a: "straddle_emit_now ny max_spread ids fd cfg now s = (Inr sgs, s')" and sg: "sg \<in> set sgs"
  then show "own_signal cfg now sg"
    unfolding straddle_emit_now_def by (elim build_signals_Inr) (use sg in \<open>auto dest!: leg_signals_Inr\<close>)
qed

end
