(* ===== verification/Breakout.thy ===== *)
theory Breakout
  imports Provider_Common
begin

text \<open>
  \<^verbatim>\<open>src/strategies/xsp_breakout.py\<close> and its afternoon variant \<^verbatim>\<open>src/strategies/xsp_breakout_late.py\<close>:
  buying an at-the-money option when the underlying has moved far enough from the reference price of
  the day, which is fetched once and shared by all strategies of the provider. A variant is the table
  of the code-side parameters and the wall clock time of the reference bar.
\<close>

record breakout_variant =
  bv_params :: "(string, (int \<times> int) \<times> pyfloat) pydict"
  bv_reference :: "int \<times> int"

definition breakout_early :: breakout_variant where
  "breakout_early = \<lparr>bv_params =
     [(''xsp_0dte_1000'', ((10, 0), 2/1000)), (''xsp_0dte_1030'', ((10, 30), 2/1000)),
      (''xsp_0dte_1100'', ((11, 0), 3/1000)), (''xsp_0dte_1200'', ((12, 0), 2/1000)),
      (''xsp_0dte_1230'', ((12, 30), 3/1000))], bv_reference = (9, 31)\<rparr>"

definition breakout_late :: breakout_variant where
  "breakout_late = \<lparr>bv_params =
     [(''xsp_late_1300'', ((13, 0), 2/1000)), (''xsp_late_1330'', ((13, 30), 2/1000)),
      (''xsp_late_1400'', ((14, 0), 3/1000)), (''xsp_late_1430'', ((14, 30), 3/1000))], bv_reference = (12, 1)\<rparr>"

record breakout_state =
  bo_refs :: "(int, pyfloat) pydict"
  bo_failed :: "int set"
  bo_traded :: "(int \<times> string) set"
  bo_mock :: "pyfloat option"

text \<open>The configuration goes before the table; \<open>None\<close> when time or trigger are in neither.\<close>

definition breakout_params :: "breakout_variant \<Rightarrow> strategy_config \<Rightarrow> ((int \<times> int) \<times> pyfloat) option" where
  "breakout_params v cfg =
     (let code = map_of (bv_params v) (sc_id cfg);
          time = (case (if truthy (en_entry_time (sc_entry cfg)) then parse_pair (the (en_entry_time (sc_entry cfg))) else None) of
             Some t \<Rightarrow> Some t | None \<Rightarrow> map_option fst code);
          trigger = (case en_trigger_pct (sc_entry cfg) of Some x \<Rightarrow> Some x | None \<Rightarrow> map_option snd code)
      in case (time, trigger) of (Some t, Some x) \<Rightarrow> Some (t, x) | _ \<Rightarrow> None)"

text \<open>The reference price of a day: the cached one, else one attempt to fetch it.\<close>

definition fetch_reference :: "breakout_variant \<Rightarrow> feed \<Rightarrow> int \<Rightarrow> breakout_state \<Rightarrow> pyfloat option \<times> breakout_state" where
  "fetch_reference v fd day s = (case map_of (bo_refs s) day of
       Some p \<Rightarrow> (Some p, s)
     | None \<Rightarrow>
         if day \<in> bo_failed s then (None, s)
         else (case bo_mock s of
             Some p \<Rightarrow> (Some p, s\<lparr>bo_refs := AList.update day p (bo_refs s)\<rparr>)
           | None \<Rightarrow> (case fd_close fd (day * us_per_day + minute_of_day (bv_reference v) * us_per_minute) of
               Inr (Some p) \<Rightarrow> (Some p, s\<lparr>bo_refs := AList.update day p (bo_refs s)\<rparr>)
             | _ \<Rightarrow> (None, s\<lparr>bo_failed := insert day (bo_failed s)\<rparr>))))"

text \<open>The price the trigger is evaluated on: the close of the last complete bar, else that of the quote.\<close>

definition trigger_price :: "feed \<Rightarrow> pyfloat option" where
  "trigger_price fd = (case quoted xsp (fd_quotes fd 0 [xsp]) of
       None \<Rightarrow> None
     | Some q \<Rightarrow> (case fd_last_bar fd of Inr (Some b) \<Rightarrow> Some (br_close b) | _ \<Rightarrow> spot_of q))"

definition breakout_right :: "pyfloat \<Rightarrow> pyfloat \<Rightarrow> option_right option" where
  "breakout_right change trigger = (if trigger \<le> change then Some CALL else if change \<le> - trigger then Some PUT else None)"

definition breakout_signal :: "(nat \<Rightarrow> uuid) \<Rightarrow> feed \<Rightarrow> strategy_config \<Rightarrow> instant \<Rightarrow> int \<Rightarrow> pyfloat \<Rightarrow> option_right \<Rightarrow> signals" where
  "breakout_signal ids fd cfg now day price right =
     try_bind (mk_contract (xsp_contract day (of_int (round_half_even price)) right)) (\<lambda>c.
       let mid = premium_mid fd 1 c;
           quantity = dynamic_quantity mid (net_liquidation (fd_account fd)) (or_default (sc_sizing_pct cfg) (1/100))
                        (en_max_contracts (sc_entry cfg))
       in try_bind (mk_signal (new_signal (ids 0) cfg LONG c quantity (premium_limit mid) now)) (\<lambda>sg. Inr [sg]))"

definition breakout_trigger ::
  "(nat \<Rightarrow> uuid) \<Rightarrow> feed \<Rightarrow> strategy_config \<Rightarrow> instant \<Rightarrow> int \<Rightarrow> pyfloat \<Rightarrow> pyfloat \<Rightarrow> signals" where
  "breakout_trigger ids fd cfg now day ref trigger = (case trigger_price fd of
       None \<Rightarrow> Inr []
     | Some price \<Rightarrow>
         if ref = 0 then Inl (Zero_Division_Error ''float division by zero'')
         else (case breakout_right ((price - ref) / ref) trigger of
             None \<Rightarrow> Inr []
           | Some right \<Rightarrow> breakout_signal ids fd cfg now day price right))"

definition breakout_poll ::
  "breakout_variant \<Rightarrow> zone \<Rightarrow> (nat \<Rightarrow> uuid) \<Rightarrow> feed \<Rightarrow> strategy_config \<Rightarrow> instant \<Rightarrow> breakout_state \<Rightarrow> signals \<times> breakout_state" where
  "breakout_poll v ny ids fd cfg now s =
     (let day = ny_date ny now
      in case breakout_params v cfg of
        None \<Rightarrow> (Inr [], s)
      | Some (t, trigger) \<Rightarrow> (case replace_time (ny_wall ny now) t of
          Inl e \<Rightarrow> (Inl e, s)
        | Inr scan \<Rightarrow>
            if ny_wall ny now < scan then (Inr [], s)
            else if \<not> sc_allow_reentry cfg \<and> ((day, sc_id cfg) \<in> bo_traded s \<or> positioned_on ny day (sc_id cfg) (fd_book fd))
              then (Inr [], s)
            else (case fetch_reference v fd day s of
                (None, s1) \<Rightarrow> (Inr [], s1)
              | (Some ref, s1) \<Rightarrow> (breakout_trigger ids fd cfg now day ref trigger, s1))))"

section \<open>The reference price\<close>

definition breakout_step :: "breakout_variant \<Rightarrow> zone \<Rightarrow> breakout_state \<Rightarrow> breakout_state \<Rightarrow> bool" where
  "breakout_step v ny s s' \<longleftrightarrow> (\<exists>ids fd cfg now. s' = snd (breakout_poll v ny ids fd cfg now s))"

lemma poll_state:
  "snd (breakout_poll v ny ids fd cfg now s) = s
   \<or> snd (breakout_poll v ny ids fd cfg now s) = snd (fetch_reference v fd (ny_date ny now) s)"
  by (simp add: breakout_poll_def Let_def split: option.split sum.split prod.split)

lemma breakout_stepE:
  assumes "breakout_step v ny s s'"
  obtains "s' = s" | fd day where "s' = snd (fetch_reference v fd day s)"
  using assms poll_state [where v = v and ny = ny and s = s] unfolding breakout_step_def by metis

lemma fetch_keeps: "map_of (bo_refs s) d = Some p \<Longrightarrow> map_of (bo_refs (snd (fetch_reference v fd day s))) d = Some p"
  by (auto simp: fetch_reference_def split: option.split sum.split)

lemma fetch_keeps_failed:
  "d \<in> bo_failed s \<Longrightarrow> map_of (bo_refs s) d = None \<Longrightarrow>
     d \<in> bo_failed (snd (fetch_reference v fd day s)) \<and> map_of (bo_refs (snd (fetch_reference v fd day s))) d = None"
  by (auto simp: fetch_reference_def split: option.split sum.split)

lemma fetched: "fetch_reference v fd day s = (Some ref, s1) \<Longrightarrow> map_of (bo_refs s1) day = Some ref"
  by (auto simp: fetch_reference_def split: option.splits sum.splits if_splits)

interpretation reference: step_invariant "\<lambda>s. map_of (bo_refs s) d = Some p" "breakout_step v ny" "\<lambda>s. map_of (bo_refs s) d = Some p"
  by unfold_locales (auto elim!: breakout_stepE intro: fetch_keeps)

interpretation no_reference: step_invariant "\<lambda>s. d \<in> bo_failed s \<and> map_of (bo_refs s) d = None" "breakout_step v ny"
  "\<lambda>s. d \<in> bo_failed s \<and> map_of (bo_refs s) d = None"
  by unfold_locales (auto elim!: breakout_stepE dest: fetch_keeps_failed)

lemma failed_day_silent:
  assumes "ny_date ny now \<in> bo_failed s" "map_of (bo_refs s) (ny_date ny now) = None"
    and "fst (breakout_poll v ny ids fd cfg now s) = Inr sgs"
  shows "sgs = []"
  using assms by (auto simp: breakout_poll_def Let_def fetch_reference_def split: option.splits sum.splits if_splits)

text \<open>One reference price a day. In every run of a provider, whatever strategies it is polled for and
  whatever it is answered, the reference price of a day never changes once it is known; and once it
  could not be fetched, no strategy gets a signal on that day.\<close>

lemma breakout_reference_fixed:
  assumes "(breakout_step v ny)\<^sup>*\<^sup>* s s'"
  shows "(\<forall>d p. map_of (bo_refs s) d = Some p \<longrightarrow> map_of (bo_refs s') d = Some p)
    \<and> (\<forall>ids fd cfg now sgs. ny_date ny now \<in> bo_failed s \<and> map_of (bo_refs s) (ny_date ny now) = None
         \<and> fst (breakout_poll v ny ids fd cfg now s') = Inr sgs \<longrightarrow> sgs = [])"
proof (intro conjI allI impI)
  fix d p assume "map_of (bo_refs s) d = Some p"
  from reference.inv_reachable [OF this assms] show "map_of (bo_refs s') d = Some p" .
next
  fix ids fd cfg now sgs
  assume a: "ny_date ny now \<in> bo_failed s \<and> map_of (bo_refs s) (ny_date ny now) = None
    \<and> fst (breakout_poll v ny ids fd cfg now s') = Inr sgs"
  then have "ny_date ny now \<in> bo_failed s' \<and> map_of (bo_refs s') (ny_date ny now) = None"
    by (intro no_reference.inv_reachable [OF _ assms]) simp
  with a show "sgs = []" by (blast intro: failed_day_silent)
qed

section \<open>Signals\<close>

lemma breakout_signal_Inr:
  assumes "breakout_signal ids fd cfg now day price right = Inr sgs"
  shows "\<exists>sg. sgs = [sg] \<and> own_signal cfg now sg \<and> sg_direction sg = LONG
    \<and> sg_contract sg = xsp_contract day (of_int (round_half_even price)) right
    \<and> sg_limit sg = premium_limit (premium_mid fd 1 (sg_contract sg))
    \<and> sg_quantity sg = dynamic_quantity (premium_mid fd 1 (sg_contract sg)) (net_liquidation (fd_account fd))
        (or_default (sc_sizing_pct cfg) (1/100)) (en_max_contracts (sc_entry cfg))"
  using assms dynamic_quantity_bounds(2)
  by (auto simp: breakout_signal_def Let_def try_bind_eq_Inr new_signal_def own_signal_def)

text \<open>C20: a breakout is bought only when there is one. A poll that emits emits one valid signal of the
  strategy to buy: a call when the price has risen, a put when it has fallen by the trigger or more
  from the reference price kept for the New York day, at the strike nearest to the price, expiring
  that day, not before the scan time, and, unless re-entry is allowed, not on a day on which the books
  show a position of the strategy.\<close>

theorem breakout_signal_warranted:
  assumes "breakout_poll v ny ids fd cfg now s = (Inr sgs, s')" "sgs \<noteq> []"
    and day: "0 \<le> ny_date ny now" "ny_date ny now \<le> 2932896"
  shows "\<exists>ref price trigger t scan sg. sgs = [sg] \<and> own_signal cfg now sg \<and> sg_direction sg = LONG
    \<and> map_of (bo_refs s') (ny_date ny now) = Some ref \<and> trigger_price fd = Some price
    \<and> breakout_params v cfg = Some (t, trigger) \<and> replace_time (ny_wall ny now) t = Inr scan \<and> scan \<le> ny_wall ny now
    \<and> (case oc_right (sg_contract sg) of CALL \<Rightarrow> trigger \<le> (price - ref) / ref | PUT \<Rightarrow> (price - ref) / ref \<le> - trigger)
    \<and> \<bar>oc_strike (sg_contract sg) - price\<bar> \<le> 1/2
    \<and> parse_expiry (oc_expiry (sg_contract sg)) = Some (ny_date ny now + 719163)
    \<and> (sc_allow_reentry cfg \<or> \<not> positioned_on ny (ny_date ny now) (sc_id cfg) (fd_book fd))"
proof -
  obtain t trigger scan ref where g: "breakout_params v cfg = Some (t, trigger)" "replace_time (ny_wall ny now) t = Inr scan"
      "scan \<le> ny_wall ny now" "sc_allow_reentry cfg \<or> \<not> positioned_on ny (ny_date ny now) (sc_id cfg) (fd_book fd)"
      "fetch_reference v fd (ny_date ny now) s = (Some ref, s')"
    and b: "breakout_trigger ids fd cfg now (ny_date ny now) ref trigger = Inr sgs"
    using assms(1,2) by (auto simp: breakout_poll_def Let_def split: option.splits sum.splits prod.splits if_splits)
  obtain price right where p: "trigger_price fd = Some price" "breakout_right ((price - ref) / ref) trigger = Some right"
    "breakout_signal ids fd cfg now (ny_date ny now) price right = Inr sgs"
    using b assms(2) by (auto simp: breakout_trigger_def split: option.splits if_splits)
  obtain sg where sg: "sgs = [sg]" "own_signal cfg now sg" "sg_direction sg = LONG"
    "sg_contract sg = xsp_contract (ny_date ny now) (of_int (round_half_even price)) right"
    using breakout_signal_Inr [OF p(3)] by blast
  have "parse_expiry (expiry_text (ny_date ny now)) = Some (ny_date ny now + 719163)"
    by (rule expiry_text_parses) (use day in simp_all)
  moreover have "case right of CALL \<Rightarrow> trigger \<le> (price - ref) / ref | PUT \<Rightarrow> (price - ref) / ref \<le> - trigger"
    using p(2) by (auto simp: breakout_right_def split: if_splits)
  ultimately show ?thesis
    using g(1-4) p(1) sg fetched [OF g(5)] round_half_even_near [of price] by (auto simp: xsp_contract_def)
qed

interpretation breakout: strategy_provider "breakout_poll v ny ids"
proof
  fix fd cfg now s sgs s' sg
  assume a: "breakout_poll v ny ids fd cfg now s = (Inr sgs, s')" and sg: "sg \<in> set sgs"
  from a sg obtain day price right where "breakout_signal ids fd cfg now day price right = Inr sgs"
    by (auto simp: breakout_poll_def breakout_trigger_def Let_def split: option.splits sum.splits prod.splits if_splits)
  from breakout_signal_Inr [OF this] sg show "own_signal cfg now sg" by auto
qed

definition sample_breakout :: strategy_config where
  "sample_breakout = sample_strategy\<lparr>sc_id := ''xsp_0dte_1000''\<rparr>"

definition no_breakouts :: breakout_state where
  "no_breakouts = \<lparr>bo_refs = [(20000, 490)], bo_failed = {}, bo_traded = {}, bo_mock = None\<rparr>"

theorem breakout_signal_warranted_witness:
  "\<exists>sg s'. breakout_poll breakout_early (\<lambda>t. 0) id sample_feed sample_breakout sample_now no_breakouts = (Inr [sg], s')
    \<and> sg_direction sg = LONG \<and> parse_expiry (oc_expiry (sg_contract sg)) = Some 739163"
proof -
  let ?b = "breakout_poll breakout_early (\<lambda>t. 0) id sample_feed sample_breakout sample_now no_breakouts"
  have "case fst ?b of Inr sgs \<Rightarrow> sgs \<noteq> [] | Inl e \<Rightarrow> False" by code_simp
  then obtain sgs s' where e: "?b = (Inr sgs, s')" "sgs \<noteq> []" by (cases ?b) (auto split: sum.splits)
  have d: "ny_date (\<lambda>t. 0) sample_now = 20000"
    by (simp add: ny_date_def ny_wall_def sample_now_def us_per_day_def us_per_minute_def)
  from breakout_signal_warranted [OF e] d e show ?thesis by auto
qed

theorem breakout_reference_fixed_witness:
  "map_of (bo_refs (snd (breakout_poll breakout_late (\<lambda>t. 0) id sample_feed sample_breakout sample_now no_breakouts))) 20000 = Some 490"
proof -
  have "(breakout_step breakout_late (\<lambda>t. 0))\<^sup>*\<^sup>* no_breakouts
      (snd (breakout_poll breakout_late (\<lambda>t. 0) id sample_feed sample_breakout sample_now no_breakouts))"
    by (rule r_into_rtranclp) (auto simp: breakout_step_def)
  from breakout_reference_fixed [OF this] show ?thesis by (simp add: no_breakouts_def)
qed

end
