(* ===== verification/Five_EMA.thy ===== *)
theory Five_EMA
  imports Provider_Common
begin

text \<open>
  \<^verbatim>\<open>src/strategies/xsp_5_ema.py\<close>: five-minute bars and their average, the alert bar, the entry on a
  close through its level, and the exits of the positions. Times of day and the boundaries of the bars
  are readings of the New York wall clock in microseconds. The loop over the bars that are due has a
  termination proof; the budget of three fetches is the code's. Reasons for exits, which the code
  keeps as text for its log, are a datatype. Of the table of parameters each variant reads its own keys.
\<close>

section \<open>Parameters and state\<close>

record ema_params =
  ep_trail :: bool
  ep_target :: pyfloat
  ep_step :: pyfloat
  ep_lock :: pyfloat
  ep_max_trades :: int

definition ema_params_table :: "(string, ema_params) pydict" where
  "ema_params_table =
     [(''xsp_5ema_base'', \<lparr>ep_trail = False, ep_target = 3, ep_step = 0, ep_lock = 0, ep_max_trades = 5\<rparr>),
      (''xsp_5ema_trail'', \<lparr>ep_trail = True, ep_target = 0, ep_step = 1/5, ep_lock = 3/20, ep_max_trades = 5\<rparr>)]"

definition puts_only :: bool where
  "puts_only = True"

definition entry_cutoff_ny :: int where
  "entry_cutoff_ny = (15 * 60 + 30) * us_per_minute"

definition time_exit_ny :: int where
  "time_exit_ny = (15 * 60 + 45) * us_per_minute"

definition rth_open :: int where
  "rth_open = (9 * 60 + 30) * us_per_minute"

definition rth_close :: int where
  "rth_close = 16 * 60 * us_per_minute"

definition five_minutes :: int where
  "five_minutes = 5 * us_per_minute"

record signal_bar =
  sb_direction :: option_right
  sb_high :: pyfloat
  sb_low :: pyfloat
  sb_time :: int

record entry_trigger =
  et_direction :: option_right
  et_stop :: pyfloat
  et_entry :: pyfloat
  et_time :: int

record exit_context =
  xc_strategy :: string
  xc_direction :: option_right
  xc_stop :: "pyfloat option"
  xc_entry_underlying :: "pyfloat option"
  xc_entry_price :: "pyfloat option"
  xc_peak :: "pyfloat option"
  xc_floor :: "pyfloat option"

record ema_state =
  em_day :: "int option"
  em_ema :: "pyfloat option"
  em_next :: "int option"
  em_signal :: "signal_bar option"
  em_trigger :: "entry_trigger option"
  em_backfill_failed :: "int option"
  em_trades :: "(string, int) pydict"
  em_consumed :: "(string, int) pydict"
  em_contexts :: "(uuid, exit_context) pydict"
  em_pending :: "(string, exit_context) pydict"

definition new_ema :: ema_state where
  "new_ema = \<lparr>em_day = None, em_ema = None, em_next = None, em_signal = None, em_trigger = None,
     em_backfill_failed = None, em_trades = [], em_consumed = [], em_contexts = [], em_pending = []\<rparr>"

section \<open>The market state\<close>

definition reset_day :: "int \<Rightarrow> ema_state \<Rightarrow> ema_state" where
  "reset_day d s = s\<lparr>em_day := Some d, em_ema := None, em_signal := None, em_trigger := None,
     em_next := Some (d * us_per_day + (9 * 60 + 35) * us_per_minute), em_trades := [], em_consumed := []\<rparr>"

record five_bar =
  fb_open :: pyfloat
  fb_high :: pyfloat
  fb_low :: pyfloat
  fb_close :: pyfloat

definition bar_start :: "bar \<Rightarrow> int" where
  "bar_start b = br_minute b * us_per_minute"

text \<open>Five minutes of one-minute bars, when the builder had bars from before the window.\<close>

definition build_5min_bar :: "py_error + bar list \<Rightarrow> int \<Rightarrow> int \<Rightarrow> five_bar option" where
  "build_5min_bar reply start stop = (case reply of
       Inr (b # bs) \<Rightarrow>
         if start < bar_start b then None
         else (case filter (\<lambda>x. start \<le> bar_start x \<and> bar_start x < stop) (b # bs) of
             [] \<Rightarrow> None
           | w # ws \<Rightarrow> Some \<lparr>fb_open = br_open w, fb_high = Max (set (map br_high (w # ws))),
               fb_low = Min (set (map br_low (w # ws))), fb_close = br_close (last (w # ws))\<rparr>)
     | _ \<Rightarrow> None)"

definition next_average :: "pyfloat \<Rightarrow> pyfloat option \<Rightarrow> pyfloat" where
  "next_average close average = (case average of None \<Rightarrow> close | Some e \<Rightarrow> close * (1/3) + e * (2/3))"

text \<open>A close through the level of an earlier alert bar.\<close>

definition confirm_entry :: "int \<Rightarrow> pyfloat \<Rightarrow> signal_bar option \<Rightarrow> entry_trigger option" where
  "confirm_entry t close sig = (case sig of
       None \<Rightarrow> None
     | Some g \<Rightarrow>
         if t \<le> sb_time g then None
         else if sb_direction g = PUT \<and> close \<le> sb_low g
           then Some \<lparr>et_direction = PUT, et_stop = sb_high g, et_entry = close, et_time = t\<rparr>
         else if sb_direction g = CALL \<and> sb_high g \<le> close \<and> \<not> puts_only
           then Some \<lparr>et_direction = CALL, et_stop = sb_low g, et_entry = close, et_time = t\<rparr>
         else None)"

text \<open>A bar clear of the average is the new alert bar; one that touches it cancels the old.\<close>

definition alert_bar :: "int \<Rightarrow> pyfloat \<Rightarrow> five_bar \<Rightarrow> signal_bar option" where
  "alert_bar t average b =
     (if average < fb_low b then Some \<lparr>sb_direction = PUT, sb_high = fb_high b, sb_low = fb_low b, sb_time = t\<rparr>
      else if fb_high b < average \<and> \<not> puts_only
        then Some \<lparr>sb_direction = CALL, sb_high = fb_high b, sb_low = fb_low b, sb_time = t\<rparr>
      else None)"

definition process_close :: "int \<Rightarrow> pyfloat \<Rightarrow> five_bar option \<Rightarrow> ema_state \<Rightarrow> ema_state" where
  "process_close t close bar s =
     (let average = next_average close (em_ema s); s1 = s\<lparr>em_ema := Some average\<rparr>
      in case confirm_entry t close (em_signal s) of
           Some trig \<Rightarrow> s1\<lparr>em_trigger := Some trig, em_signal := None\<rparr>
         | None \<Rightarrow> s1\<lparr>em_trigger := None,
             em_signal := (case bar of None \<Rightarrow> em_signal s | Some b \<Rightarrow> alert_bar t average b)\<rparr>)"

text \<open>One bar that is due at \<open>t\<close>, after \<open>n\<close> fetches; \<open>None\<close> when the fetches are used up.\<close>

definition update_step :: "feed \<Rightarrow> int \<Rightarrow> nat \<Rightarrow> ema_state \<Rightarrow> (nat \<times> ema_state) option" where
  "update_step fd t n s = (case build_5min_bar (fd_bars fd t) (t - five_minutes) t of
       Some b \<Rightarrow> Some (n, process_close t (fb_close b) (Some b) s)
     | None \<Rightarrow>
         if em_backfill_failed s = em_day s then Some (n, s)
         else if 3 \<le> n then None
         else (case fd_close fd t of
             Inr (Some c) \<Rightarrow> Some (n + 1, process_close t c None s)
           | _ \<Rightarrow> Some (n + 1, s\<lparr>em_backfill_failed := em_day s\<rparr>)))"

function update_loop :: "feed \<Rightarrow> int \<Rightarrow> nat \<Rightarrow> ema_state \<Rightarrow> ema_state" where
  "update_loop fd now n s = (case em_next s of
       None \<Rightarrow> s
     | Some t \<Rightarrow>
         if now < t \<or> rth_close < t mod us_per_day then s
         else (case update_step fd t n s of
             None \<Rightarrow> s
           | Some (n', s') \<Rightarrow> update_loop fd now n' (s'\<lparr>em_next := Some (t + five_minutes)\<rparr>)))"
  by pat_completeness auto
termination
  by (relation "measure (\<lambda>(fd, now, n, s). case em_next s of None \<Rightarrow> 0 | Some t \<Rightarrow> nat (now + 1 - t))")
    (auto simp: five_minutes_def us_per_minute_def)

declare update_loop.simps [simp del]

definition update_market_state :: "zone \<Rightarrow> feed \<Rightarrow> instant \<Rightarrow> ema_state \<Rightarrow> ema_state" where
  "update_market_state ny fd now s =
     update_loop fd (ny_wall ny now) 0 (if em_day s = Some (ny_date ny now) then s else reset_day (ny_date ny now) s)"

section \<open>The contexts of the positions\<close>

definition positions_of :: "string \<Rightarrow> position_book option \<Rightarrow> position list" where
  "positions_of sid book = (case book of None \<Rightarrow> []
     | Some b \<Rightarrow> filter (\<lambda>p. ps_strategy p = sid \<and> open_status (ps_status p)) (dict_values (pb_positions b)))"

definition bind_context :: "string \<Rightarrow> position \<Rightarrow> ema_state \<Rightarrow> ema_state" where
  "bind_context sid p s =
     (if map_of (em_contexts s) (ps_id p) \<noteq> None then s
      else case map_of (em_pending s) sid of
        Some c \<Rightarrow> s\<lparr>em_pending := AList.delete sid (em_pending s),
            em_contexts := AList.update (ps_id p) (c\<lparr>xc_entry_price := Some (ps_avg_entry p),
              xc_peak := Some (ps_avg_entry p), xc_strategy := sid\<rparr>) (em_contexts s)\<rparr>
      | None \<Rightarrow> s\<lparr>em_contexts := AList.update (ps_id p)
            \<lparr>xc_strategy = sid, xc_direction = oc_right (ps_contract p), xc_stop = None, xc_entry_underlying = None,
             xc_entry_price = Some (ps_avg_entry p), xc_peak = Some (ps_avg_entry p), xc_floor = None\<rparr> (em_contexts s)\<rparr>)"

definition drop_stale :: "string \<Rightarrow> uuid set \<Rightarrow> ema_state \<Rightarrow> ema_state" where
  "drop_stale sid open_ids s =
     s\<lparr>em_contexts := filter (\<lambda>(i, c). \<not> (xc_strategy c = sid \<and> i \<notin> open_ids)) (em_contexts s)\<rparr>"

definition sync_position_contexts :: "string \<Rightarrow> position_book option \<Rightarrow> ema_state \<Rightarrow> ema_state" where
  "sync_position_contexts sid book s = (case book of None \<Rightarrow> s
     | Some b \<Rightarrow> let ps = positions_of sid book in fold (bind_context sid) ps (drop_stale sid (set (map ps_id ps)) s))"

section \<open>Entries\<close>

definition weekday :: "int \<Rightarrow> int" where
  "weekday day = (day + 3) mod 7"

definition entry_hours :: "zone \<Rightarrow> instant \<Rightarrow> bool" where
  "entry_hours ny now \<longleftrightarrow> weekday (ny_date ny now) < 5
     \<and> rth_open \<le> ny_wall ny now mod us_per_day \<and> ny_wall ny now mod us_per_day < entry_cutoff_ny"

definition take_trigger :: "string \<Rightarrow> entry_trigger \<Rightarrow> pyfloat option \<Rightarrow> ema_state \<Rightarrow> ema_state" where
  "take_trigger sid trig mid s = s\<lparr>em_consumed := AList.update sid (et_time trig) (em_consumed s),
     em_trades := AList.update sid (dict_default (em_trades s) sid 0 + 1) (em_trades s),
     em_pending := AList.update sid \<lparr>xc_strategy = [], xc_direction = et_direction trig, xc_stop = Some (et_stop trig),
       xc_entry_underlying = Some (et_entry trig), xc_entry_price = mid, xc_peak = mid, xc_floor = None\<rparr> (em_pending s)\<rparr>"

definition ema_entry ::
  "zone \<Rightarrow> (nat \<Rightarrow> uuid) \<Rightarrow> feed \<Rightarrow> strategy_config \<Rightarrow> instant \<Rightarrow> entry_trigger \<Rightarrow> ema_state \<Rightarrow> signals \<times> ema_state" where
  "ema_entry ny ids fd cfg now trig s =
     (case mk_contract (xsp_contract (ny_date ny now) (of_int (round_half_even (et_entry trig))) (et_direction trig)) of
        Inl e \<Rightarrow> (Inl e, s)
      | Inr c \<Rightarrow>
          let mid = premium_mid fd 0 c;
              quantity = dynamic_quantity mid (net_liquidation (fd_account fd)) (or_default (sc_sizing_pct cfg) (1/100))
                           (en_max_contracts (sc_entry cfg))
          in (try_bind (mk_signal (new_signal (ids 0) cfg LONG c quantity (premium_limit mid) now)) (\<lambda>sg. Inr [sg]),
              take_trigger (sc_id cfg) trig mid s))"

definition ema_poll ::
  "zone \<Rightarrow> (nat \<Rightarrow> uuid) \<Rightarrow> feed \<Rightarrow> strategy_config \<Rightarrow> instant \<Rightarrow> ema_state \<Rightarrow> signals \<times> ema_state" where
  "ema_poll ny ids fd cfg now s = (case map_of ema_params_table (sc_id cfg) of
       None \<Rightarrow> (Inr [], s)
     | Some ep \<Rightarrow>
         let s1 = sync_position_contexts (sc_id cfg) (fd_book fd) (update_market_state ny fd now s)
         in if \<not> entry_hours ny now then (Inr [], s1)
            else if ep_max_trades ep \<le> dict_default (em_trades s1) (sc_id cfg) 0 then (Inr [], s1)
            else if positions_of (sc_id cfg) (fd_book fd) \<noteq> [] then (Inr [], s1)
            else (case em_trigger s1 of
                None \<Rightarrow> (Inr [], s1)
              | Some trig \<Rightarrow>
                  if map_of (em_consumed s1) (sc_id cfg) = Some (et_time trig) then (Inr [], s1)
                  else ema_entry ny ids fd cfg now trig s1))"

section \<open>Exits\<close>

datatype ema_exit = Exit_Time | Exit_Stop | Exit_Target | Exit_Floor | Exit_Fallback

definition underlying_price :: "feed \<Rightarrow> pyfloat option" where
  "underlying_price fd = (case fd_last_bar fd of
       Inr (Some b) \<Rightarrow> Some (br_close b)
     | _ \<Rightarrow> (case quoted xsp (fd_quotes fd 0 [xsp]) of
         None \<Rightarrow> None
       | Some q \<Rightarrow> (case quote_mid q of Some m \<Rightarrow> Some m
           | None \<Rightarrow> (case q_last q of Some l \<Rightarrow> if l = 0 then q_close q else Some l | None \<Rightarrow> q_close q))))"

definition stop_reached :: "exit_context \<Rightarrow> pyfloat \<Rightarrow> bool" where
  "stop_reached c underlying \<longleftrightarrow> (case xc_stop c of None \<Rightarrow> False
     | Some x \<Rightarrow> xc_direction c = CALL \<and> underlying \<le> x \<or> xc_direction c = PUT \<and> x \<le> underlying)"

definition target_reached :: "pyfloat \<Rightarrow> exit_context \<Rightarrow> pyfloat \<Rightarrow> bool" where
  "target_reached rr c underlying \<longleftrightarrow> (case (xc_stop c, xc_entry_underlying c) of
       (Some x, Some e) \<Rightarrow> let risk = \<bar>e - x\<bar>
         in 0 < risk \<and> (xc_direction c = CALL \<and> e + rr * risk \<le> underlying \<or> xc_direction c = PUT \<and> underlying \<le> e - rr * risk)
     | _ \<Rightarrow> False)"

definition context_entry :: "exit_context \<Rightarrow> position \<Rightarrow> pyfloat" where
  "context_entry c p = or_default (xc_entry_price c) (ps_avg_entry p)"

definition floor_steps :: "ema_params \<Rightarrow> pyfloat \<Rightarrow> pyfloat option \<Rightarrow> int" where
  "floor_steps ep entry peak = (case peak of None \<Rightarrow> 0
     | Some k \<Rightarrow> if k = 0 then 0 else py_int ((k - entry) / (entry * ep_step ep)))"

text \<open>The floor comes from the peak so far, then the peak follows the price.\<close>

definition trail_context :: "ema_params \<Rightarrow> pyfloat \<Rightarrow> pyfloat \<Rightarrow> exit_context \<Rightarrow> exit_context" where
  "trail_context ep entry mid c =
     (let steps = floor_steps ep entry (xc_peak c)
      in c\<lparr>xc_floor := (if 0 < steps then Some (entry + of_int steps * (entry * ep_lock ep)) else xc_floor c),
           xc_peak := (if or_default (xc_peak c) 0 < mid then Some mid else xc_peak c)\<rparr>)"

text \<open>The reason so far and the context, after the part of the variant; \<open>mid\<close> is the option's price.\<close>

definition variant_exit ::
  "ema_params \<Rightarrow> pyfloat option \<Rightarrow> pyfloat option \<Rightarrow> position \<Rightarrow> ema_exit option \<times> exit_context \<Rightarrow> ema_exit option \<times> exit_context" where
  "variant_exit ep underlying mid p rc = (case rc of (reason, c) \<Rightarrow>
     if \<not> ep_trail ep then
       (if reason = None \<and> (case underlying of None \<Rightarrow> False | Some u \<Rightarrow> target_reached (ep_target ep) c u)
        then Some Exit_Target else reason, c)
     else (case mid of
         None \<Rightarrow> (reason, c)
       | Some m \<Rightarrow>
           if \<not> 0 < context_entry c p then (reason, c)
           else let c' = trail_context ep (context_entry c p) m c
             in (if reason = None \<and> (case xc_floor c' of None \<Rightarrow> False | Some f \<Rightarrow> m \<le> f) then Some Exit_Floor else reason, c')))"

definition fallback_exit :: "pyfloat option \<Rightarrow> position \<Rightarrow> ema_exit option \<times> exit_context \<Rightarrow> ema_exit option" where
  "fallback_exit mid p rc = (case rc of (reason, c) \<Rightarrow>
     if reason = None \<and> xc_stop c = None
        \<and> (case mid of None \<Rightarrow> False | Some m \<Rightarrow> context_entry c p \<noteq> 0 \<and> m \<le> context_entry c p * (1 - 1/5))
     then Some Exit_Fallback else reason)"

definition exit_of_position ::
  "ema_params \<Rightarrow> int \<Rightarrow> pyfloat option \<Rightarrow> pyfloat option \<Rightarrow> pyfloat option \<Rightarrow> position \<Rightarrow> exit_context \<Rightarrow> ema_exit option \<times> exit_context" where
  "exit_of_position ep tod underlying mid1 mid2 p c =
     (let reason = (if time_exit_ny \<le> tod then Some Exit_Time
            else if (case underlying of None \<Rightarrow> False | Some u \<Rightarrow> stop_reached c u) then Some Exit_Stop else None);
          rc = variant_exit ep underlying mid1 p (reason, c)
      in (fallback_exit mid2 p rc, snd rc))"

text \<open>Position \<open>k\<close> of the loop takes the requests \<open>2k + 1\<close> and \<open>2k + 2\<close> of the call.\<close>

fun exits_of_positions ::
  "ema_params \<Rightarrow> feed \<Rightarrow> int \<Rightarrow> pyfloat option \<Rightarrow> nat \<Rightarrow> position list \<Rightarrow> ema_state \<Rightarrow> uuid set \<times> ema_state" where
  "exits_of_positions ep fd tod underlying k [] s = ({}, s)"
| "exits_of_positions ep fd tod underlying k (p # ps) s = (case map_of (em_contexts s) (ps_id p) of
       None \<Rightarrow> exits_of_positions ep fd tod underlying (Suc k) ps s
     | Some c \<Rightarrow> (case exit_of_position ep tod underlying (premium_mid fd (2 * k + 1) (ps_contract p))
             (premium_mid fd (2 * k + 2) (ps_contract p)) p c of
         (reason, c') \<Rightarrow> (case exits_of_positions ep fd tod underlying (Suc k) ps
               (s\<lparr>em_contexts := AList.update (ps_id p) c' (em_contexts s)\<rparr>) of
           (ids, s') \<Rightarrow> (if reason = None then ids else insert (ps_id p) ids, s'))))"

definition ema_collect_exits :: "zone \<Rightarrow> feed \<Rightarrow> strategy_config \<Rightarrow> instant \<Rightarrow> ema_state \<Rightarrow> uuid set \<times> ema_state" where
  "ema_collect_exits ny fd cfg now s = (case map_of ema_params_table (sc_id cfg) of
       None \<Rightarrow> ({}, s)
     | Some ep \<Rightarrow>
         let s1 = sync_position_contexts (sc_id cfg) (fd_book fd) (update_market_state ny fd now s);
             ps = positions_of (sc_id cfg) (fd_book fd)
         in if ps = [] then ({}, s1)
            else exits_of_positions ep fd (ny_wall ny now mod us_per_day) (underlying_price fd) 0 ps s1)"

section \<open>The market state is sound\<close>

text \<open>Bars whose low is not above their high, as the bar builder keeps them.\<close>

definition sound_feed :: "feed \<Rightarrow> bool" where
  "sound_feed fd \<longleftrightarrow> (\<forall>t bs. fd_bars fd t = Inr bs \<longrightarrow> (\<forall>b\<in>set bs. br_low b \<le> br_high b))"

definition before :: "int \<Rightarrow> int option \<Rightarrow> bool" where
  "before t due \<longleftrightarrow> (case due of None \<Rightarrow> False | Some x \<Rightarrow> t < x)"

definition sound_signal :: "ema_state \<Rightarrow> bool" where
  "sound_signal s \<longleftrightarrow> (case em_signal s of None \<Rightarrow> True
     | Some g \<Rightarrow> sb_direction g = PUT \<and> sb_low g \<le> sb_high g \<and> before (sb_time g) (em_next s))"

definition sound_trigger :: "ema_state \<Rightarrow> bool" where
  "sound_trigger s \<longleftrightarrow> (case em_trigger s of None \<Rightarrow> True
     | Some g \<Rightarrow> et_direction g = PUT \<and> et_entry g \<le> et_stop g \<and> before (et_time g) (em_next s) \<and> em_signal s = None)"

definition trades_within :: "ema_state \<Rightarrow> bool" where
  "trades_within s \<longleftrightarrow> (\<forall>sid ep. map_of ema_params_table sid = Some ep \<longrightarrow> dict_default (em_trades s) sid 0 \<le> ep_max_trades ep)"

definition market_ok :: "ema_state \<Rightarrow> bool" where
  "market_ok s \<longleftrightarrow> sound_signal s \<and> sound_trigger s \<and> (em_day s \<noteq> None \<longrightarrow> em_next s \<noteq> None)"

text \<open>What every step of the loop keeps, the loop keeps.\<close>

lemma update_loop_preserves:
  assumes "\<And>t n s n' s'. J s \<Longrightarrow> em_next s = Some t \<Longrightarrow> t \<le> now \<Longrightarrow> update_step fd t n s = Some (n', s') \<Longrightarrow>
      J (s'\<lparr>em_next := Some (t + five_minutes)\<rparr>)"
    and "J s"
  shows "J (update_loop fd now n s)"
  using assms
proof (induction fd now n s rule: update_loop.induct)
  case (1 fd now n s)
  show ?case
  proof (cases "em_next s")
    case None
    then show ?thesis using "1.prems"(2) by (simp add: update_loop.simps)
  next
    case next': (Some t)
    show ?thesis
    proof (cases "now < t \<or> rth_close < t mod us_per_day \<or> update_step fd t n s = None")
      case True
      then show ?thesis using next' "1.prems"(2) by (auto simp: update_loop.simps)
    next
      case False
      then obtain n' s' where st: "update_step fd t n s = Some (n', s')" by auto
      have "J (s'\<lparr>em_next := Some (t + five_minutes)\<rparr>)" using "1.prems"(1) [OF "1.prems"(2) next' _ st] False by simp
      then have "J (update_loop fd now n' (s'\<lparr>em_next := Some (t + five_minutes)\<rparr>))"
        using "1.IH" [OF next' _ st refl] "1.prems"(1) False by simp
      then show ?thesis using next' False st by (subst update_loop.simps) simp
    qed
  qed
qed

lemma built_bar:
  assumes "build_5min_bar reply start stop = Some b"
  obtains bs w ws where "reply = Inr bs" "w # ws = filter (\<lambda>x. start \<le> bar_start x \<and> bar_start x < stop) bs"
    "b = \<lparr>fb_open = br_open w, fb_high = Max (set (map br_high (w # ws))), fb_low = Min (set (map br_low (w # ws))),
      fb_close = br_close (last (w # ws))\<rparr>"
proof -
  obtain x bs where bs: "reply = Inr (x # bs)" using assms by (auto simp: build_5min_bar_def split: sum.splits list.splits)
  obtain w ws where w: "filter (\<lambda>x. start \<le> bar_start x \<and> bar_start x < stop) (x # bs) = w # ws"
    using assms bs by (auto simp: build_5min_bar_def simp del: filter.simps split: if_splits list.splits)
  show thesis by (rule that [of "x # bs" w ws])
      (use assms bs w in \<open>auto simp: build_5min_bar_def simp del: filter.simps split: if_splits\<close>)
qed

lemma built_bar_sound:
  assumes "sound_feed fd" "build_5min_bar (fd_bars fd t) start stop = Some b"
  shows "fb_low b \<le> fb_high b"
  using assms(2)
proof (rule built_bar)
  fix bs w ws
  assume bs: "fd_bars fd t = Inr bs" "w # ws = filter (\<lambda>x. start \<le> bar_start x \<and> bar_start x < stop) bs"
    and b: "b = \<lparr>fb_open = br_open w, fb_high = Max (set (map br_high (w # ws))), fb_low = Min (set (map br_low (w # ws))),
      fb_close = br_close (last (w # ws))\<rparr>"
  have "w \<in> set (filter (\<lambda>x. start \<le> bar_start x \<and> bar_start x < stop) bs)" by (simp flip: bs(2))
  then have "br_low w \<le> br_high w" using assms(1) bs(1) by (simp add: sound_feed_def)
  moreover have "fb_low b \<le> br_low w" "br_high w \<le> fb_high b" unfolding b by (simp_all add: Min_le_iff Max_ge_iff)
  ultimately show ?thesis by linarith
qed

lemma confirm_entry_sound:
  assumes "confirm_entry t close (Some g) = Some trig" "sb_direction g = PUT" "sb_low g \<le> sb_high g"
  shows "et_direction trig = PUT \<and> et_entry trig \<le> et_stop trig \<and> et_time trig = t"
  using assms by (auto simp: confirm_entry_def puts_only_def split: if_splits)

lemma alert_bar_sound:
  assumes "alert_bar t average b = Some g"
  shows "sb_direction g = PUT \<and> sb_low g = fb_low b \<and> sb_high g = fb_high b \<and> sb_time g = t \<and> average < sb_low g"
  using assms by (auto simp: alert_bar_def puts_only_def split: if_splits)

lemma process_close_frame [simp]:
  "em_trades (process_close t close bar s) = em_trades s" "em_day (process_close t close bar s) = em_day s"
  "em_next (process_close t close bar s) = em_next s" "em_consumed (process_close t close bar s) = em_consumed s"
  "em_contexts (process_close t close bar s) = em_contexts s" "em_pending (process_close t close bar s) = em_pending s"
  "em_ema (process_close t close bar s) = Some (next_average close (em_ema s))"
  "em_backfill_failed (process_close t close bar s) = em_backfill_failed s"
  by (simp_all add: process_close_def Let_def split: option.split)

lemma five_minutes_pos [simp]: "0 < five_minutes"
  by (simp add: five_minutes_def us_per_minute_def)

lemma process_close_ok:
  assumes "market_ok s" "em_next s = Some t" "\<And>b. bar = Some b \<Longrightarrow> fb_low b \<le> fb_high b"
  shows "market_ok ((process_close t close bar s)\<lparr>em_next := Some (t + five_minutes)\<rparr>)"
proof (cases "confirm_entry t close (em_signal s)")
  case None
  have "sound_signal ((process_close t close bar s)\<lparr>em_next := Some (t + five_minutes)\<rparr>)"
  proof (cases bar)
    case None': None
    have "before (sb_time g) (Some (t + five_minutes))" if "em_signal s = Some g" for g
      using assms(1,2) that by (simp add: market_ok_def sound_signal_def before_def) (use five_minutes_pos in linarith)
    then show ?thesis using assms(1) None None'
      by (auto simp: market_ok_def sound_signal_def process_close_def split: option.split)
  next
    case (Some b)
    show ?thesis using assms(3) [OF Some] None Some
      by (auto simp: sound_signal_def process_close_def before_def Let_def split: option.split dest: alert_bar_sound)
  qed
  then show ?thesis using None by (simp add: market_ok_def sound_trigger_def process_close_def Let_def)
next
  case (Some trig)
  then obtain g where g: "em_signal s = Some g" by (cases "em_signal s") (auto simp: confirm_entry_def)
  have "et_direction trig = PUT \<and> et_entry trig \<le> et_stop trig \<and> et_time trig = t"
    by (rule confirm_entry_sound [OF Some [unfolded g]]) (use assms(1) g in \<open>auto simp: market_ok_def sound_signal_def\<close>)
  then show ?thesis using Some
    by (simp add: market_ok_def sound_signal_def sound_trigger_def process_close_def before_def Let_def)
qed
text \<open>What became of a bar that was due: processed, or given up because there is no history for it.\<close>

lemma update_stepE:
  assumes "update_step fd t n s = Some (n', s')"
  obtains b where "build_5min_bar (fd_bars fd t) (t - five_minutes) t = Some b" "n' = n" "s' = process_close t (fb_close b) (Some b) s"
    | c where "n < 3" "n' = n + 1" "fd_close fd t = Inr (Some c)" "s' = process_close t c None s"
    | "n < 3" "n' = n + 1" "s' = s\<lparr>em_backfill_failed := em_day s\<rparr>"
    | "em_backfill_failed s = em_day s" "n' = n" "s' = s"
proof (cases "build_5min_bar (fd_bars fd t) (t - five_minutes) t")
  case (Some b)
  then show thesis using assms by (intro that(1)) (auto simp: update_step_def)
next
  case None
  note bar = this
  show thesis
  proof (cases "em_backfill_failed s = em_day s")
    case True
    then show thesis using assms bar by (intro that(4)) (auto simp: update_step_def)
  next
    case False
    then have n: "n < 3" using assms bar by (simp add: update_step_def split: if_splits)
    show thesis
    proof (cases "\<exists>c. fd_close fd t = Inr (Some c)")
      case True
      then obtain c where "fd_close fd t = Inr (Some c)" by blast
      then show thesis using assms bar False n by (intro that(2)) (auto simp: update_step_def)
    next
      case no: False
      then show thesis using assms bar False n
        by (intro that(3)) (auto simp: update_step_def split: sum.splits option.splits)
    qed
  qed
qed

lemma market_ok_later:
  assumes "market_ok s" "em_next s = Some t" "t < t'"
  shows "market_ok (s\<lparr>em_backfill_failed := d, em_next := Some t'\<rparr>)" "market_ok (s\<lparr>em_next := Some t'\<rparr>)"
  using assms by (auto simp: market_ok_def sound_signal_def sound_trigger_def before_def split: option.splits)

lemma update_market_ok:
  assumes fd: "sound_feed fd" and "market_ok s"
  shows "market_ok (update_market_state ny fd now s)"
proof -
  have step: "market_ok (s'\<lparr>em_next := Some (t + five_minutes)\<rparr>)"
    if "market_ok s" "em_next s = Some t" "t \<le> ny_wall ny now" "update_step fd t n s = Some (n', s')" for t n s n' s'
    using that(4)
  proof (cases rule: update_stepE)
    case (1 b)
    then show ?thesis using process_close_ok [OF that(1,2)] built_bar_sound [OF fd 1(1)] by blast
  next
    case (2 c)
    then show ?thesis using process_close_ok [OF that(1,2), of None] by simp
  next
    case 3
    then show ?thesis using market_ok_later(1) [OF that(1,2), of "t + five_minutes"] by simp
  next
    case 4
    then show ?thesis using market_ok_later(2) [OF that(1,2), of "t + five_minutes"] by simp
  qed
  have "market_ok (if em_day s = Some (ny_date ny now) then s else reset_day (ny_date ny now) s)"
    using assms(2) by (simp add: reset_day_def market_ok_def sound_signal_def sound_trigger_def)
  then show ?thesis unfolding update_market_state_def by (rule update_loop_preserves [rotated]) (rule step)
qed

lemma update_loop_frame [simp]:
  "em_trades (update_loop fd now n s) = em_trades s" "em_consumed (update_loop fd now n s) = em_consumed s"
  "em_contexts (update_loop fd now n s) = em_contexts s" "em_pending (update_loop fd now n s) = em_pending s"
  "em_day (update_loop fd now n s) = em_day s"
proof -
  let ?J = "\<lambda>s'. (em_trades s', em_consumed s', em_contexts s', em_pending s', em_day s')
    = (em_trades s, em_consumed s, em_contexts s, em_pending s, em_day s)"
  have "?J (update_loop fd now n s)"
    by (rule update_loop_preserves) (auto elim!: update_stepE)
  then show "em_trades (update_loop fd now n s) = em_trades s" "em_consumed (update_loop fd now n s) = em_consumed s"
    "em_contexts (update_loop fd now n s) = em_contexts s" "em_pending (update_loop fd now n s) = em_pending s"
    "em_day (update_loop fd now n s) = em_day s" by simp_all
qed

section \<open>The average\<close>

text \<open>Every price the call can be given lies between two bounds.\<close>

definition closes_within :: "pyfloat \<Rightarrow> pyfloat \<Rightarrow> feed \<Rightarrow> bool" where
  "closes_within lo hi fd \<longleftrightarrow>
     (\<forall>t bs. fd_bars fd t = Inr bs \<longrightarrow> (\<forall>b\<in>set bs. lo \<le> br_close b \<and> br_close b \<le> hi))
     \<and> (\<forall>t c. fd_close fd t = Inr (Some c) \<longrightarrow> lo \<le> c \<and> c \<le> hi)"

definition in_range :: "pyfloat \<Rightarrow> pyfloat \<Rightarrow> pyfloat option \<Rightarrow> bool" where
  "in_range lo hi x \<longleftrightarrow> (case x of None \<Rightarrow> True | Some v \<Rightarrow> lo \<le> v \<and> v \<le> hi)"

lemma built_bar_close:
  assumes "closes_within lo hi fd" "build_5min_bar (fd_bars fd t) start stop = Some b"
  shows "lo \<le> fb_close b \<and> fb_close b \<le> hi"
  using assms(2)
proof (rule built_bar)
  fix bs w ws
  assume bs: "fd_bars fd t = Inr bs" "w # ws = filter (\<lambda>x. start \<le> bar_start x \<and> bar_start x < stop) bs"
    and b: "b = \<lparr>fb_open = br_open w, fb_high = Max (set (map br_high (w # ws))), fb_low = Min (set (map br_low (w # ws))),
      fb_close = br_close (last (w # ws))\<rparr>"
  have "last (w # ws) \<in> set (filter (\<lambda>x. start \<le> bar_start x \<and> bar_start x < stop) bs)"
    unfolding bs(2) [symmetric] by (rule last_in_set) simp
  then show ?thesis using assms(1) bs(1) unfolding b closes_within_def by auto
qed

lemma next_average_within:
  assumes "lo \<le> c" "c \<le> hi" "in_range lo hi e"
  shows "in_range lo hi (Some (next_average c e))"
  using assms by (cases e) (simp_all add: in_range_def next_average_def)

text \<open>The average is one of the prices: whatever the bars and the history answer, the average kept stays
  within the range of the closes it was fed, through resets, gaps and backfills.\<close>

theorem ema_average_within:
  assumes "closes_within lo hi fd" "in_range lo hi (em_ema s)"
  shows "in_range lo hi (em_ema (update_market_state ny fd now s))"
proof -
  have step: "in_range lo hi (em_ema (s'\<lparr>em_next := Some (t + five_minutes)\<rparr>))"
    if "in_range lo hi (em_ema s)" "em_next s = Some t" "t \<le> ny_wall ny now" "update_step fd t n s = Some (n', s')" for t n s n' s'
    using that(4)
  proof (cases rule: update_stepE)
    case (1 b)
    then show ?thesis using next_average_within [OF _ _ that(1)] built_bar_close [OF assms(1) 1(1)] by simp
  next
    case (2 c)
    then show ?thesis using next_average_within [OF _ _ that(1)] assms(1) by (simp add: closes_within_def)
  qed (use that(1) in simp_all)
  have "in_range lo hi (em_ema (if em_day s = Some (ny_date ny now) then s else reset_day (ny_date ny now) s))"
    using assms(2) by (simp add: reset_day_def in_range_def)
  then show ?thesis unfolding update_market_state_def by (rule update_loop_preserves [rotated]) (rule step)
qed

section \<open>Catching up\<close>

definition caught_up :: "int \<Rightarrow> ema_state \<Rightarrow> bool" where
  "caught_up wall s \<longleftrightarrow> (\<exists>t. em_next s = Some t \<and> (wall < t \<or> rth_close < t mod us_per_day))"

lemma update_step_None: "update_step fd t n s = None \<Longrightarrow> 3 \<le> n"
  by (auto simp: update_step_def split: option.splits if_splits sum.splits)

lemma update_step_fetches: "update_step fd t n s = Some (n', s') \<Longrightarrow> n' \<le> n + 1"
  by (auto elim: update_stepE)

lemma update_loop_progress:
  assumes "em_next s = Some t"
  shows "caught_up now (update_loop fd now n s)
    \<or> (\<exists>t'. em_next (update_loop fd now n s) = Some t' \<and> t + int (3 - n) * five_minutes \<le> t')"
  using assms
proof (induction fd now n s arbitrary: t rule: update_loop.induct)
  case (1 fd now n s)
  consider "now < t \<or> rth_close < t mod us_per_day" | "\<not> (now < t \<or> rth_close < t mod us_per_day)" "update_step fd t n s = None"
    | n' s' where "\<not> (now < t \<or> rth_close < t mod us_per_day)" "update_step fd t n s = Some (n', s')"
    by (cases "update_step fd t n s") auto
  then show ?case
  proof cases
    case 3
    let ?s = "s'\<lparr>em_next := Some (t + five_minutes)\<rparr>"
    have e: "update_loop fd now n s = update_loop fd now n' ?s" using "1.prems" 3 by (subst update_loop.simps) simp
    have "int (3 - n) \<le> int (3 - n') + 1" using update_step_fetches [OF 3(2)] by simp
    then have "int (3 - n) * five_minutes \<le> (int (3 - n') + 1) * five_minutes"
      by (rule mult_right_mono) (simp add: less_imp_le)
    then have le: "t + int (3 - n) * five_minutes \<le> t + five_minutes + int (3 - n') * five_minutes"
      by (simp add: distrib_right)
    have "em_next ?s = Some (t + five_minutes)" by simp
    from "1.IH" [OF "1.prems" 3(1) 3(2) refl this] le show ?thesis unfolding e by fastforce
  qed (use "1.prems" in \<open>auto simp: update_loop.simps caught_up_def dest: update_step_None\<close>)
qed
text \<open>The next bar due lies between 9:35 and 16:05 of the day.\<close>

definition day_ok :: "ema_state \<Rightarrow> bool" where
  "day_ok s \<longleftrightarrow> (\<forall>d. em_day s = Some d \<longrightarrow> (\<exists>t. em_next s = Some t
     \<and> d * us_per_day + 575 * us_per_minute \<le> t \<and> t \<le> d * us_per_day + 965 * us_per_minute))"

lemma time_of_day:
  fixes d t :: int
  assumes "d * us_per_day \<le> t" "t < d * us_per_day + us_per_day"
  shows "t mod us_per_day = t - d * us_per_day"
proof -
  have "t mod us_per_day = (t - d * us_per_day + d * us_per_day) mod us_per_day" by simp
  also have "\<dots> = (t - d * us_per_day) mod us_per_day" by (rule mod_mult_self1)
  also have "\<dots> = t - d * us_per_day" by (rule mod_pos_pos_trivial) (use assms in auto)
  finally show ?thesis .
qed

lemma day_units: "us_per_day = 1440 * us_per_minute" "0 < us_per_minute" "rth_close = 960 * us_per_minute"
    "five_minutes = 5 * us_per_minute"
  by (simp_all add: us_per_day_def us_per_minute_def rth_close_def five_minutes_def)

lemma session_over:
  assumes "d * us_per_day + 575 * us_per_minute \<le> t" "t \<le> d * us_per_day + 965 * us_per_minute"
  shows "t mod us_per_day \<le> rth_close \<longleftrightarrow> t \<le> d * us_per_day + 960 * us_per_minute"
proof -
  have "t mod us_per_day = t - d * us_per_day"
    by (rule time_of_day) (use assms day_units in linarith)+
  then show ?thesis using day_units(3) by linarith
qed

lemma update_day [simp]: "em_day (update_market_state ny fd now s) = Some (ny_date ny now)"
  by (simp add: update_market_state_def reset_day_def)

lemma update_loop_mono:
  assumes "em_next s = Some t"
  shows "\<exists>t'. em_next (update_loop fd now n s) = Some t' \<and> t \<le> t'"
proof (rule update_loop_preserves)
  fix u n s n' s'
  assume "\<exists>t'. em_next s = Some t' \<and> t \<le> t'" "em_next s = Some u"
  then show "\<exists>t'. em_next (s'\<lparr>em_next := Some (u + five_minutes)\<rparr>) = Some t' \<and> t \<le> t'"
    using five_minutes_pos by (auto intro: order_trans [OF _ less_imp_le])
qed (use assms in simp)

lemma update_loop_over: "em_next s = Some t \<Longrightarrow> rth_close < t mod us_per_day \<Longrightarrow> update_loop fd now n s = s"
  by (simp add: update_loop.simps)

lemma update_loop_day_ok:
  assumes "day_ok s"
  shows "day_ok (update_loop fd now n s)"
  using assms
proof (induction fd now n s rule: update_loop.induct)
  case (1 fd now n s)
  show ?case
  proof (cases "\<exists>t n' s'. em_next s = Some t \<and> \<not> (now < t \<or> rth_close < t mod us_per_day) \<and> update_step fd t n s = Some (n', s')")
    case False
    then have "update_loop fd now n s = s" by (subst update_loop.simps) (auto split: option.split)
    then show ?thesis using "1.prems" by simp
  next
    case True
    then obtain t n' s' where st: "em_next s = Some t" "\<not> (now < t \<or> rth_close < t mod us_per_day)"
      "update_step fd t n s = Some (n', s')" by blast
    then have e: "update_loop fd now n s = update_loop fd now n' (s'\<lparr>em_next := Some (t + five_minutes)\<rparr>)"
      by (subst update_loop.simps) simp
    have "em_day s' = em_day s" using st(3) by (auto elim!: update_stepE)
    moreover have "d * us_per_day + 575 * us_per_minute \<le> t + five_minutes
        \<and> t + five_minutes \<le> d * us_per_day + 965 * us_per_minute" if "em_day s = Some d" for d
      using "1.prems" st(1,2) session_over [of d t] day_units that unfolding day_ok_def by auto
    ultimately have "day_ok (s'\<lparr>em_next := Some (t + five_minutes)\<rparr>)" by (simp add: day_ok_def)
    then show ?thesis unfolding e by (rule "1.IH" [OF st(1,2,3) refl])
  qed
qed

lemma reset_day_ok: "day_ok (reset_day d s)"
  using day_units by (simp add: reset_day_def day_ok_def)

lemma update_day_ok: "day_ok s \<Longrightarrow> day_ok (update_market_state ny fd now s)"
  by (simp add: update_market_state_def update_loop_day_ok reset_day_ok)

text \<open>One update of the day \<open>d\<close>, no earlier than \<open>w\<close>.\<close>

lemma update_towards:
  assumes "day_ok s" "ny_date ny now = d" "w \<le> ny_wall ny now"
    and "em_day s = Some d \<Longrightarrow> caught_up w s \<or> (\<exists>t. em_next s = Some t \<and> d * us_per_day + 575 * us_per_minute + k * (3 * five_minutes) \<le> t)"
    and "em_day s \<noteq> Some d \<Longrightarrow> k = 0"
  shows "caught_up w (update_market_state ny fd now s)
    \<or> (\<exists>t. em_next (update_market_state ny fd now s) = Some t
          \<and> d * us_per_day + 575 * us_per_minute + (k + 1) * (3 * five_minutes) \<le> t)"
proof -
  define s0 where "s0 = (if em_day s = Some d then s else reset_day d s)"
  have u: "update_market_state ny fd now s = update_loop fd (ny_wall ny now) 0 s0"
    using assms(2) by (simp add: update_market_state_def s0_def)
  obtain t where t: "em_next s0 = Some t" and c: "caught_up w s0 \<or> d * us_per_day + 575 * us_per_minute + k * (3 * five_minutes) \<le> t"
    using assms(1,4,5) by (cases "em_day s = Some d") (auto simp: s0_def day_ok_def reset_day_def)
  obtain t' where t': "em_next (update_loop fd (ny_wall ny now) 0 s0) = Some t'" "t \<le> t'" using update_loop_mono [OF t] by blast
  from c show ?thesis
  proof
    assume "caught_up w s0"
    then consider "w < t" | "rth_close < t mod us_per_day" using t by (auto simp: caught_up_def)
    then show ?thesis by cases (use t t' update_loop_over [OF t] in \<open>auto simp: u caught_up_def\<close>)
  next
    assume le: "d * us_per_day + 575 * us_per_minute + k * (3 * five_minutes) \<le> t"
    from update_loop_progress [OF t, of "ny_wall ny now" fd 0]
    consider "caught_up (ny_wall ny now) (update_loop fd (ny_wall ny now) 0 s0)" | "t + 3 * five_minutes \<le> t'" using t' by auto
    then show ?thesis
    proof cases
      case 1
      then show ?thesis using assms(3) by (auto simp: u caught_up_def)
    next
      case 2
      then show ?thesis using le t'(1) by (auto simp: u distrib_right)
    qed
  qed
qed

definition updates :: "zone \<Rightarrow> (feed \<times> instant) list \<Rightarrow> ema_state \<Rightarrow> ema_state" where
  "updates ny calls s = fold (\<lambda>(fd, now). update_market_state ny fd now) calls s"

lemma updates_towards:
  assumes "day_ok s" "\<forall>(fd, now)\<in>set calls. ny_date ny now = d \<and> w \<le> ny_wall ny now" "calls \<noteq> []"
  shows "em_day (updates ny calls s) = Some d \<and> day_ok (updates ny calls s)
    \<and> (caught_up w (updates ny calls s)
       \<or> (\<exists>t. em_next (updates ny calls s) = Some t
            \<and> d * us_per_day + 575 * us_per_minute + int (length calls) * (3 * five_minutes) \<le> t))"
  using assms(2,3)
proof (induction calls rule: rev_induct)
  case (snoc x calls)
  obtain fd now where x: "x = (fd, now)" by (cases x)
  have e: "updates ny (calls @ [x]) s = update_market_state ny fd now (updates ny calls s)" by (simp add: updates_def x)
  have n: "ny_date ny now = d" "w \<le> ny_wall ny now" using snoc.prems(1) x by auto
  have ok: "day_ok (updates ny calls s)" using snoc assms(1) by (cases calls) (auto simp: updates_def)
  have "caught_up w (update_market_state ny fd now (updates ny calls s))
    \<or> (\<exists>t. em_next (update_market_state ny fd now (updates ny calls s)) = Some t
          \<and> d * us_per_day + 575 * us_per_minute + (int (length calls) + 1) * (3 * five_minutes) \<le> t)"
  proof (rule update_towards [OF ok n])
    assume same: "em_day (updates ny calls s) = Some d"
    show "caught_up w (updates ny calls s) \<or> (\<exists>t. em_next (updates ny calls s) = Some t
        \<and> d * us_per_day + 575 * us_per_minute + int (length calls) * (3 * five_minutes) \<le> t)"
    proof (cases "calls = []")
      case True
      then show ?thesis using assms(1) same by (auto simp: updates_def day_ok_def)
    next
      case False
      then show ?thesis using snoc by auto
    qed
  next
    assume "em_day (updates ny calls s) \<noteq> Some d"
    then show "int (length calls) = 0" using snoc by (cases "calls = []") auto
  qed
  then show ?case using n ok by (simp add: e update_day_ok add.commute)
qed simp

text \<open>C29: the bars that are due get processed. Whatever the broker answers, once twenty-six polls or exit checks
  of a day have come at or after a moment, no five-minute close up to that moment is still waiting: the
  next one due is later, or the session is over.\<close>

theorem ema_catches_up:
  assumes "day_ok s" "\<forall>(fd, now)\<in>set calls. ny_date ny now = d \<and> w \<le> ny_wall ny now" "26 \<le> length calls"
  shows "caught_up w (updates ny calls s)"
proof -
  from assms(3) have "calls \<noteq> []" by auto
  from updates_towards [OF assms(1,2) this] consider "caught_up w (updates ny calls s)"
    | t where "em_day (updates ny calls s) = Some d" "day_ok (updates ny calls s)" "em_next (updates ny calls s) = Some t"
        "d * us_per_day + 575 * us_per_minute + int (length calls) * (3 * five_minutes) \<le> t" by blast
  then show ?thesis
  proof cases
    case 2
    have "26 * (3 * five_minutes) \<le> int (length calls) * (3 * five_minutes)"
      by (rule mult_right_mono) (use assms(3) day_units in auto)
    then have "d * us_per_day + 965 * us_per_minute \<le> t" using 2(4) day_units by linarith
    moreover have "d * us_per_day + 575 * us_per_minute \<le> t" "t \<le> d * us_per_day + 965 * us_per_minute"
      using 2(1-3) by (auto simp: day_ok_def)
    ultimately have "rth_close < t mod us_per_day" using session_over [of d t] day_units by linarith
    then show ?thesis using 2(3) by (simp add: caught_up_def)
  qed
qed
section \<open>What a trigger goes back to\<close>

text \<open>What the broker could be heard to say in a run whose calls saw the feeds \<open>F\<close>: a five-minute bar for a
  boundary, a close for it (of such a bar, or from the history), or no bar.\<close>

definition bar_heard :: "feed set \<Rightarrow> int \<Rightarrow> five_bar \<Rightarrow> bool" where
  "bar_heard F t b \<longleftrightarrow> (\<exists>fd\<in>F. build_5min_bar (fd_bars fd t) (t - five_minutes) t = Some b)"

definition close_heard :: "feed set \<Rightarrow> int \<Rightarrow> pyfloat \<Rightarrow> bool" where
  "close_heard F t c \<longleftrightarrow> (\<exists>b. bar_heard F t b \<and> fb_close b = c) \<or> (\<exists>fd\<in>F. fd_close fd t = Inr (Some c))"

definition no_bar_heard :: "feed set \<Rightarrow> int \<Rightarrow> bool" where
  "no_bar_heard F t \<longleftrightarrow> (\<exists>fd\<in>F. build_5min_bar (fd_bars fd t) (t - five_minutes) t = None)"

text \<open>The average before the close due at \<open>t\<close>, from the first one of the day on: a third of each close and two
  thirds of the average before; a close is left out only when there was no bar for it.\<close>

inductive averaged :: "feed set \<Rightarrow> int \<Rightarrow> int \<Rightarrow> pyfloat option \<Rightarrow> bool" for F first where
  averaged_start: "averaged F first first None"
| averaged_first: "averaged F first t None \<Longrightarrow> close_heard F t c \<Longrightarrow> averaged F first (t + five_minutes) (Some c)"
| averaged_later: "averaged F first t (Some a) \<Longrightarrow> close_heard F t c \<Longrightarrow> averaged F first (t + five_minutes) (Some (c * (1/3) + a * (2/3)))"
| averaged_gap: "averaged F first t a \<Longrightarrow> no_bar_heard F t \<Longrightarrow> averaged F first (t + five_minutes) a"

text \<open>From one boundary to a later one, no bar for those between.\<close>

definition no_bars_between :: "feed set \<Rightarrow> int \<Rightarrow> int \<Rightarrow> bool" where
  "no_bars_between F t t' \<longleftrightarrow> t < t' \<and> five_minutes dvd t' - t \<and> (\<forall>u. t < u \<longrightarrow> u < t' \<longrightarrow> five_minutes dvd u - t \<longrightarrow> no_bar_heard F u)"

definition alerted :: "feed set \<Rightarrow> int \<Rightarrow> int \<Rightarrow> signal_bar \<Rightarrow> bool" where
  "alerted F first t g \<longleftrightarrow> sb_direction g = PUT \<and> no_bars_between F (sb_time g) t
     \<and> (\<exists>b a. bar_heard F (sb_time g) b \<and> averaged F first (sb_time g + five_minutes) (Some a) \<and> a < fb_low b
          \<and> sb_low g = fb_low b \<and> sb_high g = fb_high b)"

definition broke_alert :: "feed set \<Rightarrow> int \<Rightarrow> entry_trigger \<Rightarrow> bool" where
  "broke_alert F first trig \<longleftrightarrow> close_heard F (et_time trig) (et_entry trig)
     \<and> (\<exists>g. alerted F first (et_time trig) g \<and> et_entry trig \<le> sb_low g \<and> et_stop trig = sb_high g)"

definition first_close :: "int \<Rightarrow> int" where
  "first_close day = day * us_per_day + 575 * us_per_minute"

definition traced :: "feed set \<Rightarrow> ema_state \<Rightarrow> bool" where
  "traced F s \<longleftrightarrow> (\<forall>d. em_day s = Some d \<longrightarrow> (\<exists>t. em_next s = Some t \<and> averaged F (first_close d) t (em_ema s)
     \<and> (\<forall>g. em_signal s = Some g \<longrightarrow> alerted F (first_close d) t g)
     \<and> (\<forall>trig. em_trigger s = Some trig \<longrightarrow> broke_alert F (first_close d) trig \<and> no_bars_between F (et_time trig) t)))"

lemma no_bars_next: "no_bars_between F t (t + five_minutes)"
proof -
  have False if "t < u" "u < t + five_minutes" "five_minutes dvd u - t" for u
    using zdvd_imp_le [OF that(3)] that(1,2) by linarith
  then show ?thesis by (auto simp: no_bars_between_def)
qed

lemma no_bars_later:
  assumes "no_bars_between F a t" "no_bar_heard F t"
  shows "no_bars_between F a (t + five_minutes)"
proof -
  have "no_bar_heard F u" if u: "a < u" "u < t + five_minutes" "five_minutes dvd u - a" for u
  proof (cases "u < t")
    case True
    then show ?thesis using assms(1) u by (simp add: no_bars_between_def)
  next
    case False
    have "five_minutes dvd t - a" using assms(1) by (simp add: no_bars_between_def)
    then have "five_minutes dvd (u - a) - (t - a)" by (rule dvd_diff [OF u(3)])
    then have "u = t" using zdvd_imp_le [of five_minutes "u - t"] False u(2) by (cases "u = t") simp_all
    then show ?thesis using assms(2) by simp
  qed
  moreover have "five_minutes dvd (t - a) + five_minutes" "a < t" using assms(1) by (simp_all add: no_bars_between_def)
  then have "a < t + five_minutes" "five_minutes dvd t + five_minutes - a" using five_minutes_pos by (linarith, simp add: algebra_simps)
  ultimately show ?thesis by (simp add: no_bars_between_def)
qed

lemma alerted_later: "alerted F first t g \<Longrightarrow> no_bar_heard F t \<Longrightarrow> alerted F first (t + five_minutes) g"
  by (auto simp: alerted_def no_bars_later)

lemma averaged_close:
  "averaged F first t e \<Longrightarrow> close_heard F t c \<Longrightarrow> averaged F first (t + five_minutes) (Some (next_average c e))"
  by (cases e) (auto simp: next_average_def dest: averaged_first averaged_later)

text \<open>A close that is processed: what it confirms broke an alert bar, what it arms is clear of the average.\<close>

lemma process_close_traced:
  assumes "traced F s" "em_next s = Some t" "close_heard F t close"
    and bar: "case bar of None \<Rightarrow> no_bar_heard F t | Some b \<Rightarrow> bar_heard F t b"
  shows "traced F ((process_close t close bar s)\<lparr>em_next := Some (t + five_minutes)\<rparr>)"
proof -
  let ?s = "(process_close t close bar s)\<lparr>em_next := Some (t + five_minutes)\<rparr>"
  have "averaged F (first_close d) (t + five_minutes) (em_ema ?s)
      \<and> (\<forall>g. em_signal ?s = Some g \<longrightarrow> alerted F (first_close d) (t + five_minutes) g)
      \<and> (\<forall>trig. em_trigger ?s = Some trig \<longrightarrow> broke_alert F (first_close d) trig \<and> no_bars_between F (et_time trig) (t + five_minutes))"
    if d: "em_day s = Some d" for d
  proof -
    have old: "averaged F (first_close d) t (em_ema s)" "\<And>g. em_signal s = Some g \<Longrightarrow> alerted F (first_close d) t g"
      using assms(1,2) d by (auto simp: traced_def)
    have av: "averaged F (first_close d) (t + five_minutes) (Some (next_average close (em_ema s)))"
      by (rule averaged_close [OF old(1) assms(3)])
    show ?thesis
    proof (cases "confirm_entry t close (em_signal s)")
      case (Some trig)
      then obtain g where g: "em_signal s = Some g" by (cases "em_signal s") (auto simp: confirm_entry_def)
      have "sb_direction g = PUT" using old(2) [OF g] by (simp add: alerted_def)
      then have "et_time trig = t" "et_entry trig = close" "close \<le> sb_low g" "et_stop trig = sb_high g"
        using Some g by (auto simp: confirm_entry_def split: if_splits)
      then have "broke_alert F (first_close d) trig" using assms(3) old(2) [OF g] by (auto simp: broke_alert_def)
      then show ?thesis using av Some \<open>et_time trig = t\<close> no_bars_next by (simp add: process_close_def Let_def)
    next
      case None
      have "alerted F (first_close d) (t + five_minutes) g" if "em_signal ?s = Some g" for g
      proof (cases bar)
        case None': None
        then show ?thesis using that None bar old(2) by (simp add: process_close_def Let_def alerted_later)
      next
        case (Some b)
        then have "alert_bar t (next_average close (em_ema s)) b = Some g" using that None by (simp add: process_close_def Let_def)
        from alert_bar_sound [OF this] have "sb_direction g = PUT" "sb_low g = fb_low b" "sb_high g = fb_high b" "sb_time g = t"
          "next_average close (em_ema s) < fb_low b" by auto
        then show ?thesis using av Some bar no_bars_next by (auto simp: alerted_def)
      qed
      then show ?thesis using av None by (simp add: process_close_def Let_def)
    qed
  qed
  then show ?thesis by (simp add: traced_def)
qed

lemma gap_traced:
  assumes "traced F s" "em_next s = Some t" "no_bar_heard F t"
  shows "traced F (s\<lparr>em_backfill_failed := x, em_next := Some (t + five_minutes)\<rparr>)" "traced F (s\<lparr>em_next := Some (t + five_minutes)\<rparr>)"
  using assms by (auto simp: traced_def intro: averaged_gap alerted_later no_bars_later)

lemma update_traced:
  assumes "fd \<in> F" "traced F s"
  shows "traced F (update_market_state ny fd now s)"
proof -
  have step: "traced F (s'\<lparr>em_next := Some (t + five_minutes)\<rparr>)"
    if "traced F s" "em_next s = Some t" "t \<le> ny_wall ny now" "update_step fd t n s = Some (n', s')" for t n s n' s'
  proof (cases "build_5min_bar (fd_bars fd t) (t - five_minutes) t")
    case (Some b)
    then have s': "s' = process_close t (fb_close b) (Some b) s" and b: "bar_heard F t b"
      using that(4) assms(1) by (auto simp: update_step_def bar_heard_def)
    show ?thesis unfolding s'
      by (rule process_close_traced [OF that(1,2)]) (use b in \<open>auto simp: close_heard_def\<close>)
  next
    case None
    then have none: "no_bar_heard F t" using assms(1) by (auto simp: no_bar_heard_def)
    from that(4) show ?thesis
    proof (cases rule: update_stepE)
      case (2 c)
      have "close_heard F t c" using 2 assms(1) by (auto simp: close_heard_def)
      then show ?thesis unfolding 2(4) by (rule process_close_traced [OF that(1,2)]) (simp add: none)
    next
      case 3
      then show ?thesis using gap_traced(1) [OF that(1,2) none] by simp
    next
      case 4
      then show ?thesis using gap_traced(2) [OF that(1,2) none] by simp
    qed (use None in simp)
  qed
  have "traced F (if em_day s = Some (ny_date ny now) then s else reset_day (ny_date ny now) s)"
    using assms(2) averaged_start by (simp add: traced_def reset_day_def first_close_def)
  then show ?thesis unfolding update_market_state_def by (rule update_loop_preserves [rotated]) (rule step)
qed

lemma traced_cong:
  "em_day s' = em_day s \<Longrightarrow> em_next s' = em_next s \<Longrightarrow> em_signal s' = em_signal s \<Longrightarrow> em_trigger s' = em_trigger s \<Longrightarrow> em_ema s' = em_ema s
   \<Longrightarrow> traced F s' = traced F s"
  by (simp add: traced_def)

section \<open>Runs of the provider\<close>

text \<open>The trigger a strategy took last is no later than the current one, and past.\<close>

definition consumed_past :: "ema_state \<Rightarrow> bool" where
  "consumed_past s \<longleftrightarrow> (\<forall>sid c. map_of (em_consumed s) sid = Some c \<longrightarrow> before c (em_next s)
     \<and> (case em_trigger s of None \<Rightarrow> True | Some trig \<Rightarrow> c \<le> et_time trig))"

definition ema_ok :: "ema_state \<Rightarrow> bool" where
  "ema_ok s \<longleftrightarrow> market_ok s \<and> day_ok s \<and> consumed_past s \<and> trades_within s"

lemma bind_context_frame [simp]:
  "em_trades (bind_context sid p s) = em_trades s" "em_consumed (bind_context sid p s) = em_consumed s"
  "em_day (bind_context sid p s) = em_day s" "em_next (bind_context sid p s) = em_next s"
  "em_signal (bind_context sid p s) = em_signal s" "em_trigger (bind_context sid p s) = em_trigger s"
  "em_ema (bind_context sid p s) = em_ema s"
  by (simp_all add: bind_context_def split: option.split)

lemma sync_frame [simp]:
  "em_trades (sync_position_contexts sid book s) = em_trades s" "em_consumed (sync_position_contexts sid book s) = em_consumed s"
  "em_day (sync_position_contexts sid book s) = em_day s" "em_next (sync_position_contexts sid book s) = em_next s"
  "em_signal (sync_position_contexts sid book s) = em_signal s" "em_trigger (sync_position_contexts sid book s) = em_trigger s"
  "em_ema (sync_position_contexts sid book s) = em_ema s"
proof -
  have f: "(em_trades s', em_consumed s', em_day s', em_next s', em_signal s', em_trigger s', em_ema s')
      = (em_trades s, em_consumed s, em_day s, em_next s, em_signal s, em_trigger s, em_ema s)"
    if "s' = fold (bind_context sid) ps s" for ps s s'
    using that by (induction ps arbitrary: s) simp_all
  show "em_trades (sync_position_contexts sid book s) = em_trades s" "em_consumed (sync_position_contexts sid book s) = em_consumed s"
    "em_day (sync_position_contexts sid book s) = em_day s" "em_next (sync_position_contexts sid book s) = em_next s"
    "em_signal (sync_position_contexts sid book s) = em_signal s" "em_trigger (sync_position_contexts sid book s) = em_trigger s"
    "em_ema (sync_position_contexts sid book s) = em_ema s"
    using f [OF refl] by (simp_all add: sync_position_contexts_def Let_def drop_stale_def split: option.split)
qed

lemma ema_ok_cong:
  assumes "em_trades s' = em_trades s" "em_consumed s' = em_consumed s" "em_day s' = em_day s" "em_next s' = em_next s"
    "em_signal s' = em_signal s" "em_trigger s' = em_trigger s"
  shows "ema_ok s' = ema_ok s"
  using assms by (simp add: ema_ok_def market_ok_def sound_signal_def sound_trigger_def day_ok_def consumed_past_def trades_within_def cong: option.case_cong)

lemma update_consumed_past:
  assumes "consumed_past s"
  shows "consumed_past (update_market_state ny fd now s)"
proof -
  have step: "consumed_past (s'\<lparr>em_next := Some (t + five_minutes)\<rparr>)"
    if c: "consumed_past s" "em_next s = Some t" "update_step fd t n s = Some (n', s')" for t n s n' s'
  proof -
    have past: "a < t" if "map_of (em_consumed s) sid = Some a" for sid a
      using c(1,2) that by (auto simp: consumed_past_def before_def)
    have later: "a < t + five_minutes" if "map_of (em_consumed s) sid = Some a" for sid a
      using past [OF that] five_minutes_pos by linarith
    have close: "consumed_past ((process_close t close bar s)\<lparr>em_next := Some (t + five_minutes)\<rparr>)" for close bar
      using past later
      by (auto simp: consumed_past_def before_def process_close_def Let_def confirm_entry_def
          split: option.split if_split intro: less_imp_le)
    from c(3) show ?thesis
      by (cases rule: update_stepE) (use close c(1) later in \<open>auto simp: consumed_past_def before_def\<close>)
  qed
  have "consumed_past (if em_day s = Some (ny_date ny now) then s else reset_day (ny_date ny now) s)"
    using assms by (simp add: reset_day_def consumed_past_def)
  then show ?thesis unfolding update_market_state_def by (rule update_loop_preserves [rotated]) (rule step)
qed

lemma max_trades: "map_of ema_params_table sid = Some ep \<Longrightarrow> ep_max_trades ep = 5"
  by (auto simp: ema_params_table_def split: if_splits)

lemma update_trades_within: "trades_within s \<Longrightarrow> trades_within (update_market_state ny fd now s)"
  by (auto simp: trades_within_def update_market_state_def reset_day_def dict_default_def max_trades)

lemma update_ema_ok: "sound_feed fd \<Longrightarrow> ema_ok s \<Longrightarrow> ema_ok (update_market_state ny fd now s)"
  by (simp add: ema_ok_def update_market_ok update_day_ok update_consumed_past update_trades_within)

lemma take_trigger_ok:
  assumes "ema_ok s" "em_trigger s = Some trig" "map_of ema_params_table sid = Some ep"
    "dict_default (em_trades s) sid 0 < ep_max_trades ep"
  shows "ema_ok (take_trigger sid trig mid s)"
proof -
  have "consumed_past (take_trigger sid trig mid s)"
    using assms(1,2) by (auto simp: ema_ok_def market_ok_def sound_trigger_def consumed_past_def take_trigger_def update_conv)
  moreover have "trades_within (take_trigger sid trig mid s)"
    using assms(1,3,4) by (auto simp: ema_ok_def trades_within_def take_trigger_def dict_default_def update_conv)
  moreover have "market_ok (take_trigger sid trig mid s) \<and> day_ok (take_trigger sid trig mid s)"
    using assms(1) by (simp add: ema_ok_def market_ok_def sound_signal_def sound_trigger_def day_ok_def take_trigger_def
        cong: option.case_cong)
  ultimately show ?thesis by (simp add: ema_ok_def)
qed

text \<open>What a poll does to the state besides the update and the contexts.\<close>

lemma ema_poll_cases:
  assumes "map_of ema_params_table (sc_id cfg) = Some ep"
    and s1: "s1 = sync_position_contexts (sc_id cfg) (fd_book fd) (update_market_state ny fd now s)"
  obtains "ema_poll ny ids fd cfg now s = (Inr [], s1)"
    | trig where "em_trigger s1 = Some trig" "map_of (em_consumed s1) (sc_id cfg) \<noteq> Some (et_time trig)" "entry_hours ny now"
        "dict_default (em_trades s1) (sc_id cfg) 0 < ep_max_trades ep" "positions_of (sc_id cfg) (fd_book fd) = []"
        "ema_poll ny ids fd cfg now s = ema_entry ny ids fd cfg now trig s1"
proof (cases "\<not> entry_hours ny now \<or> ep_max_trades ep \<le> dict_default (em_trades s1) (sc_id cfg) 0
    \<or> positions_of (sc_id cfg) (fd_book fd) \<noteq> []
    \<or> (case em_trigger s1 of None \<Rightarrow> True | Some trig \<Rightarrow> map_of (em_consumed s1) (sc_id cfg) = Some (et_time trig))")
  case True
  then show thesis using assms by (intro that(1)) (auto simp: ema_poll_def Let_def split: option.splits)
next
  case False
  then obtain trig where "em_trigger s1 = Some trig" "map_of (em_consumed s1) (sc_id cfg) \<noteq> Some (et_time trig)"
    by (auto split: option.splits)
  with False show thesis using assms(1) s1 [symmetric] by (intro that(2)) (simp_all add: ema_poll_def)
qed

lemma ema_entry_state: "snd (ema_entry ny ids fd cfg now trig s) = s \<or> (\<exists>mid. snd (ema_entry ny ids fd cfg now trig s) = take_trigger (sc_id cfg) trig mid s)"
  by (auto simp: ema_entry_def Let_def split: sum.split)

lemma poll_traced:
  assumes "fd \<in> F" "traced F s"
  shows "traced F (snd (ema_poll ny ids fd cfg now s))"
proof (cases "map_of ema_params_table (sc_id cfg)")
  case None
  then show ?thesis using assms(2) by (simp add: ema_poll_def)
next
  case (Some ep)
  let ?s1 = "sync_position_contexts (sc_id cfg) (fd_book fd) (update_market_state ny fd now s)"
  have ok: "traced F ?s1" using update_traced [OF assms] by (subst traced_cong) simp_all
  have "traced F (take_trigger sid trig mid s2) = traced F s2" for sid trig mid s2
    by (rule traced_cong) (simp_all add: take_trigger_def)
  with ok have taken: "traced F (take_trigger sid trig mid ?s1)" for sid trig mid by simp
  show ?thesis using Some refl
  proof (rule ema_poll_cases [where ids = ids])
    fix trig
    assume "ema_poll ny ids fd cfg now s = ema_entry ny ids fd cfg now trig ?s1"
    then show ?thesis using ema_entry_state [of ny ids fd cfg now trig ?s1] ok taken by auto
  qed (use ok in simp)
qed

lemma poll_ema_ok:
  assumes "sound_feed fd" "ema_ok s"
  shows "ema_ok (snd (ema_poll ny ids fd cfg now s))"
proof (cases "map_of ema_params_table (sc_id cfg)")
  case None
  then show ?thesis using assms(2) by (simp add: ema_poll_def)
next
  case (Some ep)
  let ?s1 = "sync_position_contexts (sc_id cfg) (fd_book fd) (update_market_state ny fd now s)"
  have ok: "ema_ok ?s1" using update_ema_ok [OF assms] by (subst ema_ok_cong) simp_all
  show ?thesis using Some refl
  proof (rule ema_poll_cases [where ids = ids])
    fix trig
    assume "em_trigger ?s1 = Some trig" "dict_default (em_trades ?s1) (sc_id cfg) 0 < ep_max_trades ep"
      "ema_poll ny ids fd cfg now s = ema_entry ny ids fd cfg now trig ?s1"
    then show ?thesis using take_trigger_ok [OF ok _ Some] ok ema_entry_state [of ny ids fd cfg now trig ?s1] by auto
  qed (use ok in simp)
qed
lemma exits_frame [simp]:
  "em_trades (snd (exits_of_positions ep fd tod u k ps s)) = em_trades s"
  "em_consumed (snd (exits_of_positions ep fd tod u k ps s)) = em_consumed s"
  "em_day (snd (exits_of_positions ep fd tod u k ps s)) = em_day s"
  "em_next (snd (exits_of_positions ep fd tod u k ps s)) = em_next s"
  "em_signal (snd (exits_of_positions ep fd tod u k ps s)) = em_signal s"
  "em_trigger (snd (exits_of_positions ep fd tod u k ps s)) = em_trigger s"
  "em_ema (snd (exits_of_positions ep fd tod u k ps s)) = em_ema s"
  by (induction ps arbitrary: k s) (auto split: option.split prod.split simp: prod_eq_iff)

lemma collect_ema_ok:
  assumes "sound_feed fd" "ema_ok s"
  shows "ema_ok (snd (ema_collect_exits ny fd cfg now s))"
proof -
  have "ema_ok (sync_position_contexts sid book (update_market_state ny fd now s))" for sid book
    using update_ema_ok [OF assms] by (subst ema_ok_cong) simp_all
  then have "ema_ok (snd (exits_of_positions ep fd tod u k ps (sync_position_contexts sid book (update_market_state ny fd now s))))"
    for ep tod u k ps sid book using update_ema_ok [OF assms] by (subst ema_ok_cong) simp_all
  with \<open>\<And>sid book. ema_ok (sync_position_contexts sid book (update_market_state ny fd now s))\<close> show ?thesis
    using assms(2) update_ema_ok [OF assms] by (simp add: ema_collect_exits_def Let_def split: option.split)
qed

lemma collect_traced:
  assumes "fd \<in> F" "traced F s"
  shows "traced F (snd (ema_collect_exits ny fd cfg now s))"
proof -
  have ok: "traced F (sync_position_contexts sid book (update_market_state ny fd now s))" for sid book
    using update_traced [OF assms] by (subst traced_cong) simp_all
  then have "traced F (snd (exits_of_positions ep fd tod u k ps (sync_position_contexts sid book (update_market_state ny fd now s))))"
    for ep tod u k ps sid book by (subst traced_cong [OF exits_frame(3,4,5,6,7)])
  with ok show ?thesis using assms(2) by (simp add: ema_collect_exits_def Let_def split: option.split)
qed

text \<open>Polls and exit checks of any strategy, each with one of the feeds \<open>F\<close>.\<close>

inductive ema_step :: "zone \<Rightarrow> feed set \<Rightarrow> ema_state \<Rightarrow> ema_state \<Rightarrow> bool" for ny F where
  polled: "fd \<in> F \<Longrightarrow> sound_feed fd \<Longrightarrow> ema_step ny F s (snd (ema_poll ny ids fd cfg now s))"
| checked: "fd \<in> F \<Longrightarrow> sound_feed fd \<Longrightarrow> ema_step ny F s (snd (ema_collect_exits ny fd cfg now s))"

inductive_cases ema_stepE: "ema_step ny F s s'"

interpretation ema_run: step_invariant "\<lambda>s. s = new_ema" "ema_step ny F" "\<lambda>s. ema_ok s \<and> traced F s"
proof
  fix s :: ema_state assume "s = new_ema"
  then show "ema_ok s \<and> traced F s"
    by (simp add: new_ema_def ema_ok_def market_ok_def sound_signal_def sound_trigger_def day_ok_def consumed_past_def
        trades_within_def dict_default_def max_trades traced_def)
next
  fix s s' assume "ema_ok s \<and> traced F s" "ema_step ny F s s'"
  then show "ema_ok s' \<and> traced F s'" by (auto elim!: ema_stepE intro: poll_ema_ok collect_ema_ok poll_traced collect_traced)
qed

lemma ema_entry_Inr:
  assumes "ema_entry ny ids fd cfg now trig s = (Inr sgs, s')"
  obtains sg mid where "sgs = [sg]" "own_signal cfg now sg" "sg_direction sg = LONG"
    "sg_contract sg = xsp_contract (ny_date ny now) (of_int (round_half_even (et_entry trig))) (et_direction trig)"
    "s' = take_trigger (sc_id cfg) trig mid s"
  using assms dynamic_quantity_bounds(2)
  by (auto simp: ema_entry_def Let_def try_bind_eq_Inr new_signal_def own_signal_def split: sum.splits)

lemma taken:
  "map_of (em_consumed (take_trigger sid trig mid s)) sid = Some (et_time trig)"
  "dict_default (em_trades (take_trigger sid trig mid s)) sid 0 = dict_default (em_trades s) sid 0 + 1"
  "\<exists>c. map_of (em_pending (take_trigger sid trig mid s)) sid = Some c \<and> xc_stop c = Some (et_stop trig)
     \<and> xc_entry_underlying c = Some (et_entry trig)"
  by (simp_all add: take_trigger_def update_conv dict_default_def)

text \<open>C11: an entry of the strategy is warranted. In every run of the provider from its start, whose calls saw the
  feeds \<open>F\<close>, on bars whose low is not above their high, a poll that emits emits one valid signal of the
  strategy to buy the put expiring that day at the strike nearest to a five-minute close; on a weekday
  between 9:30 and 15:30, with no open position. That close is not above the low of an earlier
  five-minute bar which lay wholly above the day's average at its own close, with no bar between the two
  and none since; it is later than the close the strategy took before, and is taken now; it counts as one
  trade more, of five at most; and the stop kept for the position is the high of that bar.\<close>

theorem ema_entry_warranted:
  assumes run: "(ema_step ny F)\<^sup>*\<^sup>* new_ema s" and fd: "fd \<in> F" "sound_feed fd"
    and poll: "ema_poll ny ids fd cfg now s = (Inr sgs, s')" "sgs \<noteq> []"
    and day: "0 \<le> ny_date ny now" "ny_date ny now \<le> 2932896"
  shows "\<exists>sg trig t b a c. sgs = [sg] \<and> own_signal cfg now sg \<and> sg_direction sg = LONG \<and> oc_right (sg_contract sg) = PUT
    \<and> \<bar>oc_strike (sg_contract sg) - et_entry trig\<bar> \<le> 1/2
    \<and> parse_expiry (oc_expiry (sg_contract sg)) = Some (ny_date ny now + 719163)
    \<and> weekday (ny_date ny now) < 5 \<and> rth_open \<le> ny_wall ny now mod us_per_day \<and> ny_wall ny now mod us_per_day < entry_cutoff_ny
    \<and> positions_of (sc_id cfg) (fd_book fd) = []
    \<and> em_trigger (update_market_state ny fd now s) = Some trig
    \<and> close_heard F (et_time trig) (et_entry trig) \<and> et_entry trig \<le> fb_low b
    \<and> bar_heard F t b \<and> averaged F (first_close (ny_date ny now)) (t + five_minutes) (Some a) \<and> a < fb_low b
    \<and> no_bars_between F t (et_time trig)
    \<and> (\<exists>t'. em_next (update_market_state ny fd now s) = Some t' \<and> no_bars_between F (et_time trig) t')
    \<and> (\<forall>t. map_of (em_consumed (update_market_state ny fd now s)) (sc_id cfg) = Some t \<longrightarrow> t < et_time trig)
    \<and> map_of (em_consumed s') (sc_id cfg) = Some (et_time trig)
    \<and> dict_default (em_trades s') (sc_id cfg) 0 = dict_default (em_trades (update_market_state ny fd now s)) (sc_id cfg) 0 + 1
    \<and> dict_default (em_trades s') (sc_id cfg) 0 \<le> 5
    \<and> map_of (em_pending s') (sc_id cfg) = Some c \<and> xc_stop c = Some (fb_high b)
    \<and> xc_entry_underlying c = Some (et_entry trig)"
proof -
  obtain ep where ep: "map_of ema_params_table (sc_id cfg) = Some ep"
    using poll by (cases "map_of ema_params_table (sc_id cfg)") (auto simp: ema_poll_def)
  define u where "u = update_market_state ny fd now s"
  define s1 where "s1 = sync_position_contexts (sc_id cfg) (fd_book fd) u"
  have start: "ema_ok s \<and> traced F s" by (rule ema_run.inv_reachable [OF refl run])
  then have "ema_ok u" "traced F u" unfolding u_def by (simp_all add: update_ema_ok fd update_traced)
  from ema_poll_cases [OF ep s1_def [unfolded u_def], of ids] poll(1,2)
  obtain trig where g: "em_trigger s1 = Some trig" "map_of (em_consumed s1) (sc_id cfg) \<noteq> Some (et_time trig)" "entry_hours ny now"
    "dict_default (em_trades s1) (sc_id cfg) 0 < ep_max_trades ep" "positions_of (sc_id cfg) (fd_book fd) = []"
    and e: "ema_entry ny ids fd cfg now trig s1 = (Inr sgs, s')" by (metis Inr_inject prod.inject)
  have t: "em_trigger u = Some trig" and same: "em_consumed s1 = em_consumed u" "em_trades s1 = em_trades u"
    using g(1) by (simp_all add: s1_def)
  have "em_day u = Some (ny_date ny now)" by (simp add: u_def)
  then obtain w where w: "em_next u = Some w" "no_bars_between F (et_time trig) w" "broke_alert F (first_close (ny_date ny now)) trig"
    using \<open>traced F u\<close> t by (auto simp: traced_def)
  from w(3) obtain x where x: "alerted F (first_close (ny_date ny now)) (et_time trig) x" "et_entry trig \<le> sb_low x"
    "et_stop trig = sb_high x" "close_heard F (et_time trig) (et_entry trig)" by (auto simp: broke_alert_def)
  from x(1) obtain b a where b: "bar_heard F (sb_time x) b" "averaged F (first_close (ny_date ny now)) (sb_time x + five_minutes) (Some a)"
    "a < fb_low b" "sb_low x = fb_low b" "sb_high x = fb_high b" "no_bars_between F (sb_time x) (et_time trig)"
    by (auto simp: alerted_def)
  have put: "et_direction trig = PUT" using \<open>ema_ok u\<close> t by (simp add: ema_ok_def market_ok_def sound_trigger_def)
  have later: "c < et_time trig" if "map_of (em_consumed u) (sc_id cfg) = Some c" for c
    using \<open>ema_ok u\<close> t that g(2) same by (fastforce simp: ema_ok_def consumed_past_def)
  have "parse_expiry (expiry_text (ny_date ny now)) = Some (ny_date ny now + 719163)"
    by (rule expiry_text_parses) (use day in simp_all)
  moreover obtain sg mid where sg: "sgs = [sg]" "own_signal cfg now sg" "sg_direction sg = LONG"
    "sg_contract sg = xsp_contract (ny_date ny now) (of_int (round_half_even (et_entry trig))) (et_direction trig)"
    and s': "s' = take_trigger (sc_id cfg) trig mid s1"
    using e by (rule ema_entry_Inr)
  moreover have "dict_default (em_trades s') (sc_id cfg) 0 \<le> 5" using g(4) max_trades [OF ep] by (simp add: s' taken)
  moreover have "dict_default (em_trades s') (sc_id cfg) 0 = dict_default (em_trades u) (sc_id cfg) 0 + 1" by (simp add: s' taken same)
  moreover obtain c where "map_of (em_pending s') (sc_id cfg) = Some c \<and> xc_stop c = Some (et_stop trig)
      \<and> xc_entry_underlying c = Some (et_entry trig)" unfolding s' using taken(3) by blast
  ultimately show ?thesis
    using g(3,5) t later put round_half_even_near [of "et_entry trig"] taken(1) [of "sc_id cfg" trig mid s1] w(1,2) x(2-4) b
    unfolding u_def [symmetric]
    by (intro exI [of _ sg] exI [of _ trig] exI [of _ "sb_time x"] exI [of _ b] exI [of _ a] exI [of _ c])
      (simp add: xsp_contract_def entry_hours_def)
qed

interpretation ema: strategy_provider "ema_poll ny ids"
proof
  fix fd cfg now s sgs s' sg
  assume a: "ema_poll ny ids fd cfg now s = (Inr sgs, s')" and sg: "sg \<in> set sgs"
  from a sg obtain trig s1 where "ema_entry ny ids fd cfg now trig s1 = (Inr sgs, s')"
    by (auto simp: ema_poll_def Let_def split: option.splits if_splits)
  then show "own_signal cfg now sg" by (rule ema_entry_Inr) (use sg in simp)
qed
section \<open>Exits are decided on the position's context\<close>

lemma bound: "\<exists>c. map_of (em_contexts (bind_context sid p s)) (ps_id p) = Some c"
  by (auto simp: bind_context_def update_conv split: option.split)

lemma bind_keeps: "map_of (em_contexts s) i = Some c \<Longrightarrow> map_of (em_contexts (bind_context sid p s)) i = Some c"
  by (auto simp: bind_context_def update_conv split: option.split)

lemma binds_keep: "map_of (em_contexts s) i = Some c \<Longrightarrow> map_of (em_contexts (fold (bind_context sid) ps s)) i = Some c"
  by (induction ps arbitrary: s) (simp_all add: bind_keeps)

lemma all_bound: "p \<in> set ps \<Longrightarrow> \<exists>c. map_of (em_contexts (fold (bind_context sid) ps s)) (ps_id p) = Some c"
proof (induction ps arbitrary: s)
  case (Cons a ps)
  then show ?case using bound [of sid a s] by (auto intro: binds_keep)
qed simp

lemma synced:
  assumes "p \<in> set (positions_of sid book)"
  shows "\<exists>c. map_of (em_contexts (sync_position_contexts sid book s)) (ps_id p) = Some c"
proof (cases book)
  case None
  then show ?thesis using assms by (simp add: positions_of_def)
next
  case (Some b)
  then show ?thesis using all_bound [OF assms] by (simp add: sync_position_contexts_def Let_def)
qed

lemma variant_exit_keeps:
  assumes "variant_exit ep u mid p (reason, c) = (reason', c')"
  shows "xc_stop c' = xc_stop c" "xc_direction c' = xc_direction c" "reason \<noteq> None \<Longrightarrow> reason' = reason"
  using assms by (auto simp: variant_exit_def trail_context_def Let_def split: option.splits if_splits)

lemma exit_of_position_keeps:
  assumes "exit_of_position ep tod u m1 m2 p c = (reason, c')"
  shows "xc_stop c' = xc_stop c" "xc_direction c' = xc_direction c"
  using assms variant_exit_keeps(1,2) [where ep = ep and u = u and mid = m1 and p = p and c = c, OF prod.collapse [symmetric]]
  by (auto simp: exit_of_position_def Let_def)

text \<open>The closing time and the stop on the underlying close the position, whatever the variant.\<close>

lemma exit_of_position_must:
  assumes "time_exit_ny \<le> tod \<or> (\<exists>x. u = Some x \<and> stop_reached c x)"
  shows "fst (exit_of_position ep tod u m1 m2 p c) \<noteq> None"
proof -
  define reason where "reason = (if time_exit_ny \<le> tod then Some Exit_Time
      else if (case u of None \<Rightarrow> False | Some u \<Rightarrow> stop_reached c u) then Some Exit_Stop else None)"
  obtain reason' c' where v: "variant_exit ep u m1 p (reason, c) = (reason', c')" by (cases "variant_exit ep u m1 p (reason, c)")
  have "reason \<noteq> None" using assms by (auto simp: reason_def)
  with variant_exit_keeps(3) [OF v] have "reason' \<noteq> None" by simp
  then show ?thesis using v by (simp add: exit_of_position_def fallback_exit_def flip: reason_def)
qed

lemma exits_subset: "fst (exits_of_positions ep fd tod u k ps s) \<subseteq> ps_id ` set ps"
proof (induction ps arbitrary: k s)
  case (Cons p ps)
  show ?case using Cons by (auto split: option.split prod.split if_splits) (metis fst_conv imageE subsetD)+
qed simp

lemma ema_exits_own: "fst (ema_collect_exits ny fd cfg now s) \<subseteq> ps_id ` set (positions_of (sc_id cfg) (fd_book fd))"
  using exits_subset by (auto simp: ema_collect_exits_def Let_def split: option.splits if_splits dest!: subsetD [OF exits_subset])

text \<open>The stop a context holds: every position whose context says so must be closed.\<close>

definition must_exit :: "int \<Rightarrow> pyfloat option \<Rightarrow> ema_state \<Rightarrow> uuid \<Rightarrow> bool" where
  "must_exit tod u s i \<longleftrightarrow> (\<exists>c. map_of (em_contexts s) i = Some c \<and> (time_exit_ny \<le> tod \<or> (\<exists>x. u = Some x \<and> stop_reached c x)))"

lemma must_exit_exits:
  assumes "p \<in> set ps" "must_exit tod u s (ps_id p)"
  shows "ps_id p \<in> fst (exits_of_positions ep fd tod u k ps s)"
  using assms
proof (induction ps arbitrary: k s)
  case (Cons a ps)
  show ?case
  proof (cases "map_of (em_contexts s) (ps_id a)")
    case None
    then show ?thesis using Cons by (auto simp: must_exit_def)
  next
    case (Some c)
    obtain reason c' where e: "exit_of_position ep tod u (premium_mid fd (2 * k + 1) (ps_contract a))
        (premium_mid fd (2 * k + 2) (ps_contract a)) a c = (reason, c')" by (metis surj_pair)
    let ?s = "s\<lparr>em_contexts := AList.update (ps_id a) c' (em_contexts s)\<rparr>"
    have m: "must_exit tod u ?s (ps_id p)"
      using Cons.prems(2) Some exit_of_position_keeps [OF e]
      by (auto simp: must_exit_def update_conv stop_reached_def split: option.splits)
    have r: "reason \<noteq> None" if "ps_id a = ps_id p"
      using exit_of_position_must [of tod u c ep _ _ a] Cons.prems(2) Some that e unfolding must_exit_def by (metis fst_conv option.inject)
    obtain ids s' where ih: "exits_of_positions ep fd tod u (Suc k) ps ?s = (ids, s')" by (metis surj_pair)
    have "ps_id p \<in> ids" if "p \<in> set ps" using Cons.IH [OF that m, of "Suc k"] by (simp add: ih)
    then show ?thesis using Cons.prems(1) r by (auto simp: Some e [simplified] ih)
  qed
qed simp

text \<open>C12: no position outlives the day or its stop. An exit check of a variant names only open positions of that
  strategy; from 15:45 on it names all of them; and at any time it names every one whose context holds a
  stop that the underlying has reached.\<close>

theorem ema_exits_cover:
  assumes "map_of ema_params_table (sc_id cfg) = Some ep"
    and s1: "s1 = sync_position_contexts (sc_id cfg) (fd_book fd) (update_market_state ny fd now s)"
  shows "fst (ema_collect_exits ny fd cfg now s) \<subseteq> ps_id ` set (positions_of (sc_id cfg) (fd_book fd))
    \<and> (time_exit_ny \<le> ny_wall ny now mod us_per_day \<longrightarrow>
         fst (ema_collect_exits ny fd cfg now s) = ps_id ` set (positions_of (sc_id cfg) (fd_book fd)))
    \<and> (\<forall>p\<in>set (positions_of (sc_id cfg) (fd_book fd)). \<forall>c u. map_of (em_contexts s1) (ps_id p) = Some c
         \<and> underlying_price fd = Some u \<and> stop_reached c u \<longrightarrow> ps_id p \<in> fst (ema_collect_exits ny fd cfg now s))"
proof -
  let ?tod = "ny_wall ny now mod us_per_day" and ?ps = "positions_of (sc_id cfg) (fd_book fd)"
  have e: "fst (ema_collect_exits ny fd cfg now s) = fst (exits_of_positions ep fd ?tod (underlying_price fd) 0 ?ps s1)"
    using assms by (simp add: ema_collect_exits_def Let_def)
  have must: "ps_id p \<in> fst (ema_collect_exits ny fd cfg now s)"
    if "p \<in> set ?ps" "must_exit ?tod (underlying_price fd) s1 (ps_id p)" for p
    unfolding e using that by (rule must_exit_exits)
  have "ps_id p \<in> fst (ema_collect_exits ny fd cfg now s)" if p: "p \<in> set ?ps" and late: "time_exit_ny \<le> ?tod" for p
  proof (rule must [OF p])
    obtain c where "map_of (em_contexts s1) (ps_id p) = Some c" using synced [OF p] unfolding s1 by blast
    then show "must_exit ?tod (underlying_price fd) s1 (ps_id p)" using late by (simp add: must_exit_def)
  qed
  moreover have "fst (ema_collect_exits ny fd cfg now s) \<subseteq> ps_id ` set ?ps" unfolding e by (rule exits_subset)
  moreover have "ps_id p \<in> fst (ema_collect_exits ny fd cfg now s)" if "p \<in> set ?ps" "map_of (em_contexts s1) (ps_id p) = Some c"
    "underlying_price fd = Some u" "stop_reached c u" for p c u
    by (rule must [OF that(1)]) (use that(2-4) in \<open>simp add: must_exit_def\<close>)
  ultimately show ?thesis by blast
qed

section \<open>The trailing floor\<close>

lemma py_int_mono: "x \<le> y \<Longrightarrow> py_int x \<le> py_int y"
proof -
  assume "x \<le> y"
  show ?thesis
  proof (cases "x < 0 \<and> \<not> y < 0")
    case True
    then have "\<lceil>x\<rceil> \<le> \<lfloor>y\<rfloor>" by (rule_tac order_trans [of _ 0]) (simp_all add: not_less)
    then show ?thesis using True by (simp add: py_int_def)
  next
    case False
    then show ?thesis using \<open>x \<le> y\<close> by (auto simp: py_int_def intro: ceiling_mono floor_mono)
  qed
qed

text \<open>The floor that a peak locks in.\<close>

definition floor_at :: "ema_params \<Rightarrow> pyfloat \<Rightarrow> pyfloat \<Rightarrow> pyfloat option" where
  "floor_at ep entry peak = (if floor_steps ep entry (Some peak) \<le> 0 then None
     else Some (entry + of_int (floor_steps ep entry (Some peak)) * (entry * ep_lock ep)))"

lemma floor_steps_mono:
  assumes "0 < entry" "0 < ep_step ep" "entry \<le> peak" "peak \<le> peak'"
  shows "floor_steps ep entry (Some peak) \<le> floor_steps ep entry (Some peak')"
proof -
  have "0 < entry * ep_step ep" using assms by simp
  then have "(peak - entry) / (entry * ep_step ep) \<le> (peak' - entry) / (entry * ep_step ep)"
    using assms(4) by (simp add: divide_right_mono)
  then show ?thesis using assms by (simp add: floor_steps_def py_int_mono)
qed

lemma trail_peak: "xc_peak c = Some k \<Longrightarrow> 0 < k \<Longrightarrow> xc_peak (trail_context ep entry m c) = Some (max k m)"
  by (simp add: trail_context_def Let_def or_default_def max_def)

lemma trail_fold:
  assumes "0 < entry" "0 < ep_step ep" "xc_peak c = Some entry" "xc_floor c = None"
  shows "xc_peak (fold (trail_context ep entry) mids c) = Some (Max (set (entry # mids)))
    \<and> xc_floor (fold (trail_context ep entry) mids c)
        = (if mids = [] then None else floor_at ep entry (Max (set (entry # butlast mids))))"
proof (induction mids rule: rev_induct)
  case (snoc m mids)
  let ?c = "fold (trail_context ep entry) mids c" and ?P = "Max (set (entry # mids))"
  have P: "xc_peak ?c = Some ?P" "entry \<le> ?P" using snoc by simp_all
  have le: "entry \<le> Max (set (entry # butlast mids))" by simp
  have le': "Max (set (entry # butlast mids)) \<le> ?P" by (rule Max_mono) (auto dest: in_set_butlastD)
  have "xc_peak (trail_context ep entry m ?c) = Some (max ?P m)"
    using P(1) by (rule trail_peak) (use P(2) assms(1) in linarith)
  moreover have "max ?P m = Max (set (entry # mids @ [m]))" 
  proof -
    have "set (entry # mids @ [m]) = insert m (set (entry # mids))" by auto
    then show ?thesis by (simp only: Max_insert finite_set set_empty list.distinct) (simp add: max.commute)
  qed
  moreover have "xc_floor (trail_context ep entry m ?c) = floor_at ep entry ?P"
  proof (cases "0 < floor_steps ep entry (Some ?P)")
    case True
    then show ?thesis using P by (simp add: trail_context_def Let_def floor_at_def)
  next
    case False
    then have "floor_steps ep entry (Some (Max (set (entry # butlast mids)))) \<le> 0"
      using floor_steps_mono [OF assms(1,2) le le'] by linarith
    then have "xc_floor ?c = None" using snoc by (simp add: floor_at_def)
    then show ?thesis using False P by (simp add: trail_context_def Let_def floor_at_def)
  qed
  ultimately show ?case by simp
qed (use assms in simp)

lemma floor_at_props:
  assumes "0 < entry" "0 < ep_step ep" "0 \<le> ep_lock ep" "ep_lock ep \<le> ep_step ep" "entry \<le> peak" "floor_at ep entry peak = Some f"
  shows "entry \<le> f" "f \<le> peak" "peak \<le> peak' \<Longrightarrow> \<exists>f'. floor_at ep entry peak' = Some f' \<and> f \<le> f'"
proof -
  let ?n = "floor_steps ep entry (Some peak)"
  have n: "0 < ?n" and f: "f = entry + of_int ?n * (entry * ep_lock ep)"
    using assms(6) by (auto simp: floor_at_def split: if_splits)
  show "entry \<le> f" using n assms(1,3) by (simp add: f)
  have pos: "0 < entry * ep_step ep" using assms(1,2) by simp
  have "?n = py_int ((peak - entry) / (entry * ep_step ep))" using n by (auto simp: floor_steps_def split: if_splits)
  then have "of_int ?n \<le> (peak - entry) / (entry * ep_step ep)" using assms(5) pos by (simp add: py_int_le)
  then have "of_int ?n * (entry * ep_step ep) \<le> peak - entry" using pos by (simp only: pos_le_divide_eq)
  moreover have "of_int ?n * (entry * ep_lock ep) \<le> of_int ?n * (entry * ep_step ep)"
    by (intro mult_left_mono) (use n assms(1,4) in auto)
  ultimately show "f \<le> peak" unfolding f by linarith
  assume le: "peak \<le> peak'"
  then have m: "?n \<le> floor_steps ep entry (Some peak')" using assms by (intro floor_steps_mono) auto
  then have "of_int ?n * (entry * ep_lock ep) \<le> of_int (floor_steps ep entry (Some peak')) * (entry * ep_lock ep)"
    by (intro mult_right_mono) (use assms(1,3) in auto)
  then show "\<exists>f'. floor_at ep entry peak' = Some f' \<and> f \<le> f'" using n m by (simp add: floor_at_def f)
qed

text \<open>Trailing is a function of the prices so far. After any prices, the peak is the highest of the entry
  and the prices, and the floor is the one that the peak before the last price locks in. Once there is a
  floor it lies between the entry and that peak, and no later price takes it away or lowers it.\<close>

lemma trail_ratchets:
  assumes "0 < entry" "0 < ep_step ep" "0 \<le> ep_lock ep" "ep_lock ep \<le> ep_step ep" "xc_peak c = Some entry" "xc_floor c = None"
  shows "xc_peak (fold (trail_context ep entry) mids c) = Some (Max (set (entry # mids)))
    \<and> xc_floor (fold (trail_context ep entry) mids c)
        = (if mids = [] then None else floor_at ep entry (Max (set (entry # butlast mids))))
    \<and> (\<forall>f. xc_floor (fold (trail_context ep entry) mids c) = Some f \<longrightarrow> entry \<le> f \<and> f \<le> Max (set (entry # butlast mids))
         \<and> (\<forall>m. \<exists>f'. xc_floor (fold (trail_context ep entry) (mids @ [m]) c) = Some f' \<and> f \<le> f'))"
proof -
  have "entry \<le> f \<and> f \<le> Max (set (entry # butlast mids))
      \<and> (\<exists>f'. xc_floor (fold (trail_context ep entry) (mids @ [m]) c) = Some f' \<and> f \<le> f')"
    if "xc_floor (fold (trail_context ep entry) mids c) = Some f" for f m
  proof -
    have le: "entry \<le> Max (set (entry # butlast mids))" by simp
    have le': "Max (set (entry # butlast mids)) \<le> Max (set (entry # mids))" by (rule Max_mono) (auto dest: in_set_butlastD)
    have "floor_at ep entry (Max (set (entry # butlast mids))) = Some f"
      using that trail_fold [OF assms(1,2,5,6), of mids] by (simp split: if_splits)
    from floor_at_props [OF assms(1-4) le this] le' show ?thesis
      using trail_fold [OF assms(1,2,5,6), of "mids @ [m]"] by (simp del: set_append fold_append)
  qed
  with trail_fold [OF assms(1,2,5,6), of mids] show ?thesis by blast
qed
section \<open>Examples\<close>

text \<open>Three one-minute bars of the day 20000, at 9:30, 9:35 and 9:40; the second five minutes are clear of the
  average, the third close through their low.\<close>

definition sample_bar :: "int \<Rightarrow> pyfloat \<Rightarrow> pyfloat \<Rightarrow> pyfloat \<Rightarrow> bar" where
  "sample_bar minute low high close = \<lparr>br_symbol = xsp, br_minute = 20000 * 1440 + minute, br_open = low, br_high = high,
     br_low = low, br_close = close, br_ticks = 3\<rparr>"

definition ema_feed :: feed where
  "ema_feed = sample_feed\<lparr>fd_bars := (\<lambda>t. Inr [sample_bar 570 500 500 500, sample_bar 575 503 504 504, sample_bar 580 502 504 502]),
     fd_close := (\<lambda>t. Inr (Some 501))\<rparr>"

definition at_945 :: instant where
  "at_945 = 20000 * us_per_day + 585 * us_per_minute"

definition sample_ema :: strategy_config where
  "sample_ema = sample_strategy\<lparr>sc_id := ''xsp_5ema_base''\<rparr>"

lemma ema_feed_sound: "sound_feed ema_feed"
  by (simp add: sound_feed_def ema_feed_def sample_bar_def)

theorem ema_entry_warranted_witness:
  "\<exists>sg s' b. ema_poll (\<lambda>t. 0) id ema_feed sample_ema at_945 new_ema = (Inr [sg], s') \<and> oc_right (sg_contract sg) = PUT
    \<and> parse_expiry (oc_expiry (sg_contract sg)) = Some 739163 \<and> dict_default (em_trades s') ''xsp_5ema_base'' 0 = 1
    \<and> (\<exists>t. bar_heard {ema_feed} t b) \<and> map_option xc_stop (map_of (em_pending s') ''xsp_5ema_base'') = Some (Some (fb_high b))"
proof -
  let ?p = "ema_poll (\<lambda>t. 0) id ema_feed sample_ema at_945 new_ema"
  have "case fst ?p of Inr sgs \<Rightarrow> sgs \<noteq> [] | Inl e \<Rightarrow> False" by code_simp
  then obtain sgs s' where e: "?p = (Inr sgs, s')" "sgs \<noteq> []" by (cases ?p) (auto split: sum.splits)
  have d: "ny_date (\<lambda>t. 0) at_945 = 20000"
    by (simp add: ny_date_def ny_wall_def at_945_def us_per_day_def us_per_minute_def)
  have none: "em_trades (update_market_state (\<lambda>t. 0) ema_feed at_945 new_ema) = []"
    by (simp add: update_market_state_def new_ema_def reset_day_def)
  from ema_entry_warranted [OF rtranclp.rtrancl_refl, of ema_feed "{ema_feed}", OF _ ema_feed_sound e] d e none
  obtain sg b c where "sgs = [sg]" "oc_right (sg_contract sg) = PUT" "parse_expiry (oc_expiry (sg_contract sg)) = Some 739163"
    "dict_default (em_trades s') ''xsp_5ema_base'' 0 = 1" "\<exists>t. bar_heard {ema_feed} t b"
    "map_of (em_pending s') ''xsp_5ema_base'' = Some c" "xc_stop c = Some (fb_high b)"
    by (auto simp: sample_ema_def dict_default_def)
  with e show ?thesis by auto
qed

theorem ema_average_within_witness: "in_range 500 504 (em_ema (update_market_state (\<lambda>t. 0) ema_feed at_945 new_ema))"
  by (rule ema_average_within) (simp_all add: closes_within_def ema_feed_def sample_bar_def new_ema_def in_range_def)

theorem ema_catches_up_witness:
  "caught_up (20000 * us_per_day + 585 * us_per_minute) (updates (\<lambda>t. 0) (replicate 26 (ema_feed, at_945)) new_ema)"
  by (rule ema_catches_up [where d = 20000])
    (simp_all add: day_ok_def new_ema_def ny_date_def ny_wall_def at_945_def us_per_day_def us_per_minute_def)

theorem ema_exits_cover_witness:
  "fst (ema_collect_exits (\<lambda>t. 0) (ema_feed\<lparr>fd_book := Some \<lparr>pb_positions = [(5, (sample_position 5)\<lparr>ps_strategy := ''xsp_5ema_base''\<rparr>)],
      pb_store = sample_store\<rparr>\<rparr>) sample_ema (20000 * us_per_day + 950 * us_per_minute) new_ema) = {5}"
proof -
  let ?b = "Some \<lparr>pb_positions = [(5, (sample_position 5)\<lparr>ps_strategy := ''xsp_5ema_base''\<rparr>)], pb_store = sample_store\<rparr>"
  have ep: "\<exists>ep. map_of ema_params_table (sc_id sample_ema) = Some ep" by (simp add: ema_params_table_def sample_ema_def)
  have "positions_of ''xsp_5ema_base'' ?b = [(sample_position 5)\<lparr>ps_strategy := ''xsp_5ema_base''\<rparr>]" by code_simp
  moreover have "time_exit_ny \<le> ny_wall (\<lambda>t. 0) (20000 * us_per_day + 950 * us_per_minute) mod us_per_day"
    by (simp add: time_exit_ny_def ny_wall_def us_per_day_def us_per_minute_def)
  ultimately show ?thesis
    using ep ema_exits_cover [where ny = "\<lambda>t. 0" and fd = "ema_feed\<lparr>fd_book := ?b\<rparr>" and cfg = sample_ema
        and now = "20000 * us_per_day + 950 * us_per_minute" and s = new_ema, OF _ refl]
    by (auto simp: sample_ema_def sample_position_def)
qed

definition sample_context :: exit_context where
  "sample_context = \<lparr>xc_strategy = ''xsp_5ema_trail'', xc_direction = PUT, xc_stop = Some 504, xc_entry_underlying = Some 502,
     xc_entry_price = Some 2, xc_peak = Some 2, xc_floor = None\<rparr>"

theorem trail_ratchets_witness:
  "xc_floor (fold (trail_context (the (map_of ema_params_table ''xsp_5ema_trail'')) 2) [3, 5/2] sample_context) = Some (13/5)"
proof -
  let ?ep = "the (map_of ema_params_table ''xsp_5ema_trail'')"
  have "xc_floor (fold (trail_context ?ep 2) [3, 5/2] sample_context) = floor_at ?ep 2 (Max (set [2, 3]))"
    using trail_ratchets [of 2 ?ep sample_context "[3, 5/2]"] by (simp add: ema_params_table_def sample_context_def)
  then show ?thesis by (simp add: ema_params_table_def floor_at_def floor_steps_def py_int_def)
qed

end
