(* ===== verification/Providers.thy ===== *)
theory Providers
  imports Short_Straddle Breakout Five_EMA
begin

text \<open>
  The remaining providers of \<^verbatim>\<open>src/strategies\<close> (\<^verbatim>\<open>dummy_test.py\<close>, \<^verbatim>\<open>shakeout_cycle.py\<close>), the
  dispatch of \<^verbatim>\<open>composite.py\<close> over all six, as \<^verbatim>\<open>run_paper_trading.py\<close> registers them, and what the
  runner may rely on whatever strategy it asks.
\<close>

section \<open>The one-shot test order\<close>

type_synonym dummy_state = "(int \<times> string) set"

text \<open>The limit of a test order: the middle, rounded, and only when both sides are quoted.\<close>

definition both_sides_limit :: "feed \<Rightarrow> nat \<Rightarrow> option_contract \<Rightarrow> pyfloat option" where
  "both_sides_limit fd n c = (let key = to_quote_symbol c
     in case quoted key (fd_quotes fd n [key]) of None \<Rightarrow> None
      | Some q \<Rightarrow> map_option (py_round 2) (quote_mid q))"

text \<open>The price of the underlying by request 0; zero counts as no price.\<close>

definition underlying_spot :: "feed \<Rightarrow> pyfloat option" where
  "underlying_spot fd = (case quoted xsp (fd_quotes fd 0 [xsp]) of None \<Rightarrow> None
     | Some q \<Rightarrow> (case spot_of q of None \<Rightarrow> None | Some x \<Rightarrow> if x = 0 then None else Some x))"

definition dummy_contract :: "strategy_config \<Rightarrow> int \<Rightarrow> pyfloat \<Rightarrow> option_contract" where
  "dummy_contract cfg day price =
     (if sc_direction cfg = [] \<or> sc_direction cfg = ''long'' then xsp_contract day (of_int (round_half_even price)) CALL
      else xsp_contract day (of_int (round_half_even price) - 3) PUT)"

definition dummy_poll ::
  "zone \<Rightarrow> (nat \<Rightarrow> uuid) \<Rightarrow> feed \<Rightarrow> strategy_config \<Rightarrow> instant \<Rightarrow> dummy_state \<Rightarrow> signals \<times> dummy_state" where
  "dummy_poll ny ids fd cfg now s =
     (let day = ny_date ny now; key = (day, sc_id cfg);
          direction = (if sc_direction cfg = [] \<or> sc_direction cfg = ''long'' then LONG else SHORT)
      in if key \<in> s then (Inr [], s)
         else if positioned_on ny day (sc_id cfg) (fd_book fd) then (Inr [], s)
         else (case underlying_spot fd of
             None \<Rightarrow> (Inr [], s)
           | Some price \<Rightarrow> (case mk_contract (dummy_contract cfg day price) of
               Inl e \<Rightarrow> (Inl e, s)
             | Inr c \<Rightarrow>
                 (try_bind (mk_signal (new_signal (ids 0) cfg direction c 1 (both_sides_limit fd 1 c) now)) (\<lambda>sg. Inr [sg]),
                  insert key s))))"

lemma dummy_poll_Inr:
  assumes "dummy_poll ny ids fd cfg now s = (Inr sgs, s')" "sgs \<noteq> []"
  shows "\<exists>sg. sgs = [sg] \<and> own_signal cfg now sg \<and> sg_quantity sg = 1
    \<and> (ny_date ny now, sc_id cfg) \<notin> s \<and> s' = insert (ny_date ny now, sc_id cfg) s"
  using assms by (auto simp: dummy_poll_def Let_def try_bind_eq_Inr new_signal_def own_signal_def split: if_splits option.splits sum.splits)

interpretation dummy: strategy_provider "dummy_poll ny ids"
proof
  fix fd cfg now s sgs s' sg
  assume "dummy_poll ny ids fd cfg now s = (Inr sgs, s')" "sg \<in> set sgs"
  then show "own_signal cfg now sg" using dummy_poll_Inr [of ny ids fd cfg now s sgs s'] by fastforce
qed

section \<open>The cycling shakeout\<close>

record shakeout_state =
  sk_cycle_start :: "instant option" \<comment> \<open>\<open>_last_cycle_end\<close>\<close>
  sk_cycles :: int

lemma weekday_bounds: "0 \<le> weekday d" "weekday d \<le> 6"
  using pos_mod_bound [of 7 "d + 3"] by (simp_all add: weekday_def)

lemma weekday_next: "weekday (d + 1) = (if weekday d = 6 then 0 else weekday d + 1)"
proof -
  have "weekday (d + 1) = (weekday d + 1) mod 7" by (simp add: weekday_def mod_simps add.commute add.left_commute)
  then show ?thesis using weekday_bounds [of d] by (auto simp: mod_pos_pos_trivial)
qed

function skip_weekend :: "int \<Rightarrow> int" where
  "skip_weekend d = (if 5 \<le> weekday d then skip_weekend (d + 1) else d)"
  by pat_completeness auto
termination
proof (relation "measure (\<lambda>d. if weekday d = 0 then 0 else nat (7 - weekday d))")
  fix d assume "5 \<le> weekday d"
  then show "(d + 1, d) \<in> measure (\<lambda>d. if weekday d = 0 then 0 else nat (7 - weekday d))"
    using weekday_bounds(2) [of d] by (auto simp: weekday_next)
qed simp

declare skip_weekend.simps [simp del]

lemma skip_weekend_cases: "5 \<le> weekday d \<Longrightarrow> skip_weekend d = skip_weekend (d + 1)" "weekday d < 5 \<Longrightarrow> skip_weekend d = d"
  by (subst skip_weekend.simps, simp)+

definition target_expiry :: "int \<Rightarrow> int" where
  "target_expiry wall = skip_weekend (if 16 * 60 * us_per_minute \<le> wall mod us_per_day then wall div us_per_day + 1 else wall div us_per_day)"

definition cycle_contracts :: "int \<Rightarrow> pyfloat \<Rightarrow> option_contract list" where
  "cycle_contracts day price = [xsp_contract day (of_int (round_half_even price) + 3) CALL,
     xsp_contract day (of_int (round_half_even price) - 3) PUT]"

definition cycle_quantity :: "strategy_config \<Rightarrow> int" where
  "cycle_quantity cfg = max 1 (min (en_max_contracts (sc_entry cfg)) 2)"

text \<open>The legs in order; leg \<open>k\<close> asks for its quote by request \<open>k\<close>.\<close>

fun cycle_signals ::
  "(nat \<Rightarrow> uuid) \<Rightarrow> feed \<Rightarrow> strategy_config \<Rightarrow> instant \<Rightarrow> nat \<Rightarrow> option_contract list \<Rightarrow> signals" where
  "cycle_signals ids fd cfg now k [] = Inr []"
| "cycle_signals ids fd cfg now k (c # cs) =
     try_bind (mk_contract c) (\<lambda>c. try_bind
       (mk_signal (new_signal (ids k) cfg LONG c (cycle_quantity cfg) (both_sides_limit fd k c) now)) (\<lambda>sg.
         try_bind (cycle_signals ids fd cfg now (Suc k) cs) (\<lambda>sgs. Inr (sg # sgs))))"

definition shakeout_poll ::
  "zone \<Rightarrow> (nat \<Rightarrow> uuid) \<Rightarrow> feed \<Rightarrow> strategy_config \<Rightarrow> instant \<Rightarrow> shakeout_state \<Rightarrow> signals \<times> shakeout_state" where
  "shakeout_poll ny ids fd cfg now s =
     (let cooldown = (if sc_cooldown cfg = 0 then 120 else sc_cooldown cfg)
      in if positions_of (sc_id cfg) (fd_book fd) \<noteq> [] then (Inr [], s\<lparr>sk_cycle_start := None\<rparr>)
         else (case sk_cycle_start s of
             None \<Rightarrow> (Inr [], s\<lparr>sk_cycle_start := Some now\<rparr>)
           | Some t \<Rightarrow>
               if now - t < cooldown * 1000000 then (Inr [], s)
               else (case underlying_spot fd of
                   None \<Rightarrow> (Inr [], s)
                 | Some price \<Rightarrow> (case cycle_signals ids fd cfg now 1 (cycle_contracts (target_expiry (ny_wall ny now)) price) of
                     Inl e \<Rightarrow> (Inl e, s)
                   | Inr sgs \<Rightarrow> (Inr sgs, \<lparr>sk_cycle_start = None, sk_cycles = sk_cycles s + 1\<rparr>)))))"

lemma skip_weekend_spec:
  "d \<le> skip_weekend d \<and> weekday (skip_weekend d) < 5 \<and> (\<forall>e. d \<le> e \<and> e < skip_weekend d \<longrightarrow> 5 \<le> weekday e)"
proof (induction d rule: skip_weekend.induct)
  case (1 d)
  show ?case
  proof (cases "5 \<le> weekday d")
    case True
    then show ?thesis using 1 skip_weekend_cases(1) [OF True] by (metis add1_zle_eq le_less order.strict_iff_order)
  next
    case False
    then show ?thesis by (simp add: skip_weekend_cases(2))
  qed
qed

lemma skip_weekend_within: "skip_weekend d \<le> d + 2"
proof -
  consider "weekday d < 5" | "5 \<le> weekday d" "weekday (d + 1) < 5" | "5 \<le> weekday d" "5 \<le> weekday (d + 1)" "weekday (d + 1 + 1) < 5"
    using weekday_next [of d] weekday_next [of "d + 1"] weekday_bounds [of d] by (fastforce split: if_splits)
  then show ?thesis by cases (simp_all add: skip_weekend_cases)
qed

lemma cycle_signals_Inr:
  assumes "cycle_signals ids fd cfg now k cs = Inr sgs"
  shows "map sg_contract sgs = cs \<and> (\<forall>sg\<in>set sgs. own_signal cfg now sg \<and> sg_direction sg = LONG \<and> sg_quantity sg = cycle_quantity cfg)"
  using assms
  by (induction cs arbitrary: k sgs)
    (auto simp: try_bind_eq_Inr new_signal_def own_signal_def cycle_quantity_def)

text \<open>A cycle of the shakeout. A poll that emits buys two options of the strategy, of the same size, a call three
  above and a put three below the rounded price, expiring on the first weekday from today, or from
  tomorrow once it is 16:00 in New York; only with no position open and once the cooldown has passed since
  the poll that started the clock; and it stops the clock, so the next poll cannot emit.\<close>

theorem shakeout_cycle_spaced:
  assumes "shakeout_poll ny ids fd cfg now s = (Inr sgs, s')" "sgs \<noteq> []"
  shows "\<exists>call put price day t. sgs = [call, put] \<and> own_signal cfg now call \<and> own_signal cfg now put
    \<and> sg_direction call = LONG \<and> sg_direction put = LONG \<and> sg_quantity call = sg_quantity put
    \<and> underlying_spot fd = Some price
    \<and> sg_contract call = xsp_contract day (of_int (round_half_even price) + 3) CALL
    \<and> sg_contract put = xsp_contract day (of_int (round_half_even price) - 3) PUT
    \<and> weekday day < 5 \<and> ny_wall ny now div us_per_day \<le> day \<and> day \<le> ny_wall ny now div us_per_day + 3
    \<and> (16 * 60 * us_per_minute \<le> ny_wall ny now mod us_per_day \<longrightarrow> ny_wall ny now div us_per_day < day)
    \<and> positions_of (sc_id cfg) (fd_book fd) = []
    \<and> sk_cycle_start s = Some t \<and> t + (if sc_cooldown cfg = 0 then 120 else sc_cooldown cfg) * 1000000 \<le> now
    \<and> (\<forall>ids fd cfg now. fst (shakeout_poll ny ids fd cfg now s') = Inr [])"
proof -
  let ?day = "target_expiry (ny_wall ny now)"
  obtain t price where g: "positions_of (sc_id cfg) (fd_book fd) = []" "sk_cycle_start s = Some t"
      "t + (if sc_cooldown cfg = 0 then 120 else sc_cooldown cfg) * 1000000 \<le> now" "underlying_spot fd = Some price"
      "sk_cycle_start s' = None"
    and c: "cycle_signals ids fd cfg now 1 (cycle_contracts ?day price) = Inr sgs"
    using assms by (auto simp: shakeout_poll_def Let_def split: if_splits option.splits sum.splits)
  from cycle_signals_Inr [OF c] obtain call put where sg: "sgs = [call, put]" "own_signal cfg now call" "own_signal cfg now put"
    "sg_direction call = LONG" "sg_direction put = LONG" "sg_quantity call = sg_quantity put"
    "sg_contract call = xsp_contract ?day (of_int (round_half_even price) + 3) CALL"
    "sg_contract put = xsp_contract ?day (of_int (round_half_even price) - 3) PUT"
    by (auto simp: cycle_contracts_def map_eq_Cons_conv)
  have "weekday ?day < 5" "ny_wall ny now div us_per_day \<le> ?day" "?day \<le> ny_wall ny now div us_per_day + 3"
    "16 * 60 * us_per_minute \<le> ny_wall ny now mod us_per_day \<longrightarrow> ny_wall ny now div us_per_day < ?day"
    using skip_weekend_spec [of "ny_wall ny now div us_per_day"] skip_weekend_spec [of "ny_wall ny now div us_per_day + 1"]
      skip_weekend_within [of "ny_wall ny now div us_per_day"] skip_weekend_within [of "ny_wall ny now div us_per_day + 1"]
    unfolding target_expiry_def by (simp_all split: if_split)
  moreover have "\<forall>ids fd cfg now. fst (shakeout_poll ny ids fd cfg now s') = Inr []"
    using g(5) by (simp add: shakeout_poll_def Let_def)
  ultimately show ?thesis using g(1-4) sg by blast
qed

interpretation shakeout: strategy_provider "shakeout_poll ny ids"
proof
  fix fd cfg now s sgs s' sg
  assume a: "shakeout_poll ny ids fd cfg now s = (Inr sgs, s')" and sg: "sg \<in> set sgs"
  from a sg obtain cs where "cycle_signals ids fd cfg now 1 cs = Inr sgs"
    by (auto simp: shakeout_poll_def Let_def split: if_splits option.splits sum.splits)
  with sg show "own_signal cfg now sg" by (auto dest: cycle_signals_Inr)
qed

section \<open>The dispatch\<close>

datatype provider =
    Breakout_Early breakout_state
  | Breakout_Late breakout_state
  | Straddle straddle_state
  | Dummy dummy_state
  | Shakeout shakeout_state
  | Five_EMA ema_state

type_synonym composite = "(string, provider) pydict"

text \<open>What the processes of the providers are given: the zone, the largest spread of the straddle's configuration.\<close>

definition provider_poll ::
  "zone \<Rightarrow> pyfloat \<Rightarrow> (nat \<Rightarrow> uuid) \<Rightarrow> feed \<Rightarrow> strategy_config \<Rightarrow> instant \<Rightarrow> provider \<Rightarrow> signals \<times> provider" where
  "provider_poll ny max_spread ids fd cfg now x = (case x of
       Breakout_Early s \<Rightarrow> map_prod id Breakout_Early (breakout_poll breakout_early ny ids fd cfg now s)
     | Breakout_Late s \<Rightarrow> map_prod id Breakout_Late (breakout_poll breakout_late ny ids fd cfg now s)
     | Straddle s \<Rightarrow> map_prod id Straddle (straddle_poll ny max_spread ids fd cfg now s)
     | Dummy s \<Rightarrow> map_prod id Dummy (dummy_poll ny ids fd cfg now s)
     | Shakeout s \<Rightarrow> map_prod id Shakeout (shakeout_poll ny ids fd cfg now s)
     | Five_EMA s \<Rightarrow> map_prod id Five_EMA (ema_poll ny ids fd cfg now s))"

text \<open>Only the straddle overrides \<open>emit_now\<close>, and only the average strategy \<open>collect_exits\<close>.\<close>

definition provider_emit_now ::
  "zone \<Rightarrow> pyfloat \<Rightarrow> (nat \<Rightarrow> uuid) \<Rightarrow> feed \<Rightarrow> strategy_config \<Rightarrow> instant \<Rightarrow> provider \<Rightarrow> signals \<times> provider" where
  "provider_emit_now ny max_spread ids fd cfg now x = (case x of
       Straddle s \<Rightarrow> map_prod id Straddle (straddle_emit_now ny max_spread ids fd cfg now s)
     | _ \<Rightarrow> (Inr [], x))"

definition provider_collect_exits :: "zone \<Rightarrow> feed \<Rightarrow> strategy_config \<Rightarrow> instant \<Rightarrow> provider \<Rightarrow> uuid set \<times> provider" where
  "provider_collect_exits ny fd cfg now x = (case x of
       Five_EMA s \<Rightarrow> map_prod id Five_EMA (ema_collect_exits ny fd cfg now s)
     | _ \<Rightarrow> ({}, x))"

definition composite_poll ::
  "zone \<Rightarrow> pyfloat \<Rightarrow> (nat \<Rightarrow> uuid) \<Rightarrow> feed \<Rightarrow> strategy_config \<Rightarrow> instant \<Rightarrow> composite \<Rightarrow> signals \<times> composite" where
  "composite_poll ny max_spread ids fd cfg now d = (let source = en_signal_source (sc_entry cfg)
     in case map_of d source of None \<Rightarrow> (Inr [], d)
      | Some x \<Rightarrow> map_prod id (\<lambda>x'. AList.update source x' d) (provider_poll ny max_spread ids fd cfg now x))"

definition composite_emit_now ::
  "zone \<Rightarrow> pyfloat \<Rightarrow> (nat \<Rightarrow> uuid) \<Rightarrow> feed \<Rightarrow> strategy_config \<Rightarrow> instant \<Rightarrow> composite \<Rightarrow> signals \<times> composite" where
  "composite_emit_now ny max_spread ids fd cfg now d = (let source = en_signal_source (sc_entry cfg)
     in case map_of d source of None \<Rightarrow> (Inr [], d)
      | Some x \<Rightarrow> map_prod id (\<lambda>x'. AList.update source x' d) (provider_emit_now ny max_spread ids fd cfg now x))"

definition composite_collect_exits :: "zone \<Rightarrow> feed \<Rightarrow> strategy_config \<Rightarrow> instant \<Rightarrow> composite \<Rightarrow> uuid set \<times> composite" where
  "composite_collect_exits ny fd cfg now d = (let source = en_signal_source (sc_entry cfg)
     in case map_of d source of None \<Rightarrow> ({}, d)
      | Some x \<Rightarrow> map_prod id (\<lambda>x'. AList.update source x' d) (provider_collect_exits ny fd cfg now x))"

text \<open>The providers of \<^verbatim>\<open>run_paper_trading.py\<close>, by their signal source.\<close>

definition registered :: composite where
  "registered =
     [(''xsp_breakout'', Breakout_Early \<lparr>bo_refs = [], bo_failed = {}, bo_traded = {}, bo_mock = None\<rparr>),
      (''xsp_breakout_late'', Breakout_Late \<lparr>bo_refs = [], bo_failed = {}, bo_traded = {}, bo_mock = None\<rparr>),
      (''xsp_short_straddle'', Straddle \<lparr>sd_traded = {}, sd_warned = []\<rparr>),
      (''dummy_test'', Dummy {}),
      (''shakeout_cycle'', Shakeout \<lparr>sk_cycle_start = None, sk_cycles = 0\<rparr>),
      (''xsp_5_ema'', Five_EMA new_ema)]"

lemma map_prod_id_eq: "map_prod id f x = (a, y) \<longleftrightarrow> (\<exists>b. x = (a, b) \<and> y = f b)"
  by (cases x) auto

lemma provider_poll_own:
  "provider_poll ny max_spread ids fd cfg now x = (Inr sgs, x') \<Longrightarrow> sg \<in> set sgs \<Longrightarrow> own_signal cfg now sg"
  by (cases x) (auto simp: provider_poll_def map_prod_id_eq dest: breakout.poll_own straddle.poll_own dummy.poll_own
      shakeout.poll_own ema.poll_own)

lemma provider_emit_own:
  "provider_emit_now ny max_spread ids fd cfg now x = (Inr sgs, x') \<Longrightarrow> sg \<in> set sgs \<Longrightarrow> own_signal cfg now sg"
  by (cases x) (auto simp: provider_emit_now_def map_prod_id_eq dest: straddle.emit_own)

interpretation provider: firing_provider "provider_poll ny max_spread ids" "provider_emit_now ny max_spread ids"
  by unfold_locales (rule provider_poll_own provider_emit_own, assumption+)+

interpretation composite: firing_provider "composite_poll ny max_spread ids" "composite_emit_now ny max_spread ids"
  by unfold_locales
    (auto simp: composite_poll_def composite_emit_now_def Let_def map_prod_id_eq split: option.splits dest: provider.poll_own provider.emit_own)

lemma provider_exits_own:
  "fst (provider_collect_exits ny fd cfg now x) \<subseteq> ps_id ` set (positions_of (sc_id cfg) (fd_book fd))"
  by (cases x) (simp_all add: provider_collect_exits_def ema_exits_own)

text \<open>C21: what the runner may rely on. Whatever providers are registered, in whatever state, and whatever they are
  answered: the signals of a poll and of a fire are the strategy's own, valid, dated now, and no larger
  than configured, so the replies satisfy what the runner assumes of its providers; the positions named
  for closing are open positions of that strategy; and no call touches the state of another signal
  source's provider.\<close>

theorem composite_contract:
  "(\<forall>sgs s'. composite_poll ny max_spread ids fd cfg now d = (Inr sgs, s') \<longrightarrow> (\<forall>sg\<in>set sgs. own_signal cfg now sg))
    \<and> (\<forall>sgs s'. composite_emit_now ny max_spread ids fd cfg now d = (Inr sgs, s') \<longrightarrow> (\<forall>sg\<in>set sgs. own_signal cfg now sg))
    \<and> answers_for (sc_id cfg) (\<lambda>r. (fst (composite_poll ny max_spread ids fd cfg now d), r))
    \<and> answers_for (sc_id cfg) (\<lambda>r. (fst (composite_emit_now ny max_spread ids fd cfg now d), r))
    \<and> fst (composite_collect_exits ny fd cfg now d) \<subseteq> ps_id ` set (positions_of (sc_id cfg) (fd_book fd))
    \<and> (\<forall>other. other \<noteq> en_signal_source (sc_entry cfg) \<longrightarrow>
         map_of (snd (composite_poll ny max_spread ids fd cfg now d)) other = map_of d other
         \<and> map_of (snd (composite_emit_now ny max_spread ids fd cfg now d)) other = map_of d other
         \<and> map_of (snd (composite_collect_exits ny fd cfg now d)) other = map_of d other)"
proof -
  have "answers_for (sc_id cfg) (\<lambda>r. (fst (composite_poll ny max_spread ids fd cfg now d), r))"
    by (rule composite.poll_answers) auto
  moreover have "answers_for (sc_id cfg) (\<lambda>r. (fst (composite_emit_now ny max_spread ids fd cfg now d), r))"
    using composite.emit_own by (fastforce simp: answers_for_def own_signal_def prod_eq_iff)
  moreover have "fst (composite_collect_exits ny fd cfg now d) \<subseteq> ps_id ` set (positions_of (sc_id cfg) (fd_book fd))"
    using provider_exits_own by (auto simp: composite_collect_exits_def Let_def split: option.split)
  moreover have "map_of (snd (composite_poll ny max_spread ids fd cfg now d)) other = map_of d other
      \<and> map_of (snd (composite_emit_now ny max_spread ids fd cfg now d)) other = map_of d other
      \<and> map_of (snd (composite_collect_exits ny fd cfg now d)) other = map_of d other" if "other \<noteq> en_signal_source (sc_entry cfg)" for other
    using that by (auto simp: composite_poll_def composite_emit_now_def composite_collect_exits_def Let_def
        update_conv split: option.split)
  ultimately show ?thesis by (blast intro: composite.poll_own composite.emit_own)
qed

section \<open>Examples\<close>

theorem shakeout_cycle_spaced_witness:
  "\<exists>call put s'. shakeout_poll (\<lambda>t. 0) id sample_feed sample_strategy sample_now \<lparr>sk_cycle_start = Some 0, sk_cycles = 0\<rparr>
      = (Inr [call, put], s')
    \<and> sg_direction put = LONG \<and> own_signal sample_strategy sample_now call"
proof -
  let ?p = "shakeout_poll (\<lambda>t. 0) id sample_feed sample_strategy sample_now \<lparr>sk_cycle_start = Some 0, sk_cycles = 0\<rparr>"
  have "case fst ?p of Inr sgs \<Rightarrow> sgs \<noteq> [] | Inl e \<Rightarrow> False" by code_simp
  then obtain sgs s' where e: "?p = (Inr sgs, s')" "sgs \<noteq> []" by (cases ?p) (auto split: sum.splits)
  from shakeout_cycle_spaced [OF e] e(1) show ?thesis by auto
qed

definition dummy_strategy :: strategy_config where
  "dummy_strategy = sample_strategy\<lparr>sc_entry := (sc_entry sample_strategy)\<lparr>en_signal_source := ''dummy_test''\<rparr>\<rparr>"

theorem composite_contract_witness:
  "\<exists>sg d'. composite_poll (\<lambda>t. 0) 15 id sample_feed dummy_strategy sample_now registered = (Inr [sg], d')
    \<and> own_signal dummy_strategy sample_now sg \<and> map_of d' ''xsp_5_ema'' = Some (Five_EMA new_ema)"
proof -
  let ?p = "composite_poll (\<lambda>t. 0) 15 id sample_feed dummy_strategy sample_now registered"
  have "case fst ?p of Inr sgs \<Rightarrow> length sgs = 1 | Inl e \<Rightarrow> False" by code_simp
  then obtain sg d' where e: "?p = (Inr [sg], d')" by (cases ?p) (auto simp: length_Suc_conv split: sum.splits)
  have c: "\<forall>sgs s'. ?p = (Inr sgs, s') \<longrightarrow> (\<forall>sg\<in>set sgs. own_signal dummy_strategy sample_now sg)"
    and o: "\<forall>other. other \<noteq> en_signal_source (sc_entry dummy_strategy) \<longrightarrow> map_of (snd ?p) other = map_of registered other"
    using composite_contract [of "\<lambda>t. 0" 15 id sample_feed dummy_strategy sample_now registered] by blast+
  have "map_of registered ''xsp_5_ema'' = Some (Five_EMA new_ema)" by (simp add: registered_def)
  with c o e show ?thesis by (auto simp: dummy_strategy_def)
qed

end
