(* ===== verification/Execution_Quality.thy ===== *)
theory Execution_Quality
  imports Mock_Broker Reconciliation
begin

text \<open>
  \<^verbatim>\<open>src/analytics/execution_quality.py\<close>: execution metrics and realised profit, recomputed from the
  event log. \<open>event_data\<close> holds the keys the code looks up in a logged payload, by the type they are
  written with; \<open>None\<close> is a missing key. The composite keys the code renders to text (a contract, an
  order id of either kind) are values here, so that they are equal when their parts are. Limit prices and
  quantities, which the code collects and does not use, are left out.
\<close>

section \<open>Logged events\<close>

datatype logged_id = Internal_Id uuid | Broker_Id int

record event_data =
  ed_order_id :: "logged_id option"
  ed_broker_id :: "logged_id option" \<comment> \<open>\<open>orderId\<close>\<close>
  ed_new_status :: "string option"
  ed_status :: "string option"
  ed_side :: "string option"
  ed_strategy :: "string option"
  ed_contract :: "option_contract option"
  ed_fill_price :: "pyfloat option"
  ed_price :: "pyfloat option"
  ed_filled_quantity :: "pyfloat option"
  ed_shares :: "pyfloat option"
  ed_symbol :: "string option"
  ed_bid :: "pyfloat option"
  ed_ask :: "pyfloat option"
  ed_quote :: "(pyfloat option \<times> pyfloat option) option"
  ed_underlying_quote :: "(pyfloat option \<times> pyfloat option) option"

definition no_data :: event_data where
  "no_data = \<lparr>ed_order_id = None, ed_broker_id = None, ed_new_status = None, ed_status = None, ed_side = None,
     ed_strategy = None, ed_contract = None, ed_fill_price = None, ed_price = None, ed_filled_quantity = None,
     ed_shares = None, ed_symbol = None, ed_bid = None, ed_ask = None, ed_quote = None, ed_underlying_quote = None\<rparr>"

definition side_text :: "order_side \<Rightarrow> string" where
  "side_text s = (case s of BUY \<Rightarrow> ''BUY'' | SELL \<Rightarrow> ''SELL'')"

definition farg_text :: "farg option \<Rightarrow> string option" where
  "farg_text v = (case v of Some (FStr s) \<Rightarrow> Some s | _ \<Rightarrow> None)"

definition farg_number :: "farg option \<Rightarrow> pyfloat option" where
  "farg_number v = (case v of Some (FFloat x) \<Rightarrow> Some x | Some (FInt n) \<Rightarrow> Some (of_int n) | _ \<Rightarrow> None)"

definition farg_id :: "farg option \<Rightarrow> logged_id option" where
  "farg_id v = (case v of Some (FId i) \<Rightarrow> Some (Internal_Id i) | Some (FInt n) \<Rightarrow> Some (Broker_Id n) | _ \<Rightarrow> None)"

text \<open>What the payloads of the log hold under those keys.\<close>

fun data_of :: "payload \<Rightarrow> event_data" where
  "data_of (P_Fill f) = no_data\<lparr>ed_order_id := Some (Internal_Id (fe_order_id f)), ed_side := Some (side_text (fe_side f)),
     ed_strategy := Some (fe_strategy f), ed_contract := Some (fe_contract f), ed_fill_price := Some (fe_price f),
     ed_filled_quantity := Some (of_int (fe_quantity f))\<rparr>"
| "data_of (P_Order_Event e) = no_data\<lparr>ed_order_id := Some (Internal_Id (oe_order_id e)),
     ed_new_status := farg_text (Some (status_arg (oe_new e)))\<rparr>"
| "data_of (P_Order_State o') = no_data\<lparr>ed_order_id := Some (Internal_Id (os_id o')),
     ed_status := farg_text (Some (status_arg (os_status o'))), ed_side := Some (side_text (os_side o')),
     ed_strategy := Some (os_strategy o'), ed_contract := Some (os_contract o')\<rparr>"
| "data_of (P_Signal s) = no_data\<lparr>ed_strategy := Some (sg_strategy s), ed_contract := Some (sg_contract s)\<rparr>"
| "data_of (P_Dict kvs) = no_data\<lparr>ed_order_id := farg_id (map_of kvs ''order_id''), ed_broker_id := farg_id (map_of kvs ''orderId''),
     ed_new_status := farg_text (map_of kvs ''new_status''), ed_status := farg_text (map_of kvs ''status''),
     ed_side := farg_text (map_of kvs ''side''), ed_strategy := farg_text (map_of kvs ''strategy_id''),
     ed_fill_price := farg_number (map_of kvs ''fill_price''), ed_price := farg_number (map_of kvs ''price''),
     ed_filled_quantity := farg_number (map_of kvs ''filled_quantity''), ed_shares := farg_number (map_of kvs ''shares''),
     ed_symbol := farg_text (map_of kvs ''symbol''), ed_bid := farg_number (map_of kvs ''bid''),
     ed_ask := farg_number (map_of kvs ''ask'')\<rparr>"
| "data_of _ = no_data"

record quality_event =
  qe_type :: string
  qe_time :: instant
  qe_strategy :: "string option"
  qe_data :: event_data

definition text_or :: "string option \<Rightarrow> string option \<Rightarrow> string option" where
  "text_or a b = (if truthy a then a else b)"

definition number_or :: "pyfloat option \<Rightarrow> pyfloat option \<Rightarrow> pyfloat option" where
  "number_or a b = (case a of None \<Rightarrow> b | Some x \<Rightarrow> if x = 0 then b else Some x)"

definition id_or :: "logged_id option \<Rightarrow> logged_id option \<Rightarrow> logged_id option" where
  "id_or a b = (let given = (\<lambda>i. case i of None \<Rightarrow> False | Some (Broker_Id n) \<Rightarrow> n \<noteq> 0 | Some (Internal_Id n) \<Rightarrow> True)
     in if given a then a else if given b then b else None)"

definition normalize_event :: "log_entry \<Rightarrow> quality_event" where
  "normalize_event e = (let d = data_of (le_payload e)
     in \<lparr>qe_type = (if le_type e = [] then ''unknown'' else le_type e), qe_time = le_time e,
         qe_strategy = text_or (le_strategy e) (ed_strategy d), qe_data = d\<rparr>)"

definition normalize_events :: "log_entry list \<Rightarrow> quality_event list" where
  "normalize_events es = sort_key qe_time (map normalize_event es)"

record contract_view =
  cv_symbol :: string
  cv_expiry :: string
  cv_strike :: pyfloat
  cv_right :: option_right

definition normalize_contract :: "option_contract \<Rightarrow> contract_view" where
  "normalize_contract c = \<lparr>cv_symbol = oc_symbol c, cv_expiry = oc_expiry c, cv_strike = oc_strike c, cv_right = oc_right c\<rparr>"

definition view_symbol :: "contract_view option \<Rightarrow> string" where
  "view_symbol v = (case v of None \<Rightarrow> ''unknown'' | Some x \<Rightarrow> cv_symbol x)"

definition side_of :: "string \<Rightarrow> order_side" where
  "side_of s = (if map upper_char s = ''BUY'' then BUY else SELL)"

definition fill_types :: "string list" where
  "fill_types = [''fill_event'', ''fill_callback'', ''fill_received'']"

section \<open>Realised profit, first in first out\<close>

record lot =
  lt_quantity :: int
  lt_price :: pyfloat
  lt_side :: order_side

text \<open>The profit, what is left to match and the lots that remain.\<close>

fun match_lots :: "order_side \<Rightarrow> pyfloat \<Rightarrow> int \<Rightarrow> lot list \<Rightarrow> pyfloat \<times> int \<times> lot list" where
  "match_lots side price q [] = (0, q, [])"
| "match_lots side price q (l # ls) =
     (if q \<le> 0 \<or> lt_side l = side then (0, q, l # ls)
      else let m = min q (lt_quantity l);
               gain = (if side = SELL then price - lt_price l else lt_price l - price) * of_int m
           in if lt_quantity l - m = 0
              then (case match_lots side price (q - m) ls of (g, r, ls') \<Rightarrow> (gain + g, r, ls'))
              else (gain, q - m, l\<lparr>lt_quantity := lt_quantity l - m\<rparr> # ls))"

type_synonym inventory = "(string \<times> contract_view option, lot list) pydict"
type_synonym pnl_table = "(string, (string, pyfloat) pydict) pydict"

definition add_pnl :: "string \<Rightarrow> string \<Rightarrow> pyfloat \<Rightarrow> pnl_table \<Rightarrow> pnl_table" where
  "add_pnl strat symbol x t = (let row = dict_default t strat []
     in AList.update strat (AList.update symbol (dict_default row symbol 0 + x) row) t)"

definition fifo_fill ::
  "string \<Rightarrow> contract_view option \<Rightarrow> order_side \<Rightarrow> pyfloat \<Rightarrow> int \<Rightarrow> inventory \<times> pnl_table \<Rightarrow> inventory \<times> pnl_table" where
  "fifo_fill strat view side price q s = (case s of (stock, t) \<Rightarrow>
     (case match_lots side price q (dict_default stock (strat, view) []) of (gain, rest, lots) \<Rightarrow>
       (AList.update (strat, view)
          (if 0 < rest then lots @ [\<lparr>lt_quantity = rest, lt_price = price, lt_side = side\<rparr>] else lots) stock,
        if gain = 0 then t else add_pnl strat (view_symbol view) gain t)))"

definition fifo_event :: "quality_event \<Rightarrow> inventory \<times> pnl_table \<Rightarrow> inventory \<times> pnl_table" where
  "fifo_event e s = (let d = qe_data e
     in if qe_type e \<notin> set fill_types then s
        else (case (number_or (ed_fill_price d) (ed_price d), number_or (ed_filled_quantity d) (ed_shares d), ed_side d) of
            (Some price, Some q, Some side) \<Rightarrow>
              fifo_fill (the (text_or (ed_strategy d) (Some ''unknown''))) (map_option normalize_contract (ed_contract d))
                (side_of side) price (py_int q) s
          | _ \<Rightarrow> s))"

definition compute_realized_pnl :: "quality_event list \<Rightarrow> pnl_table" where
  "compute_realized_pnl es = snd (fold fifo_event es ([], []))"

section \<open>The books of the matching\<close>

text \<open>What lots cost: a bought lot was paid for, a sold one was paid out.\<close>

definition lot_value :: "lot \<Rightarrow> pyfloat" where
  "lot_value l = (if lt_side l = BUY then lt_price l else - lt_price l) * of_int (lt_quantity l)"

definition lots_value :: "lot list \<Rightarrow> pyfloat" where
  "lots_value ls = sum_list (map lot_value ls)"

definition cash :: "order_side \<Rightarrow> pyfloat \<Rightarrow> int \<Rightarrow> pyfloat" where
  "cash side price q = (if side = SELL then price else - price) * of_int q"

definition one_sided :: "lot list \<Rightarrow> bool" where
  "one_sided ls \<longleftrightarrow> (\<forall>l\<in>set ls. 0 < lt_quantity l) \<and> (\<exists>s. \<forall>l\<in>set ls. lt_side l = s)"

lemma match_lots_balance:
  assumes "match_lots side price q ls = (gain, rest, ls')" "\<forall>l\<in>set ls. 0 < lt_quantity l" "0 \<le> q"
  shows "gain + cash side price rest = cash side price q + lots_value ls' - lots_value ls"
  using assms
proof (induction side price q ls arbitrary: gain rest ls' rule: match_lots.induct)
  case (2 side price q l ls)
  show ?case
  proof (cases "q \<le> 0 \<or> lt_side l = side")
    case True
    then show ?thesis using "2.prems"(1) by auto
  next
    case False
    define m where "m = min q (lt_quantity l)"
    have m: "0 < m" "m \<le> q" using False "2.prems"(2) by (auto simp: m_def)
    show ?thesis
    proof (cases "lt_quantity l - m = 0")
      case emptied: True
      obtain g where g: "match_lots side price (q - m) ls = (g, rest, ls')"
        and gain: "gain = (if side = SELL then price - lt_price l else lt_price l - price) * of_int m + g"
        using "2.prems"(1) False emptied by (auto simp: m_def Let_def split: prod.splits)
      have "g + cash side price rest = cash side price (q - m) + lots_value ls' - lots_value ls"
        using "2.IH" [OF False m_def refl _ g] emptied "2.prems"(2) m by simp
      then show ?thesis using False emptied unfolding gain
        by (cases side; cases "lt_side l") (simp_all add: lots_value_def lot_value_def cash_def algebra_simps)
    next
      case False': False
      then have e: "gain = (if side = SELL then price - lt_price l else lt_price l - price) * of_int m" "rest = q - m"
        "ls' = l\<lparr>lt_quantity := lt_quantity l - m\<rparr> # ls"
        using "2.prems"(1) False by (auto simp: m_def Let_def split: if_splits)
      show ?thesis using False unfolding e
        by (cases side; cases "lt_side l") (simp_all add: lots_value_def lot_value_def cash_def algebra_simps)
    qed
  qed
qed auto

lemma match_lots_rest:
  assumes "match_lots side price q ls = (gain, rest, ls')" "\<forall>l\<in>set ls. 0 < lt_quantity l" "0 \<le> q"
  shows "0 \<le> rest \<and> (\<forall>l\<in>set ls'. 0 < lt_quantity l \<and> (\<exists>k\<in>set ls. lt_side l = lt_side k))
    \<and> (0 < rest \<longrightarrow> ls' = [] \<or> (\<exists>l\<in>set ls. lt_side l = side))"
  using assms
proof (induction side price q ls arbitrary: gain rest ls' rule: match_lots.induct)
  case (2 side price q l ls)
  show ?case
  proof (cases "q \<le> 0 \<or> lt_side l = side")
    case True
    then show ?thesis using "2.prems" by auto
  next
    case False
    define m where "m = min q (lt_quantity l)"
    show ?thesis
    proof (cases "lt_quantity l - m = 0")
      case emptied: True
      obtain g where g: "match_lots side price (q - m) ls = (g, rest, ls')"
        using "2.prems"(1) False emptied by (auto simp: m_def Let_def split: prod.splits)
      have "0 \<le> q - m" by (simp add: m_def)
      then show ?thesis using "2.IH" [OF False m_def refl _ g] emptied "2.prems"(2) by fastforce
    next
      case False': False
      then have e: "rest = q - m" "ls' = l\<lparr>lt_quantity := lt_quantity l - m\<rparr> # ls" "m = q"
        using "2.prems"(1) False by (auto simp: m_def Let_def min_def split: if_splits)
      have "0 < lt_quantity l - m" using False' "2.prems"(2) by (simp add: m_def min_def split: if_splits)
      then show ?thesis using e "2.prems"(2) by auto
    qed
  qed
qed auto

lemma side_cases: "s = BUY \<or> s = SELL"
  by (cases s) auto

text \<open>One fill keeps the lots of its contract positive and on one side.\<close>

lemma filled_lots_ok:
  assumes "match_lots side price q ls = (gain, rest, ls')" "one_sided ls" "0 \<le> q"
  shows "one_sided (if 0 < rest then ls' @ [\<lparr>lt_quantity = rest, lt_price = price, lt_side = side\<rparr>] else ls')"
proof -
  obtain s where s: "\<forall>l\<in>set ls. lt_side l = s" using assms(2) by (auto simp: one_sided_def)
  have r: "0 \<le> rest \<and> (\<forall>l\<in>set ls'. 0 < lt_quantity l \<and> (\<exists>k\<in>set ls. lt_side l = lt_side k))
      \<and> (0 < rest \<longrightarrow> ls' = [] \<or> (\<exists>l\<in>set ls. lt_side l = side))"
    by (rule match_lots_rest [OF assms(1) _ assms(3)]) (use assms(2) in \<open>simp add: one_sided_def\<close>)
  then have p: "\<forall>l\<in>set ls'. 0 < lt_quantity l" "\<forall>l\<in>set ls'. lt_side l = s" using s by auto
  show ?thesis
  proof (cases "0 < rest \<and> ls' \<noteq> []")
    case True
    then obtain l where "l \<in> set ls" "lt_side l = side" using r by blast
    then have "s = side" using s by auto
    then show ?thesis using p True by (auto simp: one_sided_def)
  next
    case False
    then show ?thesis using p by (auto simp: one_sided_def)
  qed
qed

text \<open>Profit per strategy and symbol, the value of the lots kept for them, the cash of their fills.\<close>

definition pnl_of :: "pnl_table \<Rightarrow> string \<Rightarrow> string \<Rightarrow> pyfloat" where
  "pnl_of t strat symbol = dict_default (dict_default t strat []) symbol 0"

definition concerns :: "string \<Rightarrow> string \<Rightarrow> string \<times> contract_view option \<Rightarrow> bool" where
  "concerns strat symbol k \<longleftrightarrow> fst k = strat \<and> view_symbol (snd k) = symbol"

definition held_value :: "string \<Rightarrow> string \<Rightarrow> inventory \<Rightarrow> pyfloat" where
  "held_value strat symbol stock = sum_list (map (\<lambda>(k, ls). if concerns strat symbol k then lots_value ls else 0) stock)"

lemma sum_update:
  "distinct (map fst d) \<Longrightarrow> sum_list (map (\<lambda>(k, v). f k v :: pyfloat) (AList.update a x d))
     = sum_list (map (\<lambda>(k, v). f k v) d) + f a x - (case map_of d a of None \<Rightarrow> 0 | Some y \<Rightarrow> f a y)"
  by (induction d) (auto split: option.splits dest: map_of_SomeD)

lemma held_update:
  assumes "wf_dict stock"
  shows "held_value strat symbol (AList.update k ls stock)
    = held_value strat symbol stock + (if concerns strat symbol k then lots_value ls - lots_value (dict_default stock k []) else 0)"
  using sum_update [where d = stock and a = k and x = ls and f = "\<lambda>k ls. if concerns strat symbol k then lots_value ls else 0"] assms
  by (auto simp: held_value_def wf_dict_def dict_default_def lots_value_def split: option.splits)

lemma pnl_of_add: "pnl_of (add_pnl s y x t) strat symbol = pnl_of t strat symbol + (if strat = s \<and> symbol = y then x else 0)"
  by (simp add: pnl_of_def add_pnl_def Let_def dict_default_def split: option.split)

definition inventory_ok :: "inventory \<Rightarrow> bool" where
  "inventory_ok stock \<longleftrightarrow> wf_dict stock \<and> (\<forall>k ls. map_of stock k = Some ls \<longrightarrow> one_sided ls)"

lemma fifo_fill_books:
  assumes "fifo_fill s v side price q (stock, t) = (stock', t')" "inventory_ok stock" "0 \<le> q"
  shows "inventory_ok stock'"
    "pnl_of t' strat symbol - held_value strat symbol stock' = pnl_of t strat symbol - held_value strat symbol stock
       + (if concerns strat symbol (s, v) then cash side price q else 0)"
proof -
  let ?ls = "dict_default stock (s, v) []"
  obtain gain rest ls where m: "match_lots side price q ?ls = (gain, rest, ls)" by (cases "match_lots side price q ?ls")
  define new where "new = (if 0 < rest then ls @ [\<lparr>lt_quantity = rest, lt_price = price, lt_side = side\<rparr>] else ls)"
  have e: "stock' = AList.update (s, v) new stock" "t' = (if gain = 0 then t else add_pnl s (view_symbol v) gain t)"
    using assms(1) by (simp_all add: fifo_fill_def m new_def)
  have ok: "one_sided ?ls"
    using assms(2) by (cases "map_of stock (s, v)") (auto simp: inventory_ok_def dict_default_def one_sided_def)
  then have pos: "\<forall>l\<in>set ?ls. 0 < lt_quantity l" by (simp add: one_sided_def)
  have "one_sided new" unfolding new_def by (rule filled_lots_ok [OF m ok assms(3)])
  then show "inventory_ok stock'" using assms(2) by (auto simp: e inventory_ok_def)
  have "0 \<le> rest" using match_lots_rest [OF m pos assms(3)] by blast
  then have "lots_value new = lots_value ls - cash side price rest"
    by (cases side) (auto simp: new_def lots_value_def lot_value_def cash_def)
  then have "gain - (lots_value new - lots_value ?ls) = cash side price q"
    using match_lots_balance [OF m pos assms(3)] by simp
  moreover have "pnl_of t' strat symbol = pnl_of t strat symbol + (if concerns strat symbol (s, v) then gain else 0)"
    by (auto simp: e pnl_of_add concerns_def)
  moreover have "held_value strat symbol stock' = held_value strat symbol stock
      + (if concerns strat symbol (s, v) then lots_value new - lots_value ?ls else 0)"
    unfolding e by (rule held_update) (use assms(2) in \<open>simp add: inventory_ok_def\<close>)
  ultimately show "pnl_of t' strat symbol - held_value strat symbol stock' = pnl_of t strat symbol - held_value strat symbol stock
      + (if concerns strat symbol (s, v) then cash side price q else 0)" by auto
qed

text \<open>The fill that an event of the log stands for, when the code takes it for one.\<close>

definition fill_of :: "quality_event \<Rightarrow> ((string \<times> contract_view option) \<times> order_side \<times> pyfloat \<times> int) option" where
  "fill_of e = (let d = qe_data e
     in if qe_type e \<notin> set fill_types then None
        else (case (number_or (ed_fill_price d) (ed_price d), number_or (ed_filled_quantity d) (ed_shares d), ed_side d) of
            (Some price, Some q, Some side) \<Rightarrow>
              Some ((the (text_or (ed_strategy d) (Some ''unknown'')), map_option normalize_contract (ed_contract d)),
                    side_of side, price, py_int q)
          | _ \<Rightarrow> None))"

lemma fifo_event_fill: "fifo_event e s = (case fill_of e of None \<Rightarrow> s | Some ((a, v), side, price, q) \<Rightarrow> fifo_fill a v side price q s)"
  by (auto simp: fifo_event_def fill_of_def Let_def split: option.split)

definition fill_cash :: "string \<Rightarrow> string \<Rightarrow> quality_event \<Rightarrow> pyfloat" where
  "fill_cash strat symbol e = (case fill_of e of None \<Rightarrow> 0
     | Some (k, side, price, q) \<Rightarrow> if concerns strat symbol k then cash side price q else 0)"

definition no_negative_fill :: "quality_event \<Rightarrow> bool" where
  "no_negative_fill e \<longleftrightarrow> (case fill_of e of None \<Rightarrow> True | Some (k, side, price, q) \<Rightarrow> 0 \<le> q)"

lemma fifo_run_books:
  assumes "\<forall>e\<in>set es. no_negative_fill e" "inventory_ok stock" "fold fifo_event es (stock, t) = (stock', t')"
  shows "inventory_ok stock'
    \<and> pnl_of t' strat symbol - held_value strat symbol stock'
        = pnl_of t strat symbol - held_value strat symbol stock + sum_list (map (fill_cash strat symbol) es)"
  using assms
proof (induction es arbitrary: stock t)
  case (Cons e es)
  obtain stock1 t1 where e: "fifo_event e (stock, t) = (stock1, t1)" by (cases "fifo_event e (stock, t)")
  have "inventory_ok stock1 \<and> pnl_of t1 strat symbol - held_value strat symbol stock1
      = pnl_of t strat symbol - held_value strat symbol stock + fill_cash strat symbol e"
  proof (cases "fill_of e")
    case None
    then show ?thesis using e Cons.prems(2) by (simp add: fifo_event_fill fill_cash_def)
  next
    case (Some f)
    obtain a v side price q where f: "f = ((a, v), side, price, q)" by (metis surj_pair)
    have "fifo_fill a v side price q (stock, t) = (stock1, t1)" "0 \<le> q"
      using e Some f Cons.prems(1) by (simp_all add: fifo_event_fill no_negative_fill_def)
    then show ?thesis using fifo_fill_books [OF _ Cons.prems(2)] by (simp add: fill_cash_def Some f)
  qed
  moreover have "fold fifo_event es (stock1, t1) = (stock', t')" using Cons.prems(3) e by simp
  ultimately show ?case using Cons.IH [of stock1 t1] Cons.prems(1) by auto
qed auto

text \<open>The books balance: for every log without negative quantities, the realised profit of a strategy on an
  underlying is what its logged fills brought in less what they paid out, plus the cost of what is still
  held; and the lots kept for a contract are all on one side.\<close>

theorem fifo_realizes_cash:
  assumes "\<forall>e\<in>set es. no_negative_fill e" "fold fifo_event es ([], []) = (stock, t)"
  shows "pnl_of (compute_realized_pnl es) strat symbol = sum_list (map (fill_cash strat symbol) es) + held_value strat symbol stock
    \<and> (\<forall>k ls. map_of stock k = Some ls \<longrightarrow> one_sided ls)"
proof -
  have "inventory_ok []" by (simp add: inventory_ok_def)
  from fifo_run_books [OF assms(1) this assms(2), of strat symbol] assms(2) show ?thesis
    by (simp add: compute_realized_pnl_def inventory_ok_def held_value_def pnl_of_def dict_default_def)
qed

section \<open>Contract by contract\<close>

text \<open>The reference: fills come one contract at a time. A contract closes the oldest open contract of its kind that
  is on the other side, and is kept open when there is none.\<close>

type_synonym single = "order_side \<times> pyfloat"

definition single_gain :: "single \<Rightarrow> single \<Rightarrow> pyfloat" where
  "single_gain opened closing = (if fst closing = SELL then snd closing - snd opened else snd opened - snd closing)"

fun take_single :: "single \<Rightarrow> single list \<Rightarrow> pyfloat \<times> single list" where
  "take_single f [] = (0, [f])"
| "take_single f (u # us) = (if fst u = fst f then (0, u # us @ [f]) else (single_gain u f, us))"

fun contract_profit :: "string \<Rightarrow> string \<Rightarrow> (string \<times> contract_view option \<Rightarrow> single list)
    \<Rightarrow> ((string \<times> contract_view option) \<times> single) list \<Rightarrow> pyfloat" where
  "contract_profit strat symbol opens [] = 0"
| "contract_profit strat symbol opens ((k, f) # xs) =
     (if concerns strat symbol k then fst (take_single f (opens k)) else 0)
     + contract_profit strat symbol (opens(k := snd (take_single f (opens k)))) xs"

text \<open>The contracts that the fill entries of a log stand for.\<close>

definition logged_contracts :: "quality_event list \<Rightarrow> ((string \<times> contract_view option) \<times> single) list" where
  "logged_contracts es = concat (map (\<lambda>e. case fill_of e of None \<Rightarrow> []
     | Some (k, side, price, q) \<Rightarrow> replicate (nat q) (k, side, price)) es)"

text \<open>A lot is its contracts.\<close>

definition singles :: "lot list \<Rightarrow> single list" where
  "singles ls = concat (map (\<lambda>l. replicate (nat (lt_quantity l)) (lt_side l, lt_price l)) ls)"

fun take_singles :: "nat \<Rightarrow> single \<Rightarrow> single list \<Rightarrow> pyfloat \<times> single list" where
  "take_singles 0 f us = (0, us)"
| "take_singles (Suc n) f us = (case take_single f us of (g, us1) \<Rightarrow> case take_singles n f us1 of (h, us2) \<Rightarrow> (g + h, us2))"

lemma singles_simps [simp]: "singles [] = []" "singles (ls @ ls') = singles ls @ singles ls'"
  "singles (l # ls) = replicate (nat (lt_quantity l)) (lt_side l, lt_price l) @ singles ls"
  by (simp_all add: singles_def)

lemma singles_side: "\<forall>l\<in>set ls. lt_side l = s \<Longrightarrow> u \<in> set (singles ls) \<Longrightarrow> fst u = s"
  by (auto simp: singles_def)

lemma take_singles_same: "\<forall>u\<in>set us. fst u = fst f \<Longrightarrow> take_singles n f us = (0, us @ replicate n f)"
proof (induction n arbitrary: us)
  case (Suc n)
  have "take_single f us = (0, us @ [f])" using Suc.prems by (cases us) simp_all
  then show ?case using Suc.IH [of "us @ [f]"] Suc.prems by simp
qed simp

lemma take_singles_other:
  "s \<noteq> fst f \<Longrightarrow> take_singles (n + m) f (replicate n (s, p) @ us)
     = (of_nat n * single_gain (s, p) f + fst (take_singles m f us), snd (take_singles m f us))"
  by (induction n) (simp_all add: split_beta algebra_simps)

lemma match_lots_singles:
  assumes "match_lots side price q ls = (gain, rest, ls')" "\<forall>l\<in>set ls. 0 < lt_quantity l \<and> lt_side l = s" "0 \<le> q"
  shows "take_singles (nat q) (side, price) (singles ls) = (gain, singles ls' @ replicate (nat rest) (side, price))"
  using assms
proof (induction ls arbitrary: q gain rest ls')
  case Nil
  then show ?case using take_singles_same [of "[]" "(side, price)" "nat q"] by auto
next
  case (Cons l ls)
  show ?case
  proof (cases "q \<le> 0 \<or> lt_side l = side")
    case True
    then have e: "gain = 0" "rest = q" "ls' = l # ls" using Cons.prems(1) by auto
    show ?thesis
    proof (cases "q = 0")
      case False
      then have "\<forall>u\<in>set (singles (l # ls)). fst u = fst (side, price)" using True Cons.prems(2,3) singles_side [of "l # ls" s] by auto
      from take_singles_same [OF this] show ?thesis unfolding e by simp
    qed (simp add: e)
  next
    case False
    let ?gain = "if side = SELL then price - lt_price l else lt_price l - price"
    have gain: "single_gain (lt_side l, lt_price l) (side, price) = ?gain" by (simp add: single_gain_def)
    have side: "lt_side l \<noteq> fst (side, price)" using False by simp
    show ?thesis
    proof (cases "lt_quantity l \<le> q")
      case True
      obtain g r ls2 where m: "match_lots side price (q - lt_quantity l) ls = (g, r, ls2)" by (metis surj_pair)
      have e: "gain = ?gain * of_int (lt_quantity l) + g" "rest = r" "ls' = ls2"
        using Cons.prems(1) False m by (auto simp: Let_def min_absorb2 [OF True])
      have n: "nat q = nat (lt_quantity l) + nat (q - lt_quantity l)" using True Cons.prems(2) by auto
      have "take_singles (nat (q - lt_quantity l)) (side, price) (singles ls) = (g, singles ls2 @ replicate (nat r) (side, price))"
        by (rule Cons.IH [OF m]) (use Cons.prems(2) True in auto)
      then show ?thesis unfolding e n singles_simps take_singles_other [OF side] gain
        using Cons.prems(2) by (simp add: mult.commute)
    next
      case less: False
      then have "min q (lt_quantity l) = q" by simp
      with less have e: "gain = ?gain * of_int q" "rest = 0" "ls' = l\<lparr>lt_quantity := lt_quantity l - q\<rparr> # ls"
        using Cons.prems(1) False by (auto simp: Let_def)
      have n: "nat (lt_quantity l) = nat q + nat (lt_quantity l - q)" using less False by linarith
      have "take_singles (nat q + 0) (side, price) (replicate (nat q) (lt_side l, lt_price l)
          @ replicate (nat (lt_quantity l - q)) (lt_side l, lt_price l) @ singles ls)
        = (of_nat (nat q) * ?gain, replicate (nat (lt_quantity l - q)) (lt_side l, lt_price l) @ singles ls)"
        unfolding take_singles_other [OF side] gain by simp
      then show ?thesis unfolding e singles_simps n replicate_add using False by (simp add: mult.commute)
    qed
  qed
qed

lemma contract_profit_replicate:
  "contract_profit strat symbol opens (replicate n (k, f) @ xs) =
     (if concerns strat symbol k then fst (take_singles n f (opens k)) else 0)
     + contract_profit strat symbol (opens(k := snd (take_singles n f (opens k)))) xs"
  by (induction n arbitrary: opens) (simp_all add: split_beta)

definition opens_of :: "inventory \<Rightarrow> string \<times> contract_view option \<Rightarrow> single list" where
  "opens_of stock k = singles (dict_default stock k [])"

text \<open>One fill entry is its contracts, one after the other.\<close>

lemma fifo_fill_singles:
  assumes "fifo_fill a v side price q (stock, t) = (stock', t')" "inventory_ok stock" "0 \<le> q"
  shows "inventory_ok stock'" "opens_of stock' = (opens_of stock)((a, v) := snd (take_singles (nat q) (side, price) (opens_of stock (a, v))))"
    "pnl_of t' strat symbol = pnl_of t strat symbol
       + (if concerns strat symbol (a, v) then fst (take_singles (nat q) (side, price) (opens_of stock (a, v))) else 0)"
proof -
  let ?ls = "dict_default stock (a, v) []"
  obtain gain rest ls where m: "match_lots side price q ?ls = (gain, rest, ls)" by (metis surj_pair)
  have ok: "one_sided ?ls" using assms(2) by (cases "map_of stock (a, v)") (auto simp: inventory_ok_def dict_default_def one_sided_def)
  then obtain s where "\<forall>l\<in>set ?ls. 0 < lt_quantity l \<and> lt_side l = s" by (auto simp: one_sided_def)
  from match_lots_singles [OF m this assms(3)]
  have t: "take_singles (nat q) (side, price) (opens_of stock (a, v)) = (gain, singles ls @ replicate (nat rest) (side, price))"
    by (simp add: opens_of_def)
  have e: "stock' = AList.update (a, v) (if 0 < rest then ls @ [\<lparr>lt_quantity = rest, lt_price = price, lt_side = side\<rparr>] else ls) stock"
    "t' = (if gain = 0 then t else add_pnl a (view_symbol v) gain t)"
    using assms(1) by (simp_all add: fifo_fill_def m)
  show "inventory_ok stock'" by (rule fifo_fill_books(1) [OF assms])
  show "opens_of stock' = (opens_of stock)((a, v) := snd (take_singles (nat q) (side, price) (opens_of stock (a, v))))"
    unfolding t by (rule ext) (auto simp: opens_of_def e dict_default_def)
  show "pnl_of t' strat symbol = pnl_of t strat symbol
       + (if concerns strat symbol (a, v) then fst (take_singles (nat q) (side, price) (opens_of stock (a, v))) else 0)"
    unfolding t by (auto simp: e pnl_of_add concerns_def)
qed

lemma fifo_run_singles:
  assumes "\<forall>e\<in>set es. no_negative_fill e" "inventory_ok stock"
  shows "pnl_of (snd (fold fifo_event es (stock, t))) strat symbol
    = pnl_of t strat symbol + contract_profit strat symbol (opens_of stock) (logged_contracts es)"
  using assms
proof (induction es arbitrary: stock t)
  case (Cons e es)
  show ?case
  proof (cases "fill_of e")
    case None
    then show ?thesis using Cons by (simp add: fifo_event_fill logged_contracts_def)
  next
    case (Some f)
    obtain a v side price q where f: "f = ((a, v), side, price, q)" by (metis surj_pair)
    obtain stock1 t1 where x: "fifo_fill a v side price q (stock, t) = (stock1, t1)" by (metis surj_pair)
    have "0 \<le> q" using Cons.prems(1) Some f by (simp add: no_negative_fill_def)
    note one = fifo_fill_singles [OF x Cons.prems(2) this]
    have "logged_contracts (e # es) = replicate (nat q) ((a, v), side, price) @ logged_contracts es"
      by (simp add: logged_contracts_def Some f)
    moreover have "fold fifo_event (e # es) (stock, t) = fold fifo_event es (stock1, t1)" by (simp add: fifo_event_fill Some f x)
    moreover have "pnl_of (snd (fold fifo_event es (stock1, t1))) strat symbol
        = pnl_of t1 strat symbol + contract_profit strat symbol (opens_of stock1) (logged_contracts es)"
      by (rule Cons.IH [OF _ one(1)]) (use Cons.prems(1) in simp)
    moreover have "contract_profit strat symbol (opens_of stock) (replicate (nat q) ((a, v), side, price) @ logged_contracts es)
        = (if concerns strat symbol (a, v) then fst (take_singles (nat q) (side, price) (opens_of stock (a, v))) else 0)
          + contract_profit strat symbol (opens_of stock1) (logged_contracts es)"
      unfolding one(2) by (rule contract_profit_replicate)
    ultimately show ?thesis using one(3) [of strat symbol] by simp
  qed
qed (simp add: logged_contracts_def)

text \<open>C36: the profit is first in, first out, contract by contract. For every log without negative quantities, the
  realised profit reported for a strategy on an underlying is what results when the fill entries of the
  log are taken one contract at a time, in their order, each closing the contract of the same strategy,
  expiry, strike and right that has been open longest on the other side, or opening one. It is a
  difference of premiums: entries count as often as they are logged, and no multiplier is applied.\<close>

theorem profit_first_in_first_out:
  assumes "\<forall>e\<in>set es. no_negative_fill e"
  shows "pnl_of (compute_realized_pnl es) strat symbol = contract_profit strat symbol (\<lambda>k. []) (logged_contracts es)"
proof -
  have "inventory_ok []" by (simp add: inventory_ok_def)
  moreover have "opens_of [] = (\<lambda>k. [])" by (simp add: opens_of_def dict_default_def fun_eq_iff)
  ultimately show ?thesis using fifo_run_singles [OF assms, of "[]" "[]" strat symbol]
    by (simp add: compute_realized_pnl_def pnl_of_def dict_default_def)
qed

section \<open>A fill is logged more than once\<close>

text \<open>The broker logs a fill before it calls back, the order manager logs it again when it is called.\<close>

definition logged_fill :: "string \<Rightarrow> instant \<times> fill_event \<Rightarrow> log_entry" where
  "logged_fill kind x = \<lparr>le_type = kind, le_time = fst x, le_strategy = Some (fe_strategy (snd x)), le_payload = P_Fill (snd x)\<rparr>"

definition fill_entries :: "instant \<times> fill_event \<Rightarrow> log_entry list" where
  "fill_entries x = [logged_fill ''fill_callback'' x, logged_fill ''fill_received'' x]"

lemma mock_logs_fill: "es_queue (mb_store (mock_log now ''fill_callback'' (P_Fill f) b)) = es_queue (mb_store b) @ [Some (logged_fill ''fill_callback'' (now, f))]"
  by (simp add: mock_log_def log_callback_def logged_fill_def Let_def)

lemma manager_logs_fill:
  "\<exists>rest. es_queue (om_store (on_broker_fill now f om)) = es_queue (om_store om) @ Some (logged_fill ''fill_received'' (now, f)) # rest
     \<and> (\<forall>e\<in>set rest. \<exists>x. e = Some x \<and> le_type x = ''execution_quality'')"
  by (simp add: on_broker_fill_def log_callback_def logged_fill_def Let_def split: option.split)

lemma fill_of_logged:
  assumes "kind \<in> set fill_types" "valid_fill (snd x)"
  shows "fill_of (normalize_event (logged_fill kind x))
    = Some ((fe_strategy (snd x), Some (normalize_contract (fe_contract (snd x)))), fe_side (snd x), fe_price (snd x), fe_quantity (snd x))"
proof -
  have "side_of (side_text s) = s" for s by (cases s) (simp_all add: side_of_def side_text_def upper_char_def Let_def)
  moreover have "py_int (of_int n) = n" for n by (simp add: py_int_def)
  ultimately show ?thesis using assms
    by (auto simp: fill_of_def normalize_event_def logged_fill_def no_data_def number_or_def valid_fill_def text_or_def fill_types_def truthy_Some)
qed

lemma sum_normalized: "sum_list (map f (normalize_events es)) = (sum_list (map (\<lambda>e. f (normalize_event e)) es) :: pyfloat)"
proof -
  have "mset (map f (normalize_events es)) = mset (map f (map normalize_event es))"
    by (simp only: normalize_events_def mset_map mset_sort)
  then have "sum_list (map f (normalize_events es)) = sum_list (map f (map normalize_event es))" by (metis sum_mset_sum_list)
  then show ?thesis by (simp add: comp_def)
qed

definition fills_cash :: "string \<Rightarrow> string \<Rightarrow> (instant \<times> fill_event) list \<Rightarrow> pyfloat" where
  "fills_cash strat symbol fs = sum_list (map (\<lambda>x. let f = snd x
     in if fe_strategy f = strat \<and> oc_symbol (fe_contract f) = symbol then cash (fe_side f) (fe_price f) (fe_quantity f) else 0) fs)"

text \<open>Realised profit is reported twice over. When every fill is in the log as broker and order manager write
  it, and a strategy ends flat on an underlying, the profit reported for it is twice the cash of its
  fills.\<close>

theorem fills_counted_twice:
  assumes "\<forall>x\<in>set fs. valid_fill (snd x)"
    and "fold fifo_event (normalize_events (concat (map fill_entries fs))) ([], []) = (stock, t)"
    and "held_value strat symbol stock = 0"
  shows "pnl_of (compute_realized_pnl (normalize_events (concat (map fill_entries fs)))) strat symbol = 2 * fills_cash strat symbol fs"
proof -
  let ?es = "normalize_events (concat (map fill_entries fs))"
  have two: "fill_of (normalize_event (logged_fill kind x))
      = Some ((fe_strategy (snd x), Some (normalize_contract (fe_contract (snd x)))), fe_side (snd x), fe_price (snd x), fe_quantity (snd x))"
    if "kind = ''fill_callback'' \<or> kind = ''fill_received''" "x \<in> set fs" for kind x
    by (rule fill_of_logged) (use that assms(1) in \<open>auto simp: fill_types_def\<close>)
  have "no_negative_fill e" if e: "e \<in> set ?es" for e
  proof -
    obtain x kind where x: "x \<in> set fs" "kind = ''fill_callback'' \<or> kind = ''fill_received''" "e = normalize_event (logged_fill kind x)"
      using e by (fastforce simp: normalize_events_def fill_entries_def)
    have "0 \<le> fe_quantity (snd x)" using assms(1) x(1) by (auto simp: valid_fill_def)
    then show ?thesis using two [OF x(2,1)] x(3) by (simp add: no_negative_fill_def)
  qed
  moreover have "inventory_ok []" by (simp add: inventory_ok_def)
  ultimately have "pnl_of t strat symbol - held_value strat symbol stock = sum_list (map (fill_cash strat symbol) ?es)"
    using fifo_run_books [OF _ _ assms(2), of strat symbol] by (simp add: held_value_def pnl_of_def dict_default_def)
  moreover have "sum_list (map (\<lambda>e. fill_cash strat symbol (normalize_event e)) (concat (map fill_entries fs))) = 2 * fills_cash strat symbol fs"
    using two
  proof (induction fs)
    case (Cons x fs)
    have "fill_cash strat symbol (normalize_event (logged_fill kind x))
        = (if fe_strategy (snd x) = strat \<and> oc_symbol (fe_contract (snd x)) = symbol
           then cash (fe_side (snd x)) (fe_price (snd x)) (fe_quantity (snd x)) else 0)"
      if "kind = ''fill_callback'' \<or> kind = ''fill_received''" for kind
      using Cons.prems [OF that, of x] by (simp add: fill_cash_def concerns_def view_symbol_def normalize_contract_def)
    then show ?case using Cons by (simp add: fill_entries_def fills_cash_def Let_def)
  qed (simp add: fills_cash_def)
  ultimately show ?thesis using assms(2,3) by (simp add: compute_realized_pnl_def sum_normalized)
qed

section \<open>Execution quality\<close>

datatype quote_ref = Of_Contract contract_view | Of_Symbol string

record quality_log =
  ql_submissions :: "(logged_id, instant) pydict"
  ql_completions :: "(logged_id, instant) pydict"
  ql_statuses :: "(logged_id, string) pydict"
  ql_sides :: "(logged_id, order_side) pydict"
  ql_contracts :: "(logged_id, contract_view) pydict"
  ql_strategies :: "(logged_id, string) pydict"
  ql_fills :: "(logged_id, (pyfloat \<times> int) list) pydict"
  ql_quotes :: "(quote_ref, (instant \<times> pyfloat) list) pydict"

definition new_quality_log :: quality_log where
  "new_quality_log = \<lparr>ql_submissions = [], ql_completions = [], ql_statuses = [], ql_sides = [], ql_contracts = [],
     ql_strategies = [], ql_fills = [], ql_quotes = []\<rparr>"

definition add_quote :: "quote_ref \<Rightarrow> instant \<Rightarrow> pyfloat option \<Rightarrow> pyfloat option \<Rightarrow> quality_log \<Rightarrow> quality_log" where
  "add_quote key t bid ask q = (case (bid, ask) of
       (Some b, Some a) \<Rightarrow> q\<lparr>ql_quotes := AList.update key (dict_default (ql_quotes q) key [] @ [(t, (b + a) / 2)]) (ql_quotes q)\<rparr>
     | _ \<Rightarrow> q)"

definition read_quote :: "quality_event \<Rightarrow> quality_log \<Rightarrow> quality_log" where
  "read_quote e q = (let d = qe_data e
     in if qe_type e = ''signal'' then
          (case (ed_contract d, if ed_quote d \<noteq> None then ed_quote d else ed_underlying_quote d) of
             (Some c, Some (bid, ask)) \<Rightarrow> add_quote (Of_Contract (normalize_contract c)) (qe_time e) bid ask q
           | _ \<Rightarrow> q)
        else if qe_type e = ''quote_snapshot'' \<and> truthy (ed_symbol d)
          then add_quote (Of_Symbol (the (ed_symbol d))) (qe_time e) (ed_bid d) (ed_ask d) q
        else q)"

text \<open>\<open>if k not in d: d[k] = v\<close>, and an assignment that happens only when there is a value.\<close>

definition keep_first :: "'k \<Rightarrow> 'v \<Rightarrow> ('k, 'v) pydict \<Rightarrow> ('k, 'v) pydict" where
  "keep_first k v d = (if map_of d k = None then AList.update k v d else d)"

definition assign_if :: "'k \<Rightarrow> 'v option \<Rightarrow> ('k, 'v) pydict \<Rightarrow> ('k, 'v) pydict" where
  "assign_if k v d = (case v of None \<Rightarrow> d | Some x \<Rightarrow> AList.update k x d)"

definition status_text :: "event_data \<Rightarrow> string" where
  "status_text d = (case text_or (ed_new_status d) (ed_status d) of None \<Rightarrow> ''NONE'' | Some s \<Rightarrow> map upper_char s)"

definition read_order :: "quality_event \<Rightarrow> quality_log \<Rightarrow> quality_log" where
  "read_order e q = (let d = qe_data e
     in if qe_type e \<notin> {''order_event'', ''order_callback'', ''order_state_transition''} then q
        else (case id_or (ed_order_id d) (ed_broker_id d) of
            None \<Rightarrow> q
          | Some i \<Rightarrow> let status = status_text d
              in q\<lparr>ql_statuses := AList.update i status (ql_statuses q),
                   ql_submissions := (if status \<in> {''NEW'', ''SUBMITTED''} then keep_first i (qe_time e) (ql_submissions q)
                     else ql_submissions q),
                   ql_completions := (if status \<in> {''FILLED'', ''CANCELLED'', ''REJECTED'', ''ERROR''}
                     then keep_first i (qe_time e) (ql_completions q) else ql_completions q),
                   ql_contracts := assign_if i (map_option normalize_contract (ed_contract d)) (ql_contracts q),
                   ql_sides := assign_if i (map_option side_of (ed_side d)) (ql_sides q),
                   ql_strategies := assign_if i (ed_strategy d) (ql_strategies q)\<rparr>))"

definition first_if :: "'k \<Rightarrow> 'v option \<Rightarrow> ('k, 'v) pydict \<Rightarrow> ('k, 'v) pydict" where
  "first_if k v d = (case v of None \<Rightarrow> d | Some x \<Rightarrow> keep_first k x d)"

definition read_fill :: "quality_event \<Rightarrow> quality_log \<Rightarrow> quality_log" where
  "read_fill e q = (let d = qe_data e
     in if qe_type e \<notin> set fill_types then q
        else (case id_or (ed_order_id d) (ed_broker_id d) of
            None \<Rightarrow> q
          | Some i \<Rightarrow>
              q\<lparr>ql_fills := (case (number_or (ed_fill_price d) (ed_price d), number_or (ed_filled_quantity d) (ed_shares d)) of
                    (Some price, Some k) \<Rightarrow> AList.update i (dict_default (ql_fills q) i [] @ [(price, py_int k)]) (ql_fills q)
                  | _ \<Rightarrow> ql_fills q),
                ql_sides := first_if i (map_option side_of (ed_side d)) (ql_sides q),
                ql_strategies := first_if i (ed_strategy d) (ql_strategies q),
                ql_contracts := first_if i (map_option normalize_contract (ed_contract d)) (ql_contracts q)\<rparr>))"

definition read_event :: "quality_event \<Rightarrow> quality_log \<Rightarrow> quality_log" where
  "read_event e q = read_fill e (read_order e (read_quote e q))"

text \<open>The last quote that is not after \<open>t\<close>, looking until the first that is.\<close>

fun last_quote :: "instant \<Rightarrow> pyfloat option \<Rightarrow> (instant \<times> pyfloat) list \<Rightarrow> pyfloat option" where
  "last_quote t best [] = best"
| "last_quote t best ((u, m) # qs) = (if u \<le> t then last_quote t (Some m) qs else best)"

definition quote_before :: "(quote_ref, (instant \<times> pyfloat) list) pydict \<Rightarrow> instant \<Rightarrow> quote_ref \<Rightarrow> pyfloat option" where
  "quote_before quotes t key = Option.bind (map_of quotes key) (last_quote t None)"

definition arrival_mid :: "instant \<Rightarrow> quality_log \<Rightarrow> logged_id \<Rightarrow> pyfloat option" where
  "arrival_mid now q i =
     (let contract = map_of (ql_contracts q) i;
          t = (case map_of (ql_submissions q) i of Some t \<Rightarrow> t | None \<Rightarrow> now);
          by_contract = (case contract of None \<Rightarrow> None | Some c \<Rightarrow> quote_before (ql_quotes q) t (Of_Contract c))
      in case by_contract of Some m \<Rightarrow> Some m | None \<Rightarrow> quote_before (ql_quotes q) t (Of_Symbol (view_symbol contract)))"

record slippage_totals =
  sl_cost :: pyfloat
  sl_sum :: pyfloat
  sl_count :: int
  sl_strategy :: "(string, pyfloat) pydict"
  sl_underlying :: "(string, pyfloat) pydict"

definition add_to :: "'k \<Rightarrow> pyfloat \<Rightarrow> ('k, pyfloat) pydict \<Rightarrow> ('k, pyfloat) pydict" where
  "add_to k x d = AList.update k (dict_default d k 0 + x) d"

definition fill_slippage :: "order_side \<Rightarrow> string \<Rightarrow> string \<Rightarrow> pyfloat option \<Rightarrow> pyfloat \<times> int \<Rightarrow> slippage_totals \<Rightarrow> slippage_totals" where
  "fill_slippage side strat symbol mid f s = (case mid of
       None \<Rightarrow> s
     | Some m \<Rightarrow> let slip = (if side = BUY then fst f - m else m - fst f); cost = slip * of_int (snd f)
         in s\<lparr>sl_cost := sl_cost s + cost, sl_sum := sl_sum s + slip, sl_count := sl_count s + 1,
              sl_strategy := add_to strat cost (sl_strategy s), sl_underlying := add_to symbol cost (sl_underlying s)\<rparr>)"

definition order_slippage :: "instant \<Rightarrow> quality_log \<Rightarrow> logged_id \<times> (pyfloat \<times> int) list \<Rightarrow> slippage_totals \<Rightarrow> slippage_totals" where
  "order_slippage now q x s = (case x of (i, fills) \<Rightarrow>
     fold (fill_slippage (dict_default (ql_sides q) i BUY) (dict_default (ql_strategies q) i ''unknown'')
       (view_symbol (map_of (ql_contracts q) i)) (arrival_mid now q i)) fills s)"

definition slippage_of :: "instant \<Rightarrow> quality_log \<Rightarrow> slippage_totals" where
  "slippage_of now q = fold (order_slippage now q) (ql_fills q)
     \<lparr>sl_cost = 0, sl_sum = 0, sl_count = 0, sl_strategy = [], sl_underlying = []\<rparr>"

definition times_to_fill :: "quality_log \<Rightarrow> pyfloat list" where
  "times_to_fill q = List.map_filter (\<lambda>(i, t). if map_of (ql_statuses q) i = Some ''FILLED''
     then map_option (\<lambda>u. seconds_between t u) (map_of (ql_submissions q) i) else None) (ql_completions q)"

definition count_status :: "string set \<Rightarrow> quality_log \<Rightarrow> int" where
  "count_status st q = int (length (filter (\<lambda>s. s \<in> st) (dict_values (ql_statuses q))))"

definition count_partial :: "quality_log \<Rightarrow> int" where
  "count_partial q = int (length (filter (\<lambda>(i, s). s \<noteq> ''FILLED'' \<and> map_of (ql_fills q) i \<noteq> None) (ql_statuses q)))"

definition share :: "int \<Rightarrow> int \<Rightarrow> pyfloat" where
  "share n m = (if 0 < m then of_int n / of_int m else 0)"

record quality_report =
  qr_slippage_cost :: pyfloat
  qr_avg_slippage :: pyfloat
  qr_avg_time_to_fill :: pyfloat
  qr_fill_rate :: pyfloat
  qr_cancel_rate :: pyfloat
  qr_partial_rate :: pyfloat
  qr_rejections :: int
  qr_by_strategy :: "(string, pyfloat) pydict"
  qr_by_underlying :: "(string, pyfloat) pydict"
  qr_total :: int

definition compute_execution_quality :: "instant \<Rightarrow> quality_event list \<Rightarrow> quality_report" where
  "compute_execution_quality now es =
     (let q = fold read_event es new_quality_log; s = slippage_of now q; times = times_to_fill q;
          orders = int (length (ql_statuses q))
      in \<lparr>qr_slippage_cost = sl_cost s, qr_avg_slippage = (if 0 < sl_count s then sl_sum s / of_int (sl_count s) else 0),
          qr_avg_time_to_fill = (if times = [] then 0 else sum_list times / of_nat (length times)),
          qr_fill_rate = share (count_status {''FILLED''} q) orders, qr_cancel_rate = share (count_status {''CANCELLED''} q) orders,
          qr_partial_rate = share (count_partial q) orders, qr_rejections = count_status {''REJECTED'', ''ERROR''} q,
          qr_by_strategy = sl_strategy s, qr_by_underlying = sl_underlying s, qr_total = orders\<rparr>)"

text \<open>The costs by strategy and the costs by underlying both add up to the total.\<close>

lemma sum_add_to: "wf_dict d \<Longrightarrow> sum_list (map snd (add_to k x d)) = sum_list (map snd d) + x"
  using sum_update [of d "\<lambda>k v. v" k "dict_default d k 0 + x"]
  by (simp add: add_to_def wf_dict_def dict_default_def case_prod_unfold split: option.splits)

definition totals_ok :: "slippage_totals \<Rightarrow> bool" where
  "totals_ok s \<longleftrightarrow> wf_dict (sl_strategy s) \<and> wf_dict (sl_underlying s)
     \<and> sum_list (map snd (sl_strategy s)) = sl_cost s \<and> sum_list (map snd (sl_underlying s)) = sl_cost s"

lemma fill_slippage_ok: "totals_ok s \<Longrightarrow> totals_ok (fill_slippage side strat symbol mid f s)"
  by (simp add: totals_ok_def fill_slippage_def Let_def sum_add_to split: option.split) (simp add: add_to_def)

lemma order_slippage_ok: "totals_ok s \<Longrightarrow> totals_ok (order_slippage now q x s)"
proof -
  have "totals_ok (fold (fill_slippage side strat symbol mid) fills s)" if "totals_ok s" for side strat symbol mid fills s
    using that by (induction fills arbitrary: s) (simp_all add: fill_slippage_ok)
  then show "totals_ok s \<Longrightarrow> totals_ok (order_slippage now q x s)" by (simp add: order_slippage_def split: prod.split)
qed

lemma slippage_of_ok: "totals_ok (slippage_of now q)"
proof -
  have "totals_ok (fold (order_slippage now q) xs s)" if "totals_ok s" for xs s
    using that by (induction xs arbitrary: s) (simp_all add: order_slippage_ok)
  then show ?thesis by (simp add: slippage_of_def totals_ok_def)
qed

lemma count_status_add:
  "st \<inter> st' = {} \<Longrightarrow> count_status st q + count_status st' q = count_status (st \<union> st') q"
proof -
  assume d: "st \<inter> st' = {}"
  have "length (filter (\<lambda>s. s \<in> st) xs) + length (filter (\<lambda>s. s \<in> st') xs) = length (filter (\<lambda>s. s \<in> st \<union> st') xs)" for xs
    using d by (induction xs) auto
  then show ?thesis by (simp add: count_status_def flip: of_nat_add)
qed

lemma count_status_le: "0 \<le> count_status st q" "count_status st q \<le> int (length (ql_statuses q))"
  using length_filter_le [of "\<lambda>s. s \<in> st" "dict_values (ql_statuses q)"] by (simp_all add: count_status_def dict_values_def)

lemma count_partial_le: "0 \<le> count_partial q" "count_partial q + count_status {''FILLED''} q \<le> int (length (ql_statuses q))"
proof -
  have "length (filter (\<lambda>(i, s). s \<noteq> ''FILLED'' \<and> P i) xs) + length (filter (\<lambda>s. s \<in> {''FILLED''}) (map snd xs)) \<le> length xs"
    for P and xs :: "(logged_id \<times> string) list"
    by (induction xs) auto
  from this [of "\<lambda>i. map_of (ql_fills q) i \<noteq> None" "ql_statuses q"]
  show "count_partial q + count_status {''FILLED''} q \<le> int (length (ql_statuses q))"
    by (simp add: count_partial_def count_status_def dict_values_def)
qed (simp add: count_partial_def)

lemma share_bounds: "0 \<le> n \<Longrightarrow> n \<le> m \<Longrightarrow> 0 \<le> share n m \<and> share n m \<le> 1"
  by (simp add: share_def)

lemma share_sum: "share a m + share b m = share (a + b) m"
  by (simp add: share_def add_divide_distrib)

text \<open>The report adds up. Whatever the log holds, the slippage cost is the sum over the strategies and over the
  underlyings; the filled and cancelled shares, and the filled and partially filled ones, are at most the
  whole; and no more orders are rejected than there are.\<close>

lemma quality_report_adds_up:
  "sum_list (map snd (qr_by_strategy (compute_execution_quality now es))) = qr_slippage_cost (compute_execution_quality now es)
   \<and> sum_list (map snd (qr_by_underlying (compute_execution_quality now es))) = qr_slippage_cost (compute_execution_quality now es)
   \<and> 0 \<le> qr_fill_rate (compute_execution_quality now es) \<and> 0 \<le> qr_cancel_rate (compute_execution_quality now es)
   \<and> 0 \<le> qr_partial_rate (compute_execution_quality now es)
   \<and> qr_fill_rate (compute_execution_quality now es) + qr_cancel_rate (compute_execution_quality now es) \<le> 1
   \<and> qr_fill_rate (compute_execution_quality now es) + qr_partial_rate (compute_execution_quality now es) \<le> 1
   \<and> 0 \<le> qr_rejections (compute_execution_quality now es)
   \<and> qr_rejections (compute_execution_quality now es) \<le> qr_total (compute_execution_quality now es)"
proof -
  let ?q = "fold read_event es new_quality_log"
  let ?n = "int (length (ql_statuses ?q))"
  have fc: "share (count_status {''FILLED''} ?q) ?n + share (count_status {''CANCELLED''} ?q) ?n \<le> 1"
    using share_bounds [OF count_status_le] by (simp add: share_sum count_status_add)
  have fp: "share (count_status {''FILLED''} ?q) ?n + share (count_partial ?q) ?n \<le> 1"
    using count_partial_le [of ?q] count_status_le [of "{''FILLED''}" ?q]
    by (simp add: share_sum add.commute share_bounds)
  have p: "0 \<le> share (count_partial ?q) ?n" using count_partial_le(1) [of ?q] by (simp add: share_def)
  from slippage_of_ok [of now ?q] fc fp p show ?thesis
    by (simp add: compute_execution_quality_def Let_def totals_ok_def count_status_le share_bounds)
qed

section \<open>Examples\<close>

text \<open>One contract bought at 2 and sold at 3, as both brokers' flow logs it.\<close>

definition round_trip :: "(instant \<times> fill_event) list" where
  "round_trip = [(1, sample_fill BUY 1 2), (2, sample_fill SELL 1 3)]"

definition trip_events :: "quality_event list" where
  "trip_events = normalize_events (concat (map fill_entries round_trip))"

lemma round_trip_flat: "held_value ''s'' ''XSP'' (fst (fold fifo_event trip_events ([], []))) = 0"
  by code_simp

theorem fills_counted_twice_witness:
  "pnl_of (compute_realized_pnl trip_events) ''s'' ''XSP'' = 2 \<and> fills_cash ''s'' ''XSP'' round_trip = 1"
proof -
  have v: "\<forall>x\<in>set round_trip. valid_fill (snd x)" by code_simp
  have c: "fills_cash ''s'' ''XSP'' round_trip = 1" by code_simp
  obtain stock t where f: "fold fifo_event trip_events ([], []) = (stock, t)" by (metis surj_pair)
  then have "held_value ''s'' ''XSP'' stock = 0" using round_trip_flat by simp
  from fills_counted_twice [OF v f [unfolded trip_events_def] this] c show ?thesis by (simp add: trip_events_def)
qed

text \<open>Bought at 2, then at 3, and one sold at 5: the profit is that of the first.\<close>

definition two_lots :: "quality_event list" where
  "two_lots = map (\<lambda>x. normalize_event (logged_fill ''fill_received'' x))
     [(1, sample_fill BUY 1 2), (2, sample_fill BUY 1 3), (3, sample_fill SELL 1 5)]"

theorem profit_first_in_first_out_witness:
  "pnl_of (compute_realized_pnl two_lots) ''s'' ''XSP'' = 3"
proof -
  have n: "\<forall>e\<in>set two_lots. no_negative_fill e" by code_simp
  have "contract_profit ''s'' ''XSP'' (\<lambda>k. []) (logged_contracts two_lots) = 3" by code_simp
  with profit_first_in_first_out [OF n] show ?thesis by simp
qed

end
