(* ===== verification/Reports.thy ===== *)
theory Reports
  imports Execution_Quality
begin

text \<open>
  \<^verbatim>\<open>src/analytics/reports.py\<close>: the plain-text report of the day, as the list of its lines, each kept as an
  unrendered f-string. The metrics are those of \<open>compute_execution_quality\<close>, where every key is present.
\<close>

definition rule_line :: "char \<Rightarrow> fstr" where
  "rule_line c = lit (replicate 60 c)"

definition general_lines :: "quality_report \<Rightarrow> fstr list" where
  "general_lines m =
     [Fstr ''Total Orders Submitted : {}'' [FInt (qr_total m)],
      Fstr ''Fill Rate              : {:.2f}%'' [FFloat (qr_fill_rate m * 100)],
      Fstr ''Cancel Rate            : {:.2f}%'' [FFloat (qr_cancel_rate m * 100)],
      Fstr ''Partial Fill Rate      : {:.2f}%'' [FFloat (qr_partial_rate m * 100)],
      Fstr ''Rejection Count        : {}'' [FInt (qr_rejections m)],
      Fstr ''Avg Time to Fill       : {:.2f}s'' [FFloat (qr_avg_time_to_fill m)],
      Fstr ''Avg Slippage           : ${:.4f}'' [FFloat (qr_avg_slippage m)],
      Fstr ''Total Slippage Cost    : ${:.2f}'' [FFloat (qr_slippage_cost m)],
      lit []]"

definition cost_lines :: "string \<Rightarrow> (string, pyfloat) pydict \<Rightarrow> fstr list" where
  "cost_lines title costs = [rule_line CHR ''-'', lit title, rule_line CHR ''-'']
     @ (if costs = [] then [lit '' (No slippage costs recorded)'']
        else map (\<lambda>(k, cost). Fstr '' - {:<30} : ${:.2f}'' [FStr k, FFloat cost]) costs)
     @ [lit []]"

definition strategy_lines :: "string \<times> (string, pyfloat) pydict \<Rightarrow> fstr list" where
  "strategy_lines x = (case x of (strat, underlyings) \<Rightarrow>
     Fstr '' Strategy: {}'' [FStr strat]
     # map (\<lambda>(symbol, pnl). Fstr ''   - {:<28} : ${:.2f}'' [FStr symbol, FFloat pnl]) underlyings)"

definition total_pnl :: "pnl_table \<Rightarrow> pyfloat" where
  "total_pnl t = fold (\<lambda>(strat, underlyings) total. fold (\<lambda>(symbol, pnl) total. total + pnl) underlyings total) t 0"

definition pnl_lines :: "pnl_table \<Rightarrow> fstr list" where
  "pnl_lines t = [rule_line CHR ''='', lit '' Realized PnL (FIFO)'', rule_line CHR ''='']
     @ (if t = [] then [lit '' (No realized PnL recorded)'']
        else concat (map strategy_lines t)
          @ [rule_line CHR ''-'', Fstr '' Total Realized PnL            : ${:.2f}'' [FFloat (total_pnl t)]])"

definition generate_text_report :: "quality_report \<Rightarrow> pnl_table \<Rightarrow> fstr list" where
  "generate_text_report m t =
     [rule_line CHR ''='', lit ''            SYSTEM EXECUTION QUALITY & PNL REPORT'', rule_line CHR ''='']
     @ general_lines m
     @ cost_lines '' Slippage Cost by Strategy'' (qr_by_strategy m)
     @ cost_lines '' Slippage Cost by Underlying Symbol'' (qr_by_underlying m)
     @ pnl_lines t @ [rule_line CHR ''='']"

section \<open>The total\<close>

definition shown_amount :: "fstr \<Rightarrow> pyfloat list" where
  "shown_amount l = (case l of Fstr t args \<Rightarrow>
     if t = ''   - {:<28} : ${:.2f}'' then (case args of [_, FFloat x] \<Rightarrow> [x] | _ \<Rightarrow> []) else [])"

text \<open>The total line of the report is the sum of the amounts on the lines above it, and so the
  sum of the whole table of realised profits.\<close>

lemma total_pnl_sum: "total_pnl t = sum_list (map (\<lambda>(s, us). sum_list (map snd us)) t)"
proof -
  have inner: "fold (\<lambda>(symbol, pnl) total. total + pnl) us x = x + sum_list (map snd us)" for us :: "(string, pyfloat) pydict" and x
    by (induction us arbitrary: x) (auto simp: algebra_simps)
  have "fold (\<lambda>(s, us) total. fold (\<lambda>(symbol, pnl) total. total + pnl) us total) t x
      = x + sum_list (map (\<lambda>(s, us). sum_list (map snd us)) t)" for x
    by (induction t arbitrary: x) (auto simp: inner)
  from this [of 0] show ?thesis by (simp add: total_pnl_def)
qed

lemma strategy_line_amounts: "concat (map shown_amount (strategy_lines x)) = map snd (snd x)"
proof -
  have "concat (map shown_amount (map (\<lambda>(symbol, pnl). Fstr ''   - {:<28} : ${:.2f}'' [FStr symbol, FFloat pnl]) us)) = map snd us"
    for us :: "(string, pyfloat) pydict"
    by (induction us) (auto simp: shown_amount_def)
  then show ?thesis by (simp add: strategy_lines_def shown_amount_def split: prod.split)
qed

lemma report_total_adds_up:
  assumes "t \<noteq> []"
  shows "Fstr '' Total Realized PnL            : ${:.2f}'' [FFloat (sum_list (concat (map shown_amount (concat (map strategy_lines t)))))]
    \<in> set (generate_text_report m t)"
proof -
  have "concat (map shown_amount (concat (map strategy_lines t))) = concat (map (\<lambda>x. map snd (snd x)) t)"
    by (induction t) (simp_all add: strategy_line_amounts)
  moreover have "sum_list (concat (map (\<lambda>x. map snd (snd x)) t)) = total_pnl t"
    unfolding total_pnl_sum by (induction t) (auto simp: split_beta)
  ultimately show ?thesis using assms by (simp add: generate_text_report_def pnl_lines_def)
qed

end
