(* ===== verification/Shadow_Replay.thy ===== *)
theory Shadow_Replay
  imports Breakout
begin

text \<open>
  \<^verbatim>\<open>src/replay/shadow.py\<close>: replaying the recorded bars of a day through the rules of the backtest, and the
  differences to the fills. Minutes are New York wall clock readings in microseconds. Reading the two
  inputs and writing the report are input and output; the order and the grouping of the bars they give
  are here.
\<close>

section \<open>Bars\<close>

record replay_bar =
  rb_symbol :: string
  rb_minute :: int
  rb_open :: pyfloat
  rb_high :: pyfloat
  rb_low :: pyfloat
  rb_close :: pyfloat

definition bar_time :: "replay_bar \<Rightarrow> int" where
  "bar_time b = rb_minute b mod us_per_day"

text \<open>The lines that parse, grouped by symbol, each group in the order of the minutes.\<close>

definition load_bars :: "replay_bar list \<Rightarrow> (string, replay_bar list) pydict" where
  "load_bars lines = map (\<lambda>(k, bs). (k, sort_key rb_minute bs))
     (fold (\<lambda>b d. AList.update (rb_symbol b) (dict_default d (rb_symbol b) [] @ [b]) d) lines [])"

datatype exit_reason = StopLoss | TimeExit | EndOfData

record replay_trade =
  rt_strategy :: string
  rt_symbol :: "string option" \<comment> \<open>\<open>None\<close> when no recorded symbol matches\<close>
  rt_signal :: int
  rt_entry :: "pyfloat option"
  rt_exit_minute :: "int option"
  rt_exit :: "pyfloat option"
  rt_reason :: "exit_reason option"

definition exit_long :: int where
  "exit_long = (15 * 60 + 20) * us_per_minute"

definition exit_short :: int where
  "exit_short = (15 * 60 + 30) * us_per_minute"

section \<open>Which recorded symbol is the contract\<close>

text \<open>The strike is a whole number, so its one-decimal text is the number and \<open>.0\<close>.\<close>

definition symbol_matches :: "string \<Rightarrow> int \<Rightarrow> char \<Rightarrow> bool" where
  "symbol_matches symbol strike r =
     (let s = filter (\<lambda>c. c \<noteq> CHR '' '') (map upper_char symbol); n = int_text strike; f = n @ ''.0''
      in list_ex (\<lambda>x. occurs_in x s) [n @ [r], r # n, f @ [r], r # f, r # ''00'' @ n @ ''000'']
         \<or> occurs_in n s \<and> r \<in> set (drop (length s - 12) s))"

definition right_letter :: "option_right \<Rightarrow> char" where
  "right_letter r = (case r of CALL \<Rightarrow> CHR ''C'' | PUT \<Rightarrow> CHR ''P'')"

section \<open>The breakout\<close>

definition reference_close :: "replay_bar list \<Rightarrow> pyfloat option" where
  "reference_close bs = (case find (\<lambda>b. bar_time b = (9 * 60 + 30) * us_per_minute) bs of
       Some b \<Rightarrow> Some (rb_close b)
     | None \<Rightarrow> (case bs of [] \<Rightarrow> None | b # _ \<Rightarrow> Some (rb_close b)))"

fun replay_signal :: "pyfloat \<Rightarrow> int \<Rightarrow> pyfloat \<Rightarrow> replay_bar list \<Rightarrow> py_error + (replay_bar \<times> option_right) option" where
  "replay_signal ref scan trigger [] = Inr None"
| "replay_signal ref scan trigger (b # bs) =
     (if bar_time b < scan then replay_signal ref scan trigger bs
      else if ref = 0 then Inl (Zero_Division_Error ''float division by zero'')
      else if trigger \<le> (rb_close b - ref) / ref then Inr (Some (b, CALL))
      else if (rb_close b - ref) / ref \<le> - trigger then Inr (Some (b, PUT))
      else replay_signal ref scan trigger bs)"

text \<open>The exit of a trade over its bars; \<open>crossed\<close> is the stop on a bar.\<close>

fun first_exit :: "(replay_bar \<Rightarrow> bool) \<Rightarrow> pyfloat \<Rightarrow> int \<Rightarrow> replay_bar list \<Rightarrow> (int \<times> pyfloat \<times> exit_reason) option" where
  "first_exit crossed stop cutoff [] = None"
| "first_exit crossed stop cutoff (b # bs) =
     (if crossed b then Some (rb_minute b, stop, StopLoss)
      else if cutoff \<le> bar_time b then Some (rb_minute b, rb_close b, TimeExit)
      else first_exit crossed stop cutoff bs)"

definition end_of_data :: "replay_bar list \<Rightarrow> (int \<times> pyfloat \<times> exit_reason) option" where
  "end_of_data bs = (if bs = [] then None else Some (rb_minute (last bs), rb_close (last bs), EndOfData))"

definition recorded_option :: "(string, replay_bar list) pydict \<Rightarrow> pyfloat \<Rightarrow> option_right \<Rightarrow> (string \<times> replay_bar list) option" where
  "recorded_option options price right = find (\<lambda>(nm, bs). symbol_matches nm (round_half_even price) (right_letter right)) options"

text \<open>Entry and exit of a trade over the option's bars from the signal's minute on.\<close>

definition replay_fills :: "pyfloat \<Rightarrow> replay_bar list \<Rightarrow> replay_trade \<Rightarrow> replay_trade" where
  "replay_fills stop_pct after trade = (case after of
       [] \<Rightarrow> trade
     | a # _ \<Rightarrow>
         let stop = rb_open a * (1 - stop_pct)
         in case the (case first_exit (\<lambda>x. rb_low x \<le> stop) stop exit_long after of None \<Rightarrow> end_of_data after | e \<Rightarrow> e) of
              (m, x, reason) \<Rightarrow>
                trade\<lparr>rt_entry := Some (rb_open a), rt_exit_minute := Some m, rt_exit := Some x, rt_reason := Some reason\<rparr>)"

definition replay_trade_of :: "(string, replay_bar list) pydict \<Rightarrow> string \<Rightarrow> pyfloat \<Rightarrow> replay_bar \<times> option_right \<Rightarrow> replay_trade" where
  "replay_trade_of options sid stop_pct sig = (case sig of (b, right) \<Rightarrow>
     let opt = recorded_option options (rb_close b) right;
         after = (case opt of None \<Rightarrow> [] | Some (nm, bs) \<Rightarrow> filter (\<lambda>x. rb_minute b \<le> rb_minute x) bs)
     in replay_fills stop_pct after \<lparr>rt_strategy = sid, rt_symbol = map_option fst opt, rt_signal = rb_minute b,
          rt_entry = None, rt_exit_minute = None, rt_exit = None, rt_reason = None\<rparr>)"

definition replay_breakout ::
  "replay_bar list \<Rightarrow> (string, replay_bar list) pydict \<Rightarrow> string \<Rightarrow> int \<times> int \<Rightarrow> pyfloat \<Rightarrow> pyfloat
     \<Rightarrow> py_error + replay_trade option" where
  "replay_breakout bars options sid t trigger stop_pct = (case reference_close bars of
       None \<Rightarrow> Inr None
     | Some ref \<Rightarrow> try_bind (replace_time 0 t) (\<lambda>scan. try_bind (replay_signal ref scan trigger bars) (\<lambda>sig.
         Inr (map_option (replay_trade_of options sid stop_pct) sig))))"

section \<open>A leg of a straddle\<close>

definition replay_short_leg_exit :: "replay_bar list \<Rightarrow> pyfloat \<Rightarrow> int \<Rightarrow> pyfloat \<Rightarrow> (int \<times> pyfloat \<times> exit_reason) option" where
  "replay_short_leg_exit bs entry minute stop_pct = (let stop = entry * (1 + stop_pct)
     in case first_exit (\<lambda>x. stop \<le> rb_high x) stop exit_short (filter (\<lambda>x. minute \<le> rb_minute x) bs) of
          None \<Rightarrow> end_of_data bs | e \<Rightarrow> e)"

section \<open>Differences to the fills\<close>

record actual_fill =
  af_is_entry :: bool
  af_strategy :: string
  af_price :: pyfloat
  af_time :: int

datatype cell = Cell_Price "pyfloat option" | Cell_Time int | Cell_Minute "int option" | Cell_Reason "exit_reason option" | Cell_Missing

record trade_diff =
  td_strategy :: string
  td_symbol :: "string option"
  td_field :: string
  td_replay :: cell
  td_actual :: cell
  td_delta :: "pyfloat option"

definition diff_row :: "replay_trade \<Rightarrow> string \<Rightarrow> cell \<Rightarrow> cell \<Rightarrow> pyfloat option \<Rightarrow> trade_diff" where
  "diff_row t fld replayed actual delta = \<lparr>td_strategy = rt_strategy t, td_symbol = rt_symbol t, td_field = fld,
     td_replay = replayed, td_actual = actual, td_delta = delta\<rparr>"

definition diff_trades :: "replay_trade \<Rightarrow> actual_fill list \<Rightarrow> trade_diff list" where
  "diff_trades t fills =
     (let entries = filter (\<lambda>f. af_is_entry f \<and> af_strategy f = rt_strategy t) fills;
          exits = filter (\<lambda>f. \<not> af_is_entry f \<and> af_strategy f = rt_strategy t) fills
      in (case (rt_entry t, entries) of
            (Some x, f # _) \<Rightarrow>
              [diff_row t ''entry_price'' (Cell_Price (Some x)) (Cell_Price (Some (af_price f))) (Some (py_round 4 (af_price f - x))),
               diff_row t ''entry_time'' (Cell_Minute (Some (rt_signal t))) (Cell_Time (af_time f)) None]
          | _ \<Rightarrow> [])
         @ (if rt_exit t \<noteq> None \<and> exits \<noteq> [] then
              let x = the (rt_exit t); f = last exits
              in [diff_row t ''exit_price'' (Cell_Price (Some x)) (Cell_Price (Some (af_price f))) (Some (py_round 4 (af_price f - x))),
                  diff_row t ''exit_time'' (Cell_Minute (rt_exit_minute t)) (Cell_Time (af_time f)) None,
                  diff_row t ''exit_reason'' (Cell_Reason (rt_reason t)) Cell_Missing None]
            else []))"

section \<open>The trade of a replay\<close>











section \<open>Examples\<close>

definition replay_bar_at :: "string \<Rightarrow> int \<Rightarrow> pyfloat \<Rightarrow> pyfloat \<Rightarrow> replay_bar" where
  "replay_bar_at nm minute first close = \<lparr>rb_symbol = nm, rb_minute = minute * us_per_minute, rb_open = first,
     rb_high = max first close, rb_low = min first close, rb_close = close\<rparr>"

text \<open>The underlying at 9:30, 9:59 and 10:00; the call on the strike 505 at 10:00 and 10:01.\<close>

definition replay_day :: "replay_bar list" where
  "replay_day = [replay_bar_at ''XSP'' 570 500 500, replay_bar_at ''XSP'' 599 500 501, replay_bar_at ''XSP'' 600 501 505]"

definition replay_options :: "(string, replay_bar list) pydict" where
  "replay_options = load_bars [replay_bar_at ''XSP250110C00505000'' 601 7 8, replay_bar_at ''XSP250110C00505000'' 600 5 6]"

definition replayed :: replay_trade where
  "replayed = \<lparr>rt_strategy = ''xsp_0dte_1000'', rt_symbol = Some ''XSP250110C00505000'', rt_signal = 600 * us_per_minute,
     rt_entry = Some 5, rt_exit_minute = Some (601 * us_per_minute), rt_exit = Some 8, rt_reason = Some EndOfData\<rparr>"

lemma replay_of_day: "replay_breakout replay_day replay_options ''xsp_0dte_1000'' (10, 0) (1/200) (1/2) = Inr (Some replayed)"
  by code_simp


text \<open>The entry is at the open of the minute whose close gives the signal, before the signal is known; the
  documentation has it on the bar after.\<close>

lemma replay_enters_before_signal:
  "\<exists>tr. replay_breakout replay_day replay_options ''xsp_0dte_1000'' (10, 0) (1/200) (1/2) = Inr (Some tr)
    \<and> rt_signal tr = rb_minute (replay_bar_at ''XSP250110C00505000'' 600 5 6)
    \<and> rt_entry tr = Some (rb_open (replay_bar_at ''XSP250110C00505000'' 600 5 6))"
  using replay_of_day by (simp add: replay_bar_at_def replayed_def)

text \<open>The digits of an expiry pass for a strike: a call of 11 June 2026 on the strike 730 matches the strike 611.\<close>

lemma expiry_matches_as_strike: "symbol_matches ''XSP260611C00730000'' 611 (CHR ''C'')"
  by code_simp

text \<open>A leg without a bar after its entry is given an exit before its entry.\<close>

lemma leg_exits_before_entry:
  "replay_short_leg_exit [replay_bar_at ''leg'' 571 3 3] 3 (580 * us_per_minute) (1/2) = Some (571 * us_per_minute, 3, EndOfData)"
  by (simp add: replay_short_leg_exit_def replay_bar_at_def end_of_data_def us_per_minute_def)

end
