(* ===== verification/Ibkr_Contracts.thy ===== *)
theory Ibkr_Contracts
  imports Calendar
begin

text \<open>
  The contract conversions of \<^verbatim>\<open>src/broker/ibkr_broker.py\<close>: from the internal contract to the one of
  the broker's library and back, and from the text of a quote symbol. \<open>Option\<close>, \<open>Index\<close> and \<open>Stock\<close>
  of that library are records with the fields the code reads; \<open>secType\<close> is what their constructors set.
  A quote symbol is a text here: \<open>symbol_text\<close> is the f-string of \<open>to_quote_symbol\<close>, with the number
  written as Python writes it (an \<open>int\<close>, or the decimals of a \<open>float\<close> of at least \<open>1e-4\<close> and below
  \<open>1e16\<close>), and \<open>py_float\<close> is \<open>float(s)\<close>; the words it accepts for infinity and NaN have no rational
  value and are refused.
\<close>

section \<open>Numbers as text\<close>

text \<open>The decimals of a number in the unit interval, at most \<open>n\<close> of them.\<close>

fun fraction_text :: "nat \<Rightarrow> pyfloat \<Rightarrow> string" where
  "fraction_text 0 f = []"
| "fraction_text (Suc n) f =
     (if f = 0 then [] else digit_char \<lfloor>10 * f\<rfloor> # fraction_text n (10 * f - of_int \<lfloor>10 * f\<rfloor>))"

definition strike_text :: "pyfloat \<Rightarrow> string" where
  "strike_text x = (if of_int \<lfloor>x\<rfloor> = x then int_text \<lfloor>x\<rfloor>
     else int_text \<lfloor>x\<rfloor> @ CHR ''.'' # fraction_text 17 (x - of_int \<lfloor>x\<rfloor>))"

text \<open>The digits before or after a decimal point: their value and their number.\<close>

definition digits_part :: "string \<Rightarrow> (int \<times> nat) option" where
  "digits_part s = (if s = [] then Some (0, 0)
     else map_option (\<lambda>v. (v, length (filter is_digit_char s))) (parse_unsigned s))"

definition parse_mantissa :: "string \<Rightarrow> pyfloat option" where
  "parse_mantissa s = (case py_split CHR ''.'' s of
       [a] \<Rightarrow> map_option of_int (parse_unsigned a)
     | [a, b] \<Rightarrow> (case (digits_part a, digits_part b) of
           (Some (v, m), Some (w, n)) \<Rightarrow> if m = 0 \<and> n = 0 then None else Some (of_int v + of_int w / 10 ^ n)
         | _ \<Rightarrow> None)
     | _ \<Rightarrow> None)"

text \<open>The digits of an exponent take no white space, unlike \<open>int(s)\<close>.\<close>

definition parse_exponent :: "string \<Rightarrow> int option" where
  "parse_exponent s = (case s of [] \<Rightarrow> None
     | c # cs \<Rightarrow> if c = CHR ''-'' then map_option uminus (parse_unsigned cs)
                else if c = CHR ''+'' then parse_unsigned cs else parse_unsigned s)"

definition parse_number :: "string \<Rightarrow> pyfloat option" where
  "parse_number s = (case py_split CHR ''E'' (py_upper s) of
       [m] \<Rightarrow> parse_mantissa m
     | [m, e] \<Rightarrow> (case (parse_mantissa m, parse_exponent e) of
           (Some x, Some k) \<Rightarrow> Some (if 0 \<le> k then x * 10 ^ nat k else x / 10 ^ nat (- k))
         | _ \<Rightarrow> None)
     | _ \<Rightarrow> None)"

definition py_float :: "string \<Rightarrow> pyfloat option" where
  "py_float s = (case py_strip s of [] \<Rightarrow> None
     | c # cs \<Rightarrow> if c = CHR ''-'' then map_option uminus (parse_number cs)
                else if c = CHR ''+'' then parse_number cs else parse_number (c # cs))"

section \<open>Contracts of the library\<close>

record ib_contract =
  ic_sec_type :: string
  ic_symbol :: string
  ic_expiry :: string \<comment> \<open>\<open>lastTradeDateOrContractMonth\<close>\<close>
  ic_strike :: pyfloat
  ic_right :: string
  ic_exchange :: string
  ic_currency :: string

definition ib_option :: "string \<Rightarrow> string \<Rightarrow> pyfloat \<Rightarrow> string \<Rightarrow> ib_contract" where
  "ib_option s e k r = \<lparr>ic_sec_type = ''OPT'', ic_symbol = s, ic_expiry = e, ic_strike = k, ic_right = r,
     ic_exchange = ''SMART'', ic_currency = ''USD''\<rparr>"

definition ib_index :: "string \<Rightarrow> ib_contract" where
  "ib_index s = \<lparr>ic_sec_type = ''IND'', ic_symbol = s, ic_expiry = [], ic_strike = 0, ic_right = [],
     ic_exchange = ''CBOE'', ic_currency = ''USD''\<rparr>"

definition ib_stock :: "string \<Rightarrow> ib_contract" where
  "ib_stock s = \<lparr>ic_sec_type = ''STK'', ic_symbol = s, ic_expiry = [], ic_strike = 0, ic_right = [],
     ic_exchange = ''SMART'', ic_currency = ''USD''\<rparr>"

definition right_char :: "option_right \<Rightarrow> string" where
  "right_char r = (case r of CALL \<Rightarrow> ''C'' | PUT \<Rightarrow> ''P'')"

definition to_ib_contract :: "option_contract \<Rightarrow> ib_contract" where
  "to_ib_contract c = ib_option (oc_symbol c) (oc_expiry c) (oc_strike c) (right_char (oc_right c))"

definition starts_with :: "string \<Rightarrow> string \<Rightarrow> bool" where
  "starts_with p s \<longleftrightarrow> take (length p) s = p"

text \<open>The constructor of \<open>OptionContract\<close> validates; the multiplier is its default.\<close>

definition from_ib_contract :: "ib_contract \<Rightarrow> py_error + option_contract" where
  "from_ib_contract i =
     (let c = \<lparr>oc_symbol = ic_symbol i, oc_expiry = ic_expiry i, oc_strike = ic_strike i,
               oc_right = (if starts_with ''C'' (py_upper (ic_right i)) then CALL else PUT), oc_multiplier = 100\<rparr>
      in if valid_contract c then Inr c else Inl (Validation_Error ''OptionContract''))"

definition internal_symbol :: "ib_contract \<Rightarrow> quote_key" where
  "internal_symbol i =
     (if ic_sec_type i = ''OPT'' then (case from_ib_contract i of Inr c \<Rightarrow> to_quote_symbol c | Inl _ \<Rightarrow> Symbol_Key (ic_symbol i))
      else Symbol_Key (ic_symbol i))"

fun symbol_text :: "quote_key \<Rightarrow> string" where
  "symbol_text (Symbol_Key s) = s"
| "symbol_text (Option_Key s e k r) = s @ '' '' @ e @ '' '' @ strike_text k @ '' '' @ right_char r"

definition parse_symbol_to_ib_contract :: "string \<Rightarrow> ib_contract" where
  "parse_symbol_to_ib_contract s =
     (case py_words s of
        underlying # expiry # p2 # p3 # rest \<Rightarrow>
          (let right = (\<lambda>r. if starts_with ''C'' (py_upper r) then ''C'' else ''P'')
           in case py_float p2 of Some k \<Rightarrow> ib_option underlying expiry k (right p3)
              | None \<Rightarrow> (case py_float p3 of Some k \<Rightarrow> ib_option underlying expiry k (right p2)
                  | None \<Rightarrow> ib_stock s))
      | _ \<Rightarrow> if py_upper s \<in> {''SPX'', ''NDX'', ''RUT'', ''XSP''} then ib_index s else ib_stock s)"

definition contract_of_symbol :: "quote_key \<Rightarrow> ib_contract" where
  "contract_of_symbol k = parse_symbol_to_ib_contract (symbol_text k)"

section \<open>Lemmas\<close>

definition spaceless :: "string \<Rightarrow> bool" where
  "spaceless s \<longleftrightarrow> s \<noteq> [] \<and> list_all (\<lambda>c. \<not> is_space_char c) s"

lemma py_words_one: "spaceless w \<Longrightarrow> py_words w = [w]"
proof (induction w)
  case (Cons c w)
  then show ?case by (cases w) (simp_all add: spaceless_def)
qed (simp add: spaceless_def)

lemma py_words_cons: "spaceless w \<Longrightarrow> py_words (w @ CHR '' '' # s) = w # py_words s"
proof (induction w)
  case (Cons c w)
  show ?case
  proof (cases w)
    case Nil
    with Cons.prems show ?thesis by (simp add: spaceless_def) (simp add: is_space_char_def)
  next
    case (Cons d ds)
    then show ?thesis using Cons.prems Cons.IH by (simp add: spaceless_def)
  qed
qed (simp add: spaceless_def)

text \<open>Digits written one after the other read back as their value.\<close>

definition digit_string :: "string \<Rightarrow> bool" where
  "digit_string s \<longleftrightarrow> s \<noteq> [] \<and> list_all is_digit_char s"

lemma parse_digits_snoc:
  "list_all is_digit_char s \<Longrightarrow> parse_digits acc s = Some v \<Longrightarrow> is_digit_char c
   \<Longrightarrow> parse_digits acc (s @ [c]) = Some (10 * v + digit_value c)"
  by (induction s arbitrary: acc) auto

lemma parse_unsigned_snoc:
  "digit_string s \<Longrightarrow> parse_unsigned s = Some v \<Longrightarrow> is_digit_char c
   \<Longrightarrow> parse_unsigned (s @ [c]) = Some (10 * v + digit_value c)"
  by (cases s) (auto simp: digit_string_def parse_unsigned_def parse_digits_snoc)

lemma nat_text_parse: "digit_string (nat_text n) \<and> parse_unsigned (nat_text n) = Some (int n)"
proof (induction n rule: nat_text.induct)
  case (1 n)
  show ?case
  proof (cases "n < 10")
    case True
    then show ?thesis using digit_char_props [of "int n"]
      by (simp add: nat_text.simps [of n] digit_string_def parse_unsigned_def)
  next
    case False
    then have "digit_string (nat_text (n div 10))" "parse_unsigned (nat_text (n div 10)) = Some (int (n div 10))"
      using 1 by auto
    moreover have "is_digit_char (digit_char (int (n mod 10)))" "digit_value (digit_char (int (n mod 10))) = int (n mod 10)"
      using digit_char_props [of "int (n mod 10)"] by auto
    moreover have "10 * int (n div 10) + int (n mod 10) = int n" by presburger
    ultimately show ?thesis using False parse_unsigned_snoc [of "nat_text (n div 10)" "int (n div 10)"]
      by (simp add: nat_text.simps [of n] digit_string_def)
  qed
qed


lemma digit_char_range: "is_digit_char c \<longleftrightarrow> 48 \<le> (of_char c :: nat) \<and> (of_char c :: nat) \<le> 57"
proof
  assume "is_digit_char c"
  then show "48 \<le> (of_char c :: nat) \<and> (of_char c :: nat) \<le> 57" by (auto simp: is_digit_char_def)
next
  assume c: "48 \<le> (of_char c :: nat) \<and> (of_char c :: nat) \<le> 57"
  have "is_digit_char (char_of (of_char c :: nat))"
    using digit_char_props(1) [of "int (of_char c) - 48"] c by (simp add: digit_char_def nat_diff_distrib)
  then show "is_digit_char c" by simp
qed

lemma digit_not_special:
  assumes "is_digit_char c"
  shows "\<not> is_space_char c" "upper_char c = c" "c \<noteq> CHR ''.''" "c \<noteq> CHR ''E''" "c \<noteq> CHR ''-''" "c \<noteq> CHR ''+''"
  using assms by (auto simp: digit_char_range is_space_char_def upper_char_def Let_def)

lemma not_digit [simp]: "\<not> is_digit_char CHR ''.''" "\<not> is_digit_char CHR ''E''" "\<not> is_digit_char CHR ''-''" "\<not> is_digit_char CHR ''+''"
  by (simp_all add: is_digit_char_def)

lemma parse_unsigned_digits: "digit_string s \<Longrightarrow> parse_unsigned s = parse_digits 0 s"
  by (cases s) (auto simp: digit_string_def parse_unsigned_def)

lemma fraction_digits: "0 \<le> f \<Longrightarrow> f < 1 \<Longrightarrow> list_all is_digit_char (fraction_text n f)"
proof (induction n arbitrary: f)
  case (Suc n)
  have "0 \<le> \<lfloor>10 * f\<rfloor>" "\<lfloor>10 * f\<rfloor> < 10" using Suc.prems by (simp_all add: floor_less_iff)
  moreover have "0 \<le> 10 * f - of_int \<lfloor>10 * f\<rfloor>" "10 * f - of_int \<lfloor>10 * f\<rfloor> < 1" by (simp, linarith)
  ultimately show ?case using Suc.IH by (simp add: digit_char_props)
qed simp

lemma fraction_nonempty: "f \<noteq> 0 \<Longrightarrow> 0 < n \<Longrightarrow> fraction_text n f \<noteq> []"
  by (cases n) simp_all

lemma fraction_value:
  assumes "0 \<le> f" "f < 1" "f * 10 ^ n = of_int k"
  shows "\<exists>v. parse_digits acc (fraction_text n f) = Some v
    \<and> of_int v = (of_int acc + f) * 10 ^ length (fraction_text n f)"
  using assms
proof (induction n arbitrary: f k acc)
  case (Suc n)
  define d where "d = \<lfloor>10 * f\<rfloor>"
  define g where "g = 10 * f - of_int d"
  show ?case
  proof (cases "f = 0")
    case False
    have d: "0 \<le> d" "d < 10" using Suc.prems by (simp_all add: d_def floor_less_iff)
    have g: "0 \<le> g" "g < 1" by (simp_all add: g_def d_def) linarith
    have "g * 10 ^ n = of_int (k - d * 10 ^ n)"
      using Suc.prems(3) by (simp add: g_def algebra_simps)
    from Suc.IH [OF g this, of "10 * acc + d"] obtain v where
      v: "parse_digits (10 * acc + d) (fraction_text n g) = Some v"
        "of_int v = (of_int (10 * acc + d) + g) * 10 ^ length (fraction_text n g)" by blast
    have t: "fraction_text (Suc n) f = digit_char d # fraction_text n g"
      using False by (simp add: d_def g_def)
    have "of_int v = (of_int acc + f) * 10 ^ length (fraction_text (Suc n) f)"
      unfolding t v(2) by (simp add: g_def algebra_simps)
    with v(1) show ?thesis unfolding t using digit_char_props [OF d] by simp
  qed simp
qed (simp add: floor_eq_iff)

lemma py_split_cons: "sep \<notin> set s \<Longrightarrow> py_split sep (s @ sep # t) = s # py_split sep t"
  by (induction s) auto

lemma py_split_one: "sep \<notin> set s \<Longrightarrow> py_split sep s = [s]"
  by (induction s) auto

definition number_char :: "char \<Rightarrow> bool" where
  "number_char c \<longleftrightarrow> is_digit_char c \<or> c = CHR ''.''"

lemma number_char_props:
  "number_char c \<Longrightarrow> \<not> is_space_char c \<and> upper_char c = c \<and> c \<noteq> CHR ''E'' \<and> c \<noteq> CHR ''-'' \<and> c \<noteq> CHR ''+''"
  by (auto simp: number_char_def digit_not_special) (simp_all add: is_space_char_def upper_char_def)

lemma py_strip_spaceless: "spaceless s \<Longrightarrow> py_strip s = s"
proof -
  assume s: "spaceless s"
  have "dropWhile is_space_char t = t" if "list_all (\<lambda>c. \<not> is_space_char c) t" for t
    using that by (cases t) auto
  with s show ?thesis by (simp add: py_strip_def spaceless_def)
qed

lemma py_float_plain:
  assumes "list_all number_char s" "s \<noteq> []"
  shows "py_float s = parse_mantissa s"
proof -
  have n: "\<forall>c \<in> set s. \<not> is_space_char c \<and> upper_char c = c \<and> c \<noteq> CHR ''E'' \<and> c \<noteq> CHR ''-'' \<and> c \<noteq> CHR ''+''"
    using assms(1) number_char_props by (auto simp: list_all_iff)
  then have "py_strip s = s" using assms(2) by (intro py_strip_spaceless) (auto simp: spaceless_def list_all_iff)
  moreover have "py_upper s = s" using n by (simp add: py_upper_def map_idI)
  moreover have "py_split CHR ''E'' s = [s]" using n by (intro py_split_one) blast
  ultimately have p: "parse_number s = parse_mantissa s" "py_strip s = s" by (simp_all add: parse_number_def)
  obtain c cs where "s = c # cs" using assms(2) by (cases s) auto
  with p n show ?thesis by (simp add: py_float_def)
qed

text \<open>A positive number with at most seventeen decimals reads back as itself.\<close>

lemma strike_text_chars: "0 \<le> x \<Longrightarrow> list_all number_char (strike_text x) \<and> strike_text x \<noteq> []"
proof -
  assume x: "0 \<le> x"
  have "list_all is_digit_char (nat_text n) \<and> nat_text n \<noteq> []" for n
    using nat_text_parse [of n] by (simp add: digit_string_def)
  moreover have "list_all is_digit_char (fraction_text 17 (x - of_int \<lfloor>x\<rfloor>))"
    by (rule fraction_digits) (simp, linarith)
  ultimately show ?thesis using x
    by (auto simp: strike_text_def int_text_def number_char_def list_all_iff)
qed

lemma py_float_strike_text:
  assumes "0 \<le> x" "x * 10 ^ 17 = of_int k"
  shows "py_float (strike_text x) = Some x"
proof -
  define n where "n = nat \<lfloor>x\<rfloor>"
  have n: "int_text \<lfloor>x\<rfloor> = nat_text n" "of_int \<lfloor>x\<rfloor> = (of_nat n :: rat)" using assms(1) by (simp_all add: n_def int_text_def)
  have d: "digit_string (nat_text n)" "parse_unsigned (nat_text n) = Some (int n)" using nat_text_parse by auto
  then have nodot: "CHR ''.'' \<notin> set (nat_text n)" using digit_not_special by (auto simp: digit_string_def list_all_iff)
  have p: "py_float (strike_text x) = parse_mantissa (strike_text x)"
    using strike_text_chars [OF assms(1)] py_float_plain by blast
  show ?thesis
  proof (cases "of_int \<lfloor>x\<rfloor> = x")
    case True
    with n have "strike_text x = nat_text n" by (simp add: strike_text_def)
    with p d n True nodot show ?thesis by (simp add: parse_mantissa_def py_split_one)
  next
    case False
    define f where "f = x - of_int \<lfloor>x\<rfloor>"
    define t where "t = fraction_text 17 f"
    have f: "0 \<le> f" "f < 1" "f \<noteq> 0" using False by (simp_all add: f_def) linarith
    have "f * 10 ^ 17 = of_int (k - \<lfloor>x\<rfloor> * 10 ^ 17)" using assms(2) by (simp add: f_def algebra_simps)
    from fraction_value [OF f(1,2) this, of 0] obtain w where
      w: "parse_digits 0 t = Some w" "of_int w = f * 10 ^ length t" by (auto simp: t_def)
    have ds: "digit_string t" using fraction_digits [OF f(1,2)] f(3) fraction_nonempty [of f 17] by (simp add: t_def digit_string_def)
    then have nd: "CHR ''.'' \<notin> set t" using digit_not_special by (auto simp: digit_string_def list_all_iff)
    have len: "filter is_digit_char t = t" "filter is_digit_char (nat_text n) = nat_text n"
      using ds d by (auto simp: digit_string_def list_all_iff)
    have "strike_text x = nat_text n @ CHR ''.'' # t" using False n by (simp add: strike_text_def t_def f_def)
    then have "py_float (strike_text x) = Some (of_nat n + of_int w / 10 ^ length t)"
      using p d ds len parse_unsigned_digits [OF ds] w(1)
      by (simp add: parse_mantissa_def py_split_cons [OF nodot] py_split_one [OF nd] digits_part_def digit_string_def)
    then show ?thesis using w(2) n(2) by (simp add: f_def)
  qed
qed

lemma strike_text_spaceless: "0 \<le> x \<Longrightarrow> spaceless (strike_text x)"
  using strike_text_chars number_char_props by (fastforce simp: spaceless_def list_all_iff)

lemma right_char_props [simp]: "spaceless (right_char r)" "starts_with ''C'' (py_upper (right_char r)) \<longleftrightarrow> r = CALL"
  by (cases r; simp add: right_char_def spaceless_def is_space_char_def starts_with_def py_upper_def upper_char_def)+

lemma right_char_of_text: "(if starts_with ''C'' (py_upper (right_char r)) then ''C'' else ''P'') = right_char r"
  by (simp only: right_char_props) (cases r; simp add: right_char_def)

lemma contract_symbol_words:
  assumes "valid_contract c" "spaceless (oc_symbol c)"
  shows "py_words (symbol_text (to_quote_symbol c)) = [oc_symbol c, oc_expiry c, strike_text (oc_strike c), right_char (oc_right c)]"
proof -
  have "spaceless (oc_expiry c)"
    using assms(1) digit_not_special(1) by (auto simp: valid_contract_def spaceless_def list_all_iff)
  moreover have "spaceless (strike_text (oc_strike c))"
    using assms(1) by (intro strike_text_spaceless) (simp add: valid_contract_def)
  ultimately show ?thesis using assms(2)
    by (simp add: to_quote_symbol_def py_words_cons py_words_one)
qed

text \<open>C17: The three names of an option agree. For a valid contract whose underlying has no white space,
  with the standard multiplier and a strike of at most seventeen decimals, the quote symbol of the
  contract is resolved to exactly the contract orders are placed for, that one is converted back to the
  contract, and its streamed quotes are filed under its quote symbol.\<close>

theorem contract_names_agree:
  assumes "valid_contract c" "spaceless (oc_symbol c)" "oc_multiplier c = 100" "oc_strike c * 10 ^ 17 = of_int k"
  shows "contract_of_symbol (to_quote_symbol c) = to_ib_contract c
    \<and> from_ib_contract (to_ib_contract c) = Inr c \<and> internal_symbol (to_ib_contract c) = to_quote_symbol c"
proof -
  have "py_float (strike_text (oc_strike c)) = Some (oc_strike c)"
    using assms(1) by (intro py_float_strike_text [OF _ assms(4)]) (simp add: valid_contract_def)
  then have 1: "contract_of_symbol (to_quote_symbol c) = to_ib_contract c"
    by (simp add: contract_of_symbol_def parse_symbol_to_ib_contract_def contract_symbol_words [OF assms(1,2)]
      to_ib_contract_def Let_def right_char_of_text del: right_char_props)
  have "oc_right c = (if oc_right c = CALL then CALL else PUT)" by (cases "oc_right c") simp_all
  then have 2: "from_ib_contract (to_ib_contract c) = Inr c"
    using assms(1,3) by (simp add: from_ib_contract_def to_ib_contract_def ib_option_def Let_def valid_contract_def)
  then have "internal_symbol (to_ib_contract c) = to_quote_symbol c"
    by (simp add: internal_symbol_def to_ib_contract_def ib_option_def)
  with 1 2 show ?thesis by blast
qed

theorem contract_names_agree_witness:
  "let c = \<lparr>oc_symbol = ''XSP'', oc_expiry = ''20260617'', oc_strike = 7525/10, oc_right = PUT, oc_multiplier = 100\<rparr>
   in symbol_text (to_quote_symbol c) = ''XSP 20260617 752.5 P'' \<and> contract_of_symbol (to_quote_symbol c) = to_ib_contract c"
proof -
  let ?c = "\<lparr>oc_symbol = ''XSP'', oc_expiry = ''20260617'', oc_strike = 7525/10, oc_right = PUT, oc_multiplier = 100\<rparr> :: option_contract"
  have "valid_contract ?c" "spaceless (oc_symbol ?c)" by code_simp+
  moreover have "symbol_text (to_quote_symbol ?c) = ''XSP 20260617 752.5 P''" by code_simp
  ultimately show ?thesis using contract_names_agree [of ?c "75250000000000000000"] by (simp add: Let_def)
qed

end
