(* ===== verification/Ibkr_Broker.thy ===== *)
theory Ibkr_Broker
  imports Broker_Interface Ibkr_Contracts Calendar Bars
begin

text \<open>
  \<^verbatim>\<open>src/broker/ibkr_broker.py\<close>: the live broker client: connection and its safety gates, orders, the
  queries, and the handlers of order, fill and commission messages (quotes are in \<open>Ibkr_Quotes\<close>). The
  library \<open>ib_async\<close> is not part of the program: what it answers (whether the socket is up, the
  managed accounts, qualified contracts, its cache of trades) are arguments, what the client asks of
  it is the list of \<open>ib_request\<close>s of an operation, what the client passes on to its registered
  callbacks the list of \<open>ibkr_call\<close>s; callbacks run under \<open>try\<close> and change nothing here. A broker
  order id is the text of the number the library gives out, fresh identifiers are arguments, numbers
  of contracts are integers. \<open>tif\<close> is the default of the plan, which nothing in the program overrides.
\<close>

section \<open>State\<close>

record order_meta =
  mt_order_id :: uuid
  mt_plan_id :: uuid
  mt_position_id :: "uuid option"
  mt_is_entry :: bool
  mt_strategy :: string
  mt_contract :: option_contract
  mt_side :: order_side
  mt_limit :: pyfloat
  mt_quantity :: int
  mt_created :: instant

record chain_row =
  cr_time :: datetime
  cr_symbol :: quote_key
  cr_bid :: "pyfloat option"
  cr_ask :: "pyfloat option"
  cr_last :: "pyfloat option"
  cr_delta :: "pyfloat option"
  cr_underlying_mid :: "pyfloat option"

record ibkr =
  ik_config :: broker_config
  ik_store :: event_store
  ik_metadata :: "(string, order_meta) pydict"
  ik_statuses :: "(string, order_status) pydict"
  ik_qualified :: "(string \<times> string \<times> pyfloat \<times> option_right, ib_contract) pydict"
  ik_seen_execs :: "string set"
  ik_intentional :: bool
  ik_reconnecting :: bool \<comment> \<open>a reconnect task was started\<close>
  ik_by_symbol :: "(quote_key, ib_contract) pydict"
  ik_tickers :: "(quote_key, ib_contract) pydict" \<comment> \<open>the contract of the live ticker\<close>
  ik_last_access :: "(quote_key, pyfloat) pydict"
  ik_pinned :: "quote_key set"
  ik_bars :: bar_builder
  ik_last_tick :: "(quote_key, pyfloat) pydict"
  ik_chain_last :: "(quote_key, pyfloat) pydict"
  ik_chain_rows :: "(string \<times> chain_row) list" \<comment> \<open>day of the file and row\<close>

definition new_ibkr :: "broker_config \<Rightarrow> event_store \<Rightarrow> ibkr" where
  "new_ibkr cfg es = \<lparr>ik_config = cfg, ik_store = es, ik_metadata = [], ik_statuses = [], ik_qualified = [],
     ik_seen_execs = {}, ik_intentional = False, ik_reconnecting = False, ik_by_symbol = [], ik_tickers = [],
     ik_last_access = [], ik_pinned = {Symbol_Key ''XSP''},
     ik_bars = (new_builder 480)\<lparr>bb_persist_dir := Some ''data/bars''\<rparr>, ik_last_tick = [], ik_chain_last = [],
     ik_chain_rows = []\<rparr>"

record ib_order =
  io_action :: string
  io_quantity :: int
  io_type :: string
  io_limit :: "pyfloat option"
  io_tif :: string
  io_outside_rth :: bool
  io_ref :: "order_ref option"
  io_priority :: "string option" \<comment> \<open>\<open>adaptivePriority\<close> of the Adaptive algo\<close>

datatype ib_request = Ib_Place string ib_contract ib_order | Ib_Amend string ib_contract pyfloat
  | Ib_Cancel string | Ib_Disconnect | Ib_Market_Data ib_contract | Ib_Cancel_Data ib_contract

datatype ibkr_call = Order_Callback order_state order_event | Fill_Callback fill_event
  | Commission_Callback uuid pyfloat | Quote_Callback quote_snapshot

text \<open>What the library answers while one call runs.\<close>

record ib_session =
  ss_up :: bool
  ss_accounts :: "string list"
  ss_env :: "string option" \<comment> \<open>the variable \<open>ALLOW_LIVE_TRADING\<close>\<close>
  ss_qualify :: "ib_contract \<Rightarrow> py_error + ib_contract option list"
  ss_zone :: zone \<comment> \<open>New York\<close>

definition ib_to_internal_status :: "(string \<times> order_status) list" where
  "ib_to_internal_status = [(''PendingSubmit'', SUBMITTED), (''PendingCancel'', CANCEL_PENDING),
     (''PreSubmitted'', SUBMITTED), (''Submitted'', SUBMITTED), (''Filled'', FILLED), (''Cancelled'', CANCELLED),
     (''Inactive'', REJECTED), (''ApiPending'', SUBMITTED), (''ApiCancelled'', CANCELLED), (''ValidationError'', REJECTED)]"

definition internal_status :: "string \<Rightarrow> order_status" where
  "internal_status s = dict_default ib_to_internal_status s SUBMITTED"

section \<open>Connection\<close>

definition live_token :: string where
  "live_token = ''I_UNDERSTAND_THIS_CAN_LOSE_MONEY''"

definition paper_account :: "string \<Rightarrow> bool" where
  "paper_account a \<longleftrightarrow> starts_with ''DU'' (py_upper a) \<or> starts_with ''DF'' (py_upper a)"

definition pre_connect_gate :: "broker_config \<Rightarrow> string option \<Rightarrow> py_error option" where
  "pre_connect_gate cfg env =
     (let acc = at_account_id (bc_account cfg); allow = at_allowlist (bc_account cfg) in
      if \<not> bc_live_trading cfg then None
      else if env \<noteq> Some live_token then Some (Value_Error (Fstr
        ''Live trading safety gate failed: environment variable ALLOW_LIVE_TRADING must be set to 'I_UNDERSTAND_THIS_CAN_LOSE_MONEY' (currently: {})''
        [opt_arg FStr env]))
      else if allow = [] then Some (Value_Error (lit
        ''Live trading safety gate failed: account.allowlist must be non-empty in broker.yaml when live trading is enabled''))
      else if acc \<noteq> [] \<and> acc \<notin> set allow then Some (Value_Error (Fstr
        ''Live trading safety gate failed: configured account_id '{}' is not present in the account allowlist'' [FStr acc]))
      else None)"

definition post_connect_gate :: "broker_config \<Rightarrow> string list \<Rightarrow> py_error option" where
  "post_connect_gate cfg accounts =
     (let acc = at_account_id (bc_account cfg); allow = at_allowlist (bc_account cfg) in
      if bc_live_trading cfg then
        (if accounts = [] then Some (Runtime_Error (lit
           ''Live trading safety gate failed: No managed accounts returned by broker connection.''))
         else if acc \<noteq> [] \<and> acc \<notin> set accounts then Some (Value_Error (Fstr
           ''Live trading safety gate failed: Configured account_id '{}' is not in broker managed accounts: {}''
           [FStr acc, FList (map FStr accounts)]))
         else if acc \<noteq> [] then
           (if acc \<notin> set allow then Some (Value_Error (Fstr
              ''Live trading safety gate failed: Account ID '{}' is not in allowlist'' [FStr acc])) else None)
         else map_option (\<lambda>a. Value_Error (Fstr
              ''Live trading safety gate failed: Account ID '{}' is not in allowlist'' [FStr a]))
           (List.find (\<lambda>a. a \<notin> set allow) accounts))
      else if accounts \<noteq> [] \<and> \<not> list_all paper_account accounts then Some (Runtime_Error (Fstr
        ''Live connection detected: Managed accounts {} are LIVE, but live_trading.enabled is False in config. Disconnecting immediately.''
        [FList (map FStr (filter (\<lambda>a. \<not> paper_account a) accounts))]))
      else None)"

text \<open>\<open>reply\<close> is how the awaited \<open>connectAsync\<close> ended.\<close>

definition ibkr_connect ::
  "string option \<Rightarrow> py_error + unit \<Rightarrow> string list \<Rightarrow> ibkr \<Rightarrow> (py_error + unit) \<times> ib_request list \<times> ibkr" where
  "ibkr_connect env reply accounts s =
     (let s1 = s\<lparr>ik_intentional := False\<rparr> in
      case pre_connect_gate (ik_config s) env of Some e \<Rightarrow> (Inl e, [], s1)
      | None \<Rightarrow> (case reply of Inl e \<Rightarrow> (Inl e, [], s1)
        | Inr _ \<Rightarrow> (case post_connect_gate (ik_config s) accounts of
              Some e \<Rightarrow> (Inl e, [Ib_Disconnect], s1)
            | None \<Rightarrow> (Inr (), [], s1))))"

definition ibkr_disconnect :: "ibkr \<Rightarrow> ib_request list \<times> ibkr" where
  "ibkr_disconnect s = ([Ib_Disconnect], s\<lparr>ik_intentional := True\<rparr>)"

definition on_disconnected :: "ibkr \<Rightarrow> ibkr" where
  "on_disconnected s =
     (let s1 = s\<lparr>ik_tickers := [], ik_last_access := []\<rparr>
      in if \<not> ik_intentional s \<and> rn_enabled (bc_reconnection (ik_config s)) then s1\<lparr>ik_reconnecting := True\<rparr> else s1)"

text \<open>The reconnect task: before attempt \<open>k + 1\<close> the loop looks whether the socket \<open>is_up k\<close>; the attempt
  itself may fail. \<open>left\<close> counts the attempts still allowed.\<close>

datatype reconnect_end = Reconnected nat | Gave_Up nat

fun reconnect_loop :: "(nat \<Rightarrow> bool) \<Rightarrow> (nat \<Rightarrow> bool) \<Rightarrow> nat \<Rightarrow> nat \<Rightarrow> reconnect_end" where
  "reconnect_loop is_up attempt retries 0 = Gave_Up retries"
| "reconnect_loop is_up attempt retries (Suc left) =
     (if is_up retries then Gave_Up retries
      else if attempt (Suc retries) then Reconnected (Suc retries)
      else reconnect_loop is_up attempt (Suc retries) left)"

definition auto_reconnect :: "broker_config \<Rightarrow> (nat \<Rightarrow> bool) \<Rightarrow> (nat \<Rightarrow> bool) \<Rightarrow> reconnect_end" where
  "auto_reconnect cfg is_up attempt = reconnect_loop is_up attempt 0 (nat (rn_max_retries (bc_reconnection cfg)))"

section \<open>Placing orders\<close>

definition routing_gate :: "broker_config \<Rightarrow> string option \<Rightarrow> string list \<Rightarrow> py_error option" where
  "routing_gate cfg env accounts =
     (let acc = at_account_id (bc_account cfg); allow = at_allowlist (bc_account cfg) in
      if accounts = [] \<or> list_all paper_account accounts then None
      else if \<not> bc_live_trading cfg then Some (Runtime_Error (lit
        ''Submission blocked: Connected account is LIVE, but live_trading.enabled is False in config.''))
      else if env \<noteq> Some live_token then Some (Value_Error (Fstr
        ''Submission blocked: Environment variable ALLOW_LIVE_TRADING must be set to {}'' [FStr (CHR 0x27 # live_token @ [CHR 0x27])]))
      else if acc \<noteq> [] then
        (if acc \<notin> set allow then Some (Value_Error (Fstr
           ''Submission blocked: Account ID '{}' is not in allowlist'' [FStr acc])) else None)
      else map_option (\<lambda>a. Value_Error (Fstr ''Submission blocked: Account ID '{}' is not in allowlist'' [FStr a]))
        (List.find (\<lambda>a. a \<notin> set allow) accounts))"

definition contract_cache_key :: "option_contract \<Rightarrow> string \<times> string \<times> pyfloat \<times> option_right" where
  "contract_cache_key c = (oc_symbol c, oc_expiry c, oc_strike c, oc_right c)"

definition qualify_option_contract :: "ib_session \<Rightarrow> option_contract \<Rightarrow> ibkr \<Rightarrow> (py_error + ib_contract) \<times> ibkr" where
  "qualify_option_contract w c s =
     (case map_of (ik_qualified s) (contract_cache_key c) of Some i \<Rightarrow> (Inr i, s)
      | None \<Rightarrow> (case ss_qualify w (to_ib_contract c) of Inl e \<Rightarrow> (Inl e, s)
        | Inr (Some i # _) \<Rightarrow> (Inr i, s\<lparr>ik_qualified := AList.update (contract_cache_key c) i (ik_qualified s)\<rparr>)
        | Inr _ \<Rightarrow> (Inl (Value_Error (Fstr ''Failed to qualify contract: {} {} {} {}''
            [FStr (oc_symbol c), FStr (oc_expiry c), FFloat (oc_strike c), FStr (right_char (oc_right c))])), s)))"

text \<open>Prices conform to the penny rules: cents below three dollars, nickels from there on.\<close>

definition tick_price :: "pyfloat \<Rightarrow> pyfloat" where
  "tick_price x = (if x < 3 then py_round 2 x else of_int (round_half_even (x * 20)) / 20)"

definition regular_trading_hours :: "zone \<Rightarrow> instant \<Rightarrow> bool" where
  "regular_trading_hours ny now =
     (let m = zone_minute ny now; weekday = (m div 1440 + 3) mod 7; minutes = m mod 1440
      in weekday < 5 \<and> 9 * 60 + 30 \<le> minutes \<and> minutes < 16 * 60)"

definition adaptive_priority :: "string \<Rightarrow> string option" where
  "adaptive_priority = map_of [(''adaptive_urgent'', ''Urgent''), (''adaptive_normal'', ''Normal''), (''adaptive_patient'', ''Patient'')]"

definition order_action :: "order_side \<Rightarrow> string" where
  "order_action s = (if s = BUY then ''BUY'' else ''SELL'')"

text \<open>The limit price that is recorded, and the order of the library.\<close>

definition make_ib_order :: "bool \<Rightarrow> bool \<Rightarrow> order_plan \<Rightarrow> py_error + (pyfloat \<times> ib_order)" where
  "make_ib_order rth emergency p =
     (let build = (\<lambda>kind limit algo. \<lparr>io_action = order_action (op_side p), io_quantity = op_quantity p, io_type = kind,
            io_limit = limit, io_tif = ''DAY'', io_outside_rth = \<not> rth, io_ref = op_ref p, io_priority = algo\<rparr>)
      in if op_order_type p = ''LMT'' then
           Inr (tick_price (op_limit p), build ''LMT'' (Some (tick_price (op_limit p)))
             (if truthy (op_algo p) \<and> rth then Option.bind (op_algo p) adaptive_priority else None))
         else if op_order_type p = ''MKT'' \<and> emergency then Inr (op_limit p, build ''MKT'' None None)
         else Inl (Value_Error (Fstr ''Order type {} not supported except when emergency_flatten is enabled.''
           [FStr (op_order_type p)])))"

definition plan_meta :: "instant \<Rightarrow> uuid \<Rightarrow> pyfloat \<Rightarrow> order_plan \<Rightarrow> order_meta" where
  "plan_meta now oid limit p = \<lparr>mt_order_id = oid, mt_plan_id = op_id p, mt_position_id = op_position_id p,
     mt_is_entry = op_is_entry p, mt_strategy = op_strategy p, mt_contract = op_contract p, mt_side = op_side p,
     mt_limit = limit, mt_quantity = op_quantity p, mt_created = now\<rparr>"

definition initial_order :: "string \<Rightarrow> order_meta \<Rightarrow> order_state" where
  "initial_order bid m = \<lparr>os_id = mt_order_id m, os_plan_id = mt_plan_id m, os_position_id = mt_position_id m,
     os_is_entry = mt_is_entry m, os_strategy = mt_strategy m, os_contract = mt_contract m, os_side = mt_side m,
     os_quantity = mt_quantity m, os_filled = 0, os_limit = mt_limit m, os_first_limit = None, os_ref = None,
     os_superseded_by = None, os_status = NEW, os_broker_id = Some bid, os_error = None, os_created = mt_created m,
     os_updated = mt_created m, os_hard_cancel = False, os_algo = None, os_batch = None\<rparr>"

text \<open>The field constraints of \<open>OrderState\<close>; its contract was validated when it was built.\<close>

definition mk_order_state :: "order_state \<Rightarrow> py_error + order_state" where
  "mk_order_state o' =
     (if os_strategy o' = [] then Inl (Validation_Error ''strategy_id'')
      else if os_quantity o' \<le> 0 then Inl (Validation_Error ''quantity must be positive'')
      else if os_filled o' < 0 then Inl (Validation_Error ''filled_quantity'')
      else if os_limit o' \<le> 0 then Inl (Validation_Error ''limit_price'')
      else Inr o')"

definition ibkr_place ::
  "ib_session \<Rightarrow> bool \<Rightarrow> instant \<Rightarrow> uuid \<Rightarrow> string \<Rightarrow> order_plan \<Rightarrow> ibkr
     \<Rightarrow> (py_error + order_state) \<times> ib_request list \<times> ibkr" where
  "ibkr_place w emergency now oid bid p s =
     (if \<not> ss_up w then (Inl (Connection_Error ''Cannot place order: Broker client is disconnected.''), [], s)
      else case routing_gate (ik_config s) (ss_env w) (ss_accounts w) of Some e \<Rightarrow> (Inl e, [], s)
      | None \<Rightarrow> (case qualify_option_contract w (op_contract p) s of
          (Inl e, s1) \<Rightarrow> (Inl e, [], s1)
        | (Inr i, s1) \<Rightarrow> (case make_ib_order (regular_trading_hours (ss_zone w) now) emergency p of
            Inl e \<Rightarrow> (Inl e, [], s1)
          | Inr (limit, order) \<Rightarrow>
              (let m = plan_meta now oid limit p
               in (mk_order_state (initial_order bid m), [Ib_Place bid i order],
                   s1\<lparr>ik_metadata := AList.update bid m (ik_metadata s1)\<rparr>)))))"


section \<open>Working orders\<close>

text \<open>A \<open>Trade\<close> of the library, and an execution with its commission report.\<close>

record ib_trade =
  it_order_id :: int
  it_perm_id :: int
  it_contract :: ib_contract
  it_action :: string
  it_total :: int
  it_limit :: pyfloat
  it_status :: string
  it_filled :: int
  it_remaining :: int
  it_avg_fill :: pyfloat
  it_last_fill :: pyfloat
  it_why_held :: string
  it_done :: bool \<comment> \<open>\<open>isDone()\<close>\<close>

definition trade_key :: "ib_trade \<Rightarrow> string" where
  "trade_key t = int_text (it_order_id t)"

definition ibkr_cancel :: "bool \<Rightarrow> ib_trade list \<Rightarrow> string \<Rightarrow> (py_error + bool) \<times> ib_request list" where
  "ibkr_cancel up trades bid =
     (if \<not> up then (Inl (Connection_Error ''Cannot cancel order: Broker client is disconnected.''), [])
      else case List.find (\<lambda>t. trade_key t = bid) trades of
        Some t \<Rightarrow> (Inr True, [Ib_Cancel bid]) | None \<Rightarrow> (Inr False, []))"

definition filled_out :: "ib_trade \<Rightarrow> bool" where
  "filled_out t \<longleftrightarrow> it_remaining t = 0 \<and> 0 < it_filled t"

definition ibkr_order_status :: "bool \<Rightarrow> ib_trade list \<Rightarrow> string \<Rightarrow> order_status option" where
  "ibkr_order_status up trades bid =
     (if \<not> up then None
      else map_option (\<lambda>t. if filled_out t then FILLED else internal_status (it_status t))
        (List.find (\<lambda>t. trade_key t = bid) trades))"

definition ibkr_modify ::
  "bool \<Rightarrow> ib_trade list \<Rightarrow> string \<Rightarrow> pyfloat \<Rightarrow> ibkr \<Rightarrow> (py_error + bool) \<times> ib_request list \<times> ibkr" where
  "ibkr_modify up trades bid limit s =
     (if \<not> up then (Inl (Connection_Error ''Cannot modify order: Broker client is disconnected.''), [], s)
      else case List.find (\<lambda>t. trade_key t = bid) trades of None \<Rightarrow> (Inr False, [], s)
      | Some t \<Rightarrow>
          if it_done t \<or> it_status t \<in> {''PendingCancel'', ''ApiCancelled'', ''Cancelled'', ''Inactive''}
          then (Inr False, [], s)
          else (Inr True, [Ib_Amend bid (it_contract t) (tick_price limit)],
                case map_of (ik_metadata s) bid of None \<Rightarrow> s
                | Some m \<Rightarrow> s\<lparr>ik_metadata := AList.update bid (m\<lparr>mt_limit := tick_price limit\<rparr>) (ik_metadata s)\<rparr>))"

text \<open>A trade as an order of ours. Without metadata the identifiers are made up (\<open>oid\<close>, \<open>plan_id\<close>).\<close>

definition to_internal_status :: "ib_trade \<Rightarrow> order_status" where
  "to_internal_status t =
     (let st = internal_status (it_status t)
      in if filled_out t then FILLED
         else if st = SUBMITTED \<and> 0 < it_filled t \<and> 0 < it_remaining t then PARTIALLY_FILLED else st)"

definition to_internal_order_state ::
  "instant \<Rightarrow> uuid \<Rightarrow> uuid \<Rightarrow> ib_trade \<Rightarrow> order_meta option \<Rightarrow> py_error + order_state" where
  "to_internal_order_state now oid plan_id t meta =
     try_bind (from_ib_contract (it_contract t)) (\<lambda>c.
       mk_order_state \<lparr>os_id = (case meta of Some m \<Rightarrow> mt_order_id m | None \<Rightarrow> oid),
         os_plan_id = (case meta of Some m \<Rightarrow> mt_plan_id m | None \<Rightarrow> plan_id),
         os_position_id = Option.bind meta mt_position_id, os_is_entry = True,
         os_strategy = (case meta of Some m \<Rightarrow> if mt_strategy m = [] then ''unknown'' else mt_strategy m | None \<Rightarrow> ''unknown''),
         os_contract = c, os_side = (if py_upper (it_action t) = ''BUY'' then BUY else SELL),
         os_quantity = it_total t, os_filled = it_filled t, os_limit = it_limit t, os_first_limit = None, os_ref = None,
         os_superseded_by = None, os_status = to_internal_status t, os_broker_id = Some (trade_key t), os_error = None,
         os_created = (case meta of Some m \<Rightarrow> mt_created m | None \<Rightarrow> now), os_updated = now, os_hard_cancel = False,
         os_algo = None, os_batch = None\<rparr>)"

section \<open>Queries\<close>

record ib_position =
  ip_contract :: ib_contract
  ip_position :: pyfloat
  ip_avg_cost :: pyfloat

text \<open>The constraints of \<open>Position\<close> on what this code puts into one.\<close>

definition broker_position :: "instant \<Rightarrow> uuid \<Rightarrow> uuid \<Rightarrow> ib_position \<Rightarrow> py_error + position" where
  "broker_position now pid entry_id p =
     try_bind (from_ib_contract (ip_contract p)) (\<lambda>c.
       let qty = py_int (ip_position p); mult = (if oc_multiplier c \<noteq> 0 then oc_multiplier c else 100);
           avg = ip_avg_cost p / of_int mult
       in if qty = 0 then Inl (Validation_Error ''quantity must be positive'')
          else if avg \<le> 0 then Inl (Validation_Error ''average_entry_price'')
          else Inr \<lparr>ps_id = pid, ps_strategy = ''unknown'', ps_contract = c, ps_side = (if 0 < qty then BUY else SELL),
            ps_quantity = \<bar>qty\<bar>, ps_filled = 0, ps_avg_entry = avg, ps_current = None, ps_unrealized = None,
            ps_realized = 0, ps_status = OPEN, ps_entry_order = entry_id, ps_exit_orders = [], ps_entry_time = None,
            ps_exit_time = None, ps_stop = None, ps_target = None, ps_time_exit = None, ps_use_mid = False,
            ps_created = now, ps_updated = now, ps_commission_paid = 0\<rparr>)"

text \<open>\<open>fresh k\<close> is the \<open>k\<close>-th identifier \<open>uuid4()\<close> makes up during the call.\<close>

fun broker_positions :: "instant \<Rightarrow> (nat \<Rightarrow> uuid) \<Rightarrow> nat \<Rightarrow> ib_position list \<Rightarrow> py_error + position list" where
  "broker_positions now fresh k [] = Inr []"
| "broker_positions now fresh k (p # ps) =
     try_bind (broker_position now (fresh k) (fresh (Suc k)) p) (\<lambda>q.
     try_bind (broker_positions now fresh (k + 2) ps) (\<lambda>qs. Inr (q # qs)))"

definition ibkr_get_positions :: "bool \<Rightarrow> instant \<Rightarrow> (nat \<Rightarrow> uuid) \<Rightarrow> ib_position list \<Rightarrow> py_error + position list" where
  "ibkr_get_positions up now fresh ps =
     (if \<not> up then Inl (Connection_Error ''Cannot fetch positions: Broker client is disconnected.'')
      else broker_positions now fresh 0 ps)"

fun open_orders :: "instant \<Rightarrow> (nat \<Rightarrow> uuid) \<Rightarrow> nat \<Rightarrow> (string, order_meta) pydict \<Rightarrow> ib_trade list \<Rightarrow> py_error + order_state list" where
  "open_orders now fresh k d [] = Inr []"
| "open_orders now fresh k d (t # ts) =
     try_bind (to_internal_order_state now (fresh k) (fresh (Suc k)) t (map_of d (trade_key t))) (\<lambda>o'.
     try_bind (open_orders now fresh (k + 2) d ts) (\<lambda>os. Inr (if active_status (os_status o') then o' # os else os)))"

definition ibkr_get_open_orders ::
  "bool \<Rightarrow> instant \<Rightarrow> (nat \<Rightarrow> uuid) \<Rightarrow> ib_trade list \<Rightarrow> ibkr \<Rightarrow> py_error + order_state list" where
  "ibkr_get_open_orders up now fresh ts s =
     (if \<not> up then Inl (Connection_Error ''Cannot fetch open orders: Broker client is disconnected.'')
      else open_orders now fresh 0 (ik_metadata s) ts)"

text \<open>Balances: net liquidation, available funds, buying power. An item is tag and text.\<close>

type_synonym balances = "pyfloat \<times> pyfloat \<times> pyfloat"

fun set_balance :: "string \<Rightarrow> pyfloat \<Rightarrow> balances \<Rightarrow> balances" where
  "set_balance tag v (net, avail, bp) =
     (if tag = ''NetLiquidation'' then (v, avail, bp) else if tag = ''AvailableFunds'' then (net, v, bp)
      else if tag = ''BuyingPower'' then (net, avail, v) else (net, avail, bp))"

definition balance_tags :: "string set" where
  "balance_tags = {''NetLiquidation'', ''AvailableFunds'', ''BuyingPower''}"

fun read_summary :: "(string \<times> string) list \<Rightarrow> balances \<Rightarrow> py_error + balances" where
  "read_summary [] b = Inr b"
| "read_summary ((tag, v) # items) b =
     (if tag \<notin> balance_tags then read_summary items b
      else case py_float v of Some x \<Rightarrow> read_summary items (set_balance tag x b)
        | None \<Rightarrow> Inl (Value_Error (Fstr ''could not convert string to float: {}'' [FStr v])))"

fun read_account_values :: "string \<Rightarrow> (string \<times> string \<times> string) list \<Rightarrow> balances \<Rightarrow> balances" where
  "read_account_values acc [] b = b"
| "read_account_values acc ((a, tag, v) # items) b =
     read_account_values acc items
       (if a \<noteq> acc then b else case py_float v of Some x \<Rightarrow> set_balance tag x b | None \<Rightarrow> b)"

definition account_of :: "broker_config \<Rightarrow> string list \<Rightarrow> string" where
  "account_of cfg accounts =
     (if at_account_id (bc_account cfg) \<noteq> [] then at_account_id (bc_account cfg)
      else case accounts of a # _ \<Rightarrow> a | [] \<Rightarrow> ''unknown'')"

definition ibkr_get_account ::
  "ib_session \<Rightarrow> py_error + (string \<times> string) list \<Rightarrow> (string \<times> string \<times> string) list \<Rightarrow> ibkr \<Rightarrow> py_error + account_state" where
  "ibkr_get_account w summary values s =
     (if \<not> ss_up w then Inl (Connection_Error ''Cannot fetch account state: Broker client is disconnected.'')
      else let acc = account_of (ik_config s) (ss_accounts w) in
        try_bind summary (\<lambda>items. try_bind (read_summary items (0, 0, 0)) (\<lambda>(net, avail, bp).
          case (if net = 0 \<and> avail = 0 then read_account_values acc values (net, avail, bp) else (net, avail, bp)) of
            (net, avail, bp) \<Rightarrow>
              if acc = [] then Inl (Validation_Error ''account_id'')
              else if net < 0 then Inl (Validation_Error ''net_liquidation'')
              else Inr \<lparr>ac_id = acc, ac_net_liquidation = net, ac_available_funds = avail, ac_buying_power = bp,
                        ac_daily_pnl = 0\<rparr>)))"

text \<open>\<open>end_time\<close> as the library wants it, in UTC; a naive time is taken as it is.\<close>

definition history_end :: "datetime \<Rightarrow> string" where
  "history_end d = (let t = assume_utc d; sec = t div 1000000 mod 86400
     in expiry_text (t div us_per_day) @ '' '' @ digits2 (sec div 3600) @ '':'' @ digits2 (sec div 60 mod 60)
        @ '':'' @ digits2 (sec mod 60) @ '' UTC'')"

definition ibkr_historical_close ::
  "ib_session \<Rightarrow> (ib_contract option \<Rightarrow> string \<Rightarrow> py_error + pyfloat list) \<Rightarrow> quote_key \<Rightarrow> datetime \<Rightarrow> py_error + pyfloat option" where
  "ibkr_historical_close w bars_of key end_time =
     (if \<not> ss_up w then Inl (Connection_Error ''IBKRBrokerClient is not connected'')
      else try_bind (ss_qualify w (contract_of_symbol key)) (\<lambda>qualified.
        case qualified of [] \<Rightarrow> Inr None
        | c # _ \<Rightarrow> (case bars_of c (history_end end_time) of
              Inl _ \<Rightarrow> Inr None | Inr closes \<Rightarrow> Inr (if closes = [] then None else Some (last closes)))))"

section \<open>Handlers of the library's messages\<close>

definition log_ibkr :: "instant \<Rightarrow> string \<Rightarrow> payload \<Rightarrow> ibkr \<Rightarrow> ibkr" where
  "log_ibkr now kind p s = s\<lparr>ik_store := log_callback kind p now (ik_store s)\<rparr>"

definition raw_status :: "ib_trade \<Rightarrow> payload" where
  "raw_status t = P_Dict [(''orderId'', FInt (it_order_id t)), (''permId'', FInt (it_perm_id t)), (''status'', FStr (it_status t)),
     (''filled'', FInt (it_filled t)), (''remaining'', FInt (it_remaining t)), (''avgFillPrice'', FFloat (it_avg_fill t)),
     (''lastFillPrice'', FFloat (it_last_fill t)), (''whyHeld'', FStr (it_why_held t))]"

definition reported_status :: "ib_trade \<Rightarrow> order_status" where
  "reported_status t =
     (let st = internal_status (it_status t)
      in if st = SUBMITTED \<and> 0 < it_filled t \<and> 0 < it_remaining t then PARTIALLY_FILLED else st)"

text \<open>The status is stored before the order is converted: when the conversion raises, nothing is passed on.\<close>

definition on_order_status :: "instant \<Rightarrow> ib_trade \<Rightarrow> ibkr \<Rightarrow> (py_error + ibkr_call list) \<times> ibkr" where
  "on_order_status now t s =
     (case map_of (ik_metadata s) (trade_key t) of None \<Rightarrow> (Inr [], s)
      | Some m \<Rightarrow>
          (let s1 = log_ibkr now ''order_callback'' (raw_status t) s;
               prev = map_of (ik_statuses s) (trade_key t); new = reported_status t
           in if prev = Some new then (Inr [], s1)
              else let s2 = s1\<lparr>ik_statuses := AList.update (trade_key t) new (ik_statuses s1)\<rparr>
                in (case to_internal_order_state now 0 0 t (Some m) of Inl e \<Rightarrow> (Inl e, s2)
                  | Inr o' \<Rightarrow>
                      (let ev = \<lparr>oe_order_id = mt_order_id m, oe_previous = prev, oe_new = new,
                                 oe_message = Fstr ''IBKR status change to {}'' [FStr (it_status t)], oe_timestamp = now\<rparr>
                       in (Inr [Order_Callback o' ev], log_ibkr now ''order_event'' (P_Order_Event ev) s2)))))"

record ib_execution =
  ie_order_id :: int
  ie_exec_id :: "string option"
  ie_shares :: int
  ie_price :: pyfloat
  ie_cum_qty :: int
  ie_side :: string
  ie_time :: fstr

definition raw_execution :: "ib_execution \<Rightarrow> payload" where
  "raw_execution x = P_Dict [(''orderId'', FInt (ie_order_id x)), (''execId'', opt_arg FStr (ie_exec_id x)),
     (''shares'', FInt (ie_shares x)), (''price'', FFloat (ie_price x)), (''cumQty'', FInt (ie_cum_qty x)),
     (''side'', FStr (ie_side x)), (''time'', FMsg (ie_time x))]"

definition execution_fill :: "instant \<Rightarrow> order_meta \<Rightarrow> ib_execution \<Rightarrow> fill_event" where
  "execution_fill now m x = \<lparr>fe_order_id = mt_order_id m, fe_strategy = mt_strategy m, fe_contract = mt_contract m,
     fe_side = mt_side m, fe_quantity = ie_shares x, fe_price = ie_price x, fe_commission = None, fe_timestamp = now,
     fe_broker_id = Some (int_text (ie_order_id x))\<rparr>"

definition on_exec_details :: "instant \<Rightarrow> ib_execution \<Rightarrow> ibkr \<Rightarrow> (py_error + ibkr_call list) \<times> ibkr" where
  "on_exec_details now x s =
     (case map_of (ik_metadata s) (int_text (ie_order_id x)) of None \<Rightarrow> (Inr [], s)
      | Some m \<Rightarrow>
          (let s1 = log_ibkr now ''fill_callback'' (raw_execution x) s; f = execution_fill now m x
           in if mt_strategy m = [] \<or> ie_shares x \<le> 0 \<or> ie_price x \<le> 0 then (Inl (Validation_Error ''FillEvent''), s1)
              else (Inr [Fill_Callback f], log_ibkr now ''fill_event'' (P_Fill f) s1)))"

record ib_commission =
  rp_commission :: "pyfloat option"
  rp_realized :: "pyfloat option"

definition on_commission_report ::
  "instant \<Rightarrow> ib_execution \<Rightarrow> ib_commission \<Rightarrow> ibkr \<Rightarrow> ibkr_call list \<times> ibkr" where
  "on_commission_report now x r s =
     (if truthy (ie_exec_id x) \<and> the (ie_exec_id x) \<in> ik_seen_execs s then ([], s)
      else case map_of (ik_metadata s) (int_text (ie_order_id x)) of None \<Rightarrow> ([], s)
      | Some m \<Rightarrow>
          (let commission = (case rp_commission r of Some c \<Rightarrow> c | None \<Rightarrow> 0)
           in if commission \<le> 0 then ([], s)
              else let s1 = (if truthy (ie_exec_id x) then s\<lparr>ik_seen_execs := insert (the (ie_exec_id x)) (ik_seen_execs s)\<rparr> else s);
                       rpnl = (case rp_realized r of Some v \<Rightarrow> if 100000000000 < \<bar>v\<bar> then None else Some v | None \<Rightarrow> None)
                in ([Commission_Callback (mt_order_id m) commission],
                    log_ibkr now ''commission_report'' (P_Dict [(''order_id'', FId (mt_order_id m)),
                      (''strategy_id'', FStr (mt_strategy m)), (''exec_id'', opt_arg FStr (ie_exec_id x)),
                      (''commission'', FFloat commission), (''broker_realized_pnl'', opt_arg FFloat rpnl)]) s1)))"


section \<open>Lemmas\<close>

lemma log_ibkr_frame [simp]:
  "ik_metadata (log_ibkr now k p s) = ik_metadata s" "ik_statuses (log_ibkr now k p s) = ik_statuses s"
  "ik_seen_execs (log_ibkr now k p s) = ik_seen_execs s" "ik_tickers (log_ibkr now k p s) = ik_tickers s"
  "ik_last_access (log_ibkr now k p s) = ik_last_access s" "ik_pinned (log_ibkr now k p s) = ik_pinned s"
  "ik_last_tick (log_ibkr now k p s) = ik_last_tick s" "ik_config (log_ibkr now k p s) = ik_config s"
  "ik_bars (log_ibkr now k p s) = ik_bars s"
  by (simp_all add: log_ibkr_def)

lemma qualify_frame:
  "qualify_option_contract w c s = (r, s1) \<Longrightarrow> \<exists>q. s1 = s\<lparr>ik_qualified := q\<rparr>"
proof -
  assume "qualify_option_contract w c s = (r, s1)"
  moreover have "s = s\<lparr>ik_qualified := ik_qualified s\<rparr>" by simp
  ultimately show ?thesis
    by (auto simp: qualify_option_contract_def split: option.splits sum.splits list.splits intro: exI [of _ "ik_qualified s"])
qed

text \<open>What the gate at routing time lets through.\<close>

lemma routing_gate_iff:
  "routing_gate cfg env accounts = None \<longleftrightarrow> list_all paper_account accounts
     \<or> bc_live_trading cfg \<and> env = Some live_token
       \<and> (if at_account_id (bc_account cfg) \<noteq> [] then at_account_id (bc_account cfg) \<in> set (at_allowlist (bc_account cfg))
          else set accounts \<subseteq> set (at_allowlist (bc_account cfg)))"
  by (auto simp: routing_gate_def Let_def find_None_iff)

lemma make_ib_order_Inr:
  "make_ib_order rth emergency p = Inr (limit, x) \<longleftrightarrow>
     op_order_type p = ''LMT'' \<and> limit = tick_price (op_limit p) \<and> x =
       \<lparr>io_action = order_action (op_side p), io_quantity = op_quantity p, io_type = ''LMT'', io_limit = Some limit,
        io_tif = ''DAY'', io_outside_rth = \<not> rth, io_ref = op_ref p,
        io_priority = (if truthy (op_algo p) \<and> rth then Option.bind (op_algo p) adaptive_priority else None)\<rparr>
     \<or> op_order_type p = ''MKT'' \<and> emergency \<and> limit = op_limit p \<and> x =
       \<lparr>io_action = order_action (op_side p), io_quantity = op_quantity p, io_type = ''MKT'', io_limit = None,
        io_tif = ''DAY'', io_outside_rth = \<not> rth, io_ref = op_ref p, io_priority = None\<rparr>"
  by (auto simp: make_ib_order_def Let_def)

text \<open>A call of \<open>place_order\<close> either asks nothing of the library, or one thing.\<close>

lemma ibkr_place_cases:
  assumes "ibkr_place w emergency now oid bid p s = (r, reqs, s')"
  obtains (refused) e q where "r = Inl e" "reqs = []" "s' = s\<lparr>ik_qualified := q\<rparr>"
  | (sent) i q limit x m where "ss_up w" "routing_gate (ik_config s) (ss_env w) (ss_accounts w) = None"
      "qualify_option_contract w (op_contract p) s = (Inr i, s\<lparr>ik_qualified := q\<rparr>)"
      "make_ib_order (regular_trading_hours (ss_zone w) now) emergency p = Inr (limit, x)"
      "m = plan_meta now oid limit p" "r = mk_order_state (initial_order bid m)" "reqs = [Ib_Place bid i x]"
      "s' = s\<lparr>ik_qualified := q, ik_metadata := AList.update bid m (ik_metadata s)\<rparr>"
proof (cases "ss_up w \<and> routing_gate (ik_config s) (ss_env w) (ss_accounts w) = None")
  case False
  then have "\<exists>e. r = Inl e" "reqs = []" "s' = s" using assms by (auto simp: ibkr_place_def split: if_splits option.splits)
  then show ?thesis using refused [of _ "ik_qualified s"] by auto
next
  case True
  obtain a s1 where a: "qualify_option_contract w (op_contract p) s = (a, s1)" by (cases "qualify_option_contract w (op_contract p) s")
  then obtain q where q: "s1 = s\<lparr>ik_qualified := q\<rparr>" using qualify_frame by blast
  show ?thesis
  proof (cases a)
    case (Inl e)
    then show ?thesis using True a q assms refused by (auto simp: ibkr_place_def)
  next
    case (Inr i)
    show ?thesis
    proof (cases "make_ib_order (regular_trading_hours (ss_zone w) now) emergency p")
      case (Inl e)
      then show ?thesis using True a Inr q assms refused by (auto simp: ibkr_place_def)
    next
      case mk: (Inr y)
      obtain limit x where "y = (limit, x)" by (cases y)
      then show ?thesis using True a Inr q assms mk sent [of i q limit x "plan_meta now oid limit p"]
        by (auto simp: ibkr_place_def Let_def)
    qed
  qed
qed

lemma qualified_is_asked:
  "qualify_option_contract w c s = (Inr i, s1) \<Longrightarrow>
     map_of (ik_qualified s) (contract_cache_key c) = Some i \<or> (\<exists>rest. ss_qualify w (to_ib_contract c) = Inr (Some i # rest))"
  by (auto simp: qualify_option_contract_def split: option.splits sum.splits list.splits)

text \<open>C4: New orders for a live account are gated. Whatever the library answers, when \<open>place_order\<close> sends an
  order, the socket is up and either every connected account is a paper account, or live trading is
  switched on, the operator has confirmed it in the environment, and the account id of the
  configuration is on the allow list or, when none is configured, every connected account is; the order
  is the plan's side and quantity, on the contract the plan's contract was qualified to, a limit order
  at the tick price of the plan's limit, or else a market order of an emergency. With an account id in
  the configuration the connected accounts are not compared with the allow list
  (\<open>routing_gate_trusts_configured_account\<close>), although P16-A2 of \<^verbatim>\<open>docs/assumptions.md\<close> says that they
  are; and \<open>modify_order\<close> has no gate at all (\<open>amendments_are_not_gated\<close>).\<close>

theorem live_orders_gated:
  assumes "ibkr_place w emergency now oid bid p s = (r, reqs, s')" "Ib_Place b i x \<in> set reqs"
  shows "ss_up w
    \<and> (list_all paper_account (ss_accounts w)
       \<or> bc_live_trading (ik_config s) \<and> ss_env w = Some live_token
         \<and> (if at_account_id (bc_account (ik_config s)) \<noteq> []
            then at_account_id (bc_account (ik_config s)) \<in> set (at_allowlist (bc_account (ik_config s)))
            else set (ss_accounts w) \<subseteq> set (at_allowlist (bc_account (ik_config s)))))
    \<and> reqs = [Ib_Place bid i x] \<and> io_action x = order_action (op_side p) \<and> io_quantity x = op_quantity p
    \<and> (map_of (ik_qualified s) (contract_cache_key (op_contract p)) = Some i
       \<or> (\<exists>rest. ss_qualify w (to_ib_contract (op_contract p)) = Inr (Some i # rest)))
    \<and> (io_type x = ''LMT'' \<and> io_limit x = Some (tick_price (op_limit p))
       \<or> io_type x = ''MKT'' \<and> emergency \<and> op_order_type p = ''MKT'')"
  using assms(1)
proof (cases rule: ibkr_place_cases)
  case (refused e q)
  with assms(2) show ?thesis by simp
next
  case (sent i' q limit y m)
  with assms(2) have "i' = i" "y = x" "reqs = [Ib_Place bid i x]" by auto
  with sent qualified_is_asked [OF sent(3)] show ?thesis
    by (auto simp: routing_gate_iff make_ib_order_Inr)
qed

definition sample_live_config :: broker_config where
  "sample_live_config = default_broker_config\<lparr>bc_live_trading := True, bc_account := \<lparr>at_account_id = [], at_allowlist = [''U1'']\<rparr>\<rparr>"

definition sample_session :: "string list \<Rightarrow> ib_session" where
  "sample_session accounts = \<lparr>ss_up = True, ss_accounts = accounts, ss_env = Some live_token,
     ss_qualify = (\<lambda>i. Inr [Some i]), ss_zone = (\<lambda>t. -14400000000)\<rparr>"

definition sample_limit_plan :: order_plan where
  "sample_limit_plan = intent_plan 5 3 (sample_intent None) sample_approval False None"

theorem live_orders_gated_witness:
  "fst (snd (ibkr_place (sample_session [''U1'']) False 5 40 ''17'' sample_limit_plan (new_ibkr sample_live_config new_store))) \<noteq> []
   \<and> set [''U1''] \<subseteq> set (at_allowlist (bc_account sample_live_config)) \<and> bc_live_trading sample_live_config
   \<and> fst (snd (ibkr_place (sample_session [''U2'']) False 5 40 ''17'' sample_limit_plan (new_ibkr sample_live_config new_store))) = []"
proof -
  let ?w = "sample_session [''U1'']" and ?s = "new_ibkr sample_live_config new_store"
  obtain r reqs s' where p: "ibkr_place ?w False 5 40 ''17'' sample_limit_plan ?s = (r, reqs, s')"
    by (cases "ibkr_place ?w False 5 40 ''17'' sample_limit_plan ?s") auto
  have "list_ex (\<lambda>r. case r of Ib_Place b i x \<Rightarrow> True | _ \<Rightarrow> False)
      (fst (snd (ibkr_place ?w False 5 40 ''17'' sample_limit_plan ?s)))" by code_simp
  then obtain y where "y \<in> set reqs" "case y of Ib_Place b i x \<Rightarrow> True | _ \<Rightarrow> False"
    unfolding p by (auto simp: list_ex_iff)
  then obtain b i x where x: "Ib_Place b i x \<in> set reqs" by (cases y rule: ib_request.exhaust) auto
  have "list_all paper_account [''U1''] = False" by code_simp
  with live_orders_gated [OF p x] have "set [''U1''] \<subseteq> set (at_allowlist (bc_account sample_live_config)) \<and> bc_live_trading sample_live_config"
    by (simp add: sample_session_def new_ibkr_def sample_live_config_def)
  moreover have "fst (snd (ibkr_place (sample_session [''U2'']) False 5 40 ''17'' sample_limit_plan ?s)) = []" by code_simp
  ultimately show ?thesis using x unfolding p by auto
qed

section \<open>The live client as a broker client\<close>

definition ibkr_place_reply ::
  "ib_session \<Rightarrow> instant \<Rightarrow> uuid \<Rightarrow> string \<Rightarrow> order_plan \<Rightarrow> ibkr \<Rightarrow> (py_error + order_state) \<times> ibkr" where
  "ibkr_place_reply w now oid bid p s = (case ibkr_place w False now oid bid p s of (r, reqs, s') \<Rightarrow> (r, s'))"

text \<open>The abstraction for the contract of \<^verbatim>\<open>Broker_Interface\<close>: the client keeps no orders of its own, only the
  metadata of those it has sent; the order it stands for is the one the client answered then.\<close>

definition ibkr_lookup :: "ibkr \<Rightarrow> string \<Rightarrow> order_state option" where
  "ibkr_lookup s bid = map_option (initial_order bid) (map_of (ik_metadata s) bid)"

lemma mk_order_state_Inr: "mk_order_state x = Inr y \<longleftrightarrow> y = x \<and> os_strategy x \<noteq> [] \<and> 0 < os_quantity x \<and> 0 \<le> os_filled x \<and> 0 < os_limit x"
  by (auto simp: mk_order_state_def)

interpretation ibkr: broker_client "ibkr_place_reply w" ibkr_lookup tick_price
proof unfold_locales
  fix now oid bid p s x s'
  assume "ibkr_place_reply w now oid bid p s = (Inr x, s')"
  then obtain reqs where p: "ibkr_place w False now oid bid p s = (Inr x, reqs, s')"
    by (auto simp: ibkr_place_reply_def split: prod.splits)
  from p show "os_broker_id x = Some bid \<and> ibkr_lookup s' bid = Some x \<and> os_quantity x = op_quantity p
      \<and> os_filled x = 0 \<and> os_side x = op_side p \<and> os_contract x = op_contract p
      \<and> os_limit x = tick_price (op_limit p) \<and> \<not> terminal_status (os_status x)"
  proof (cases rule: ibkr_place_cases)
    case (sent i q limit y m)
    from sent(6) have "x = initial_order bid m" by (auto simp: mk_order_state_Inr dest: sym)
    with sent show ?thesis by (simp add: ibkr_lookup_def initial_order_def plan_meta_def make_ib_order_Inr)
  qed simp
next
  fix now oid bid p s reply s' i
  assume "ibkr_place_reply w now oid bid p s = (reply, s')" "i \<noteq> bid"
  then obtain reqs where p: "ibkr_place w False now oid bid p s = (reply, reqs, s')" and i: "i \<noteq> bid"
    by (auto simp: ibkr_place_reply_def split: prod.splits)
  from p show "ibkr_lookup s' i = ibkr_lookup s i"
    by (cases rule: ibkr_place_cases) (use i in \<open>auto simp: ibkr_lookup_def\<close>)
qed


section \<open>Prices\<close>

text \<open>The tick price is on the grid of its range, and within half a tick of what was asked for.\<close>

lemma tick_price_near: "\<bar>tick_price x - x\<bar> \<le> (if x < 3 then 1/200 else 1/40)"
proof (cases "x < 3")
  case True
  then show ?thesis using py_round_near [of 2 x] by (simp add: tick_price_def)
next
  case False
  have "\<bar>of_int (round_half_even (x * 20)) - x * 20\<bar> \<le> 1/2" by (rule round_half_even_near)
  then have "\<bar>(of_int (round_half_even (x * 20)) - x * 20) / 20\<bar> \<le> 1/40" by (simp add: abs_divide)
  moreover have "(of_int (round_half_even (x * 20)) - x * 20) / 20 = of_int (round_half_even (x * 20)) / 20 - x" by (simp add: field_simps)
  ultimately show ?thesis using False by (simp add: tick_price_def)
qed

lemma tick_price_grid: "\<exists>k. tick_price x = of_int k / (if x < 3 then 100 else 20)"
proof (cases "x < 3")
  case True
  then show ?thesis by (intro exI [of _ "round_half_even (x * 100)"]) (simp add: tick_price_def py_round_def)
qed (auto simp: tick_price_def)

lemma tick_price_pos: "1/200 < x \<Longrightarrow> 0 < tick_price x"
proof -
  assume x: "1/200 < x"
  have "x < 3 \<Longrightarrow> \<bar>tick_price x - x\<bar> \<le> 1/200" "\<not> x < 3 \<Longrightarrow> \<bar>tick_price x - x\<bar> \<le> 1/40"
    using tick_price_near [of x] by auto
  with x show ?thesis by (cases "x < 3") linarith+
qed

section \<open>Properties\<close>

lemma submit_metadata:
  assumes "ibkr.submit w now plan_id oid boid bid i d emergency config algo om s = (r, om', s')" "j \<noteq> bid"
  shows "map_of (ik_metadata s') j = map_of (ik_metadata s) j"
proof (cases "submit_prepare now plan_id oid i d emergency algo om")
  case (Inr pom)
  obtain p om1 where pom: "pom = (p, om1)" by force
  obtain reply reqs where "ibkr_place w False now boid bid p s = (reply, reqs, s')"
    using assms(1) Inr pom by (auto simp: ibkr.submit_def ibkr_place_reply_def split: prod.splits)
  then show ?thesis by (cases rule: ibkr_place_cases) (use assms(2) in simp_all)
qed (use assms(1) in \<open>simp add: ibkr.submit_def\<close>)

text \<open>C16: The order manager and the live client stay in step. After a submission through the live client
  that the order manager accepts, the new order is in error, or it is new, carries the broker's order
  id, and the metadata that the client keeps under that id hold the order's quantity, side and contract
  and the tick price of its limit, at most two and a half cents away; the metadata under other ids are
  what they were. In the first case nothing is said of the client: an order whose limit rounds to
  zero is in error after it has been sent (\<open>zero_price_sent_then_refused\<close>).\<close>

theorem live_submission_in_step:
  assumes "om_ok om" "map_of (om_orders om) oid = None" "bid \<noteq> []"
    and "ibkr.submit w now plan_id oid boid bid i d emergency config algo om s = (Inr (), om', s')"
  shows "(\<exists>o'. map_of (om_orders om') oid = Some o'
    \<and> (os_status o' = ERROR \<or>
       (os_status o' = NEW \<and> os_broker_id o' = Some bid \<and> (\<exists>m. map_of (ik_metadata s') bid = Some m
          \<and> mt_quantity m = os_quantity o' \<and> mt_side m = os_side o' \<and> mt_contract m = os_contract o'
          \<and> mt_limit m = tick_price (os_limit o') \<and> \<bar>mt_limit m - os_limit o'\<bar> \<le> 1/40))))
    \<and> (\<forall>j. j \<noteq> bid \<longrightarrow> map_of (ik_metadata s') j = map_of (ik_metadata s) j)"
proof -
  have near: "\<bar>tick_price x - x\<bar> \<le> 1/40" for x using tick_price_near [of x] by (auto split: if_splits)
  have others: "\<forall>j. j \<noteq> bid \<longrightarrow> map_of (ik_metadata s') j = map_of (ik_metadata s) j"
    using submit_metadata [OF assms(4)] by blast
  from ibkr.submit_in_step [OF assms] obtain o' where o': "map_of (om_orders om') oid = Some o'"
    "os_status o' = ERROR \<or> (\<exists>bo. os_broker_id o' = Some bid \<and> ibkr_lookup s' bid = Some bo \<and> os_status bo = os_status o'
       \<and> os_quantity bo = os_quantity o' \<and> os_side bo = os_side o' \<and> os_contract bo = os_contract o'
       \<and> os_limit bo = tick_price (os_limit o'))" by blast
  from o'(2) have "os_status o' = ERROR \<or> (os_status o' = NEW \<and> os_broker_id o' = Some bid \<and> (\<exists>m. map_of (ik_metadata s') bid = Some m
          \<and> mt_quantity m = os_quantity o' \<and> mt_side m = os_side o' \<and> mt_contract m = os_contract o'
          \<and> mt_limit m = tick_price (os_limit o')))"
    by (auto simp: ibkr_lookup_def initial_order_def)
  with o'(1) near others show ?thesis by metis
qed

theorem live_submission_in_step_witness:
  "let r = ibkr.submit (sample_session [''DU1'']) 8 30 31 40 ''17'' (sample_intent (Some 2)) sample_approval False None None
       sample_submitted (new_ibkr default_broker_config new_store)
   in map_option os_status (map_of (om_orders (fst (snd r))) 31) = Some NEW
      \<and> map_option mt_quantity (map_of (ik_metadata (snd (snd r))) ''17'') = map_option os_quantity (map_of (om_orders (fst (snd r))) 31)"
proof -
  let ?r = "ibkr.submit (sample_session [''DU1'']) 8 30 31 40 ''17'' (sample_intent (Some 2)) sample_approval False None None
       sample_submitted (new_ibkr default_broker_config new_store)"
  have ok: "om_ok sample_submitted" by (rule orders.inv_reachable [OF refl sample_submitted_reachable])
  have n: "map_of (om_orders sample_submitted) 31 = None" by code_simp
  have e: "fst ?r = Inr () \<and> map_option os_status (map_of (om_orders (fst (snd ?r))) 31) = Some NEW"
    unfolding ibkr.submit_def by code_simp
  obtain om' s' where r: "?r = (Inr (), om', s')" using e by (cases ?r) auto
  from live_submission_in_step [OF ok n _ r] e show ?thesis unfolding r Let_def by auto
qed

text \<open>An order that should go to the market in an emergency never leaves: the order manager makes a market order
  of it and hands it on without saying that it is an emergency, so the live client refuses it.\<close>

lemma emergency_order_errors:
  assumes "ibkr.submit w now plan_id oid boid bid i d True config algo om s = (Inr (), om', s')"
  shows "map_option os_status (map_of (om_orders om') oid) = Some ERROR"
proof -
  obtain p om1 where s: "submit_prepare now plan_id oid i d True algo om = Inr (p, om1)"
    using assms by (auto simp: ibkr.submit_def split: sum.splits)
  then have "op_order_type p = ''MKT''"
    by (auto simp: submit_prepare_def mk_plan_def intent_plan_def try_bind_eq_Inr Let_def split: if_splits option.splits)
  obtain reply where pl: "ibkr_place_reply w now boid bid p s = (reply, s')"
    and om': "om' = submit_complete now oid True config reply om1"
    using assms s by (auto simp: ibkr.submit_def split: prod.splits)
  from pl obtain reqs where "ibkr_place w False now boid bid p s = (reply, reqs, s')"
    by (auto simp: ibkr_place_reply_def split: prod.splits)
  then obtain e where "reply = Inl e"
  proof (cases rule: ibkr_place_cases)
    case (sent j q limit x m)
    with \<open>op_order_type p = ''MKT''\<close> show ?thesis by (simp add: make_ib_order_Inr)
  qed
  with om' submit_prepare_Inr [OF s] show ?thesis by (auto simp: submit_complete_def set_status_def)
qed

text \<open>The check at routing time looks at the configured account, not at the one that is connected.\<close>

lemma routing_gate_trusts_configured_account:
  "routing_gate (default_broker_config\<lparr>bc_live_trading := True,
      bc_account := \<lparr>at_account_id = ''U1'', at_allowlist = [''U1'']\<rparr>\<rparr>) (Some live_token) [''U999''] = None"
  by code_simp

text \<open>An amendment looks at no account, no switch and no allow list: whatever the configuration, a working
  order is amended.\<close>

lemma amendments_are_not_gated:
  assumes "List.find (\<lambda>t. trade_key t = bid) trades = Some t" "\<not> it_done t"
    and "it_status t \<notin> {''PendingCancel'', ''ApiCancelled'', ''Cancelled'', ''Inactive''}"
  shows "\<exists>s'. ibkr_modify True trades bid limit s = (Inr True, [Ib_Amend bid (it_contract t) (tick_price limit)], s')"
  using assms by (simp add: ibkr_modify_def)

text \<open>A price that rounds to nothing is sent all the same; only then does the constructor of the order raise.\<close>

lemma zero_price_sent_then_refused:
  assumes "ss_up w" "routing_gate (ik_config s) (ss_env w) (ss_accounts w) = None"
    and "map_of (ik_qualified s) (contract_cache_key (op_contract p)) = Some i"
    and "op_order_type p = ''LMT''" "0 < op_limit p" "op_limit p \<le> 1/200"
  shows "\<exists>e x s'. ibkr_place w False now oid bid p s = (Inl e, [Ib_Place bid i x], s')"
proof -
  have f: "\<lfloor>op_limit p * 100\<rfloor> = 0" using assms(5,6) by (simp add: floor_eq_iff)
  then have "round_half_even (op_limit p * 100) = 0" using assms(6) by (simp add: round_half_even_def Let_def)
  then have "tick_price (op_limit p) = 0" using assms(6) by (simp add: tick_price_def py_round_def)
  with assms show ?thesis
    by (auto simp: ibkr_place_def qualify_option_contract_def make_ib_order_def Let_def mk_order_state_def initial_order_def plan_meta_def)
qed

text \<open>Without metadata and with it, an order read back from the broker is called an entry.\<close>

lemma order_read_back_is_entry:
  "to_internal_order_state now oid plan_id t meta = Inr o' \<Longrightarrow> os_is_entry o'"
  by (auto simp: to_internal_order_state_def try_bind_eq_Inr mk_order_state_Inr)

text \<open>What a holding of the broker must be for the query to answer.\<close>

definition reportable :: "ib_position \<Rightarrow> bool" where
  "reportable p \<longleftrightarrow> \<not> isl (from_ib_contract (ip_contract p)) \<and> py_int (ip_position p) \<noteq> 0 \<and> 0 < ip_avg_cost p"

lemma from_ib_multiplier: "from_ib_contract i = Inr c \<Longrightarrow> oc_multiplier c = 100"
  by (auto simp: from_ib_contract_def Let_def split: if_splits)

lemma broker_position_reportable:
  "reportable p \<Longrightarrow> \<exists>q. broker_position now a b p = Inr q \<and> from_ib_contract (ip_contract p) = Inr (ps_contract q)
     \<and> side_sign (ps_side q) * ps_quantity q = py_int (ip_position p) \<and> ps_avg_entry q = ip_avg_cost p / 100 \<and> 0 < ps_quantity q"
  "\<not> reportable p \<Longrightarrow> isl (broker_position now a b p)"
  by (cases "from_ib_contract (ip_contract p)";
      auto simp: reportable_def broker_position_def Let_def from_ib_multiplier divide_le_0_iff side_sign_def)+

text \<open>A flat row, a holding of zero contracts, makes the whole query raise: the seeding of positions never
  sees it, although a comment there (\<^verbatim>\<open>src/app/runner.py\<close>, line 1780) says that it is what is skipped.\<close>

lemma flat_row_fails_query:
  "ip_position p = 0 \<Longrightarrow> p \<in> set ps \<Longrightarrow> isl (ibkr_get_positions up now fresh ps)"
proof -
  assume p: "ip_position p = 0" "p \<in> set ps"
  have "isl (broker_positions now fresh k ps)" for k
    using p(2)
  proof (induction ps arbitrary: k)
    case (Cons q ps)
    have "\<not> reportable q" if "q = p" using that p(1) by (simp add: reportable_def py_int_def)
    with Cons show ?case using broker_position_reportable(2) [of q now "fresh k" "fresh (Suc k)"] Cons.IH [of "Suc (Suc k)"]
      by (cases "broker_position now (fresh k) (fresh (Suc k)) q"; cases "broker_positions now fresh (Suc (Suc k)) ps") auto
  qed simp
  then show ?thesis by (simp add: ibkr_get_positions_def)
qed

text \<open>C18: What the live client reports of the account's positions. The query raises exactly when the client is
  disconnected or some holding is not a valid option, has no whole contract (a flat row included), or
  cost nothing; otherwise it answers one open position per holding, in order, with the contract
  converted, the holding as its signed quantity and the cost per share. So no flat row ever reaches the
  seeding: the comment at line 1780 of \<^verbatim>\<open>src/app/runner.py\<close>, that such rows are reported and skipped
  there, does not describe the code.\<close>

theorem positions_all_or_nothing:
  "(isl (ibkr_get_positions up now fresh ps) \<longleftrightarrow> \<not> (up \<and> list_all reportable ps))
   \<and> (case ibkr_get_positions up now fresh ps of Inl _ \<Rightarrow> True | Inr qs \<Rightarrow>
        map (\<lambda>q. (Inr (ps_contract q), side_sign (ps_side q) * ps_quantity q, ps_avg_entry q, ps_status q)) qs
        = map (\<lambda>p. (from_ib_contract (ip_contract p), py_int (ip_position p), ip_avg_cost p / 100, OPEN)) ps)"
proof -
  have open_status: "broker_position now a b p = Inr q \<Longrightarrow> ps_status q = OPEN" for a b p q
    by (auto simp: broker_position_def try_bind_eq_Inr Let_def split: if_splits)
  have bad: "\<not> list_all reportable ps \<Longrightarrow> isl (broker_positions now fresh k ps)" for k
  proof (induction ps arbitrary: k)
    case (Cons p ps)
    then show ?case using broker_position_reportable(2) [of p now "fresh k" "fresh (Suc k)"] Cons.IH [of "Suc (Suc k)"]
      by (cases "broker_position now (fresh k) (fresh (Suc k)) p"; cases "broker_positions now fresh (Suc (Suc k)) ps") auto
  qed simp
  have good: "list_all reportable ps \<Longrightarrow> \<exists>qs. broker_positions now fresh k ps = Inr qs \<and>
      map (\<lambda>q. (Inr (ps_contract q), side_sign (ps_side q) * ps_quantity q, ps_avg_entry q, ps_status q)) qs
      = map (\<lambda>p. (from_ib_contract (ip_contract p), py_int (ip_position p), ip_avg_cost p / 100, OPEN)) ps" for k
  proof (induction ps arbitrary: k)
    case (Cons p ps)
    then obtain q where q: "broker_position now (fresh k) (fresh (Suc k)) p = Inr q" "from_ib_contract (ip_contract p) = Inr (ps_contract q)"
      "side_sign (ps_side q) * ps_quantity q = py_int (ip_position p)" "ps_avg_entry q = ip_avg_cost p / 100"
      using broker_position_reportable(1) [of p now "fresh k" "fresh (Suc k)"] by auto
    moreover obtain qs where "broker_positions now fresh (k + 2) ps = Inr qs" and
      "map (\<lambda>q. (Inr (ps_contract q), side_sign (ps_side q) * ps_quantity q, ps_avg_entry q, ps_status q)) qs
      = map (\<lambda>p. (from_ib_contract (ip_contract p), py_int (ip_position p), ip_avg_cost p / 100, OPEN)) ps"
      using Cons by fastforce
    ultimately show ?case using open_status [OF q(1)] by (intro exI [of _ "q # qs"]) simp
  qed simp
  show ?thesis
  proof (cases "up \<and> list_all reportable ps")
    case True
    then obtain qs where "ibkr_get_positions up now fresh ps = Inr qs" and
      "map (\<lambda>q. (Inr (ps_contract q), side_sign (ps_side q) * ps_quantity q, ps_avg_entry q, ps_status q)) qs
      = map (\<lambda>p. (from_ib_contract (ip_contract p), py_int (ip_position p), ip_avg_cost p / 100, OPEN)) ps"
      using good [of 0] by (auto simp: ibkr_get_positions_def)
    with True show ?thesis by simp
  next
    case False
    then have "isl (ibkr_get_positions up now fresh ps)" using bad [of 0] by (auto simp: ibkr_get_positions_def)
    then obtain e where "ibkr_get_positions up now fresh ps = Inl e" by (cases "ibkr_get_positions up now fresh ps") auto
    with False show ?thesis by auto
  qed
qed

text \<open>The reconnect task tries at most as often as configured, and says it has given up also when it found
  the socket up again.\<close>

lemma reconnect_outcome:
  "reconnect_loop is_up attempt k left = r \<Longrightarrow> (case r of
      Reconnected n \<Rightarrow> k < n \<and> n \<le> k + left \<and> attempt n \<and> (\<forall>j. k < j \<and> j < n \<longrightarrow> \<not> attempt j)
    | Gave_Up n \<Rightarrow> k \<le> n \<and> n \<le> k + left \<and> (n = k + left \<or> is_up n) \<and> (\<forall>j. k < j \<and> j \<le> n \<longrightarrow> \<not> attempt j))"
proof (induction left arbitrary: k)
  case (Suc left)
  show ?case
  proof (cases "is_up k \<or> attempt (Suc k)")
    case True
    with Suc.prems show ?thesis by (auto split: if_splits)
  next
    case False
    with Suc.prems Suc.IH [of "Suc k"] show ?thesis
      by (auto split: reconnect_end.splits) (metis Suc_lessI)+
  qed
qed auto

end
