(* ===== verification/Ibkr_Quotes.thy ===== *)
theory Ibkr_Quotes
  imports Ibkr_Broker
begin

text \<open>
  The market data half of \<^verbatim>\<open>src/broker/ibkr_broker.py\<close>: quotes from streaming subscriptions with their
  eviction, the handler of ticker updates that feeds the bar builder, and the snapshots of
  \<^verbatim>\<open>src/marketdata/chain_log.py\<close>. \<open>get_quotes\<close> is cut at its awaits into \<open>quotes_lookup\<close>, \<open>quotes_adopt\<close>,
  \<open>quotes_subscribe\<close> and \<open>quotes_read\<close>; other operations of the client may run in between. What a live
  ticker shows is an argument. \<open>to_evict\<close> is a set whose order of iteration is unspecified; here the idle
  symbols come first.
\<close>

section \<open>Tickers\<close>

record ib_ticker =
  tk_bid :: "pyfloat option"
  tk_ask :: "pyfloat option"
  tk_last :: "pyfloat option"
  tk_volume :: "pyfloat option"
  tk_greeks :: "pyfloat option option" \<comment> \<open>\<open>modelGreeks\<close> and its delta\<close>
  tk_close :: "pyfloat option"
  tk_time :: "datetime option"

text \<open>The library shows a missing value as a negative number.\<close>

definition shown :: "pyfloat option \<Rightarrow> pyfloat option" where
  "shown v = (case v of Some x \<Rightarrow> if 0 \<le> x then Some x else None | None \<Rightarrow> None)"

definition ticker_quote :: "quote_key \<Rightarrow> datetime \<Rightarrow> ib_ticker \<Rightarrow> py_error + quote_snapshot" where
  "ticker_quote key ts t = mk_quote \<lparr>q_symbol = key, q_bid = shown (tk_bid t), q_ask = shown (tk_ask t),
     q_last = shown (tk_last t), q_volume = map_option py_int (shown (tk_volume t)),
     q_delta = Option.bind (tk_greeks t) (\<lambda>d. d), q_close = shown (tk_close t), q_timestamp = ts\<rparr>"

definition ticker_time :: "instant \<Rightarrow> ib_ticker \<Rightarrow> datetime" where
  "ticker_time now t = (case tk_time t of None \<Rightarrow> utc now
     | Some d \<Rightarrow> if is_naive d then Aware (wall_clock d) 0 else d)"

section \<open>Requesting quotes\<close>

definition quotes_lookup ::
  "bool \<Rightarrow> quote_key list \<Rightarrow> ibkr \<Rightarrow> py_error + ((quote_key \<times> ib_contract) list \<times> (quote_key \<times> ib_contract) list)" where
  "quotes_lookup up keys s =
     (if \<not> up then Inl (Connection_Error ''Cannot fetch quotes: Broker client is disconnected.'')
      else Inr (List.map_filter (\<lambda>k. map_option (Pair k) (map_of (ik_by_symbol s) k)) keys,
                map (\<lambda>k. (k, contract_of_symbol k)) (filter (\<lambda>k. map_of (ik_by_symbol s) k = None) keys)))"

text \<open>Each of the concurrent qualifications ends with an exception or an answer.\<close>

fun quotes_adopt ::
  "((quote_key \<times> ib_contract) \<times> (py_error + ib_contract option list)) list \<Rightarrow> ibkr \<Rightarrow> (quote_key \<times> ib_contract) list \<times> ibkr" where
  "quotes_adopt [] s = ([], s)"
| "quotes_adopt (((k, _), Inr (Some i # _)) # rs) s =
     (case quotes_adopt rs (s\<lparr>ik_by_symbol := AList.update k i (ik_by_symbol s)\<rparr>) of (ps, s') \<Rightarrow> ((k, i) # ps, s'))"
| "quotes_adopt (_ # rs) s = quotes_adopt rs s"

definition subscribe_one :: "pyfloat \<Rightarrow> quote_key \<Rightarrow> ib_contract \<Rightarrow> ibkr \<Rightarrow> ib_request list \<times> ibkr" where
  "subscribe_one clk k i s =
     (case map_of (ik_tickers s) k of
        None \<Rightarrow> ([Ib_Market_Data i], s\<lparr>ik_tickers := AList.update k i (ik_tickers s),
                   ik_last_access := AList.update k clk (ik_last_access s)\<rparr>)
      | Some _ \<Rightarrow> ([], s\<lparr>ik_last_access := AList.update k clk (ik_last_access s)\<rparr>))"

fun quotes_subscribe :: "pyfloat \<Rightarrow> (quote_key \<times> ib_contract) list \<Rightarrow> ibkr \<Rightarrow> ib_request list \<times> ibkr" where
  "quotes_subscribe clk [] s = ([], s)"
| "quotes_subscribe clk ((k, i) # ps) s = (case subscribe_one clk k i s of (r1, s1) \<Rightarrow>
     (case quotes_subscribe clk ps s1 of (r2, s2) \<Rightarrow> (r1 @ r2, s2)))"

text \<open>The warm-up polls at most twenty times for every new ticker to show something.\<close>

definition warm :: "ib_ticker \<Rightarrow> bool" where
  "warm t \<longleftrightarrow> shown (tk_bid t) \<noteq> None \<or> shown (tk_ask t) \<noteq> None \<or> shown (tk_last t) \<noteq> None"

fun warm_up :: "(nat \<Rightarrow> ib_ticker list) \<Rightarrow> nat \<Rightarrow> nat \<Rightarrow> nat" where
  "warm_up tickers k 0 = k"
| "warm_up tickers k (Suc left) = (if list_all warm (tickers k) then k else warm_up tickers (Suc k) left)"

definition warm_up_polls :: "(nat \<Rightarrow> ib_ticker list) \<Rightarrow> nat" where
  "warm_up_polls tickers = (if tickers 0 = [] then 0 else warm_up tickers 0 20)"

section \<open>Eviction\<close>

definition max_streaming :: nat where
  "max_streaming = 80"

definition idle_evict_seconds :: pyfloat where
  "idle_evict_seconds = 600"

definition evictable :: "ibkr \<Rightarrow> (quote_key \<times> pyfloat) list" where
  "evictable s = filter (\<lambda>(k, _). k \<notin> ik_pinned s \<and> map_of (ik_tickers s) k \<noteq> None) (ik_last_access s)"

definition idle_symbols :: "pyfloat \<Rightarrow> ibkr \<Rightarrow> quote_key list" where
  "idle_symbols clk s = remdups (map fst (filter (\<lambda>(_, l). idle_evict_seconds < clk - l) (evictable s)))"

definition overflow_symbols :: "pyfloat \<Rightarrow> ibkr \<Rightarrow> quote_key list" where
  "overflow_symbols clk s =
     (let idle = idle_symbols clk s; live = length (ik_tickers s) - length idle
      in if max_streaming < live
         then map fst (take (live - max_streaming)
                (sort_key snd (filter (\<lambda>(k, _). k \<notin> set idle) (evictable s))))
         else [])"

definition drop_symbol :: "quote_key \<Rightarrow> ibkr \<Rightarrow> ib_request list \<times> ibkr" where
  "drop_symbol k s = ((case map_of (ik_tickers s) k of Some i \<Rightarrow> [Ib_Cancel_Data i] | None \<Rightarrow> []),
     s\<lparr>ik_tickers := AList.delete k (ik_tickers s), ik_last_access := AList.delete k (ik_last_access s)\<rparr>)"

fun drop_symbols :: "quote_key list \<Rightarrow> ibkr \<Rightarrow> ib_request list \<times> ibkr" where
  "drop_symbols [] s = ([], s)"
| "drop_symbols (k # ks) s = (case drop_symbol k s of (r1, s1) \<Rightarrow>
     (case drop_symbols ks s1 of (r2, s2) \<Rightarrow> (r1 @ r2, s2)))"

definition evict_idle_subscriptions :: "pyfloat \<Rightarrow> ibkr \<Rightarrow> ib_request list \<times> ibkr" where
  "evict_idle_subscriptions clk s = drop_symbols (idle_symbols clk s @ overflow_symbols clk s) s"

section \<open>Chain snapshots\<close>

definition chain_throttle :: pyfloat where
  "chain_throttle = 5"

definition falsy_or :: "pyfloat option \<Rightarrow> pyfloat option \<Rightarrow> pyfloat option" where
  "falsy_or a b = (case a of None \<Rightarrow> b | Some x \<Rightarrow> if x = 0 then b else Some x)"

definition underlying_mid :: "(quote_key, quote_snapshot) pydict \<Rightarrow> pyfloat option" where
  "underlying_mid quotes = (case map_of quotes (Symbol_Key ''XSP'') of None \<Rightarrow> None
     | Some u \<Rightarrow> (case (q_bid u, q_ask u) of (Some b, Some a) \<Rightarrow> Some ((b + a) / 2) | _ \<Rightarrow> falsy_or (q_last u) (q_close u)))"

definition due_snapshots :: "(quote_key, quote_snapshot) pydict \<Rightarrow> pyfloat \<Rightarrow> ibkr \<Rightarrow> (quote_key \<times> quote_snapshot) list" where
  "due_snapshots quotes clk s = filter (\<lambda>(k, _). CHR '' '' \<in> set (symbol_text k)
     \<and> \<not> clk - dict_default (ik_chain_last s) k 0 < chain_throttle) quotes"

definition chain_row_of :: "pyfloat option \<Rightarrow> quote_key \<times> quote_snapshot \<Rightarrow> chain_row" where
  "chain_row_of u kq = (case kq of (k, q) \<Rightarrow> \<lparr>cr_time = q_timestamp q, cr_symbol = k, cr_bid = q_bid q, cr_ask = q_ask q,
     cr_last = q_last q, cr_delta = q_delta q, cr_underlying_mid = map_option (py_round 4) u\<rparr>)"

text \<open>The file is that of the day of the first row in New York; a failing write is swallowed.\<close>

definition chain_record :: "zone \<Rightarrow> bool \<Rightarrow> (quote_key, quote_snapshot) pydict \<Rightarrow> pyfloat \<Rightarrow> ibkr \<Rightarrow> ibkr" where
  "chain_record ny writes_ok quotes clk s =
     (let due = due_snapshots quotes clk s;
          s1 = s\<lparr>ik_chain_last := fold (\<lambda>(k, _). AList.update k clk) due (ik_chain_last s)\<rparr>
      in case due of [] \<Rightarrow> s1
         | (_, q) # _ \<Rightarrow>
             (let t = assume_utc (q_timestamp q); day = expiry_text ((t + ny t) div us_per_day)
              in if writes_ok then s1\<lparr>ik_chain_rows := ik_chain_rows s @ map (\<lambda>kq. (day, chain_row_of (underlying_mid quotes) kq)) due\<rparr>
                 else s1))"

fun read_tickers ::
  "instant \<Rightarrow> (quote_key \<Rightarrow> ib_ticker) \<Rightarrow> quote_key list \<Rightarrow> (quote_key, quote_snapshot) pydict
     \<Rightarrow> py_error + (quote_key, quote_snapshot) pydict" where
  "read_tickers now reading [] d = Inr d"
| "read_tickers now reading (k # ks) d =
     try_bind (ticker_quote k (ticker_time now (reading k)) (reading k)) (\<lambda>q. read_tickers now reading ks (AList.update k q d))"

definition quotes_read ::
  "zone \<Rightarrow> bool \<Rightarrow> instant \<Rightarrow> pyfloat \<Rightarrow> (quote_key \<Rightarrow> ib_ticker) \<Rightarrow> quote_key list \<Rightarrow> ibkr
     \<Rightarrow> (py_error + (quote_key, quote_snapshot) pydict) \<times> ib_request list \<times> ibkr" where
  "quotes_read ny writes_ok now clk reading keys s =
     (case evict_idle_subscriptions clk s of (reqs, s1) \<Rightarrow>
        (case read_tickers now reading keys [] of Inl e \<Rightarrow> (Inl e, reqs, s1)
         | Inr d \<Rightarrow> (Inr d, reqs, chain_record ny writes_ok d clk s1)))"

section \<open>Ticker updates\<close>

definition bar_price :: "ib_contract \<Rightarrow> ib_ticker \<Rightarrow> pyfloat option" where
  "bar_price i t = (case shown (tk_last t) of Some p \<Rightarrow> Some p
     | None \<Rightarrow> if ic_sec_type i = ''IND'' then
         (case (shown (tk_bid t), shown (tk_ask t)) of (Some b, Some a) \<Rightarrow> Some ((b + a) / 2) | _ \<Rightarrow> None)
       else None)"

text \<open>What one ticker update makes of the bars: the price fed to them, if any, and the new state.\<close>

definition feed_bar :: "zone \<Rightarrow> instant \<Rightarrow> quote_key \<Rightarrow> pyfloat option \<Rightarrow> datetime option \<Rightarrow> ibkr \<Rightarrow> pyfloat option \<times> ibkr" where
  "feed_bar ny now key price ts s =
     (if price \<noteq> None \<and> price \<noteq> map_of (ik_last_tick s) key
      then (price, s\<lparr>ik_last_tick := AList.update key (the price) (ik_last_tick s),
                     ik_bars := on_tick ny now key price ts (ik_bars s)\<rparr>)
      else (None, s))"

definition on_ticker :: "zone \<Rightarrow> instant \<Rightarrow> ib_contract option \<Rightarrow> ib_ticker \<Rightarrow> ibkr \<Rightarrow> ibkr_call list \<times> ibkr" where
  "on_ticker ny now contract t s =
     (case contract of None \<Rightarrow> ([], s)
      | Some i \<Rightarrow>
          (case feed_bar ny now (internal_symbol i) (bar_price i t) (tk_time t) s of (fed, s1) \<Rightarrow>
             (case ticker_quote (internal_symbol i) (utc now) t of Inl _ \<Rightarrow> ([], s1) | Inr q \<Rightarrow> ([Quote_Callback q], s1))))"

fun on_pending_ticker :: "zone \<Rightarrow> instant \<Rightarrow> (ib_contract option \<times> ib_ticker) list \<Rightarrow> ibkr \<Rightarrow> ibkr_call list \<times> ibkr" where
  "on_pending_ticker ny now [] s = ([], s)"
| "on_pending_ticker ny now ((i, t) # ts) s = (case on_ticker ny now i t s of (c1, s1) \<Rightarrow>
     (case on_pending_ticker ny now ts s1 of (c2, s2) \<Rightarrow> (c1 @ c2, s2)))"

definition ibkr_latest_bar :: "zone \<Rightarrow> instant \<Rightarrow> quote_key \<Rightarrow> ibkr \<Rightarrow> bar option \<times> ibkr" where
  "ibkr_latest_bar ny clock key s = (case get_latest_completed_bar ny clock key None (ik_bars s) of
     (b, bb) \<Rightarrow> (b, s\<lparr>ik_bars := bb\<rparr>))"

definition ibkr_completed_bars :: "zone \<Rightarrow> instant \<Rightarrow> quote_key \<Rightarrow> int \<Rightarrow> ibkr \<Rightarrow> bar list \<times> ibkr" where
  "ibkr_completed_bars ny clock key k s = (case get_completed_bars ny clock key k None (ik_bars s) of
     (bs, bb) \<Rightarrow> (bs, s\<lparr>ik_bars := bb\<rparr>))"


section \<open>Eviction keeps the bound\<close>

definition streaming_ok :: "ibkr \<Rightarrow> bool" where
  "streaming_ok s \<longleftrightarrow> wf_dict (ik_tickers s) \<and> wf_dict (ik_last_access s)
     \<and> set (dict_keys (ik_tickers s)) = set (dict_keys (ik_last_access s))"

lemma map_of_None_keys: "map_of d k = None \<longleftrightarrow> k \<notin> set (dict_keys d)"
  by (simp add: dict_keys_def map_of_eq_None_iff)

lemma length_without:
  assumes "wf_dict d" "distinct ks" "set ks \<subseteq> set (dict_keys d)"
  shows "length (filter (\<lambda>p. fst p \<notin> set ks) d) = length d - length ks"
proof -
  have dist: "distinct (map fst d)" using assms(1) by (simp add: wf_dict_def)
  have "length (filter (\<lambda>p. fst p \<notin> set ks) d) = length (filter (\<lambda>k. k \<notin> set ks) (map fst d))"
    by (simp add: filter_map comp_def)
  also have "\<dots> = card (set (filter (\<lambda>k. k \<notin> set ks) (map fst d)))"
    using dist by (intro distinct_card [symmetric] distinct_filter)
  also have "set (filter (\<lambda>k. k \<notin> set ks) (map fst d)) = set (map fst d) - set ks" by auto
  also have "card (set (map fst d) - set ks) = card (set (map fst d)) - card (set ks)"
    using assms(3) by (intro card_Diff_subset) (simp_all add: dict_keys_def)
  finally show ?thesis using dist assms(2) by (metis distinct_card length_map)
qed

lemma delete_filter: "AList.delete k d = filter (\<lambda>p. fst p \<noteq> k) d"
  by (induction d) auto

lemma dict_keys_without: "dict_keys (filter (\<lambda>p. fst p \<notin> K) d) = filter (\<lambda>k. k \<notin> K) (dict_keys d)"
  by (simp add: dict_keys_def filter_map comp_def)

lemma drop_symbols_effect:
  "ik_tickers (snd (drop_symbols ks s)) = filter (\<lambda>p. fst p \<notin> set ks) (ik_tickers s)
   \<and> ik_last_access (snd (drop_symbols ks s)) = filter (\<lambda>p. fst p \<notin> set ks) (ik_last_access s)
   \<and> ik_pinned (snd (drop_symbols ks s)) = ik_pinned s \<and> ik_metadata (snd (drop_symbols ks s)) = ik_metadata s
   \<and> ik_statuses (snd (drop_symbols ks s)) = ik_statuses s \<and> ik_seen_execs (snd (drop_symbols ks s)) = ik_seen_execs s
   \<and> ik_last_tick (snd (drop_symbols ks s)) = ik_last_tick s"
proof (induction ks arbitrary: s)
  case (Cons k ks)
  show ?case
    using Cons.IH [of "snd (drop_symbol k s)"]
    by (simp add: drop_symbol_def split_beta delete_filter)
qed simp

text \<open>What is evictable: the unpinned subscriptions with their times of access.\<close>

lemma evictable_ok:
  assumes "streaming_ok s"
  shows "evictable s = filter (\<lambda>p. fst p \<notin> ik_pinned s) (ik_last_access s)"
    and "distinct (map fst (evictable s))"
proof -
  have "k \<in> set (dict_keys (ik_tickers s))" if "(k, l) \<in> set (ik_last_access s)" for k l
    using assms that by (force simp: streaming_ok_def dict_keys_def)
  then show "evictable s = filter (\<lambda>p. fst p \<notin> ik_pinned s) (ik_last_access s)"
    unfolding evictable_def by (intro filter_cong) (auto simp: map_of_None_keys)
  then show "distinct (map fst (evictable s))"
    using assms by (simp add: streaming_ok_def wf_dict_def distinct_map_filter)
qed

definition survivors :: "pyfloat \<Rightarrow> ibkr \<Rightarrow> (quote_key \<times> pyfloat) list" where
  "survivors clk s = sort_key snd (filter (\<lambda>p. fst p \<notin> set (idle_symbols clk s)) (evictable s))"

lemma idle_symbols_ok:
  assumes "streaming_ok s"
  shows "distinct (idle_symbols clk s)"
    and "k \<in> set (idle_symbols clk s) \<longleftrightarrow> (\<exists>l. (k, l) \<in> set (evictable s) \<and> idle_evict_seconds < clk - l)"
  by (force simp: idle_symbols_def)+

lemma survivors_ok:
  assumes "streaming_ok s"
  shows "sorted (map snd (survivors clk s))" "distinct (map fst (survivors clk s))"
    and "set (survivors clk s) = {p \<in> set (evictable s). fst p \<notin> set (idle_symbols clk s)}"
    and "length (survivors clk s) = length (evictable s) - length (idle_symbols clk s)"
proof -
  let ?E = "filter (\<lambda>p. fst p \<notin> set (idle_symbols clk s)) (evictable s)"
  show "sorted (map snd (survivors clk s))" by (simp add: survivors_def)
  have "mset (map fst (survivors clk s)) = mset (map fst ?E)" by (simp add: survivors_def)
  moreover have "distinct (map fst ?E)" using evictable_ok(2) [OF assms] by (simp add: distinct_map_filter)
  ultimately show "distinct (map fst (survivors clk s))" by (rule mset_eq_imp_distinct_iff [THEN iffD2])
  show "set (survivors clk s) = {p \<in> set (evictable s). fst p \<notin> set (idle_symbols clk s)}"
    by (auto simp: survivors_def)
  have "set (idle_symbols clk s) \<subseteq> set (dict_keys (evictable s))"
    using idle_symbols_ok(2) [OF assms] by (force simp: dict_keys_def)
  then show "length (survivors clk s) = length (evictable s) - length (idle_symbols clk s)"
    using length_without [of "evictable s" "idle_symbols clk s"] evictable_ok(2) [OF assms] idle_symbols_ok(1) [OF assms]
    by (simp add: survivors_def wf_dict_def)
qed

lemma overflow_symbols_survivors:
  "overflow_symbols clk s = map fst (take (length (ik_tickers s) - length (idle_symbols clk s) - max_streaming) (survivors clk s))"
proof -
  have "(\<lambda>(k, _). k \<notin> set (idle_symbols clk s)) = (\<lambda>p :: quote_key \<times> pyfloat. fst p \<notin> set (idle_symbols clk s))" by auto
  then show ?thesis by (simp add: overflow_symbols_def survivors_def Let_def)
qed

lemma evicted_ok:
  assumes "streaming_ok s"
  shows "distinct (idle_symbols clk s @ overflow_symbols clk s)"
    and "set (idle_symbols clk s @ overflow_symbols clk s) \<subseteq> set (dict_keys (ik_tickers s)) - ik_pinned s"
proof -
  have ov: "k \<in> set (overflow_symbols clk s) \<Longrightarrow> \<exists>l. (k, l) \<in> set (survivors clk s)" for k
    unfolding overflow_symbols_survivors by (auto dest!: in_set_takeD)
  then have ov': "k \<in> set (overflow_symbols clk s) \<Longrightarrow> k \<notin> set (idle_symbols clk s) \<and> (\<exists>l. (k, l) \<in> set (evictable s))" for k
    unfolding survivors_ok(3) [OF assms] by fastforce
  have e: "(k, l) \<in> set (evictable s) \<Longrightarrow> k \<in> set (dict_keys (ik_last_access s)) \<and> k \<notin> ik_pinned s" for k l
    unfolding evictable_ok(1) [OF assms] by (force simp: dict_keys_def)
  have k: "set (dict_keys (ik_tickers s)) = set (dict_keys (ik_last_access s))" using assms by (simp add: streaming_ok_def)
  show "set (idle_symbols clk s @ overflow_symbols clk s) \<subseteq> set (dict_keys (ik_tickers s)) - ik_pinned s"
    unfolding k using ov' e idle_symbols_ok(2) [OF assms, of _ clk] by auto
  have "distinct (overflow_symbols clk s)"
    unfolding overflow_symbols_survivors using survivors_ok(2) [OF assms] by (simp add: take_map [symmetric])
  then show "distinct (idle_symbols clk s @ overflow_symbols clk s)"
    using idle_symbols_ok(1) [OF assms] ov' by auto
qed

lemma evict_effect:
  "ik_tickers (snd (evict_idle_subscriptions clk s))
     = filter (\<lambda>p. fst p \<notin> set (idle_symbols clk s @ overflow_symbols clk s)) (ik_tickers s)"
  "ik_last_access (snd (evict_idle_subscriptions clk s))
     = filter (\<lambda>p. fst p \<notin> set (idle_symbols clk s @ overflow_symbols clk s)) (ik_last_access s)"
  "ik_pinned (snd (evict_idle_subscriptions clk s)) = ik_pinned s"
  using drop_symbols_effect [of "idle_symbols clk s @ overflow_symbols clk s" s] by (simp_all add: evict_idle_subscriptions_def)

lemma wf_dict_filter: "wf_dict d \<Longrightarrow> wf_dict (filter P d)"
  by (simp add: wf_dict_def distinct_map_filter)

lemma evict_streaming_ok: "streaming_ok s \<Longrightarrow> streaming_ok (snd (evict_idle_subscriptions clk s))"
  unfolding streaming_ok_def evict_effect dict_keys_without by (simp add: wf_dict_filter)

lemma evict_bound:
  assumes "streaming_ok s" "finite (ik_pinned s)" "card (ik_pinned s) \<le> max_streaming"
  shows "length (ik_tickers (snd (evict_idle_subscriptions clk s))) \<le> max_streaming"
proof -
  let ?I = "idle_symbols clk s" and ?O = "overflow_symbols clk s" and ?T = "ik_tickers s"
  have len: "length (ik_tickers (snd (evict_idle_subscriptions clk s))) = length ?T - length (?I @ ?O)"
    unfolding evict_effect using assms(1) evicted_ok [OF assms(1), of clk]
    by (intro length_without) (auto simp: streaming_ok_def)
  have same: "length ?T = length (ik_last_access s)"
    using assms(1) by (metis dict_keys_def distinct_card length_map streaming_ok_def wf_dict_def)
  have d: "distinct (map fst (filter (\<lambda>p. fst p \<in> ik_pinned s) (ik_last_access s)))"
    using assms(1) by (simp add: streaming_ok_def wf_dict_def distinct_map_filter)
  have "length (filter (\<lambda>p. fst p \<in> ik_pinned s) (ik_last_access s))
      = card (set (map fst (filter (\<lambda>p. fst p \<in> ik_pinned s) (ik_last_access s))))"
    using distinct_card [OF d] by simp
  also have "\<dots> \<le> card (ik_pinned s)" using assms(2) by (intro card_mono) auto
  finally have pin: "length (filter (\<lambda>p. fst p \<in> ik_pinned s) (ik_last_access s)) \<le> max_streaming" using assms(3) by simp
  have "length (evictable s) + length (filter (\<lambda>p. fst p \<in> ik_pinned s) (ik_last_access s)) = length ?T"
    using sum_length_filter_compl [of "\<lambda>p. fst p \<in> ik_pinned s" "ik_last_access s"] evictable_ok(1) [OF assms(1)] same by simp
  with pin have "length ?T \<le> length (evictable s) + max_streaming" by simp
  moreover have "length ?O = min (length ?T - length ?I - max_streaming) (length (evictable s) - length ?I)"
    unfolding overflow_symbols_survivors using survivors_ok(4) [OF assms(1)] by simp
  ultimately show ?thesis unfolding len by (simp add: min_def split: if_splits)
qed

text \<open>Of the subscriptions that are not idle, those dropped were used no later than those kept.\<close>

lemma evict_least_recent:
  assumes "streaming_ok s" and "k \<in> set (overflow_symbols clk s)" "map_of (ik_last_access s) k = Some l"
    and "k' \<notin> set (idle_symbols clk s @ overflow_symbols clk s)" "k' \<notin> ik_pinned s" "map_of (ik_last_access s) k' = Some l'"
  shows "l \<le> l'"
proof -
  define n where "n = length (ik_tickers s) - length (idle_symbols clk s) - max_streaming"
  have wf: "distinct (map fst (ik_last_access s))" using assms(1) by (simp add: streaming_ok_def wf_dict_def)
  obtain l2 where l2: "(k, l2) \<in> set (take n (survivors clk s))"
    using assms(2) unfolding overflow_symbols_survivors n_def by auto
  then have "(k, l2) \<in> set (evictable s)" using survivors_ok(3) [OF assms(1)] in_set_takeD by fastforce
  then have "(k, l2) \<in> set (ik_last_access s)" using evictable_ok(1) [OF assms(1)] by simp
  then have "l2 = l" using assms(3) wf by (simp add: map_of_is_SomeI)
  have "(k', l') \<in> set (survivors clk s)"
    using assms(4-6) survivors_ok(3) [OF assms(1)] evictable_ok(1) [OF assms(1)] by (simp add: map_of_SomeD)
  moreover have "(k', l') \<notin> set (take n (survivors clk s))"
    using assms(4) unfolding overflow_symbols_survivors n_def by force
  ultimately have "(k', l') \<in> set (drop n (survivors clk s))"
    by (metis Un_iff append_take_drop_id set_append)
  moreover have "sorted (map snd (take n (survivors clk s)) @ map snd (drop n (survivors clk s)))"
    using survivors_ok(1) [OF assms(1)] by (simp flip: map_append)
  ultimately show ?thesis using l2 \<open>l2 = l\<close> by (force simp: sorted_append)
qed

end
