(* ===== verification/Ibkr_Runs.thy ===== *)
theory Ibkr_Runs
  imports Ibkr_Quotes
begin

text \<open>
  The live broker client as a whole: every operation and every message of the library as an input, runs over
  any interleaving of them, and what holds for all runs. The statuses passed to the order callbacks and the
  prices fed to the bars are both filtered by a cache of the last value; \<open>change_reporter\<close> says once what
  such a filter lets through, and is interpreted for both.
\<close>

section \<open>Inputs and runs\<close>

datatype ibkr_input = In_Connect "string option" "py_error + unit" "string list" | In_Disconnect | In_Disconnected
  | In_Place ib_session bool instant uuid string order_plan | In_Modify bool "ib_trade list" string pyfloat
  | In_Status instant ib_trade | In_Execution instant ib_execution | In_Commission instant ib_execution ib_commission
  | In_Adopt "((quote_key \<times> ib_contract) \<times> (py_error + ib_contract option list)) list"
  | In_Subscribe pyfloat "(quote_key \<times> ib_contract) list"
  | In_Read zone bool instant pyfloat "quote_key \<Rightarrow> ib_ticker" "quote_key list"
  | In_Ticker zone instant "ib_contract option" ib_ticker
  | In_Latest_Bar zone instant quote_key | In_Completed_Bars zone instant quote_key int

text \<open>What the client passes on: calls of its callbacks, and prices to its bar builder.\<close>

datatype ibkr_output = Call ibkr_call | Bar_Fed quote_key pyfloat

definition fed_output :: "zone \<Rightarrow> instant \<Rightarrow> ib_contract option \<Rightarrow> ib_ticker \<Rightarrow> ibkr \<Rightarrow> ibkr_output list" where
  "fed_output ny now contract t s = (case contract of None \<Rightarrow> [] | Some i \<Rightarrow>
     (case fst (feed_bar ny now (internal_symbol i) (bar_price i t) (tk_time t) s) of
        None \<Rightarrow> [] | Some p \<Rightarrow> [Bar_Fed (internal_symbol i) p]))"

fun ibkr_step :: "ibkr_input \<Rightarrow> ibkr \<Rightarrow> ibkr_output list \<times> ibkr" where
  "ibkr_step (In_Connect env reply accounts) s = ([], snd (snd (ibkr_connect env reply accounts s)))"
| "ibkr_step In_Disconnect s = ([], snd (ibkr_disconnect s))"
| "ibkr_step In_Disconnected s = ([], on_disconnected s)"
| "ibkr_step (In_Place w emergency now oid bid p) s = ([], snd (snd (ibkr_place w emergency now oid bid p s)))"
| "ibkr_step (In_Modify up trades bid limit) s = ([], snd (snd (ibkr_modify up trades bid limit s)))"
| "ibkr_step (In_Status now t) s = (case on_order_status now t s of (r, s') \<Rightarrow> (case r of Inl _ \<Rightarrow> [] | Inr cs \<Rightarrow> map Call cs, s'))"
| "ibkr_step (In_Execution now x) s = (case on_exec_details now x s of (r, s') \<Rightarrow> (case r of Inl _ \<Rightarrow> [] | Inr cs \<Rightarrow> map Call cs, s'))"
| "ibkr_step (In_Commission now x r) s = (case on_commission_report now x r s of (cs, s') \<Rightarrow> (map Call cs, s'))"
| "ibkr_step (In_Adopt rs) s = ([], snd (quotes_adopt rs s))"
| "ibkr_step (In_Subscribe clk ps) s = ([], snd (quotes_subscribe clk ps s))"
| "ibkr_step (In_Read ny writes_ok now clk reading ks) s = ([], snd (snd (quotes_read ny writes_ok now clk reading ks s)))"
| "ibkr_step (In_Ticker ny now i t) s = (fed_output ny now i t s @ map Call (fst (on_ticker ny now i t s)), snd (on_ticker ny now i t s))"
| "ibkr_step (In_Latest_Bar ny clock k) s = ([], snd (ibkr_latest_bar ny clock k s))"
| "ibkr_step (In_Completed_Bars ny clock k n) s = ([], snd (ibkr_completed_bars ny clock k n s))"

primrec run_inputs :: "('i \<Rightarrow> 's \<Rightarrow> 'o list \<times> 's) \<Rightarrow> 'i list \<Rightarrow> 's \<Rightarrow> 'o list \<times> 's" where
  "run_inputs step [] s = ([], s)"
| "run_inputs step (i # is) s = (case step i s of (os, s') \<Rightarrow> (case run_inputs step is s' of (ps, s'') \<Rightarrow> (os @ ps, s'')))"

definition ibkr_run :: "ibkr_input list \<Rightarrow> ibkr \<Rightarrow> ibkr_output list \<times> ibkr" where
  "ibkr_run = run_inputs ibkr_step"

section \<open>A cache of the last value\<close>

lemma map_filter_append: "List.map_filter f (xs @ ys) = List.map_filter f xs @ List.map_filter f ys"
  by (induction xs) (simp_all add: List.map_filter_simps split: option.split)

lemma zip_tl_step: "d = x # tl d \<Longrightarrow> zip (a # d) d = (a, x) # zip d (tl d)"
  by (metis zip_Cons_Cons)

locale change_reporter =
  fixes step :: "'i \<Rightarrow> 's \<Rightarrow> 'o list \<times> 's"
    and ok :: "'s \<Rightarrow> bool" and admissible :: "'i \<Rightarrow> bool"
    and seen :: "'s \<Rightarrow> 'v option" and observed :: "'i \<Rightarrow> 'v option"
    and report :: "'o \<Rightarrow> 'r option" and mk :: "'v option \<Rightarrow> 'v \<Rightarrow> 'r"
  assumes ok_step: "ok s \<Longrightarrow> ok (snd (step i s))"
    and quiet: "ok s \<Longrightarrow> admissible i \<Longrightarrow> observed i = None \<or> observed i = seen s \<Longrightarrow>
        seen (snd (step i s)) = seen s \<and> List.map_filter report (fst (step i s)) = []"
    and change: "ok s \<Longrightarrow> admissible i \<Longrightarrow> observed i = Some v \<Longrightarrow> seen s \<noteq> Some v \<Longrightarrow>
        seen (snd (step i s)) = Some v \<and> List.map_filter report (fst (step i s)) = [mk (seen s) v]"
begin

text \<open>The reports of a run are the changes of what was observed, one after the other.\<close>

lemma reports_changes:
  assumes "ok s" "\<forall>i \<in> set is. admissible i"
  shows "List.map_filter report (fst (run_inputs step is s)) =
    (let d = remdups_adj (seen s # map Some (List.map_filter observed is))
     in map (\<lambda>(a, b). mk a (the b)) (zip d (tl d)))"
  using assms
proof (induction "is" arbitrary: s)
  case (Cons i "is")
  obtain os s' where st: "step i s = (os, s')" by (cases "step i s")
  have ok': "ok s'" using ok_step [OF Cons.prems(1), of i] st by simp
  obtain ps s'' where run: "run_inputs step is s' = (ps, s'')" by (cases "run_inputs step is s'")
  define vs where "vs = map Some (List.map_filter observed is)"
  have IH: "List.map_filter report ps = (let d = remdups_adj (seen s' # vs) in map (\<lambda>(a, b). mk a (the b)) (zip d (tl d)))"
    using Cons.IH [OF ok'] Cons.prems(2) run by (simp add: vs_def)
  have adm: "admissible i" using Cons.prems(2) by simp
  show ?case
  proof (cases "observed i = None \<or> observed i = seen s")
    case True
    with quiet [OF Cons.prems(1) adm True] have q: "seen s' = seen s" "List.map_filter report os = []" using st by auto
    have "remdups_adj (seen s # map Some (List.map_filter observed (i # is))) = remdups_adj (seen s # vs)"
      using True by (auto simp: List.map_filter_simps vs_def split: option.split)
    with q IH st run show ?thesis by (simp add: map_filter_append)
  next
    case False
    then obtain v where v: "observed i = Some v" "seen s \<noteq> Some v" by auto
    with change [OF Cons.prems(1) adm v] have q: "seen s' = Some v" "List.map_filter report os = [mk (seen s) v]" using st by auto
    define d where "d = remdups_adj (Some v # vs)"
    have d: "d = Some v # tl d" unfolding d_def by (metis hd_remdups_adj list.collapse list.sel(1) list.simps(3) remdups_adj_Nil_iff)
    have "remdups_adj (seen s # map Some (List.map_filter observed (i # is))) = seen s # d"
      using v by (simp add: List.map_filter_simps vs_def d_def)
    then show ?thesis using q IH st run zip_tl_step [OF d, of "seen s"] by (simp add: map_filter_append Let_def d_def [symmetric])
  qed
qed (simp add: List.map_filter_simps)

end


section \<open>What each operation leaves alone\<close>

definition same_orders :: "ibkr \<Rightarrow> ibkr \<Rightarrow> bool" where
  "same_orders s t \<longleftrightarrow> ik_metadata t = ik_metadata s \<and> ik_statuses t = ik_statuses s \<and> ik_seen_execs t = ik_seen_execs s"

definition same_market :: "ibkr \<Rightarrow> ibkr \<Rightarrow> bool" where
  "same_market s t \<longleftrightarrow> ik_tickers t = ik_tickers s \<and> ik_last_access t = ik_last_access s \<and> ik_last_tick t = ik_last_tick s
     \<and> ik_pinned t = ik_pinned s"

lemmas same_defs = same_orders_def same_market_def

lemma subscribe_frame: "same_orders s (snd (quotes_subscribe clk ps s)) \<and> ik_last_tick (snd (quotes_subscribe clk ps s)) = ik_last_tick s
    \<and> ik_pinned (snd (quotes_subscribe clk ps s)) = ik_pinned s"
  by (induction clk ps s rule: quotes_subscribe.induct)
    (auto simp: same_orders_def subscribe_one_def split_beta split: option.splits)

lemma adopt_frame: "same_orders s (snd (quotes_adopt rs s)) \<and> same_market s (snd (quotes_adopt rs s))"
  by (induction rs s rule: quotes_adopt.induct) (auto simp: same_defs split_beta)

lemma chain_frame: "same_orders s (chain_record ny ok quotes clk s) \<and> same_market s (chain_record ny ok quotes clk s)"
  by (simp add: chain_record_def same_defs Let_def split: list.split prod.split)

lemma read_frame:
  "same_orders s (snd (snd (quotes_read ny ok now clk reading ks s)))"
  "same_market (snd (evict_idle_subscriptions clk s)) (snd (snd (quotes_read ny ok now clk reading ks s)))"
  "ik_last_tick (snd (evict_idle_subscriptions clk s)) = ik_last_tick s"
  using drop_symbols_effect [of "idle_symbols clk s @ overflow_symbols clk s" s] chain_frame
  by (simp_all add: quotes_read_def same_defs evict_idle_subscriptions_def split_beta split: sum.split)

lemma ticker_frame: "same_orders s (snd (on_ticker ny now i t s))" "ik_tickers (snd (on_ticker ny now i t s)) = ik_tickers s"
  "ik_last_access (snd (on_ticker ny now i t s)) = ik_last_access s" "ik_pinned (snd (on_ticker ny now i t s)) = ik_pinned s"
  by (simp_all add: same_orders_def on_ticker_def feed_bar_def split: option.split sum.split)

lemma status_frame: "same_market s (snd (on_order_status now t s))" "ik_metadata (snd (on_order_status now t s)) = ik_metadata s"
  "ik_seen_execs (snd (on_order_status now t s)) = ik_seen_execs s"
  by (simp_all add: same_market_def on_order_status_def Let_def split: option.split sum.split)

lemma exec_frame: "same_orders s (snd (on_exec_details now x s))" "same_market s (snd (on_exec_details now x s))"
  by (simp_all add: same_defs on_exec_details_def Let_def split: option.split)

lemma commission_frame: "same_market s (snd (on_commission_report now x r s))"
  "ik_metadata (snd (on_commission_report now x r s)) = ik_metadata s"
  "ik_statuses (snd (on_commission_report now x r s)) = ik_statuses s"
  by (simp_all add: same_market_def on_commission_report_def Let_def split: option.split)

lemma place_frame:
  "same_market s (snd (snd (ibkr_place w emergency now oid bid p s)))"
  "ik_statuses (snd (snd (ibkr_place w emergency now oid bid p s))) = ik_statuses s"
  "ik_seen_execs (snd (snd (ibkr_place w emergency now oid bid p s))) = ik_seen_execs s"
  "b \<noteq> bid \<Longrightarrow> map_of (ik_metadata (snd (snd (ibkr_place w emergency now oid bid p s)))) b = map_of (ik_metadata s) b"
  "map_of (ik_metadata s) b \<noteq> None \<Longrightarrow> map_of (ik_metadata (snd (snd (ibkr_place w emergency now oid bid p s)))) b \<noteq> None"
proof -
  obtain r reqs s' where p: "ibkr_place w emergency now oid bid p s = (r, reqs, s')"
    by (cases "ibkr_place w emergency now oid bid p s") auto
  then have "same_market s s' \<and> ik_statuses s' = ik_statuses s \<and> ik_seen_execs s' = ik_seen_execs s
    \<and> (\<exists>d. ik_metadata s' = d \<and> (d = ik_metadata s \<or> (\<exists>v. d = AList.update bid v (ik_metadata s))))"
    by (cases rule: ibkr_place_cases) (auto simp: same_market_def)
  then show "same_market s (snd (snd (ibkr_place w emergency now oid bid p s)))"
  "ik_statuses (snd (snd (ibkr_place w emergency now oid bid p s))) = ik_statuses s"
  "ik_seen_execs (snd (snd (ibkr_place w emergency now oid bid p s))) = ik_seen_execs s"
  "b \<noteq> bid \<Longrightarrow> map_of (ik_metadata (snd (snd (ibkr_place w emergency now oid bid p s)))) b = map_of (ik_metadata s) b"
  "map_of (ik_metadata s) b \<noteq> None \<Longrightarrow> map_of (ik_metadata (snd (snd (ibkr_place w emergency now oid bid p s)))) b \<noteq> None"
    using p by auto
qed

lemma modify_frame: "same_market s (snd (snd (ibkr_modify up trades bid limit s)))"
  "ik_statuses (snd (snd (ibkr_modify up trades bid limit s))) = ik_statuses s"
  "ik_seen_execs (snd (snd (ibkr_modify up trades bid limit s))) = ik_seen_execs s"
  "map_option mt_order_id (map_of (ik_metadata (snd (snd (ibkr_modify up trades bid limit s)))) b) = map_option mt_order_id (map_of (ik_metadata s) b)"
  by (auto simp: ibkr_modify_def same_market_def split: option.split)

lemma connect_frame: "snd (snd (ibkr_connect env reply accounts s)) = s\<lparr>ik_intentional := False\<rparr>"
  by (simp add: ibkr_connect_def Let_def split: option.split sum.split)

lemma bars_frame: "same_orders s (snd (ibkr_latest_bar ny clock k s))" "same_market s (snd (ibkr_latest_bar ny clock k s))"
  "same_orders s (snd (ibkr_completed_bars ny clock k n s))" "same_market s (snd (ibkr_completed_bars ny clock k n s))"
  by (simp_all add: same_defs ibkr_latest_bar_def ibkr_completed_bars_def split_beta)

lemmas op_frames = subscribe_frame [unfolded same_defs] adopt_frame [unfolded same_defs] read_frame [unfolded same_defs]
  ticker_frame [unfolded same_defs] status_frame [unfolded same_defs] exec_frame [unfolded same_defs]
  commission_frame [unfolded same_defs] place_frame(1-3) [unfolded same_defs] modify_frame [unfolded same_defs]
  bars_frame [unfolded same_defs] connect_frame

text \<open>Field by field, over all inputs.\<close>

lemma step_statuses: "(\<forall>now t. x \<noteq> In_Status now t) \<Longrightarrow> ik_statuses (snd (ibkr_step x s)) = ik_statuses s"
  by (cases x) (simp_all add: op_frames split_beta ibkr_disconnect_def on_disconnected_def Let_def)

lemma step_seen_execs: "(\<forall>now y r. x \<noteq> In_Commission now y r) \<Longrightarrow> ik_seen_execs (snd (ibkr_step x s)) = ik_seen_execs s"
  by (cases x) (simp_all add: op_frames split_beta ibkr_disconnect_def on_disconnected_def Let_def)

lemma step_last_tick: "(\<forall>ny now i t. x \<noteq> In_Ticker ny now i t) \<Longrightarrow> ik_last_tick (snd (ibkr_step x s)) = ik_last_tick s"
  by (cases x) (simp_all add: op_frames split_beta ibkr_disconnect_def on_disconnected_def Let_def)

lemma step_order_id:
  "(\<forall>w em now oid p. x \<noteq> In_Place w em now oid b p) \<Longrightarrow>
     map_option mt_order_id (map_of (ik_metadata (snd (ibkr_step x s))) b) = map_option mt_order_id (map_of (ik_metadata s) b)"
  by (cases x) (auto simp: op_frames place_frame(4) split_beta ibkr_disconnect_def on_disconnected_def Let_def)

lemma step_known: "map_of (ik_metadata s) b \<noteq> None \<Longrightarrow> map_of (ik_metadata (snd (ibkr_step x s))) b \<noteq> None"
proof (cases "\<exists>w em now oid p. x = In_Place w em now oid b p")
  case True
  assume known: "map_of (ik_metadata s) b \<noteq> None"
  from True obtain w em now oid p where "x = In_Place w em now oid b p" by blast
  with place_frame(5) [OF known, of w em now oid b p] show ?thesis by simp
next
  case False
  assume "map_of (ik_metadata s) b \<noteq> None"
  with False step_order_id [of x b s] show ?thesis by (metis option.map_disc_iff)
qed

lemma step_pinned: "ik_pinned (snd (ibkr_step x s)) = ik_pinned s"
  by (cases x) (simp_all add: op_frames evict_effect split_beta ibkr_disconnect_def on_disconnected_def Let_def)

lemma dict_keys_update: "set (dict_keys (AList.update k v d)) = insert k (set (dict_keys d))"
  unfolding dict_keys_def by (rule keys_update)

lemma subscribe_one_ok: "streaming_ok s \<Longrightarrow> streaming_ok (snd (subscribe_one clk k i s))"
proof (cases "map_of (ik_tickers s) k")
  case None
  assume "streaming_ok s"
  with None show ?thesis by (simp add: streaming_ok_def subscribe_one_def dict_keys_update)
next
  case (Some j)
  assume ok: "streaming_ok s"
  have "k \<in> set (dict_keys (ik_tickers s))" using Some map_of_None_keys [of "ik_tickers s" k] by simp
  with Some ok show ?thesis by (simp add: streaming_ok_def subscribe_one_def dict_keys_update insert_absorb)
qed

lemma subscribe_ok: "streaming_ok s \<Longrightarrow> streaming_ok (snd (quotes_subscribe clk ps s))"
proof (induction clk ps s rule: quotes_subscribe.induct)
  case (2 clk k i ps s)
  obtain r s1 where s1: "subscribe_one clk k i s = (r, s1)" by (cases "subscribe_one clk k i s")
  with subscribe_one_ok [OF 2(2), of clk k i] have "streaming_ok s1" by simp
  from 2(1) [OF s1 [symmetric] this] s1 show ?case by (simp add: split_beta)
qed simp

lemma step_streaming: "streaming_ok s \<Longrightarrow> streaming_ok (snd (ibkr_step x s))"
proof (cases x)
  case (In_Subscribe clk ps)
  assume "streaming_ok s"
  with In_Subscribe show ?thesis by (simp add: subscribe_ok)
next
  case (In_Read ny ok now clk reading ks)
  assume "streaming_ok s"
  with In_Read evict_streaming_ok [of s clk] show ?thesis by (simp add: streaming_ok_def op_frames)
qed (simp_all add: streaming_ok_def op_frames split_beta ibkr_disconnect_def on_disconnected_def Let_def dict_keys_def)


section \<open>Statuses and bars\<close>

text \<open>An update of an order that converts: a valid option contract, a positive quantity and limit.\<close>

definition convertible :: "ib_trade \<Rightarrow> bool" where
  "convertible t \<longleftrightarrow> \<not> isl (from_ib_contract (it_contract t)) \<and> 0 < it_total t \<and> 0 \<le> it_filled t \<and> 0 < it_limit t"

lemma convertible_order:
  assumes "convertible t"
  shows "\<exists>o'. to_internal_order_state now a b t meta = Inr o' \<and> os_broker_id o' = Some (trade_key t)"
proof -
  obtain c where "from_ib_contract (it_contract t) = Inr c" using assms by (cases "from_ib_contract (it_contract t)") (auto simp: convertible_def)
  with assms show ?thesis
    by (auto simp: to_internal_order_state_def mk_order_state_def convertible_def split: option.split)
qed

fun status_of_key :: "string \<Rightarrow> ibkr_input \<Rightarrow> order_status option" where
  "status_of_key bid (In_Status now t) = (if trade_key t = bid then Some (reported_status t) else None)"
| "status_of_key bid _ = None"

fun converts :: "string \<Rightarrow> ibkr_input \<Rightarrow> bool" where
  "converts bid (In_Status now t) = (trade_key t = bid \<longrightarrow> convertible t)"
| "converts bid _ = True"

fun status_report :: "string \<Rightarrow> ibkr_output \<Rightarrow> (order_status option \<times> order_status) option" where
  "status_report bid (Call (Order_Callback o' ev)) = (if os_broker_id o' = Some bid then Some (oe_previous ev, oe_new ev) else None)"
| "status_report bid _ = None"

lemma to_internal_broker_id:
  "to_internal_order_state now a b t meta = Inr o' \<Longrightarrow> os_broker_id o' = Some (trade_key t)"
  by (auto simp: to_internal_order_state_def try_bind_eq_Inr mk_order_state_Inr)

lemma on_order_status_other:
  assumes "trade_key t \<noteq> bid"
  shows "map_of (ik_statuses (snd (on_order_status now t s))) bid = map_of (ik_statuses s) bid"
    and "fst (on_order_status now t s) = Inr cs \<Longrightarrow> List.map_filter (status_report bid) (map Call cs) = []"
  using assms
  by (auto simp: on_order_status_def Let_def List.map_filter_simps split: option.splits sum.splits if_splits dest: to_internal_broker_id)

lemma on_order_status_own:
  assumes "map_of (ik_metadata s) (trade_key t) = Some m" "convertible t"
  shows "map_of (ik_statuses (snd (on_order_status now t s))) (trade_key t) = Some (reported_status t)"
    and "\<exists>cs. fst (on_order_status now t s) = Inr cs \<and> List.map_filter (status_report (trade_key t)) (map Call cs)
      = (if map_of (ik_statuses s) (trade_key t) = Some (reported_status t) then []
         else [(map_of (ik_statuses s) (trade_key t), reported_status t)])"
proof -
  obtain o' where "to_internal_order_state now 0 0 t (Some m) = Inr o'" "os_broker_id o' = Some (trade_key t)"
    using convertible_order [OF assms(2)] by blast
  with assms(1) show "map_of (ik_statuses (snd (on_order_status now t s))) (trade_key t) = Some (reported_status t)"
    and "\<exists>cs. fst (on_order_status now t s) = Inr cs \<and> List.map_filter (status_report (trade_key t)) (map Call cs)
      = (if map_of (ik_statuses s) (trade_key t) = Some (reported_status t) then []
         else [(map_of (ik_statuses s) (trade_key t), reported_status t)])"
    by (simp_all add: on_order_status_def Let_def List.map_filter_simps)
qed

lemma quiet_inputs: "(\<forall>now t. x \<noteq> In_Status now t) \<Longrightarrow> List.map_filter (status_report bid) (fst (ibkr_step x s)) = []"
proof -
  have none: "\<forall>y \<in> set ys. status_report bid y = None \<Longrightarrow> List.map_filter (status_report bid) ys = []" for ys
    by (induction ys) (simp_all add: List.map_filter_simps)
  assume x: "\<forall>now t. x \<noteq> In_Status now t"
  have "\<forall>y \<in> set (fst (ibkr_step x s)). status_report bid y = None"
    using x by (cases x) (auto simp: split_beta on_exec_details_def on_commission_report_def on_ticker_def fed_output_def Let_def
      split: option.splits sum.splits if_splits)
  then show ?thesis by (rule none)
qed

interpretation statuses: change_reporter ibkr_step "\<lambda>s :: ibkr. map_of (ik_metadata s) bid \<noteq> None" "converts bid"
    "\<lambda>s :: ibkr. map_of (ik_statuses s) bid" "status_of_key bid" "status_report bid" Pair
proof unfold_locales
  show "map_of (ik_metadata s) bid \<noteq> None \<Longrightarrow> map_of (ik_metadata (snd (ibkr_step i s))) bid \<noteq> None" for s :: ibkr and i
    by (rule step_known)
next
  fix s :: ibkr and i
  assume ok: "map_of (ik_metadata s) bid \<noteq> None" and c: "converts bid i"
    and o': "status_of_key bid i = None \<or> status_of_key bid i = map_of (ik_statuses s) bid"
  show "map_of (ik_statuses (snd (ibkr_step i s))) bid = map_of (ik_statuses s) bid
     \<and> List.map_filter (status_report bid) (fst (ibkr_step i s)) = []"
  proof (cases "\<exists>now t. i = In_Status now t")
    case False
    then show ?thesis using step_statuses [of i s] quiet_inputs [of i bid s] by simp
  next
    case True
    then obtain now t where i: "i = In_Status now t" by blast
    show ?thesis
    proof (cases "trade_key t = bid")
      case False
      then show ?thesis using on_order_status_other [OF False, of now s] i
        by (cases "fst (on_order_status now t s)") (simp_all add: split_beta List.map_filter_simps)
    next
      case True
      obtain m where "map_of (ik_metadata s) (trade_key t) = Some m" using ok True by auto
      moreover have "convertible t" "map_of (ik_statuses s) (trade_key t) = Some (reported_status t)" using c o' i True by auto
      ultimately show ?thesis using on_order_status_own [of s t m now] i True by (auto simp: split_beta)
    qed
  qed
next
  fix s :: ibkr and i v
  assume ok: "map_of (ik_metadata s) bid \<noteq> None" and c: "converts bid i"
    and v: "status_of_key bid i = Some v" and n: "map_of (ik_statuses s) bid \<noteq> Some v"
  from v obtain now t where i: "i = In_Status now t" and k: "trade_key t = bid" "v = reported_status t"
    by (cases i) (auto split: if_splits)
  obtain m where "map_of (ik_metadata s) (trade_key t) = Some m" using ok k by auto
  moreover have "convertible t" using c i k by simp
  ultimately show "map_of (ik_statuses (snd (ibkr_step i s))) bid = Some v
     \<and> List.map_filter (status_report bid) (fst (ibkr_step i s)) = [(map_of (ik_statuses s) bid, v)]"
    using on_order_status_own [of s t m now] i k n by (auto simp: split_beta)
qed

fun price_of_key :: "quote_key \<Rightarrow> ibkr_input \<Rightarrow> pyfloat option" where
  "price_of_key k (In_Ticker ny now (Some i) t) = (if internal_symbol i = k then bar_price i t else None)"
| "price_of_key k _ = None"

fun fed_price :: "quote_key \<Rightarrow> ibkr_output \<Rightarrow> pyfloat option" where
  "fed_price k (Bar_Fed k' p) = (if k' = k then Some p else None)"
| "fed_price k _ = None"

lemma fed_price_calls: "List.map_filter (fed_price k) (map Call cs) = []"
  by (induction cs) (simp_all add: List.map_filter_simps)

lemma ticker_fed:
  "map_of (ik_last_tick (snd (on_ticker ny now (Some i) t s))) k =
     (if internal_symbol i = k \<and> bar_price i t \<noteq> None then bar_price i t else map_of (ik_last_tick s) k)"
  "List.map_filter (fed_price k) (fed_output ny now (Some i) t s) =
     (if internal_symbol i = k \<and> bar_price i t \<noteq> None \<and> bar_price i t \<noteq> map_of (ik_last_tick s) k then [the (bar_price i t)] else [])"
proof -
  have f: "feed_bar ny now (internal_symbol i) (bar_price i t) (tk_time t) s = (a, s1) \<Longrightarrow>
      snd (on_ticker ny now (Some i) t s) = s1" for a s1
    by (simp add: on_ticker_def split: sum.split)
  obtain a s1 where a: "feed_bar ny now (internal_symbol i) (bar_price i t) (tk_time t) s = (a, s1)"
    by (cases "feed_bar ny now (internal_symbol i) (bar_price i t) (tk_time t) s")
  show "map_of (ik_last_tick (snd (on_ticker ny now (Some i) t s))) k =
     (if internal_symbol i = k \<and> bar_price i t \<noteq> None then bar_price i t else map_of (ik_last_tick s) k)"
    unfolding f [OF a] using a by (auto simp: feed_bar_def split: if_splits)
  show "List.map_filter (fed_price k) (fed_output ny now (Some i) t s) =
     (if internal_symbol i = k \<and> bar_price i t \<noteq> None \<and> bar_price i t \<noteq> map_of (ik_last_tick s) k then [the (bar_price i t)] else [])"
    by (cases "bar_price i t") (simp_all add: fed_output_def feed_bar_def List.map_filter_simps)
qed

lemma no_ticks: "(\<forall>ny now i t. x \<noteq> In_Ticker ny now i t) \<Longrightarrow> List.map_filter (fed_price k) (fst (ibkr_step x s)) = []"
  by (cases x) (simp_all add: split_beta fed_price_calls List.map_filter_simps split: sum.split)

interpretation ticks: change_reporter ibkr_step "\<lambda>s. True" "\<lambda>i. True"
    "\<lambda>s :: ibkr. map_of (ik_last_tick s) k" "price_of_key k" "fed_price k" "\<lambda>_ p. p"
proof unfold_locales
  fix s :: ibkr and i
  assume o': "price_of_key k i = None \<or> price_of_key k i = map_of (ik_last_tick s) k"
  show "map_of (ik_last_tick (snd (ibkr_step i s))) k = map_of (ik_last_tick s) k
     \<and> List.map_filter (fed_price k) (fst (ibkr_step i s)) = []"
  proof (cases "\<exists>ny now c t. i = In_Ticker ny now c t")
    case False
    then show ?thesis using step_last_tick [of i s] no_ticks [of i k s] by simp
  next
    case True
    then obtain ny now c t where i: "i = In_Ticker ny now c t" by blast
    show ?thesis
    proof (cases c)
      case None
      with i show ?thesis by (simp add: on_ticker_def fed_output_def List.map_filter_simps)
    next
      case (Some j)
      with i o' show ?thesis by (auto simp: ticker_fed map_filter_append fed_price_calls split: if_splits)
    qed
  qed
next
  fix s :: ibkr and i v
  assume v: "price_of_key k i = Some v" and n: "map_of (ik_last_tick s) k \<noteq> Some v"
  from v obtain ny now j t where "i = In_Ticker ny now (Some j) t" "internal_symbol j = k" "bar_price j t = Some v"
    by (cases "(k, i)" rule: price_of_key.cases) (auto split: if_splits)
  with n show "map_of (ik_last_tick (snd (ibkr_step i s))) k = Some v
     \<and> List.map_filter (fed_price k) (fst (ibkr_step i s)) = [v]"
    by (auto simp: ticker_fed map_filter_append fed_price_calls)
qed simp


section \<open>Commissions\<close>

fun commission_amount :: "string \<Rightarrow> ibkr_input \<Rightarrow> pyfloat option" where
  "commission_amount e (In_Commission now x r) =
     (if ie_exec_id x = Some e \<and> (case rp_commission r of Some c \<Rightarrow> 0 < c | None \<Rightarrow> False) then rp_commission r else None)"
| "commission_amount e _ = None"

fun reports_on :: "string \<Rightarrow> ibkr_input \<Rightarrow> bool" where
  "reports_on e (In_Commission now x r) = (ie_exec_id x = Some e)"
| "reports_on e _ = False"

text \<open>Reports of the execution are for one order; its broker id is not given out again.\<close>

fun for_order :: "string \<Rightarrow> int \<Rightarrow> ibkr_input \<Rightarrow> bool" where
  "for_order e n (In_Commission now x r) = (ie_exec_id x = Some e \<longrightarrow> ie_order_id x = n)"
| "for_order e n (In_Place w em now oid bid p) = (bid \<noteq> int_text n)"
| "for_order e n _ = True"

fun commissions_on :: "string \<Rightarrow> ibkr_input list \<Rightarrow> ibkr \<Rightarrow> ibkr_output list" where
  "commissions_on e [] s = []"
| "commissions_on e (x # xs) s =
     (if reports_on e x then fst (ibkr_step x s) else []) @ commissions_on e xs (snd (ibkr_step x s))"

lemma seen_after_commission:
  "ik_seen_execs (snd (on_commission_report now y r s)) = ik_seen_execs s
   \<or> truthy (ie_exec_id y) \<and> ik_seen_execs (snd (on_commission_report now y r s)) = insert (the (ie_exec_id y)) (ik_seen_execs s)"
  by (simp add: on_commission_report_def Let_def split: option.split)

lemma commission_step_other:
  "e \<noteq> [] \<Longrightarrow> \<not> reports_on e x \<Longrightarrow> (e \<in> ik_seen_execs (snd (ibkr_step x s)) \<longleftrightarrow> e \<in> ik_seen_execs s)"
proof (cases "\<exists>now y r. x = In_Commission now y r")
  case True
  assume "e \<noteq> []" "\<not> reports_on e x"
  with True obtain now y r where x: "x = In_Commission now y r" "ie_exec_id y \<noteq> Some e" by auto
  with seen_after_commission [of now y r s] show ?thesis by (auto simp: split_beta truthy_def split: option.splits)
qed (simp add: step_seen_execs)

lemma commission_step_own:
  assumes "e \<noteq> []" "ie_exec_id x = Some e" "map_of (ik_metadata s) (int_text (ie_order_id x)) = Some m"
  shows "on_commission_report now x r s =
     (if e \<in> ik_seen_execs s then ([], s) else case commission_amount e (In_Commission now x r) of None \<Rightarrow> ([], s)
      | Some c \<Rightarrow> ([Commission_Callback (mt_order_id m) c], snd (on_commission_report now x r s)))"
    and "e \<notin> ik_seen_execs s \<Longrightarrow> commission_amount e (In_Commission now x r) = Some c \<Longrightarrow>
      e \<in> ik_seen_execs (snd (on_commission_report now x r s))"
  using assms by (cases "rp_commission r"; auto simp: on_commission_report_def Let_def)+

lemma commissions_on_spec:
  assumes "e \<noteq> []" "map_option mt_order_id (map_of (ik_metadata s) (int_text n)) = Some oid" "\<forall>x \<in> set xs. for_order e n x"
  shows "commissions_on e xs s = (if e \<in> ik_seen_execs s then []
     else map (Call \<circ> Commission_Callback oid) (take 1 (List.map_filter (commission_amount e) xs)))"
  using assms(2,3)
proof (induction xs arbitrary: s)
  case (Cons x xs)
  have "\<forall>w em now oid p. x \<noteq> In_Place w em now oid (int_text n) p" using Cons.prems(2) by auto
  from step_order_id [OF this] Cons.prems(1)
  have known: "map_option mt_order_id (map_of (ik_metadata (snd (ibkr_step x s))) (int_text n)) = Some oid" by simp
  have IH: "commissions_on e xs (snd (ibkr_step x s)) = (if e \<in> ik_seen_execs (snd (ibkr_step x s)) then []
     else map (Call \<circ> Commission_Callback oid) (take 1 (List.map_filter (commission_amount e) xs)))"
    using Cons.IH [OF known] Cons.prems(2) by simp
  show ?case
  proof (cases "reports_on e x")
    case False
    then have "commission_amount e x = None" by (cases x) simp_all
    with False IH commission_step_other [OF assms(1) False, of s] show ?thesis by (simp add: List.map_filter_simps)
  next
    case True
    then obtain now y r where x: "x = In_Commission now y r" and y: "ie_exec_id y = Some e" by (cases x) auto
    have n: "ie_order_id y = n" using Cons.prems(2) x y by simp
    obtain m where m: "map_of (ik_metadata s) (int_text (ie_order_id y)) = Some m" "mt_order_id m = oid"
      using Cons.prems(1) n by auto
    note own = commission_step_own [OF assms(1) y m(1), of now r]
    have st: "ibkr_step x s = (map Call (fst (on_commission_report now y r s)), snd (on_commission_report now y r s))"
      using x by (simp add: split_beta)
    show ?thesis
    proof (cases "e \<in> ik_seen_execs s \<or> commission_amount e x = None")
      case True
      then have "on_commission_report now y r s = ([], s)" using own(1) x by (auto split: option.splits)
      with True IH st \<open>reports_on e x\<close> show ?thesis by (auto simp: List.map_filter_simps)
    next
      case False
      then obtain c where c: "e \<notin> ik_seen_execs s" "commission_amount e x = Some c" by auto
      then have "fst (on_commission_report now y r s) = [Commission_Callback oid c]" using own(1) x m(2) by (metis (no_types, lifting) fst_conv option.simps(5))
      moreover have "e \<in> ik_seen_execs (snd (on_commission_report now y r s))" using own(2) c x by simp
      ultimately show ?thesis using c IH st \<open>reports_on e x\<close> by (simp add: List.map_filter_simps)
    qed
  qed
qed (simp add: List.map_filter_simps)

section \<open>Reachable states\<close>

lemma new_streaming: "streaming_ok (new_ibkr cfg es)" "ik_pinned (new_ibkr cfg es) = {Symbol_Key ''XSP''}"
  by (simp_all add: new_ibkr_def streaming_ok_def dict_keys_def)

interpretation streaming: step_invariant "\<lambda>s. \<exists>cfg es. s = new_ibkr cfg es" "\<lambda>s t. \<exists>x. t = snd (ibkr_step x s)"
    "\<lambda>s. streaming_ok s \<and> ik_pinned s = {Symbol_Key ''XSP''}"
proof unfold_locales
  show "\<exists>cfg es. s = new_ibkr cfg es \<Longrightarrow> streaming_ok s \<and> ik_pinned s = {Symbol_Key ''XSP''}" for s
    using new_streaming by blast
next
  fix s t :: ibkr
  assume ok: "streaming_ok s \<and> ik_pinned s = {Symbol_Key ''XSP''}" and "\<exists>x. t = snd (ibkr_step x s)"
  then obtain x where t: "t = snd (ibkr_step x s)" by blast
  show "streaming_ok t \<and> ik_pinned t = {Symbol_Key ''XSP''}"
    unfolding t step_pinned using step_streaming [of s x] ok by blast
qed

lemma run_reachable: "(\<lambda>s t. \<exists>x. t = snd (ibkr_step x s))\<^sup>*\<^sup>* s (snd (ibkr_run xs s))"
proof (induction xs arbitrary: s)
  case (Cons x xs)
  have "snd (ibkr_run (x # xs) s) = snd (ibkr_run xs (snd (ibkr_step x s)))" by (simp add: ibkr_run_def split_beta)
  with Cons.IH [of "snd (ibkr_step x s)"] show ?case by (metis (mono_tags, lifting) converse_rtranclp_into_rtranclp)
qed (simp add: ibkr_run_def)

lemma run_streaming: "streaming_ok (snd (ibkr_run xs (new_ibkr cfg es))) \<and> ik_pinned (snd (ibkr_run xs (new_ibkr cfg es))) = {Symbol_Key ''XSP''}"
  by (rule streaming.inv_reachable [OF _ run_reachable]) blast

section \<open>Properties\<close>

text \<open>Where every update of the order converts, the events are the changes of the updates, each naming the
  status before it.\<close>

lemma converting_updates_all_reported:
  assumes "map_of (ik_metadata s) bid \<noteq> None" "\<forall>x \<in> set xs. converts bid x"
  shows "List.map_filter (status_report bid) (fst (ibkr_run xs s)) =
    (let d = remdups_adj (map_of (ik_statuses s) bid # map Some (List.map_filter (status_of_key bid) xs))
     in map (\<lambda>(a, b). (a, the b)) (zip d (tl d)))"
  using statuses.reports_changes [OF assms] by (simp add: ibkr_run_def)

text \<open>An update of the order: the status it reports, and whether the order of the trade converts.\<close>

fun update_of :: "string \<Rightarrow> ibkr_input \<Rightarrow> (order_status \<times> bool) option" where
  "update_of bid (In_Status now t) = (if trade_key t = bid then Some (reported_status t, convertible t) else None)"
| "update_of bid _ = None"

lemma unconverted_update:
  assumes "map_of (ik_metadata s) (trade_key t) = Some m" "\<not> convertible t"
  shows "map_of (ik_statuses (snd (on_order_status now t s))) (trade_key t) = Some (reported_status t)"
    and "fst (on_order_status now t s) = Inr cs \<Longrightarrow> cs = []"
proof -
  have "isl (to_internal_order_state now 0 0 t (Some m))"
    using assms(2) by (cases "to_internal_order_state now 0 0 t (Some m)")
      (auto simp: to_internal_order_state_def try_bind_eq_Inr mk_order_state_Inr convertible_def)
  then obtain e where "to_internal_order_state now 0 0 t (Some m) = Inl e" by (auto simp: isl_def)
  with assms(1) show "map_of (ik_statuses (snd (on_order_status now t s))) (trade_key t) = Some (reported_status t)"
    and "fst (on_order_status now t s) = Inr cs \<Longrightarrow> cs = []"
    by (auto simp: on_order_status_def Let_def split: if_splits)
qed

lemma status_step:
  assumes "map_of (ik_metadata s) bid \<noteq> None"
  shows "map_of (ik_statuses (snd (ibkr_step x s))) bid = (case update_of bid x of None \<Rightarrow> map_of (ik_statuses s) bid | Some (v, ok) \<Rightarrow> Some v)
    \<and> List.map_filter (status_report bid) (fst (ibkr_step x s)) = (case update_of bid x of None \<Rightarrow> []
        | Some (v, ok) \<Rightarrow> if ok \<and> map_of (ik_statuses s) bid \<noteq> Some v then [(map_of (ik_statuses s) bid, v)] else [])"
proof (cases "\<exists>now t. x = In_Status now t")
  case False
  then have "update_of bid x = None" by (cases x) simp_all
  then show ?thesis using False step_statuses [of x s] quiet_inputs [of x bid s] by simp
next
  case True
  then obtain now t where x: "x = In_Status now t" by blast
  show ?thesis
  proof (cases "trade_key t = bid")
    case False
    then show ?thesis using on_order_status_other [OF False, of now s] x
      by (cases "fst (on_order_status now t s)") (simp_all add: split_beta List.map_filter_simps)
  next
    case k: True
    obtain m where m: "map_of (ik_metadata s) (trade_key t) = Some m" using assms k by auto
    show ?thesis
    proof (cases "convertible t")
      case True
      then show ?thesis using on_order_status_own [OF m True, of now] x k by (auto simp: split_beta)
    next
      case False
      then show ?thesis using unconverted_update [OF m False, of now] x k
        by (cases "fst (on_order_status now t s)") (simp_all add: split_beta List.map_filter_simps)
    qed
  qed
qed

text \<open>C14: The status events of an order are the changes of its status that convert. In every run of the live
  client, with anything else interleaved, from a state that knows the order: an update of the order is
  passed to the callbacks, naming the status of the update before it (at first the stored one), exactly if
  its status differs from that one and the order of its trade converts; in that order, and nothing else is
  passed. So no change of an order whose updates convert is lost or repeated.\<close>

theorem status_events_are_changes:
  assumes "map_of (ik_metadata s) bid \<noteq> None"
  shows "List.map_filter (status_report bid) (fst (ibkr_run xs s)) =
    (let us = List.map_filter (update_of bid) xs
     in map (\<lambda>(before, status, converted). (before, status))
          (filter (\<lambda>(before, status, converted). converted \<and> before \<noteq> Some status)
            (zip (map_of (ik_statuses s) bid # map (Some \<circ> fst) us) us)))"
  using assms
proof (induction xs arbitrary: s)
  case (Cons x xs)
  have run: "ibkr_run (x # xs) s = (fst (ibkr_step x s) @ fst (ibkr_run xs (snd (ibkr_step x s))), snd (ibkr_run xs (snd (ibkr_step x s))))"
    by (simp add: ibkr_run_def split_beta)
  have "map_of (ik_metadata (snd (ibkr_step x s))) bid \<noteq> None" by (rule step_known [OF Cons.prems])
  from Cons.IH [OF this] show ?case using status_step [OF Cons.prems, of x]
    by (cases "update_of bid x") (simp_all add: run map_filter_append List.map_filter_simps Let_def split: prod.splits)
qed (simp add: ibkr_run_def List.map_filter_simps)

text \<open>C15: A commission is netted once. Whatever happens in between, of all reports of one execution of a known
  order the first with a positive commission is passed on, with the order's identifier, and no other.\<close>

theorem commission_reported_once:
  assumes "e \<noteq> []" "e \<notin> ik_seen_execs s" "map_option mt_order_id (map_of (ik_metadata s) (int_text n)) = Some oid"
    and "\<forall>x \<in> set xs. for_order e n x"
  shows "commissions_on e xs s = map (Call \<circ> Commission_Callback oid) (take 1 (List.map_filter (commission_amount e) xs))"
  using commissions_on_spec [OF assms(1,3,4)] assms(2) by simp

text \<open>C19: The market data lines stay bounded. In every state the live client can reach, a request for quotes leaves at
  most eighty subscriptions; the underlying is never dropped, no other that was idle for more than ten
  minutes is kept, and one that was not idle is dropped only if none that is kept was used longer ago.\<close>

theorem subscriptions_bounded:
  assumes "s = snd (ibkr_run xs (new_ibkr cfg es))" "s' = snd (snd (quotes_read ny ok now clk reading ks s))"
  shows "length (ik_tickers s') \<le> 80
    \<and> map_of (ik_tickers s') (Symbol_Key ''XSP'') = map_of (ik_tickers s) (Symbol_Key ''XSP'')
    \<and> (\<forall>k l. k \<noteq> Symbol_Key ''XSP'' \<longrightarrow> map_of (ik_last_access s') k = Some l \<longrightarrow> clk - l \<le> 600)
    \<and> (\<forall>k l k' l'. map_of (ik_tickers s') k = None \<longrightarrow> map_of (ik_last_access s) k = Some l \<longrightarrow> clk - l \<le> 600
         \<longrightarrow> k' \<noteq> Symbol_Key ''XSP'' \<longrightarrow> map_of (ik_last_access s') k' = Some l' \<longrightarrow> l \<le> l')"
proof -
  have ok: "streaming_ok s" and pin: "ik_pinned s = {Symbol_Key ''XSP''}" using run_streaming assms(1) by auto
  define K where "K = set (idle_symbols clk s @ overflow_symbols clk s)"
  have t: "ik_tickers s' = filter (\<lambda>p. fst p \<notin> K) (ik_tickers s)" "ik_last_access s' = filter (\<lambda>p. fst p \<notin> K) (ik_last_access s)"
    using read_frame(2) [of clk s ny ok now reading ks] evict_effect [of clk s] assms(2) by (simp_all add: same_market_def K_def)
  have restrict2: "map_of (filter (\<lambda>p. fst p \<notin> K) d) k = (if k \<in> K then None else map_of d k)" for d :: "(quote_key \<times> pyfloat) list" and k
    by (induction d) auto
  have restrict3: "map_of (filter (\<lambda>p. fst p \<notin> K) d) k = (if k \<in> K then None else map_of d k)" for d :: "(quote_key \<times> ib_contract) list" and k
    by (induction d) auto
  have out: "Symbol_Key ''XSP'' \<notin> K" using evicted_ok(2) [OF ok, of clk] pin by (auto simp: K_def)
  have same: "map_of (ik_tickers s) k = None \<longleftrightarrow> map_of (ik_last_access s) k = None" for k
    using ok by (simp add: map_of_None_keys streaming_ok_def)
  have A: "length (ik_tickers s') \<le> 80"
    using evict_bound [OF ok, of clk] pin t evict_effect(1) [of clk s] by (simp add: max_streaming_def K_def)
  have C: "clk - l \<le> 600" if "k \<noteq> Symbol_Key ''XSP''" "map_of (ik_last_access s') k = Some l" for k l
  proof (rule ccontr)
    assume "\<not> clk - l \<le> 600"
    moreover have "k \<notin> K" "map_of (ik_last_access s) k = Some l" using that(2) unfolding t restrict2 by (auto split: if_splits)
    moreover from this have "(k, l) \<in> set (evictable s)" using evictable_ok(1) [OF ok] pin that(1) by (simp add: map_of_SomeD)
    ultimately show False using idle_symbols_ok(2) [OF ok, of k clk] by (auto simp: K_def idle_evict_seconds_def)
  qed
  have D: "l \<le> l'" if "map_of (ik_tickers s') k = None" "map_of (ik_last_access s) k = Some l" "clk - l \<le> 600"
    "k' \<noteq> Symbol_Key ''XSP''" "map_of (ik_last_access s') k' = Some l'" for k l k' l'
  proof -
    have "k \<in> K" using that(1,2) same [of k] unfolding t restrict3 by (auto split: if_splits)
    moreover have "k \<notin> set (idle_symbols clk s)"
    proof
      assume "k \<in> set (idle_symbols clk s)"
      then obtain l2 where "(k, l2) \<in> set (evictable s)" "600 < clk - l2" using idle_symbols_ok(2) [OF ok] by (auto simp: idle_evict_seconds_def)
      then have "map_of (ik_last_access s) k = Some l2"
        using evictable_ok(1) [OF ok] ok by (simp add: streaming_ok_def wf_dict_def map_of_is_SomeI)
      with that(2,3) \<open>600 < clk - l2\<close> show False by simp
    qed
    ultimately have "k \<in> set (overflow_symbols clk s)" by (auto simp: K_def)
    moreover have "k' \<notin> K" "map_of (ik_last_access s) k' = Some l'" using that(5) unfolding t restrict2 by (auto split: if_splits)
    ultimately show ?thesis using evict_least_recent [OF ok _ that(2), of clk k' l'] pin that(4) by (simp add: K_def)
  qed
  have B: "map_of (ik_tickers s') (Symbol_Key ''XSP'') = map_of (ik_tickers s) (Symbol_Key ''XSP'')"
    using out unfolding t restrict3 by simp
  show ?thesis
    by (intro conjI allI impI) (rule A, rule B, rule C, assumption+, rule D, assumption+)
qed


text \<open>The prices the bars of a symbol see are the prices its ticker showed with repetitions removed: an update of
  another field brings no stale price into a bar.\<close>

lemma bars_fed_changes:
  "List.map_filter (fed_price k) (fst (ibkr_run xs s)) =
     map the (tl (remdups_adj (map_of (ik_last_tick s) k # map Some (List.map_filter (price_of_key k) xs))))"
proof -
  have z: "map (\<lambda>(a, b). the b) (zip d (tl d)) = map the (tl d)" for d :: "pyfloat option list"
    by (rule nth_equalityI) (auto simp: nth_tl)
  show ?thesis using ticks.reports_changes [of xs k s] z by (simp add: ibkr_run_def Let_def)
qed

section \<open>Samples\<close>

definition sample_placed :: ibkr where
  "sample_placed = snd (snd (ibkr_place (sample_session [''DU1'']) False 5 40 ''17'' sample_limit_plan
     (new_ibkr default_broker_config new_store)))"

definition sample_trade :: "string \<Rightarrow> int \<Rightarrow> ib_trade" where
  "sample_trade st filled = \<lparr>it_order_id = 17, it_perm_id = 1, it_contract = to_ib_contract (op_contract sample_limit_plan),
     it_action = ''BUY'', it_total = 2, it_limit = 1, it_status = st, it_filled = filled, it_remaining = 2 - filled,
     it_avg_fill = 1, it_last_fill = 1, it_why_held = [], it_done = False\<rparr>"

definition sample_execution :: "string \<Rightarrow> ib_execution" where
  "sample_execution e = \<lparr>ie_order_id = 17, ie_exec_id = Some e, ie_shares = 1, ie_price = 1, ie_cum_qty = 1,
     ie_side = ''BOT'', ie_time = lit []\<rparr>"

definition sample_report :: "pyfloat \<Rightarrow> ib_commission" where
  "sample_report c = \<lparr>rp_commission = Some c, rp_realized = None\<rparr>"

theorem status_events_are_changes_witness:
  "List.map_filter (status_report ''17'') (fst (ibkr_run
      [In_Status 6 (sample_trade ''PreSubmitted'' 0), In_Status 7 (sample_trade ''Submitted'' 0), In_Disconnected,
       In_Status 8 (sample_trade ''Submitted'' 1), In_Status 9 ((sample_trade ''Filled'' 2)\<lparr>it_limit := 0\<rparr>), In_Status 10 (sample_trade ''Filled'' 2)]
      sample_placed))
   = [(None, SUBMITTED), (Some SUBMITTED, PARTIALLY_FILLED)]"
proof -
  let ?xs = "[In_Status 6 (sample_trade ''PreSubmitted'' 0), In_Status 7 (sample_trade ''Submitted'' 0), In_Disconnected,
       In_Status 8 (sample_trade ''Submitted'' 1), In_Status 9 ((sample_trade ''Filled'' 2)\<lparr>it_limit := 0\<rparr>), In_Status 10 (sample_trade ''Filled'' 2)]"
  have k: "map_option mt_quantity (map_of (ik_metadata sample_placed) ''17'') = Some (rd_allowed sample_approval)"
    "map_of (ik_statuses sample_placed) ''17'' = None" by code_simp+
  have us: "List.map_filter (update_of ''17'') ?xs
      = [(SUBMITTED, True), (SUBMITTED, True), (PARTIALLY_FILLED, True), (FILLED, False), (FILLED, True)]" by code_simp
  have "map_of (ik_metadata sample_placed) ''17'' \<noteq> None" using k(1) by auto
  from status_events_are_changes [OF this, of ?xs] show ?thesis unfolding us k(2) by simp
qed

theorem commission_reported_once_witness:
  "commissions_on ''e1'' [In_Commission 6 (sample_execution ''e1'') (sample_report 0), In_Commission 7 (sample_execution ''e1'') (sample_report (13/10)),
      In_Commission 8 (sample_execution ''e2'') (sample_report 1), In_Commission 9 (sample_execution ''e1'') (sample_report (13/10))] sample_placed
   = [Call (Commission_Callback 40 (13/10))]"
proof -
  let ?xs = "[In_Commission 6 (sample_execution ''e1'') (sample_report 0), In_Commission 7 (sample_execution ''e1'') (sample_report (13/10)),
      In_Commission 8 (sample_execution ''e2'') (sample_report 1), In_Commission 9 (sample_execution ''e1'') (sample_report (13/10))]"
  have t: "int_text 17 = ''17''" by code_simp
  have k: "map_option mt_order_id (map_of (ik_metadata sample_placed) (int_text 17)) = Some 40" unfolding t by code_simp
  have s: "ik_seen_execs sample_placed = {}" by code_simp
  have "list_all (for_order ''e1'' 17) ?xs" by code_simp
  then have f: "\<forall>x \<in> set ?xs. for_order ''e1'' 17 x" by (simp add: list_all_iff)
  have a: "List.map_filter (commission_amount ''e1'') ?xs = [13/10, 13/10]" by code_simp
  have "''e1'' \<noteq> []" "''e1'' \<notin> ik_seen_execs sample_placed" by (simp_all add: s)
  from commission_reported_once [OF this k f] show ?thesis unfolding a by simp
qed

definition sample_stream :: "ibkr_input list" where
  "sample_stream = [In_Subscribe 0 [(Symbol_Key ''XSP'', ib_index ''XSP''), (Symbol_Key ''SPY'', ib_stock ''SPY'')],
     In_Subscribe 500 [(Symbol_Key ''QQQ'', ib_stock ''QQQ'')]]"

definition sample_ticker :: ib_ticker where
  "sample_ticker = \<lparr>tk_bid = Some 1, tk_ask = Some 2, tk_last = None, tk_volume = None, tk_greeks = None, tk_close = None, tk_time = None\<rparr>"

theorem subscriptions_bounded_witness:
  "let s = snd (ibkr_run sample_stream (new_ibkr default_broker_config new_store));
       s' = snd (snd (quotes_read (\<lambda>t. 0) True 5 700 (\<lambda>k. sample_ticker) [Symbol_Key ''XSP''] s))
   in length (ik_tickers s) = 3 \<and> dict_keys (ik_tickers s') = [Symbol_Key ''XSP'', Symbol_Key ''QQQ''] \<and> length (ik_tickers s') \<le> 80"
proof -
  let ?s = "snd (ibkr_run sample_stream (new_ibkr default_broker_config new_store))"
  let ?t = "snd (snd (quotes_read (\<lambda>t. 0) True 5 700 (\<lambda>k. sample_ticker) [Symbol_Key ''XSP''] ?s))"
  have "length (ik_tickers ?s) = 3" by code_simp
  moreover have "dict_keys (ik_tickers ?t) = [Symbol_Key ''XSP'', Symbol_Key ''QQQ'']" by code_simp
  moreover have "length (ik_tickers ?t) \<le> 80" using subscriptions_bounded [OF refl refl] by blast
  ultimately show ?thesis unfolding Let_def by blast
qed

section \<open>What the filters hide\<close>

text \<open>When a partial fill grows, the status is the same and nothing is passed on: the order manager's filled
  quantity stays at the first partial fill until the status changes.\<close>

lemma partial_growth_not_reported:
  assumes "map_of (ik_statuses s) (trade_key t) = Some PARTIALLY_FILLED" "it_status t = ''Submitted''"
    and "0 < it_filled t" "0 < it_remaining t"
  shows "fst (on_order_status now t s) = Inr []"
proof -
  have "reported_status t = PARTIALLY_FILLED"
    using assms(2-4) by (simp add: reported_status_def internal_status_def ib_to_internal_status_def dict_default_def)
  with assms(1) show ?thesis by (simp add: on_order_status_def Let_def split: option.split)
qed

text \<open>A status whose order does not convert is stored but never passed on, not even when it is repeated
  with a trade that converts.\<close>

lemma unconverted_status_is_lost:
  assumes "map_of (ik_metadata s) (trade_key t) = Some m" "map_of (ik_statuses s) (trade_key t) \<noteq> Some (reported_status t)"
    and "from_ib_contract (it_contract t) = Inl e"
    and "trade_key t' = trade_key t" "reported_status t' = reported_status t"
  shows "isl (fst (on_order_status now t s)) \<and> fst (on_order_status now' t' (snd (on_order_status now t s))) = Inr []"
  using assms by (simp add: on_order_status_def to_internal_order_state_def Let_def)

text \<open>One crossed market fails a whole request for quotes.\<close>

lemma crossed_market_fails_request:
  "k \<in> set ks \<Longrightarrow> shown (tk_bid (reading k)) = Some b \<Longrightarrow> shown (tk_ask (reading k)) = Some a \<Longrightarrow> a < b \<Longrightarrow>
   isl (read_tickers now reading ks d)"
proof (induction ks arbitrary: d)
  case (Cons k' ks)
  show ?case
  proof (cases "ticker_quote k' (ticker_time now (reading k')) (reading k')")
    case (Inr q)
    with Cons.prems have "k \<noteq> k'" by (auto simp: ticker_quote_def mk_quote_def bid_not_greater_than_ask_def split: if_splits)
    with Cons Inr show ?thesis by simp
  qed simp
qed simp

text \<open>A trade at the price of the one before it feeds no bar, however much later it is.\<close>

lemma unchanged_trade_feeds_no_bar:
  "map_of (ik_last_tick s) (internal_symbol i) = Some p \<Longrightarrow> bar_price i t = Some p \<Longrightarrow>
   ik_bars (snd (on_ticker ny now (Some i) t s)) = ik_bars s"
  by (simp add: on_ticker_def feed_bar_def split: sum.split)

end
