(* ===== verification/Operator_Views.thy ===== *)
theory Operator_Views
  imports Manual_Control
begin

text \<open>
  The read side of \<^verbatim>\<open>src/control/manual_control.py\<close> (\<open>show_risk\<close>, \<open>show_positions\<close>,
  \<open>show_orders\<close>, \<open>show_rejections\<close>) and the dispatcher of \<^verbatim>\<open>src/app/control.py\<close>. The argument
  parser is a library: \<open>cli_command\<close> is what it hands over, one constructor for each sub-command with
  the arguments that it requires. The text of a UUID is parsed by the parameter \<open>uuid_of\<close>.
\<close>

section \<open>Fields of logged payloads\<close>

text \<open>\<open>data.get(key)\<close> on the dictionary that \<open>log_callback\<close> makes of a model, for the keys that the
  readers of the log look up; enumerations are their texts.\<close>

definition decision_arg :: "decision_status \<Rightarrow> farg" where
  "decision_arg d = FStr (case d of APPROVED \<Rightarrow> ''APPROVED'' | DECISION_REJECTED \<Rightarrow> ''REJECTED'')"

fun payload_fields :: "payload \<Rightarrow> (string \<times> farg) list" where
  "payload_fields (P_Decision d) = [(''status'', decision_arg (rd_status d)),
     (''blocking_reasons'', FList (map FMsg (rd_blocking d)))]"
| "payload_fields (P_Order_Event e) = [(''order_id'', FId (oe_order_id e)),
     (''new_status'', status_arg (oe_new e)), (''message'', FMsg (oe_message e))]"
| "payload_fields (P_Order_State o') = [(''order_id'', FId (os_id o')), (''position_id'', opt_arg FId (os_position_id o')),
     (''is_entry'', FBool (os_is_entry o')), (''strategy_id'', FStr (os_strategy o')), (''side'', side_arg (os_side o')),
     (''quantity'', FInt (os_quantity o')), (''filled_quantity'', FInt (os_filled o')),
     (''limit_price'', FFloat (os_limit o')), (''status'', status_arg (os_status o'))]"
| "payload_fields (P_Fill f) = [(''order_id'', FId (fe_order_id f)), (''strategy_id'', FStr (fe_strategy f)),
     (''side'', side_arg (fe_side f)), (''filled_quantity'', FInt (fe_quantity f)), (''fill_price'', FFloat (fe_price f))]"
| "payload_fields (P_Signal s) = [(''strategy_id'', FStr (sg_strategy s))]"
| "payload_fields (P_Dict kvs) = kvs"
| "payload_fields _ = []"

definition field_of :: "string \<Rightarrow> payload \<Rightarrow> farg option" where
  "field_of k p = map_of (payload_fields p) k"

definition field_or :: "string \<Rightarrow> farg \<Rightarrow> payload \<Rightarrow> farg" where
  "field_or k v p = (case field_of k p of None \<Rightarrow> v | Some x \<Rightarrow> x)"

section \<open>The show commands\<close>

record risk_info =
  ri_locked :: bool
  ri_reduce_only :: bool
  ri_paused :: "string list"
  ri_disabled :: "string list"
  ri_reduce_strategies :: "string list"

definition show_risk :: "instant \<Rightarrow> string \<Rightarrow> components \<Rightarrow> risk_info \<times> components" where
  "show_risk now operator c =
     (let ov = ovm_state (cp_overrides c)
      in (\<lparr>ri_locked = ov_system_locked ov, ri_reduce_only = ov_reduce_only ov, ri_paused = ov_paused ov,
           ri_disabled = ov_disabled_symbols ov, ri_reduce_strategies = ov_reduce_only_strategies ov\<rparr>,
          log_action now operator ''show-risk'' None [] (lit ''ok'') c))"

record position_summary =
  sp_id :: uuid
  sp_strategy :: string
  sp_contract :: farg
  sp_side :: order_side
  sp_quantity :: int
  sp_entry_price :: pyfloat
  sp_unrealized :: "pyfloat option"
  sp_status :: position_status

definition summarize_position :: "position \<Rightarrow> position_summary" where
  "summarize_position p = \<lparr>sp_id = ps_id p, sp_strategy = ps_strategy p, sp_contract = contract_arg (ps_contract p),
     sp_side = ps_side p, sp_quantity = ps_quantity p, sp_entry_price = ps_avg_entry p,
     sp_unrealized = ps_unrealized p, sp_status = ps_status p\<rparr>"

definition show_positions :: "instant \<Rightarrow> string \<Rightarrow> components \<Rightarrow> position_summary list \<times> components" where
  "show_positions now operator c =
     (let ps = map summarize_position (get_open_positions (cp_book c))
      in (ps, log_action now operator ''show-positions'' None [] (Fstr ''{}_positions'' [FInt (int (length ps))]) c))"

record order_summary =
  so_id :: uuid
  so_strategy :: string
  so_contract :: farg
  so_side :: order_side
  so_quantity :: int
  so_filled :: int
  so_limit :: pyfloat
  so_status :: order_status

definition summarize_order :: "order_state \<Rightarrow> order_summary" where
  "summarize_order o' = \<lparr>so_id = os_id o', so_strategy = os_strategy o', so_contract = contract_arg (os_contract o'),
     so_side = os_side o', so_quantity = os_quantity o', so_filled = os_filled o', so_limit = os_limit o',
     so_status = os_status o'\<rparr>"

definition show_orders :: "instant \<Rightarrow> string \<Rightarrow> components \<Rightarrow> order_summary list \<times> components" where
  "show_orders now operator c =
     (let os = map summarize_order (filter
        (\<lambda>o'. os_status o' \<in> {NEW, RISK_CHECKED, SUBMITTED, PARTIALLY_FILLED, CANCEL_PENDING}) (dict_values (om_orders (cp_orders c))))
      in (os, log_action now operator ''show-orders'' None [] (Fstr ''{}_orders'' [FInt (int (length os))]) c))"

datatype rejection =
    Risk_Rejection instant farg farg farg \<comment> \<open>time, strategy, status, blocking reasons\<close>
  | Order_Rejection instant farg farg \<comment> \<open>time, order, message\<close>

definition rejection_of :: "log_entry \<Rightarrow> rejection list" where
  "rejection_of e = (let p = le_payload e in
     if le_type e = ''risk_decision'' then
       (if field_of ''status'' p \<noteq> Some (FStr ''APPROVED'')
        then [Risk_Rejection (le_time e) (field_or ''strategy_id'' FNone p) (field_or ''status'' FNone p)
                (field_or ''blocking_reasons'' (FList []) p)] else [])
     else if le_type e \<in> {''order_event'', ''order_state_transition'', ''order_callback''} then
       (if field_of ''new_status'' p = Some (FStr ''REJECTED'')
        then [Order_Rejection (le_time e) (field_or ''order_id'' FNone p) (field_or ''message'' (FStr []) p)] else [])
     else [])"

definition show_rejections :: "instant \<Rightarrow> string \<Rightarrow> components \<Rightarrow> rejection list \<times> components" where
  "show_rejections now operator c =
     (let rs = concat (map rejection_of (es_events (cp_store c)))
      in (rs, log_action now operator ''show-rejections'' None [] (Fstr ''{}_rejections'' [FInt (int (length rs))]) c))"

section \<open>The command line\<close>

datatype cli_command = Cli_Status | Cli_Pause string | Cli_Resume string | Cli_Disable string | Cli_Enable string
  | Cli_Reduce_Only "string option" | Cli_Flatten_Position string pyfloat | Cli_Flatten_Strategy string pyfloat
  | Cli_Flatten_All pyfloat | Cli_Cancel_Order string | Cli_Cancel_All | Cli_Lock | Cli_Show_Risk
  | Cli_Show_Positions | Cli_Show_Orders | Cli_Show_Rejections

datatype cli_result = Res_Text fstr | Res_Status system_status | Res_Risk risk_info
  | Res_Positions "position_summary list" | Res_Orders "order_summary list" | Res_Rejections "rejection list"

definition reply :: "('a \<Rightarrow> cli_result) \<Rightarrow> 'a \<times> components \<Rightarrow> (py_error + cli_result) \<times> components" where
  "reply f x = (Inr (f (fst x)), snd x)"

fun run_command ::
  "(string \<Rightarrow> py_error + uuid) \<Rightarrow> broker_cancel \<Rightarrow> instant \<Rightarrow> string \<Rightarrow> cli_command \<Rightarrow> components
     \<Rightarrow> (py_error + cli_result) \<times> components" where
  "run_command uuid_of cancel now op Cli_Status c = reply Res_Status (manual_status now op c)"
| "run_command uuid_of cancel now op (Cli_Pause s) c = reply (Res_Text \<circ> lit) (manual_pause_strategy now op s c)"
| "run_command uuid_of cancel now op (Cli_Resume s) c = reply (Res_Text \<circ> lit) (manual_resume_strategy now op s c)"
| "run_command uuid_of cancel now op (Cli_Disable s) c = reply (Res_Text \<circ> lit) (manual_disable_symbol now op s c)"
| "run_command uuid_of cancel now op (Cli_Enable s) c = reply (Res_Text \<circ> lit) (manual_enable_symbol now op s c)"
| "run_command uuid_of cancel now op (Cli_Reduce_Only s) c = reply (Res_Text \<circ> lit) (manual_reduce_only now op s c)"
| "run_command uuid_of cancel now op (Cli_Flatten_Position i price) c =
     (case uuid_of i of Inl e \<Rightarrow> (Inl e, c)
      | Inr pid \<Rightarrow> reply (Res_Text \<circ> lit) (flatten_position now op pid price c))"
| "run_command uuid_of cancel now op (Cli_Flatten_Strategy s price) c = reply Res_Text (flatten_strategy now op s price c)"
| "run_command uuid_of cancel now op (Cli_Flatten_All price) c = reply Res_Text (flatten_all now op price c)"
| "run_command uuid_of cancel now op (Cli_Cancel_Order i) c =
     (case uuid_of i of Inl e \<Rightarrow> (Inl e, c)
      | Inr oid \<Rightarrow> reply (Res_Text \<circ> lit) (manual_cancel_order now op cancel oid c))"
| "run_command uuid_of cancel now op Cli_Cancel_All c = reply Res_Text (cancel_all now op cancel c)"
| "run_command uuid_of cancel now op Cli_Lock c = reply (Res_Text \<circ> lit) (manual_lock_system now op c)"
| "run_command uuid_of cancel now op Cli_Show_Risk c = reply Res_Risk (show_risk now op c)"
| "run_command uuid_of cancel now op Cli_Show_Positions c = reply Res_Positions (show_positions now op c)"
| "run_command uuid_of cancel now op Cli_Show_Orders c = reply Res_Orders (show_orders now op c)"
| "run_command uuid_of cancel now op Cli_Show_Rejections c = reply Res_Rejections (show_rejections now op c)"

text \<open>The name of a sub-command, and the component that it is for.\<close>

fun cli_name :: "cli_command \<Rightarrow> string" where
  "cli_name Cli_Status = ''status''" | "cli_name (Cli_Pause s) = ''pause-strategy''"
| "cli_name (Cli_Resume s) = ''resume-strategy''" | "cli_name (Cli_Disable s) = ''disable-symbol''"
| "cli_name (Cli_Enable s) = ''enable-symbol''" | "cli_name (Cli_Reduce_Only s) = ''reduce-only''"
| "cli_name (Cli_Flatten_Position i x) = ''flatten-position''" | "cli_name (Cli_Flatten_Strategy s x) = ''flatten-strategy''"
| "cli_name (Cli_Flatten_All x) = ''flatten-all''" | "cli_name (Cli_Cancel_Order i) = ''cancel-order''"
| "cli_name Cli_Cancel_All = ''cancel-all''" | "cli_name Cli_Lock = ''lock-system''"
| "cli_name Cli_Show_Risk = ''show-risk''" | "cli_name Cli_Show_Positions = ''show-positions''"
| "cli_name Cli_Show_Orders = ''show-orders''" | "cli_name Cli_Show_Rejections = ''show-rejections''"

section \<open>Every command is on record\<close>

text \<open>The newest event of the log says who ran which command.\<close>

definition on_record :: "string \<Rightarrow> string \<Rightarrow> event_store \<Rightarrow> bool" where
  "on_record operator command s \<longleftrightarrow> (\<exists>e ov q. last (es_events s) = e \<and> es_queue s = q @ [Some e]
     \<and> le_type e = ''manual_override'' \<and> le_payload e = P_Override ov
     \<and> mo_operator ov = operator \<and> mo_command ov = command)"

lemma trim_events_last: "last (trim_events (xs @ [x])) = x"
  by (simp add: trim_events_def)

lemma log_action_on_record: "on_record operator command (cp_store (log_action now operator command target ps res c))"
  unfolding on_record_def log_action_def log_callback_def Let_def by (simp add: trim_events_last)

lemma log_action_frame [simp]:
  "cp_orders (log_action now operator command target ps res c) = cp_orders c"
  "cp_book (log_action now operator command target ps res c) = cp_book c"
  "cp_overrides (log_action now operator command target ps res c) = cp_overrides c"
  by (simp_all add: log_action_def)

text \<open>The components that a command may change.\<close>

datatype part = Override_Part | Book_Part | Order_Part

fun concerns :: "cli_command \<Rightarrow> part option" where
  "concerns (Cli_Pause s) = Some Override_Part" | "concerns (Cli_Resume s) = Some Override_Part"
| "concerns (Cli_Disable s) = Some Override_Part" | "concerns (Cli_Enable s) = Some Override_Part"
| "concerns (Cli_Reduce_Only s) = Some Override_Part" | "concerns Cli_Lock = Some Override_Part"
| "concerns (Cli_Flatten_Position i x) = Some Book_Part" | "concerns (Cli_Flatten_Strategy s x) = Some Book_Part"
| "concerns (Cli_Flatten_All x) = Some Book_Part" | "concerns (Cli_Cancel_Order i) = Some Order_Part"
| "concerns Cli_Cancel_All = Some Order_Part" | "concerns _ = None"

definition only_changes :: "part option \<Rightarrow> components \<Rightarrow> components \<Rightarrow> bool" where
  "only_changes p c c' \<longleftrightarrow> (p = Some Override_Part \<or> cp_overrides c' = cp_overrides c)
     \<and> (p = Some Book_Part \<or> cp_book c' = cp_book c) \<and> (p = Some Order_Part \<or> cp_orders c' = cp_orders c)"

lemma only_changes_refl [simp]: "only_changes p c c"
  by (simp add: only_changes_def)

lemma only_changes_log [simp]:
  "only_changes p c (log_action now operator command target ps res c') = only_changes p c c'"
  by (simp add: only_changes_def)

lemma on_parts_change:
  "only_changes (Some Override_Part) c (snd (on_overrides f c))"
  "only_changes (Some Book_Part) c (snd (on_book g c))"
  "only_changes (Some Order_Part) c (snd (on_orders h c))"
  by (simp_all add: only_changes_def on_overrides_def on_book_def on_orders_def split: prod.splits)

definition accounted :: "string \<Rightarrow> string \<Rightarrow> part option \<Rightarrow> components \<Rightarrow> components \<Rightarrow> bool" where
  "accounted operator command p c c' \<longleftrightarrow> on_record operator command (cp_store c') \<and> only_changes p c c'"

lemma accounted_log: "only_changes p c c' \<Longrightarrow> accounted operator command p c (log_action now operator command target ps res c')"
  by (simp add: accounted_def log_action_on_record)

lemma accounted_toggle:
  "accounted operator command (Some Override_Part) c (snd (manual_toggle now operator command target yes no f c))"
  using on_parts_change(1) [of c f]
  by (cases "on_overrides f c") (simp add: manual_toggle_def Let_def accounted_log)

lemma accounted_flatten:
  "accounted operator ''flatten-position'' (Some Book_Part) c (snd (flatten_position now operator pid price c))"
  "accounted operator command (Some Book_Part) c (snd (flatten_positions now operator command target price ps c))"
  using on_parts_change(2) [of c "force_close_position now pid price now"] on_parts_change(2) [of c "force_close_all now price ps"]
  by (auto simp: flatten_position_def flatten_positions_def Let_def accounted_log split: prod.splits)

text \<open>A cancel waits for the broker. Apart from what runs meanwhile it touches the orders only: what
  that keeps of the book and of the overrides, the command keeps.\<close>

definition await_keeps :: "broker_cancel \<Rightarrow> (position_book \<Rightarrow> override_manager \<Rightarrow> bool) \<Rightarrow> bool" where
  "await_keeps cancel K \<longleftrightarrow> (\<forall>bid c. K (cp_book c) (cp_overrides c)
     \<longrightarrow> K (cp_book (snd (cancel bid c))) (cp_overrides (snd (cancel bid c))))"

lemma on_orders_frame [simp]:
  "cp_book (snd (on_orders f c)) = cp_book c" "cp_overrides (snd (on_orders f c)) = cp_overrides c"
  by (simp_all add: on_orders_def split: prod.split)

lemma cancel_order_keeps:
  assumes "await_keeps cancel K" "K (cp_book c) (cp_overrides c)" "c' = snd (cancel_order now cancel oid hard c)"
  shows "K (cp_book c') (cp_overrides c')"
proof -
  obtain ph c1 where c1: "on_orders (cancel_request now oid hard) c = (ph, c1)" by force
  then have k: "K (cp_book c1) (cp_overrides c1)"
    using assms(2) on_orders_frame [of "cancel_request now oid hard" c] by simp
  show ?thesis
  proof (cases ph)
    case (Cancel_Await bid)
    obtain rep c2 where c2: "cancel bid c1 = (rep, c2)" by force
    with assms(1) k have "K (cp_book c2) (cp_overrides c2)" unfolding await_keeps_def by (metis snd_conv)
    then show ?thesis using assms(3) c1 c2 Cancel_Await by (simp add: cancel_order_def)
  qed (use assms(3) c1 k in \<open>simp add: cancel_order_def\<close>)
qed

lemma cancel_orders_keep:
  "await_keeps cancel K \<Longrightarrow> K (cp_book c) (cp_overrides c) \<Longrightarrow>
   K (cp_book (snd (cancel_orders now cancel ids c))) (cp_overrides (snd (cancel_orders now cancel ids c)))"
proof (induction ids arbitrary: c)
  case (Cons i ids)
  obtain ok c1 where c1: "cancel_order now cancel i True c = (ok, c1)" by force
  then have "K (cp_book c1) (cp_overrides c1)" using cancel_order_keeps [OF Cons.prems, of c1 now i True] by simp
  from Cons.IH [OF Cons.prems(1) this] show ?case using c1 by (auto split: prod.split)
qed simp

lemma recorded_cancel:
  "on_record operator ''cancel-order'' (cp_store (snd (manual_cancel_order now operator cancel oid c)))"
  "on_record operator ''cancel-all'' (cp_store (snd (cancel_all now operator cancel c)))"
  by (auto simp: manual_cancel_order_def cancel_all_def Let_def log_action_on_record split: prod.split)

lemma cancel_commands_keep:
  assumes "await_keeps cancel K" "K (cp_book c) (cp_overrides c)"
  shows "K (cp_book (snd (manual_cancel_order now operator cancel oid c))) (cp_overrides (snd (manual_cancel_order now operator cancel oid c)))"
    "K (cp_book (snd (cancel_all now operator cancel c))) (cp_overrides (snd (cancel_all now operator cancel c)))"
proof -
  obtain ok c1 where c1: "cancel_order now cancel oid True c = (ok, c1)" by force
  show "K (cp_book (snd (manual_cancel_order now operator cancel oid c))) (cp_overrides (snd (manual_cancel_order now operator cancel oid c)))"
    using cancel_order_keeps [OF assms, of c1 now oid True] c1 by (simp add: manual_cancel_order_def Let_def)
  obtain n c2 where c2: "cancel_orders now cancel (active_order_ids (cp_orders c)) c = (n, c2)" by force
  show "K (cp_book (snd (cancel_all now operator cancel c))) (cp_overrides (snd (cancel_all now operator cancel c)))"
    using cancel_orders_keep [OF assms, of now "active_order_ids (cp_orders c)"] c2 assms(2)
    by (simp add: cancel_all_def Let_def)
qed

lemma accounted_reads:
  "accounted operator ''status'' None c (snd (manual_status now operator c))"
  "accounted operator ''show-risk'' None c (snd (show_risk now operator c))"
  "accounted operator ''show-positions'' None c (snd (show_positions now operator c))"
  "accounted operator ''show-orders'' None c (snd (show_orders now operator c))"
  "accounted operator ''show-rejections'' None c (snd (show_rejections now operator c))"
  by (simp_all add: manual_status_def show_risk_def show_positions_def show_orders_def show_rejections_def
      Let_def accounted_log)

lemmas accounted_commands = accounted_toggle accounted_flatten accounted_reads

lemma snd_reply [simp]: "snd (reply f x) = snd x" and fst_reply [simp]: "fst (reply f x) = Inr (f (fst x))"
  by (simp_all add: reply_def)

lemmas toggle_commands = manual_pause_strategy_def manual_resume_strategy_def manual_disable_symbol_def
  manual_enable_symbol_def manual_reduce_only_def manual_lock_system_def

lemma run_command_accounted:
  assumes "fst (run_command uuid_of cancel now operator cmd c) = Inr r" "concerns cmd \<noteq> Some Order_Part"
  shows "accounted operator (cli_name cmd) (concerns cmd) c (snd (run_command uuid_of cancel now operator cmd c))"
  using assms
  by (cases cmd) (simp_all add: toggle_commands flatten_strategy_def flatten_all_def accounted_commands split: sum.splits)

lemma run_command_recorded:
  assumes "fst (run_command uuid_of cancel now operator cmd c) = Inr r"
  shows "on_record operator (cli_name cmd) (cp_store (snd (run_command uuid_of cancel now operator cmd c)))"
proof (cases "concerns cmd = Some Order_Part")
  case True
  with assms show ?thesis by (cases cmd) (simp_all add: recorded_cancel split: sum.splits)
qed (use run_command_accounted [OF assms] in \<open>simp add: accounted_def\<close>)

lemma run_command_cancels:
  assumes "concerns cmd = Some Order_Part" "await_keeps cancel K" "K (cp_book c) (cp_overrides c)"
  shows "K (cp_book (snd (run_command uuid_of cancel now operator cmd c))) (cp_overrides (snd (run_command uuid_of cancel now operator cmd c)))"
  using assms cancel_commands_keep [OF assms(2,3)] by (cases cmd) (simp_all split: sum.split)

text \<open>C40: The command line is on record and stays in its lane. Every command that answers has left as
  the newest event of the log, and last in the queue of the writer, a \<open>manual_override\<close> with the
  command's name and the operator; the switches change nothing but the overrides, the flatten commands
  nothing but the positions, and the status and show commands none of them. The cancel commands wait
  for the broker: apart from what is delivered meanwhile they change nothing but the orders (whatever
  that keeps of the book and the overrides, they keep). A command that raises (an identifier that is
  no UUID) has changed nothing at all. That the flatten commands leave the orders as they are is what
  the code does; section 2 of \<^verbatim>\<open>docs/live_trading_checklist.md\<close> says that they cancel pending orders and
  submit exit orders.\<close>

theorem commands_accounted:
  assumes "run_command uuid_of cancel now operator cmd c = (res, c')"
  shows "case res of
      Inl e \<Rightarrow> c' = c
    | Inr r \<Rightarrow> on_record operator (cli_name cmd) (cp_store c')
        \<and> (if concerns cmd = Some Order_Part
           then \<forall>K. await_keeps cancel K \<longrightarrow> K (cp_book c) (cp_overrides c) \<longrightarrow> K (cp_book c') (cp_overrides c')
           else (concerns cmd \<noteq> Some Override_Part \<longrightarrow> cp_overrides c' = cp_overrides c)
             \<and> (concerns cmd \<noteq> Some Book_Part \<longrightarrow> cp_book c' = cp_book c)
             \<and> cp_orders c' = cp_orders c)"
proof (cases res)
  case (Inl e)
  with assms have "c' = c" by (cases cmd) (auto simp: reply_def split: sum.splits)
  with Inl show ?thesis by simp
next
  case (Inr r)
  then have r: "fst (run_command uuid_of cancel now operator cmd c) = Inr r" and c': "c' = snd (run_command uuid_of cancel now operator cmd c)"
    using assms by simp_all
  from Inr run_command_recorded [OF r] run_command_accounted [OF r] run_command_cancels [of cmd cancel _ c uuid_of now operator]
  show ?thesis by (auto simp: c' accounted_def only_changes_def)
qed

text \<open>The same with the book and the overrides fixed: a broker call during which nothing reaches them.\<close>

lemma passive_await: "(\<And>bid c. cp_book (snd (cancel bid c)) = cp_book c \<and> cp_overrides (snd (cancel bid c)) = cp_overrides c)
    \<Longrightarrow> await_keeps cancel (\<lambda>b m. b = b0 \<and> m = m0)"
  by (simp add: await_keeps_def)

theorem commands_accounted_witness:
  "\<exists>c'. run_command (\<lambda>s. Inr 4) (\<lambda>bid c. (Inr True, c)) 9 ''op'' (Cli_Flatten_All 3) sample_components
      = (Inr (Res_Text (Fstr ''flattened_{}_positions'' [FInt 1])), c')
    \<and> on_record ''op'' ''flatten-all'' (cp_store c') \<and> cp_overrides c' = cp_overrides sample_components"
proof -
  let ?run = "run_command (\<lambda>s. Inr 4) (\<lambda>bid c. (Inr True, c)) 9 ''op'' (Cli_Flatten_All 3) sample_components"
  have "fst ?run = Inr (Res_Text (Fstr ''flattened_{}_positions'' [FInt 1]))" by code_simp
  then obtain c' where c: "?run = (Inr (Res_Text (Fstr ''flattened_{}_positions'' [FInt 1])), c')"
    by (metis prod.collapse)
  from commands_accounted [OF c] c show ?thesis by simp
qed

text \<open>The flatten commands submit nothing and cancel nothing: they write the book.\<close>

lemma flatten_leaves_orders:
  "cp_orders (snd (flatten_all now operator price c)) = cp_orders c"
  "cp_orders (snd (flatten_strategy now operator sid price c)) = cp_orders c"
  "cp_orders (snd (flatten_position now operator pid price c)) = cp_orders c"
  using accounted_flatten(2) [of operator "''flatten-all''" c now None price "get_open_positions (cp_book c)"]
    accounted_flatten(2) [of operator "''flatten-strategy''" c now "Some (lit sid)" price]
    accounted_flatten(1) [of operator c now pid price]
  by (simp_all add: accounted_def only_changes_def flatten_all_def flatten_strategy_def)

section \<open>What the views show\<close>

text \<open>\<open>show_orders\<close> lists exactly the orders that \<open>cancel_all\<close> would cancel, in the same order, although
  the two select by opposite sets of statuses.\<close>

lemma show_orders_cancellable:
  "map so_id (fst (show_orders now operator c)) = active_order_ids (cp_orders c)"
proof -
  have "(st \<in> {NEW, RISK_CHECKED, SUBMITTED, PARTIALLY_FILLED, CANCEL_PENDING})
      = (st \<notin> {FILLED, CANCELLED, REJECTED, ERROR})" for st :: order_status
    by (cases st) simp_all
  then show ?thesis
    by (simp add: show_orders_def active_order_ids_def Let_def summarize_order_def o_def)
qed

text \<open>A risk decision does not hold its strategy, so a rejection by the risk engine is always shown
  without one.\<close>

lemma risk_rejection_has_no_strategy:
  assumes "le_type e = ''risk_decision''" "le_payload e = P_Decision d" "rd_status d = DECISION_REJECTED"
  shows "rejection_of e = [Risk_Rejection (le_time e) FNone (FStr ''REJECTED'') (FList (map FMsg (rd_blocking d)))]"
  using assms by (simp add: rejection_of_def field_of_def field_or_def decision_arg_def)

text \<open>An order that the broker rejects is shown twice: the adapter logs the change of status as an
  \<open>order_event\<close> and the order manager again as an \<open>order_state_transition\<close>.\<close>

lemma broker_rejection_shown_twice:
  assumes "oe_new ev = REJECTED" "oe_new ev' = REJECTED" "length (es_events s) \<le> 10000"
  shows "concat (map rejection_of (es_events
      (log_callback ''order_state_transition'' (P_Order_Event ev') t' (log_callback ''order_event'' (P_Order_Event ev) t s))))
    = concat (map rejection_of (es_events s))
      @ [Order_Rejection t (FId (oe_order_id ev)) (FMsg (oe_message ev)),
         Order_Rejection t' (FId (oe_order_id ev')) (FMsg (oe_message ev'))]"
proof -
  have "trim_events (es_events s @ [e]) = es_events s @ [e]" "trim_events (es_events s @ [e, e']) = es_events s @ [e, e']"
    for e e' :: log_entry using assms(3) by (simp_all add: trim_events_def)
  then show ?thesis
    using assms(1,2) by (simp add: log_callback_def Let_def rejection_of_def field_of_def field_or_def status_arg_def)
qed

end
