(* ===== verification/Order_History.thy ===== *)
theory Order_History
  imports Operator_Views Runner_Control
begin

text \<open>
  \<^verbatim>\<open>get_order_history\<close> of \<^verbatim>\<open>src/dashboard/views/orders.py\<close>: the table of all orders, rebuilt from
  the events that the order manager and the live broker adapter have logged, and the counts shown above it.
  The cells hold what the payload holds under the key, as an argument of an f-string; \<open>render\<close> is the
  text of one. The order id is read at the top level of the payload: the two nested places that the code
  also looks in (\<open>order\<close>, \<open>metadata\<close>) hold none in any payload that is logged. Rows whose
  payload is no JSON are not modelled: \<open>insert_many\<close> writes nothing else.
\<close>

section \<open>The rows of the log\<close>

definition order_event_types :: "string list" where
  "order_event_types = [''order_event'', ''order_callback'', ''order_state_transition'', ''order_state_updated'',
     ''fill_event'', ''exit_triggered'', ''manual_override'']"

definition order_rows :: "log_entry list \<Rightarrow> log_entry list" where
  "order_rows db = sort_key le_time (filter (\<lambda>e. le_type e \<in> set order_event_types) db)"

definition entry_trigger :: "log_entry \<Rightarrow> (farg, farg) pydict \<Rightarrow> (farg, farg) pydict" where
  "entry_trigger e d =
     (let pid = field_or ''position_id'' FNone (le_payload e); trigger = field_or ''trigger'' FNone (le_payload e)
      in if le_type e = ''exit_triggered'' \<and> farg_truthy pid \<and> farg_truthy trigger
         then AList.update pid trigger d else d)"

definition position_triggers :: "log_entry list \<Rightarrow> (farg, farg) pydict" where
  "position_triggers rows = fold entry_trigger rows []"

text \<open>The id of the order that an event is about, if it is about one.\<close>

definition entry_order :: "log_entry \<Rightarrow> farg option" where
  "entry_order e = (case field_of ''order_id'' (le_payload e) of None \<Rightarrow> None
     | Some i \<Rightarrow> if farg_truthy i then Some i else None)"

section \<open>One order\<close>

record history_row =
  hr_id :: farg
  hr_strategy :: "string option"
  hr_contract :: farg
  hr_side :: farg
  hr_quantity :: farg
  hr_filled :: farg
  hr_limit :: farg
  hr_avg_price :: farg
  hr_status :: farg
  hr_reason :: string
  hr_time :: instant
  hr_updated :: instant
  hr_messages :: "farg list"
  hr_is_entry :: farg
  hr_position :: farg

definition new_history_row :: "farg \<Rightarrow> log_entry \<Rightarrow> history_row" where
  "new_history_row i e = \<lparr>hr_id = i, hr_strategy = le_strategy e, hr_contract = FStr [], hr_side = FStr [],
     hr_quantity = FInt 0, hr_filled = FInt 0, hr_limit = FFloat 0, hr_avg_price = FFloat 0,
     hr_status = FStr ''NEW'', hr_reason = [], hr_time = le_time e, hr_updated = le_time e, hr_messages = [],
     hr_is_entry = FBool True, hr_position = FNone\<rparr>"

text \<open>The text of the contract, when the payload holds one as an object.\<close>

fun payload_contract :: "payload \<Rightarrow> farg option" where
  "payload_contract (P_Order_State o') = Some (contract_arg (os_contract o'))"
| "payload_contract (P_Fill f) = Some (contract_arg (fe_contract f))"
| "payload_contract (P_Signal s) = Some (contract_arg (sg_contract s))"
| "payload_contract _ = None"

definition full_state :: "payload \<Rightarrow> history_row \<Rightarrow> history_row" where
  "full_state p r = r\<lparr>
     hr_contract := (case payload_contract p of None \<Rightarrow> hr_contract r | Some c \<Rightarrow> c),
     hr_side := field_or ''side'' (hr_side r) p, hr_quantity := field_or ''quantity'' (hr_quantity r) p,
     hr_filled := field_or ''filled_quantity'' (hr_filled r) p, hr_limit := field_or ''limit_price'' (hr_limit r) p,
     hr_status := field_or ''status'' (hr_status r) p, hr_position := field_or ''position_id'' (hr_position r) p,
     hr_is_entry := field_or ''is_entry'' (hr_is_entry r) p\<rparr>"

definition message_reason :: "string \<Rightarrow> string \<Rightarrow> string" where
  "message_reason msg old =
     (if occurs_in ''Reprice replacement'' msg then ''Repricer''
      else if occurs_in ''Reprice timed out'' msg then ''Reprice Timeout''
      else if occurs_in ''Reprice cancelled'' msg then ''Reprice Limit''
      else if occurs_in ''Order cancellation requested'' msg then ''Cancelled'' else old)"

text \<open>The new status, if there is one, and the message, if there is one.\<close>

definition status_and_message :: "(farg \<Rightarrow> string) \<Rightarrow> payload \<Rightarrow> history_row \<Rightarrow> history_row" where
  "status_and_message render p r =
     (let st = field_or ''new_status'' FNone p; msg = field_or ''message'' (FStr []) p
      in r\<lparr>hr_status := (if farg_truthy st then st else hr_status r),
           hr_messages := (if py_str render msg \<noteq> [] then hr_messages r @ [msg] else hr_messages r)\<rparr>)"

definition apply_entry :: "(farg \<Rightarrow> string) \<Rightarrow> log_entry \<Rightarrow> history_row \<Rightarrow> history_row" where
  "apply_entry render e row =
     (let p = le_payload e;
          r = (if truthy (le_strategy e) \<and> \<not> truthy (hr_strategy row) then row\<lparr>hr_strategy := le_strategy e\<rparr> else row)
      in if le_type e = ''order_state_updated'' then full_state p r
         else if le_type e = ''order_state_transition'' then
           (status_and_message render p r)\<lparr>hr_updated := le_time e,
              hr_reason := message_reason (py_str render (field_or ''message'' (FStr []) p)) (hr_reason r)\<rparr>
         else if le_type e = ''fill_event'' then
           r\<lparr>hr_filled := field_or ''filled_quantity'' (hr_filled r) p,
             hr_avg_price := field_or ''fill_price'' (hr_avg_price r) p, hr_status := FStr ''FILLED''\<rparr>
         else if le_type e = ''order_event'' then status_and_message render p r
         else r)"

definition history_step :: "(farg \<Rightarrow> string) \<Rightarrow> log_entry \<Rightarrow> (farg, history_row) pydict \<Rightarrow> (farg, history_row) pydict" where
  "history_step render e d = (case entry_order e of None \<Rightarrow> d
     | Some i \<Rightarrow> AList.update i (apply_entry render e (dict_default d i (new_history_row i e))) d)"

definition orders_map :: "(farg \<Rightarrow> string) \<Rightarrow> log_entry list \<Rightarrow> (farg, history_row) pydict" where
  "orders_map render rows = fold (history_step render) rows []"

section \<open>Reasons\<close>

definition is_letter :: "char \<Rightarrow> bool" where
  "is_letter c \<longleftrightarrow> (let n = of_char (lower_char c) :: nat in 97 \<le> n \<and> n \<le> 122)"

text \<open>\<open>s.title()\<close> on ASCII text: the flag says that the character before was a letter.\<close>

fun title_from :: "bool \<Rightarrow> string \<Rightarrow> string" where
  "title_from inside [] = []"
| "title_from inside (c # cs) = (if inside then lower_char c else upper_char c) # title_from (is_letter c) cs"

definition trigger_text :: "string \<Rightarrow> string" where
  "trigger_text t = ''Exit: '' @ title_from False (map (\<lambda>c. if c = CHR ''_'' then CHR '' '' else c) t)"

definition error_message :: "string \<Rightarrow> bool" where
  "error_message m \<longleftrightarrow> list_ex (\<lambda>x. occurs_in x (map lower_char m)) [''fail'', ''reject'', ''error'']"

definition final_reason :: "(farg \<Rightarrow> string) \<Rightarrow> (farg, farg) pydict \<Rightarrow> history_row \<Rightarrow> string" where
  "final_reason render triggers r =
     (let status = py_str render (hr_status r) in
      case (if farg_truthy (hr_position r) then map_of triggers (hr_position r) else None) of
        Some t \<Rightarrow> trigger_text (py_str render t)
      | None \<Rightarrow>
        if \<not> farg_truthy (hr_is_entry r) then ''Exit Order''
        else if status = ''FILLED'' then ''Strategy Entry''
        else if status = ''CANCELLED'' then (if hr_reason r = [] then ''Manual / System Cancel'' else hr_reason r)
        else if status \<in> {''REJECTED'', ''ERROR''} then
          (case filter error_message (map (py_str render) (hr_messages r)) of
             m # ms \<Rightarrow> m | [] \<Rightarrow> ''Error ('' @ status @ '')'')
        else if hr_reason r = [] then ''Working'' else hr_reason r)"

definition get_order_history :: "(farg \<Rightarrow> string) \<Rightarrow> log_entry list \<Rightarrow> history_row list" where
  "get_order_history render db =
     (let rows = order_rows db; triggers = position_triggers rows
      in sort_key (\<lambda>r. - hr_time r)
           (map (\<lambda>r. r\<lparr>hr_reason := final_reason render triggers r\<rparr>)
             (filter (\<lambda>r. farg_truthy (hr_side r)) (dict_values (orders_map render rows)))))"

text \<open>The rows of the selected strategy, and how many there are, are filled, cancelled and failed.\<close>

definition select_history :: "string option \<Rightarrow> history_row list \<Rightarrow> history_row list" where
  "select_history sel rs = (case sel of None \<Rightarrow> rs | Some sid \<Rightarrow> filter (\<lambda>r. hr_strategy r = Some sid) rs)"

definition history_counts :: "history_row list \<Rightarrow> nat \<times> nat \<times> nat \<times> nat" where
  "history_counts rs = (let n = (\<lambda>sts. length (filter (\<lambda>r. hr_status r \<in> FStr ` set sts) rs))
     in (length rs, n [''FILLED''], n [''CANCELLED''], n [''REJECTED'', ''ERROR'']))"

section \<open>One row for each order\<close>

lemma status_and_message_id [simp]: "hr_id (status_and_message render p r) = hr_id r" "hr_time (status_and_message render p r) = hr_time r"
  by (simp_all add: status_and_message_def Let_def)

lemma apply_entry_id [simp]: "hr_id (apply_entry render e r) = hr_id r"
  by (simp add: apply_entry_def full_state_def Let_def)

lemma history_step_keyed: "keyed_by hr_id d \<Longrightarrow> keyed_by hr_id (history_step render e d)"
  by (auto simp: history_step_def dict_default_def new_history_row_def intro!: keyed_by_update split: option.splits dest: keyed_byD)

lemma history_fold_keyed: "keyed_by hr_id d \<Longrightarrow> keyed_by hr_id (fold (history_step render) es d)"
  by (induction es arbitrary: d) (simp_all add: history_step_keyed)

lemma orders_map_keyed: "keyed_by hr_id (orders_map render rows)"
  by (simp add: orders_map_def history_fold_keyed)

text \<open>The row of an order is a fold over the events of that order alone.\<close>

definition next_row :: "(farg \<Rightarrow> string) \<Rightarrow> farg \<Rightarrow> log_entry \<Rightarrow> history_row option \<Rightarrow> history_row option" where
  "next_row render i e r = Some (apply_entry render e (case r of None \<Rightarrow> new_history_row i e | Some x \<Rightarrow> x))"

lemma history_step_row:
  "map_of (history_step render e d) i =
     (if entry_order e = Some i then next_row render i e (map_of d i) else map_of d i)"
  by (simp add: history_step_def next_row_def dict_default_def split: option.splits)

lemma history_fold_row:
  "map_of (fold (history_step render) es d) i =
     fold (next_row render i) (filter (\<lambda>e. entry_order e = Some i) es) (map_of d i)"
  by (induction es arbitrary: d) (simp_all add: history_step_row)

lemma orders_map_row:
  "map_of (orders_map render rows) i = fold (next_row render i) (filter (\<lambda>e. entry_order e = Some i) rows) None"
  by (simp add: orders_map_def history_fold_row)

lemma keyed_values_distinct: "keyed_by ident d \<Longrightarrow> map ident (dict_values d) = map fst d"
proof -
  assume k: "keyed_by ident d"
  then have "wf_dict d" by (simp add: keyed_by_def)
  then have "ident v = k'" if "(k', v) \<in> set d" for k' v
    using that keyed_byD [OF k, of k' v] by (simp add: wf_dict_def map_of_eq_Some_iff)
  then show ?thesis by (auto simp: dict_values_def)
qed

text \<open>The rows before they are sorted.\<close>

definition finished_rows :: "(farg \<Rightarrow> string) \<Rightarrow> log_entry list \<Rightarrow> history_row list" where
  "finished_rows render rows = map (\<lambda>r. r\<lparr>hr_reason := final_reason render (position_triggers rows) r\<rparr>)
     (filter (\<lambda>r. farg_truthy (hr_side r)) (dict_values (orders_map render rows)))"

lemma get_order_history_alt: "get_order_history render db = sort_key (\<lambda>r. - hr_time r) (finished_rows render (order_rows db))"
  by (simp add: get_order_history_def finished_rows_def Let_def)

lemma finished_rows_distinct: "distinct (map hr_id (finished_rows render rows))"
proof -
  let ?d = "orders_map render rows"
  have "distinct (map hr_id (dict_values ?d))"
    using keyed_values_distinct [OF orders_map_keyed] orders_map_keyed [of render rows]
    by (simp add: keyed_by_def wf_dict_def)
  then show ?thesis by (simp add: finished_rows_def o_def distinct_map_filter)
qed

lemma distinct_map_filter_single:
  assumes "distinct (map f xs)" "x \<in> set xs"
  shows "filter (\<lambda>y. f y = f x) xs = [x]"
  using assms by (induction xs) (auto simp: image_iff filter_empty_conv)

lemma history_row_of:
  assumes "map_of (orders_map render (order_rows db)) i = Some r" "farg_truthy (hr_side r)"
  shows "\<exists>reason. filter (\<lambda>x. hr_id x = i) (get_order_history render db) = [r\<lparr>hr_reason := reason\<rparr>]"
proof -
  let ?rows = "order_rows db" and ?key = "\<lambda>r. - hr_time r"
  let ?r = "r\<lparr>hr_reason := final_reason render (position_triggers ?rows) r\<rparr>"
  have id: "hr_id r = i" using keyed_byD [OF orders_map_keyed assms(1)] .
  have "(i, r) \<in> set (orders_map render ?rows)" using assms(1) by (rule map_of_SomeD)
  then have "r \<in> set (dict_values (orders_map render ?rows))" by (force simp: dict_values_def)
  with assms(2) have "?r \<in> set (finished_rows render ?rows)" by (simp add: finished_rows_def)
  then have "filter (\<lambda>x. hr_id x = hr_id ?r) (finished_rows render ?rows) = [?r]"
    by (rule distinct_map_filter_single [OF finished_rows_distinct])
  then have "filter (\<lambda>x. hr_id x = i) (get_order_history render db) = [?r]"
    using id by (simp add: get_order_history_alt filter_sort)
  then show ?thesis by blast
qed

section \<open>The history shows the order manager's state\<close>

lemma insort_key_later: "f x \<le> f y \<Longrightarrow> insort_key f x (zs @ [y]) = insort_key f x zs @ [y]"
  by (induction zs) simp_all

lemma sort_key_newest: "\<forall>x \<in> set xs. f x \<le> f y \<Longrightarrow> sort_key f (xs @ [y]) = sort_key f xs @ [y]"
  by (induction xs) (simp_all add: insort_key_later)

lemma order_rows_newest:
  assumes "\<forall>x \<in> set db. le_time x \<le> le_time e" "le_type e \<in> set order_event_types"
  shows "order_rows (db @ [e]) = order_rows db @ [e]"
  using assms by (simp add: order_rows_def sort_key_newest)

definition shows_order :: "order_state \<Rightarrow> history_row \<Rightarrow> bool" where
  "shows_order o' r \<longleftrightarrow> hr_id r = FId (os_id o') \<and> hr_contract r = contract_arg (os_contract o')
     \<and> hr_side r = side_arg (os_side o') \<and> hr_quantity r = FInt (os_quantity o') \<and> hr_filled r = FInt (os_filled o')
     \<and> hr_limit r = FFloat (os_limit o') \<and> hr_status r = status_arg (os_status o')
     \<and> hr_position r = opt_arg FId (os_position_id o') \<and> hr_is_entry r = FBool (os_is_entry o')"

definition state_entry :: "instant \<Rightarrow> order_state \<Rightarrow> log_entry" where
  "state_entry now o' = \<lparr>le_type = ''order_state_updated'', le_time = now, le_strategy = Some (os_strategy o'),
     le_payload = P_Order_State o'\<rparr>"

lemma state_entry_order: "entry_order (state_entry now o') = Some (FId (os_id o'))"
  by (simp add: entry_order_def field_of_def state_entry_def)

lemma state_entry_shown:
  assumes "next_row render (FId (os_id o')) (state_entry now o') x = Some r" "x \<noteq> None \<longrightarrow> hr_id (the x) = FId (os_id o')"
  shows "shows_order o' r"
  using assms
  by (auto simp: next_row_def state_entry_def apply_entry_def full_state_def shows_order_def field_or_def field_of_def
      new_history_row_def Let_def split: option.splits)

lemma side_arg_truthy [simp]: "farg_truthy (side_arg sd)"
  by (cases sd) (simp_all add: side_arg_def)

lemma last_state_shown:
  assumes "order_rows db = rows @ [state_entry now o']"
  shows "\<exists>r. filter (\<lambda>x. hr_id x = FId (os_id o')) (get_order_history render db) = [r] \<and> shows_order o' r"
proof -
  let ?i = "FId (os_id o')"
  let ?x = "map_of (orders_map render rows) ?i"
  have "map_of (orders_map render (order_rows db)) ?i = next_row render ?i (state_entry now o') ?x"
    using assms by (simp add: orders_map_row state_entry_order)
  then obtain r where r: "map_of (orders_map render (order_rows db)) ?i = Some r"
      "next_row render ?i (state_entry now o') ?x = Some r" by (auto simp: next_row_def)
  have "shows_order o' r"
    using r(2) by (rule state_entry_shown) (use keyed_byD [OF orders_map_keyed, of render rows ?i] in auto)
  moreover from this have "farg_truthy (hr_side r)" by (simp add: shows_order_def)
  ultimately show ?thesis using history_row_of [OF r(1)] by (auto simp: shows_order_def)
qed

lemma log_event_pending:
  assumes "map_of (om_orders om) oid = Some o'" "s = om_store (log_event now oid prev new msg om)"
  shows "\<exists>t. pending_events s = pending_events (om_store om) @ [t, state_entry now o'] \<and> le_time t = now
      \<and> es_db s = es_db (om_store om) \<and> es_repo_open s = es_repo_open (om_store om)
      \<and> es_writes_succeed s = es_writes_succeed (om_store om) \<and> es_writer_running s = es_writer_running (om_store om)"
  using assms by (simp add: log_event_def log_callback_def pending_events_def state_entry_def Let_def)

text \<open>C38: From the order manager to the operator's screen. When the order manager has logged an event of
  an order as the newest one and the event log was shut down in order, the order history that the
  dashboard rebuilds from the database has exactly one row for the order, and the row shows the order as
  the manager holds it: contract, side, quantity, filled quantity, limit, status, position and whether it
  is an entry, whatever was logged before.\<close>

theorem history_shows_managed_order:
  assumes "map_of (om_orders om) oid = Some o'" "os_id o' = oid"
    and "es_repo_open (om_store om)" "es_writes_succeed (om_store om)" "es_writer_running (om_store om)"
    and "\<forall>e \<in> set (es_db (om_store om) @ pending_events (om_store om)). le_time e \<le> now"
  shows "\<exists>r. filter (\<lambda>r. hr_id r = FId oid)
      (get_order_history render (es_db (stop_store (om_store (log_event now oid prev new msg om))))) = [r]
    \<and> shows_order o' r"
proof -
  let ?s = "om_store (log_event now oid prev new msg om)"
  let ?e = "state_entry now o'"
  obtain t where t: "pending_events ?s = pending_events (om_store om) @ [t, ?e]" "le_time t = now"
      "es_db ?s = es_db (om_store om)" "es_repo_open ?s" "es_writes_succeed ?s" "es_writer_running ?s"
    using log_event_pending [OF assms(1) refl, of now prev new msg] assms(3-5) by auto
  let ?old = "es_db (om_store om) @ pending_events (om_store om) @ [t]"
  have db: "es_db (stop_store ?s) = ?old @ [?e]"
    using stop_store_flushes [OF t(4-6)] t(1,3) by simp
  have "\<forall>x \<in> set ?old. le_time x \<le> le_time ?e" using assms(6) t(2) by (auto simp: state_entry_def)
  from order_rows_newest [OF this] have "order_rows (es_db (stop_store ?s)) = order_rows ?old @ [?e]"
    using db by (simp add: state_entry_def order_event_types_def)
  from last_state_shown [OF this, of render] assms(2) show ?thesis by simp
qed

definition sample_logged :: order_manager where
  "sample_logged = (case submit_prepare 5 20 21 (sample_intent (Some 1)) sample_approval False None
      (new_manager (start_store new_store)) of
     Inr (p, om) \<Rightarrow> submit_complete 6 21 False None (Inr (sample_reply SUBMITTED)) om | Inl e \<Rightarrow> new_manager new_store)"

theorem history_shows_managed_order_witness:
  "\<exists>r. filter (\<lambda>r. hr_id r = FId 21) (get_order_history (\<lambda>x. [])
      (es_db (stop_store (om_store (log_event 9 21 None SUBMITTED (lit ''x'') sample_logged))))) = [r]
    \<and> hr_status r = FStr ''SUBMITTED'' \<and> hr_quantity r = FInt 2"
proof -
  let ?s = "om_store sample_logged"
  obtain o' where o': "map_of (om_orders sample_logged) 21 = Some o'"
    and f: "os_id o' = 21" "os_status o' = SUBMITTED" "os_quantity o' = 2"
  proof -
    have "map_option (\<lambda>o'. (os_id o', os_status o', os_quantity o')) (map_of (om_orders sample_logged) 21)
        = Some (21, SUBMITTED, 2)" by code_simp
    then show thesis using that by (auto simp: map_option_case split: option.splits)
  qed
  have "es_repo_open ?s" "es_writes_succeed ?s" "es_writer_running ?s" by code_simp+
  moreover have "\<forall>e \<in> set (es_db ?s @ pending_events ?s). le_time e \<le> 9" by code_simp
  ultimately obtain r where "filter (\<lambda>r. hr_id r = FId 21) (get_order_history (\<lambda>x. [])
      (es_db (stop_store (om_store (log_event 9 21 None SUBMITTED (lit ''x'') sample_logged))))) = [r]"
    "shows_order o' r"
    using history_shows_managed_order [OF o' f(1), of 9 "\<lambda>x. []" None SUBMITTED "lit ''x''"] by blast
  with f show ?thesis by (simp add: shows_order_def status_arg_def)
qed

section \<open>The shape of the history\<close>

text \<open>Newest first, one row for each order, every row with a reason; and the counts never exceed the
  number of rows.\<close>

lemma history_newest_first: "sorted_wrt (\<ge>) (map hr_time (get_order_history render db))"
proof -
  have "sorted (map (\<lambda>r. - hr_time r) (get_order_history render db))"
    by (simp add: get_order_history_alt)
  then show ?thesis by (simp add: sorted_map sorted_wrt_map)
qed

lemma history_one_row_each: "distinct (map hr_id (get_order_history render db))"
proof -
  let ?rows = "finished_rows render (order_rows db)"
  have "mset (map hr_id (sort_key (\<lambda>r. - hr_time r) ?rows)) = mset (map hr_id ?rows)" by simp
  then show ?thesis
    using finished_rows_distinct mset_eq_imp_distinct_iff by (metis get_order_history_alt)
qed

lemma error_message_nonempty: "error_message m \<Longrightarrow> m \<noteq> []"
  by (auto simp: error_message_def occurs_in_def)

lemma filter_head: "filter P xs = y # ys \<Longrightarrow> P y"
  using filter_eq_ConsD [of P xs y ys] by blast

lemma final_reason_nonempty: "final_reason render triggers r \<noteq> []"
  by (auto simp: final_reason_def trigger_text_def Let_def split: option.splits list.splits
      dest!: filter_head error_message_nonempty)

lemma history_reasons: "r \<in> set (get_order_history render db) \<Longrightarrow> hr_reason r \<noteq> []"
  by (auto simp: get_order_history_alt finished_rows_def final_reason_nonempty)

lemma history_counts_bounded:
  "case history_counts rs of (n, filled, cancelled, failed) \<Rightarrow> filled + cancelled + failed \<le> n"
  by (induction rs) (auto simp: history_counts_def Let_def split: if_splits)

section \<open>What a partial fill shows\<close>

definition fill_entry :: "fill_event \<Rightarrow> log_entry" where
  "fill_entry f = \<lparr>le_type = ''fill_event'', le_time = fe_timestamp f, le_strategy = Some (fe_strategy f),
     le_payload = P_Fill f\<rparr>"

text \<open>Every fill makes the row \<open>FILLED\<close>, whatever its quantity; the filled quantity and the average price
  become those of the last fill, whatever was filled before. Only a later \<open>order_state_updated\<close>
  corrects the status and the quantity; nothing corrects the price.\<close>

lemma partial_fill_shown_filled:
  "hr_status (apply_entry render (fill_entry f) r) = FStr ''FILLED''"
  "hr_filled (apply_entry render (fill_entry f) r) = FInt (fe_quantity f)"
  "hr_avg_price (apply_entry render (fill_entry f) r) = FFloat (fe_price f)"
  by (simp_all add: apply_entry_def fill_entry_def field_or_def field_of_def Let_def)

lemma average_price_is_last_price:
  "hr_avg_price (apply_entry render (state_entry now o') (apply_entry render (fill_entry f) r)) = FFloat (fe_price f)"
  by (simp add: apply_entry_def state_entry_def full_state_def Let_def
      partial_fill_shown_filled(3) [unfolded apply_entry_def Let_def])

end
