(* ===== verification/Dashboard.thy ===== *)
theory Dashboard
  imports Runner_Tick Order_History
begin

text \<open>
  \<^verbatim>\<open>src/dashboard/app.py\<close>: the web server of the operator's screen. It talks to the runner through the
  database alone: it reads the snapshot, the event table, the command table and the position table, and
  writes nothing but new rows of the command table. Routing, JSON, the page and the web socket are the
  frameworks'. A read of a table that fails answers an empty list and is not modelled; whether the read
  of the snapshot succeeds is the argument \<open>ok\<close>.
\<close>

section \<open>State, events, commands\<close>

text \<open>The row of the snapshot, if there is one and the read succeeds.\<close>

definition read_state :: "bool \<Rightarrow> state_table \<Rightarrow> (snapshot \<times> instant) option" where
  "read_state ok t = (if ok then t else None)"

datatype state_answer = No_Data | State snapshot instant \<comment> \<open>with \<open>_updated_at\<close>\<close>

definition get_state :: "bool \<Rightarrow> state_table \<Rightarrow> state_answer" where
  "get_state ok t = (case read_state ok t of None \<Rightarrow> No_Data | Some (s, now) \<Rightarrow> State s now)"

text \<open>\<open>LIMIT n\<close>: a negative number is no limit.\<close>

definition sql_limit :: "int \<Rightarrow> 'a list \<Rightarrow> 'a list" where
  "sql_limit n xs = (if n < 0 then xs else take (nat n) xs)"

definition get_events :: "int \<Rightarrow> log_entry list \<Rightarrow> log_entry list" where
  "get_events limit db = sql_limit (min limit 200) (sort_key (\<lambda>e. - le_time e) db)"

definition get_commands :: "int \<Rightarrow> command_table \<Rightarrow> command_row list" where
  "get_commands limit t = recent (if limit < 0 then length t else nat limit) t"

text \<open>An unknown type is answered with status 400; otherwise the command is queued as it is.\<close>

definition post_command ::
  "string \<Rightarrow> (string \<times> farg) list \<Rightarrow> uuid \<Rightarrow> instant \<Rightarrow> command_table \<Rightarrow> (nat \<times> fstr) + uuid \<times> command_table" where
  "post_command typ payload fresh now t =
     (if typ \<notin> set valid_command_types then Inl (400, Fstr ''unknown command type: {}'' [FStr typ])
      else case enqueue typ payload fresh now t of
        Inl e \<Rightarrow> Inl (500, lit ''Internal Server Error'') | Inr r \<Rightarrow> Inr r)"

section \<open>The tail of the log file\<close>

definition line_break :: "char \<Rightarrow> bool" where
  "line_break c \<longleftrightarrow> (of_char c :: nat) \<in> {10, 11, 12, 13, 28, 29, 30, 133}"

text \<open>\<open>s.splitlines()\<close>; a carriage return and the line feed after it are one break.\<close>

function splitlines_from :: "string \<Rightarrow> string \<Rightarrow> string list" where
  "splitlines_from acc [] = (if acc = [] then [] else [rev acc])"
| "splitlines_from acc (c # cs) =
     (if line_break c
      then rev acc # splitlines_from [] (case cs of [] \<Rightarrow> []
        | d # ds \<Rightarrow> if (of_char c :: nat) = 13 \<and> (of_char d :: nat) = 10 then ds else cs)
      else splitlines_from (c # acc) cs)"
  by pat_completeness auto
termination
  by (relation "measure (\<lambda>p. length (snd p))") (auto split: list.splits)

definition splitlines :: "string \<Rightarrow> string list" where
  "splitlines = splitlines_from []"

text \<open>\<open>xs[k:]\<close>, where a negative \<open>k\<close> counts from the end.\<close>

definition slice_from :: "int \<Rightarrow> 'a list \<Rightarrow> 'a list" where
  "slice_from k xs = (if k < 0 then drop (nat (int (length xs) + k)) xs else drop (nat k) xs)"

text \<open>The file is the list of its bytes, or is missing.\<close>

definition get_logs :: "(string \<Rightarrow> string) \<Rightarrow> int \<Rightarrow> bool \<Rightarrow> string option \<Rightarrow> string list" where
  "get_logs decode lines errors_only file = (case file of None \<Rightarrow> []
     | Some bytes \<Rightarrow>
        let text = decode (drop (length bytes - 262144) bytes);
            out = filter (\<lambda>l. \<exists>c \<in> set l. \<not> is_space_char c) (splitlines text);
            out = (if errors_only then filter (\<lambda>l. occurs_in ''ERROR'' l \<or> occurs_in ''WARNING'' l \<or> occurs_in ''CRITICAL'' l) out
                   else out)
        in slice_from (- min lines 500) out)"

section \<open>Profit and history\<close>

record pnl_line =
  pl_realized :: pyfloat
  pl_today :: pyfloat
  pl_unrealized :: pyfloat
  pl_total :: pyfloat
  pl_closed :: nat

record pnl_answer =
  pa_strategies :: "(string, pnl_line) pydict"
  pa_total :: pyfloat
  pa_date :: int
  pa_today_realized :: pyfloat
  pa_unrealized :: pyfloat
  pa_today_total :: pyfloat
  pa_today_closed :: nat
  pa_per_strategy :: "(string, pyfloat) pydict"
  pa_daily :: "day_summary list"

definition live_pnl :: "bool \<Rightarrow> state_table \<Rightarrow> (string, pnl_view) pydict" where
  "live_pnl ok st = (case read_state ok st of None \<Rightarrow> [] | Some (s, now) \<Rightarrow> sn_pnl s)"

definition pnl_line_of ::
  "(string, nat \<times> pyfloat) pydict \<Rightarrow> (string, pyfloat) pydict \<Rightarrow> (string, pnl_view) pydict \<Rightarrow> string \<Rightarrow> pnl_line" where
  "pnl_line_of per today live sid =
     (let realized = snd (dict_default per sid (0, 0));
          unreal = (case map_of live sid of None \<Rightarrow> 0 | Some v \<Rightarrow> nv_unrealized v)
      in \<lparr>pl_realized = realized, pl_today = dict_default today sid 0, pl_unrealized = unreal,
          pl_total = py_round 2 (realized + unreal), pl_closed = fst (dict_default per sid (0, 0))\<rparr>)"

definition get_pnl :: "zone \<Rightarrow> instant \<Rightarrow> attribution_table \<Rightarrow> bool \<Rightarrow> state_table \<Rightarrow> pnl_answer" where
  "get_pnl ny now t ok st =
     (let per = strategy_pnl_summary t; live = live_pnl ok st
      in case daily_pnl_summary ny now 30 t of (today, by_strategy, days) \<Rightarrow>
        let out = map (\<lambda>sid. (sid, pnl_line_of per by_strategy live sid)) (remdups (dict_keys per @ dict_keys live));
            unreal_total = py_round 2 (sum_list (map pl_unrealized (dict_values out)))
        in \<lparr>pa_strategies = out, pa_total = py_round 2 (sum_list (map pl_total (dict_values out))),
            pa_date = ds_date today, pa_today_realized = ds_realized today, pa_unrealized = unreal_total,
            pa_today_total = py_round 2 (ds_realized today + unreal_total), pa_today_closed = ds_closed today,
            pa_per_strategy = by_strategy, pa_daily = days\<rparr>)"

definition get_history :: "int \<Rightarrow> attribution_table \<Rightarrow> attribution list" where
  "get_history limit t = closed_positions (if limit < 0 then length t else nat limit) t"


section \<open>Commands\<close>

text \<open>A command that the dashboard accepts waits, with its payload, behind those that wait already; none
  of the rows that are there is touched. A command of another type changes nothing.\<close>

lemma post_command_queues:
  assumes "post_command typ payload cid now t = Inr (i, t')"
  shows "i = cid \<and> typ \<in> set valid_command_types \<and> (\<exists>row. t' = t @ [row] \<and> cr_id row = cid \<and> cr_type row = typ
    \<and> cr_payload row = payload \<and> cr_status row = Pending \<and> row \<in> set (fetch_pending (length t') t'))"
  using assms by (auto simp: post_command_def enqueue_def fetch_pending_def split: if_splits)

lemma post_command_refused: "(\<exists>e. post_command typ payload cid now t = Inl e) \<longleftrightarrow> typ \<notin> set valid_command_types"
  by (auto simp: post_command_def enqueue_def)

section \<open>Bounds of the answers\<close>

lemma get_events_bounded: "0 \<le> limit \<Longrightarrow> length (get_events limit db) \<le> nat (min limit 200)"
  by (auto simp: get_events_def sql_limit_def min_def)

text \<open>A negative limit passes the bound: \<open>min\<close> keeps it and SQLite reads it as no limit.\<close>

lemma negative_limit_returns_all: "limit < 0 \<Longrightarrow> length (get_events limit db) = length db"
  by (simp add: get_events_def sql_limit_def)

lemma slice_from_length: "0 < n \<Longrightarrow> length (slice_from (- n) xs) \<le> nat n"
  by (simp add: slice_from_def)

lemma get_logs_bounded: "0 < lines \<Longrightarrow> length (get_logs decode lines errors_only file) \<le> nat (min lines 500)"
  using slice_from_length [of "min lines 500"] by (auto simp: get_logs_def Let_def split: option.splits)

text \<open>Asking for no lines returns all of the tail: \<open>out[-0:]\<close> is \<open>out\<close>.\<close>

lemma no_lines_returns_all:
  "get_logs decode 0 False (Some bytes) =
     filter (\<lambda>l. \<exists>c \<in> set l. \<not> is_space_char c) (splitlines (decode (drop (length bytes - 262144) bytes)))"
  by (simp add: get_logs_def slice_from_def Let_def)

text \<open>Splitting at line breaks loses no character and no line holds a break.\<close>

lemma splitlines_from_no_break:
  "\<forall>c \<in> set acc. \<not> line_break c \<Longrightarrow> l \<in> set (splitlines_from acc s) \<Longrightarrow> c \<in> set l \<Longrightarrow> \<not> line_break c"
  by (induction acc s arbitrary: l rule: splitlines_from.induct) (auto split: if_splits)

lemma splitlines_from_chars:
  "filter (\<lambda>c. \<not> line_break c) (concat (splitlines_from acc s)) = filter (\<lambda>c. \<not> line_break c) (rev acc @ s)"
proof (induction acc s rule: splitlines_from.induct)
  case (2 acc c cs)
  show ?case
  proof (cases "line_break c")
    case True
    let ?rest = "case cs of [] \<Rightarrow> [] | d # ds \<Rightarrow> if (of_char c :: nat) = 13 \<and> (of_char d :: nat) = 10 then ds else cs"
    have "filter (\<lambda>c. \<not> line_break c) ?rest = filter (\<lambda>c. \<not> line_break c) cs"
      by (simp split: list.split) (simp add: line_break_def)
    with True "2.IH"(1) show ?thesis by simp
  next
    case False
    with "2.IH"(2) show ?thesis by simp
  qed
qed simp

section \<open>The profit shown\<close>

lemma sum_list_partition:
  fixes f :: "'a \<Rightarrow> rat"
  assumes "distinct ks" "g ` set xs \<subseteq> set ks"
  shows "sum_list (map (\<lambda>k. sum_list (map f (filter (\<lambda>x. g x = k) xs))) ks) = sum_list (map f xs)"
  using assms(2)
proof (induction xs)
  case (Cons x xs)
  have "sum_list (map (\<lambda>k. sum_list (map f (filter (\<lambda>x. g x = k) (x # xs)))) ks)
      = sum_list (map (\<lambda>k. (if g x = k then f x else 0) + sum_list (map f (filter (\<lambda>x. g x = k) xs))) ks)"
    by (intro arg_cong [of _ _ sum_list] map_cong) auto
  also have "\<dots> = sum_list (map (\<lambda>k. if g x = k then f x else 0) ks) + sum_list (map f xs)"
    using Cons by (simp add: sum_list_addf)
  also have "sum_list (map (\<lambda>k. if g x = k then f x else 0) ks) = f x"
    using assms(1) Cons.prems by (simp add: sum_list_distinct_conv_sum_set)
  finally show ?case by simp
qed simp

lemma sum_list_near:
  fixes f g :: "'a \<Rightarrow> rat"
  assumes "\<And>x. x \<in> set xs \<Longrightarrow> \<bar>f x - g x\<bar> \<le> e"
  shows "\<bar>sum_list (map f xs) - sum_list (map g xs)\<bar> \<le> of_nat (length xs) * e"
  using assms
proof (induction xs)
  case (Cons x xs)
  have "\<bar>f x - g x\<bar> \<le> e" "\<bar>sum_list (map f xs) - sum_list (map g xs)\<bar> \<le> of_nat (length xs) * e"
    using Cons by auto
  then show ?case by (simp add: algebra_simps)
qed simp

lemma lookup_as_sum:
  fixes f :: "'v \<Rightarrow> rat"
  assumes "wf_dict d"
  shows "(case map_of d k of None \<Rightarrow> 0 | Some v \<Rightarrow> f v) = sum_list (map (\<lambda>x. f (snd x)) (filter (\<lambda>x. fst x = k) d))"
  using assms
proof (induction d)
  case (Cons x d)
  then have "k = fst x \<Longrightarrow> filter (\<lambda>y. fst y = k) d = []"
    by (auto simp: wf_dict_def filter_empty_conv image_iff)
  then show ?case using Cons by (auto simp: wf_dict_def)
qed simp

definition strategy_rows :: "attribution_table \<Rightarrow> string \<Rightarrow> attribution list" where
  "strategy_rows t sid = filter (\<lambda>r. at_strategy r = sid) (closed_rows t)"

lemma map_of_tabulate: "map_of (map (\<lambda>k. (k, f k)) ks) k = (if k \<in> set ks then Some (f k) else None)"
  by (induction ks) auto

lemma py_round_zero [simp]: "py_round n 0 = 0"
  using round_half_even_int [of 0] by (simp add: py_round_def)

lemma pnl_summary_realized:
  "snd (dict_default (strategy_pnl_summary t) sid (0, 0)) = py_round 2 (sum_list (map pnl_of (strategy_rows t sid)))"
proof (cases "sid \<in> at_strategy ` set (closed_rows t)")
  case True
  then show ?thesis
    by (simp add: dict_default_def strategy_pnl_summary_def Let_def map_of_tabulate strategy_rows_def)
next
  case False
  then have "strategy_rows t sid = []" by (auto simp: strategy_rows_def filter_empty_conv)
  with False show ?thesis by (simp add: dict_default_def strategy_pnl_summary_def Let_def map_of_tabulate)
qed

definition unrealized_of :: "position \<Rightarrow> pyfloat" where
  "unrealized_of p = (case unrealized_now p of None \<Rightarrow> 0 | Some u \<Rightarrow> u)"

lemma strategy_pnl_keys: "fst ` set (strategy_pnl ps) = ps_strategy ` set ps"
proof -
  have "fst ` set (fold add_position_pnl ps d) = fst ` set d \<union> ps_strategy ` set ps" for d
  proof (induction ps arbitrary: d)
    case (Cons p ps)
    have "fst ` set (add_position_pnl p d) = insert (ps_strategy p) (fst ` set d)"
      using keys_update [of "ps_strategy p" _ d] by (simp add: add_position_pnl_def split_beta)
    then show ?case by (simp add: Cons)
  qed simp
  from this [of "[]"] show ?thesis by (simp add: strategy_pnl_def)
qed

lemma map_of_views: "map_of (map (\<lambda>(k, x). (k, f x)) d) k = map_option f (map_of d k)"
  by (induction d) auto

definition published :: "instant \<Rightarrow> runner \<Rightarrow> state_table \<Rightarrow> state_table" where
  "published now r st = write_snapshot now True (create_runtime_snapshot now r) st"

lemma live_pnl_published:
  "live_pnl True (published now r st)
     = map (\<lambda>(sid, x). (sid, view_pnl x)) (strategy_pnl (dict_values (pb_positions (rn_book r))))"
  by (simp add: live_pnl_def read_state_def published_def write_snapshot_def create_runtime_snapshot_def Let_def)

lemma live_unrealized_near:
  fixes r :: runner
  defines "ps \<equiv> dict_values (pb_positions (rn_book r))"
  shows "\<bar>(case map_of (live_pnl True (published now r st)) sid of None \<Rightarrow> 0 | Some v \<Rightarrow> nv_unrealized v)
     - sum_list (map unrealized_of (filter (\<lambda>p. ps_strategy p = sid) ps))\<bar> \<le> 1 / 200"
proof -
  let ?u = "sum_list (map unrealized_of (filter (\<lambda>p. ps_strategy p = sid) ps))"
  have "snd (dict_default (strategy_pnl ps) sid (0, 0)) = ?u"
    by (simp add: strategy_pnl_sums unrealized_of_def [abs_def])
  then have "(case map_of (live_pnl True (published now r st)) sid of None \<Rightarrow> 0 | Some v \<Rightarrow> nv_unrealized v)
      \<in> {?u, py_round 2 ?u}"
    by (auto simp: live_pnl_published map_of_views ps_def [symmetric] dict_default_def view_pnl_def split: option.splits)
  then show ?thesis using py_round_near [of 2 ?u] by auto
qed

lemma pnl_line_near:
  assumes "\<bar>(case map_of live sid of None \<Rightarrow> 0 | Some v \<Rightarrow> nv_unrealized v) - u\<bar> \<le> 1 / 200"
  shows "\<bar>pl_total (pnl_line_of (strategy_pnl_summary t) today live sid)
     - (sum_list (map pnl_of (strategy_rows t sid)) + u)\<bar> \<le> 3 / 200"
proof -
  let ?r = "sum_list (map pnl_of (strategy_rows t sid))"
  let ?v = "case map_of live sid of None \<Rightarrow> 0 | Some v \<Rightarrow> nv_unrealized v"
  have "pl_total (pnl_line_of (strategy_pnl_summary t) today live sid) = py_round 2 (py_round 2 ?r + ?v)"
    by (simp add: pnl_line_of_def pnl_summary_realized Let_def)
  moreover have "\<bar>py_round 2 (py_round 2 ?r + ?v) - (py_round 2 ?r + ?v)\<bar> \<le> 1 / 200" "\<bar>py_round 2 ?r - ?r\<bar> \<le> 1 / 200"
    using py_round_near [of 2 "py_round 2 ?r + ?v"] py_round_near [of 2 ?r] by simp_all
  ultimately show ?thesis using assms by linarith
qed

text \<open>C39: The total on the operator's screen adds up. When the snapshot can be read and is the one of the runner's
  present state, the total profit that the dashboard shows differs from the realised profit of all closed
  rows of the position table plus the unrealised profit of all open positions of the runner by at most one
  and a half cents for each strategy plus half a cent: every closed row and every position is counted,
  under exactly one strategy, and nothing is counted twice.\<close>

theorem dashboard_total_accounts:
  "\<bar>pa_total (get_pnl ny now t True (published now' r st))
      - (sum_list (map pnl_of (closed_rows t))
         + sum_list (map unrealized_of (dict_values (pb_positions (rn_book r)))))\<bar>
    \<le> of_nat (length (pa_strategies (get_pnl ny now t True (published now' r st)))) * (3 / 200) + 1 / 200"
proof -
  let ?ps = "dict_values (pb_positions (rn_book r))" and ?live = "live_pnl True (published now' r st)"
  let ?ks = "remdups (dict_keys (strategy_pnl_summary t) @ dict_keys ?live)"
  obtain today by_strategy days where d: "daily_pnl_summary ny now 30 t = (today, by_strategy, days)"
    by (cases "daily_pnl_summary ny now 30 t")
  let ?total = "\<lambda>sid. pl_total (pnl_line_of (strategy_pnl_summary t) by_strategy ?live sid)"
  let ?true = "\<lambda>sid. sum_list (map pnl_of (strategy_rows t sid))
    + sum_list (map unrealized_of (filter (\<lambda>p. ps_strategy p = sid) ?ps))"
  have shown: "pa_total (get_pnl ny now t True (published now' r st)) = py_round 2 (sum_list (map ?total ?ks))"
      "length (pa_strategies (get_pnl ny now t True (published now' r st))) = length ?ks"
    by (simp_all add: get_pnl_def d dict_values_def o_def Let_def)
  have "fst ` set ?live = ps_strategy ` set ?ps"
    by (simp add: live_pnl_published strategy_pnl_keys [symmetric] image_image split_beta)
  then have cover: "at_strategy ` set (closed_rows t) \<subseteq> set ?ks" "ps_strategy ` set ?ps \<subseteq> set ?ks"
    by (auto simp: dict_keys_def strategy_pnl_summary_def Let_def)
  have "sum_list (map ?true ?ks) = sum_list (map pnl_of (closed_rows t)) + sum_list (map unrealized_of ?ps)"
    using sum_list_partition [OF distinct_remdups cover(1), of pnl_of]
      sum_list_partition [OF distinct_remdups cover(2), of unrealized_of]
    by (simp add: sum_list_addf strategy_rows_def del: set_remdups)
  moreover have "\<bar>sum_list (map ?total ?ks) - sum_list (map ?true ?ks)\<bar> \<le> of_nat (length ?ks) * (3 / 200)"
    by (rule sum_list_near) (rule pnl_line_near [OF live_unrealized_near])
  moreover have "\<bar>py_round 2 (sum_list (map ?total ?ks)) - sum_list (map ?total ?ks)\<bar> \<le> 1 / 200"
    using py_round_near [of 2 "sum_list (map ?total ?ks)"] by simp
  ultimately show ?thesis unfolding shown by linarith
qed

text \<open>Only rows of status \<open>CLOSED\<close> count: what partial exits have realised is missing from the total and
  from the history for as long as their position is open.\<close>

lemma only_closed_rows_count: "get_pnl ny now (closed_rows t) ok st = get_pnl ny now t ok st"
  by (simp add: get_pnl_def strategy_pnl_summary_def daily_pnl_summary_def closed_rows_def)

lemma open_row_profit_missing:
  assumes "at_status r \<noteq> CLOSED"
  shows "get_pnl ny now (t @ [r]) ok st = get_pnl ny now t ok st" "get_history (-1) (t @ [r]) = get_history (-1) t"
  using assms only_closed_rows_count [of ny now "t @ [r]" ok st] only_closed_rows_count [of ny now t ok st]
  by (simp_all add: closed_rows_def get_history_def closed_positions_def le_SucI)

end
