(* ===== verification/Backfill.thy ===== *)
theory Backfill
  imports Operator_Views Position_Store
begin

text \<open>
  The two repair scripts: \<^verbatim>\<open>src/scripts/backfill_pnl.py\<close> copies the realised profit of logged closes into
  rows of the position table that lack it and deletes phantom rows; \<open>fetch_day\<close> of
  \<^verbatim>\<open>src/scripts/backfill_underlying.py\<close> turns the bars that the broker library answers into the minutes
  of one day. Minutes are numbers of local minutes, whose texts are ordered like them within a day.
\<close>

section \<open>Realised profit\<close>

definition close_rows :: "log_entry list \<Rightarrow> log_entry list" where
  "close_rows db = sort_key le_time (filter (\<lambda>e. le_type e \<in> {''position_closed'', ''position_forced_closed''}) db)"

text \<open>Position, profit and time of a logged close; an event without one of the first two is passed over.\<close>

definition close_data :: "log_entry \<Rightarrow> (uuid \<times> pyfloat \<times> instant option) option" where
  "close_data e = (let p = le_payload e in
     case (field_of ''position_id'' p, field_of ''realized_pnl'' p) of
       (Some (FId pid), Some (FFloat x)) \<Rightarrow>
         Some (pid, x, case field_of ''timestamp'' p of Some (FTime t) \<Rightarrow> Some t | _ \<Rightarrow> None)
     | _ \<Rightarrow> None)"

definition blank_profit :: "attribution \<Rightarrow> bool" where
  "blank_profit r \<longleftrightarrow> (case at_realized r of None \<Rightarrow> True | Some x \<Rightarrow> x = 0)"

definition lacks_profit :: "uuid \<Rightarrow> attribution \<Rightarrow> bool" where
  "lacks_profit pid r \<longleftrightarrow> at_id r = pid \<and> blank_profit r"

definition fill_in :: "uuid \<times> pyfloat \<times> instant option \<Rightarrow> attribution \<Rightarrow> attribution" where
  "fill_in c r = (case c of (pid, x, t) \<Rightarrow>
     if lacks_profit pid r then r\<lparr>at_realized := Some x, at_closed := coalesce (at_closed r) t\<rparr> else r)"

definition backfill_close :: "uuid \<times> pyfloat \<times> instant option \<Rightarrow> nat \<times> attribution_table \<Rightarrow> nat \<times> attribution_table" where
  "backfill_close c s = (case s of (n, t) \<Rightarrow> (n + length (filter (lacks_profit (fst c)) t), map (fill_in c) t))"

definition phantom_row :: "attribution \<Rightarrow> bool" where
  "phantom_row r \<longleftrightarrow> at_quantity r = 0 \<and> blank_profit r \<and> at_close_reason r = None"

text \<open>The rows updated, the rows deleted, and the table.\<close>

definition backfill_pnl :: "log_entry list \<Rightarrow> attribution_table \<Rightarrow> nat \<times> nat \<times> attribution_table" where
  "backfill_pnl db t = (case fold backfill_close (List.map_filter close_data (close_rows db)) (0, t) of
     (updated, t1) \<Rightarrow> (updated, length (filter phantom_row t1), filter (\<lambda>r. \<not> phantom_row r) t1))"

section \<open>The minutes of a day\<close>

record history_bar =
  hb_time :: instant
  hb_open :: pyfloat
  hb_high :: pyfloat
  hb_low :: pyfloat
  hb_close :: pyfloat

definition local_minute :: "zone \<Rightarrow> instant \<Rightarrow> int" where
  "local_minute ny t = (t + ny t) div us_per_minute"

definition add_minute :: "zone \<Rightarrow> int \<Rightarrow> history_bar \<Rightarrow> (int, history_bar) pydict \<Rightarrow> (int, history_bar) pydict" where
  "add_minute ny day b rows = (if zone_date ny (hb_time b) \<noteq> day then rows
     else AList.update (local_minute ny (hb_time b)) b rows)"

definition fetch_day :: "zone \<Rightarrow> int \<Rightarrow> history_bar list \<Rightarrow> (int \<times> history_bar) list" where
  "fetch_day ny day bars = sort_key fst (fold (add_minute ny day) bars [])"

section \<open>The repair can be repeated\<close>

lemma fold_backfill_table: "snd (fold backfill_close cs (n, t)) = map (fold fill_in cs) t"
  by (induction cs arbitrary: n t) (simp_all add: backfill_close_def)

lemma backfill_table:
  "snd (snd (backfill_pnl db t))
     = filter (\<lambda>r. \<not> phantom_row r) (map (fold fill_in (List.map_filter close_data (close_rows db))) t)"
  using fold_backfill_table [of "List.map_filter close_data (close_rows db)" 0 t]
  by (simp add: backfill_pnl_def split_beta)

lemma fill_in_keeps [simp]: "\<not> blank_profit r \<Longrightarrow> fill_in c r = r"
  by (simp add: fill_in_def lacks_profit_def split: prod.split)

lemma fold_fill_in_keeps: "\<not> blank_profit r \<Longrightarrow> fold fill_in cs r = r"
  by (induction cs) simp_all

text \<open>What has been filled in stays: a later close changes nothing that an earlier one has settled.\<close>

lemma fill_in_settled:
  assumes "fill_in c' r = r"
  shows "fill_in c' (fill_in c r) = fill_in c r"
proof (cases "blank_profit (fill_in c r)")
  case blank: True
  obtain pid x t pid' x' t' where c: "c = (pid, x, t)" "c' = (pid', x', t')" by (metis prod_cases3)
  show ?thesis
  proof (cases "lacks_profit pid r \<and> pid' = pid")
    case True
    then have x: "x = 0" using blank c(1) by (simp add: fill_in_def blank_profit_def)
    from True assms c(2) have r: "at_realized r = Some x'" "coalesce (at_closed r) t' = at_closed r"
      by (auto simp: fill_in_def lacks_profit_def intro: attribution.equality dest: arg_cong [of _ _ at_realized] arg_cong [of _ _ at_closed])
    then have "x' = 0" using True by (simp add: lacks_profit_def blank_profit_def)
    moreover have "coalesce (coalesce (at_closed r) t) t' = coalesce (at_closed r) t"
      using r(2) by (cases "at_closed r"; cases t') (simp_all add: coalesce_def split: option.splits)
    ultimately show ?thesis
      using True x c by (simp add: fill_in_def lacks_profit_def blank_profit_def)
  next
    case False
    then show ?thesis using assms c by (auto simp: fill_in_def lacks_profit_def split: if_splits)
  qed
qed simp

lemma fill_in_twice: "fill_in c (fill_in c r) = fill_in c r"
  by (cases c) (auto simp: fill_in_def lacks_profit_def blank_profit_def coalesce_def split: option.splits)

lemma fold_fill_in_settled: "c \<in> set cs \<Longrightarrow> fill_in c (fold fill_in cs r) = fold fill_in cs r"
proof (induction cs rule: rev_induct)
  case (snoc d cs)
  then show ?case using fill_in_twice fill_in_settled by (cases "c = d") auto
qed simp

lemma fold_fixed: "\<forall>c \<in> set cs. f c r = r \<Longrightarrow> fold f cs r = r"
  by (induction cs) simp_all

lemma backfill_idempotent:
  "snd (snd (backfill_pnl db (snd (snd (backfill_pnl db t))))) = snd (snd (backfill_pnl db t))"
proof -
  let ?cs = "List.map_filter close_data (close_rows db)"
  have "map (fold fill_in ?cs) (filter (\<lambda>r. \<not> phantom_row r) (map (fold fill_in ?cs) t))
      = filter (\<lambda>r. \<not> phantom_row r) (map (fold fill_in ?cs) t)"
    by (rule map_idI) (auto intro: fold_fixed fold_fill_in_settled)
  then show ?thesis by (simp add: backfill_table)
qed

lemma backfill_keeps_recorded:
  assumes "r \<in> set t" "\<not> blank_profit r"
  shows "r \<in> set (snd (snd (backfill_pnl db t)))"
  using assms fold_fill_in_keeps [OF assms(2), of "List.map_filter close_data (close_rows db)"]
  by (auto simp: backfill_table phantom_row_def image_iff intro!: bexI [of _ r])

text \<open>A position that was closed at exactly no profit and without a reason is deleted like a phantom
  row, so the day's memory that its strategy has traded goes with it.\<close>

lemma break_even_trade_forgotten:
  assumes "at_quantity r = 0" "at_realized r = Some 0" "at_close_reason r = None"
  shows "strategies_traded_on ny d (snd (snd (backfill_pnl [] [r]))) = {}"
  using assms by (simp add: backfill_table close_rows_def List.map_filter_simps phantom_row_def blank_profit_def
      strategies_traded_on_def)

text \<open>A forced close logs the profit of what was left, not that of the position: of a position that had
  partial exits before, the repair writes the last part only. An ordinary close logs the whole.\<close>

lemma forced_close_logs_last_part:
  assumes "map_of (pb_positions b) pid = Some p" "ps_status p \<noteq> CLOSED"
  shows "\<exists>p' b' q e. force_close_position now pid price ts b = (Some p', b')
    \<and> es_queue (pb_store b') = q @ [Some e] \<and> close_data e = Some (pid, ps_realized p' - ps_realized p, Some ts)"
  using assms
  by (simp add: force_close_position_def force_closed_def Let_def log_book_def put_position_def close_data_def field_of_def)

lemma ordinary_close_logs_whole:
  assumes "fe_side f \<noteq> ps_side p" "ps_quantity p \<le> fe_quantity f" "fill_target f pid b = Some p"
  shows "\<exists>p' b' q e. handle_fill now fresh f pid b = (p', b')
    \<and> es_queue (pb_store b') = q @ [Some e] \<and> close_data e = Some (ps_id p, ps_realized p', Some (fe_timestamp f))"
  using assms by (simp add: handle_fill_def fill_log_def Let_def log_book_def close_data_def field_of_def)

section \<open>One bar for each minute\<close>

lemma fetch_day_rows:
  "sorted (map fst (fetch_day ny day bars)) \<and> distinct (map fst (fetch_day ny day bars))
   \<and> (\<forall>(m, b) \<in> set (fetch_day ny day bars). b \<in> set bars \<and> zone_date ny (hb_time b) = day \<and> m = local_minute ny (hb_time b))"
proof -
  define ok where "ok rows \<longleftrightarrow> wf_dict rows \<and> (\<forall>m b. map_of rows m = Some b \<longrightarrow>
      b \<in> set bars \<and> zone_date ny (hb_time b) = day \<and> m = local_minute ny (hb_time b))" for rows :: "(int, history_bar) pydict"
  have step: "ok rows \<Longrightarrow> b \<in> set bars \<Longrightarrow> ok (add_minute ny day b rows)" for b rows
    by (auto simp: ok_def add_minute_def)
  have "ok rows \<Longrightarrow> set bs \<subseteq> set bars \<Longrightarrow> ok (fold (add_minute ny day) bs rows)" for bs rows
    by (induction bs arbitrary: rows) (simp_all add: step)
  from this [of "[]" bars] have ok: "ok (fold (add_minute ny day) bars [])" by (simp add: ok_def)
  let ?d = "fold (add_minute ny day) bars []"
  have "mset (map fst (sort_key fst ?d)) = mset (map fst ?d)" by simp
  then have "distinct (map fst (fetch_day ny day bars))"
    using ok mset_eq_imp_distinct_iff unfolding ok_def wf_dict_def fetch_day_def by metis
  moreover have "map_of ?d m = Some b" if "(m, b) \<in> set (fetch_day ny day bars)" for m b
    using that ok by (simp add: fetch_day_def ok_def wf_dict_def map_of_eq_Some_iff)
  ultimately show ?thesis using ok by (auto simp: fetch_day_def ok_def)
qed

end
