(* ===== verification/Spec2Isabelle.thy ===== *)
theory Spec2Isabelle
  imports Mock_Broker Contract_Selector Runner_Tick Providers Reports Shadow_Replay Ibkr_Runs Dashboard Backfill
begin

text \<open>
  A verification development of the execution system: a Python program that polls trading
  strategies for signals, passes them through risk checks, works limit orders at a broker, books
  the fills as positions and manages their exits.

  \<^bold>\<open>How the parts interact.\<close> \<^verbatim>\<open>src/app/runner.py\<close> drives everything from one asyncio loop. A tick
  processes operator commands (\<^verbatim>\<open>src/control/command_queue.py\<close>), supervises the working orders
  (\<^verbatim>\<open>src/execution/order_manager.py\<close>), polls strategies, evaluates their signals
  (\<^verbatim>\<open>src/risk/risk_engine.py\<close>), submits orders, and checks exits
  (\<^verbatim>\<open>src/portfolio/exit_manager.py\<close>) on quotes and one-minute bars (\<^verbatim>\<open>src/marketdata/bars.py\<close>).
  Broker callbacks update orders and, through fills, positions
  (\<^verbatim>\<open>src/portfolio/position_manager.py\<close>). Reconciliation (\<^verbatim>\<open>src/portfolio/reconciliation.py\<close>)
  compares the books with the broker and locks the system through the overrides
  (\<^verbatim>\<open>src/control/overrides.py\<close>). Everything is logged to the event store
  (\<^verbatim>\<open>src/storage/event_log.py\<close>).

  \<^bold>\<open>The theories.\<close>
  \<^item> \<open>Prelude\<close>: floats as exact rationals, ordered dictionaries, unrendered f-strings, exceptions,
    the locale \<open>step_invariant\<close> that the state machines below interpret.
  \<^item> \<open>Core_Model\<close>, \<open>Config\<close>, \<open>Data_Quality\<close>: \<^verbatim>\<open>src/core/enums.py\<close>, \<^verbatim>\<open>src/core/models.py\<close>,
    \<^verbatim>\<open>src/core/config.py\<close>, \<^verbatim>\<open>src/marketdata/data_quality.py\<close>.
  \<^item> \<open>Risk_Engine\<close>: the eighteen checks and the sizing, and their refinement of the contract
    \<open>entry_permitted\<close>.
  \<^item> \<open>Overrides\<close>, \<open>Event_Log\<close>, \<open>Command_Queue\<close>: the control state, the audit log with its background
    writer, the durable command table.
  \<^item> \<open>Bars\<close>: the bar builder, whose bars are the summaries of their minutes; \<open>Position_Manager\<close>: fills, positions and their accounting;
    \<open>Position_Store\<close>: the attribution table, with its writes and lookups that fail; \<open>Exit_Manager\<close>: exit triggers and exit intents;
    \<open>Contract_Selector\<close>: choosing an option contract.
  \<^item> \<open>Order_Manager\<close>: submission, cancellation, the sweep of stuck cancels, broker callbacks and
    the repricer, each coroutine cut at its awaits; the invariant and the audit trail hold for every
    interleaving of the pieces. \<open>Runner_State\<close> puts the sweep together with whatever runs at its awaits.
  \<^item> \<open>Broker_Interface\<close>: what is relied on of a broker client, as locales: \<open>broker_client\<close>,
    \<open>refusing_broker\<close> and \<open>synchronous_broker\<close>, each extending the one before. All are interpreted on
    \<open>Mock_Broker\<close>, the model of \<^verbatim>\<open>src/broker/mock_broker.py\<close>, the first on \<open>Ibkr_Broker\<close>.
  \<^item> \<open>Ibkr_Contracts\<close>, \<open>Ibkr_Broker\<close>, \<open>Ibkr_Quotes\<close>, \<open>Ibkr_Runs\<close>: the live client,
    \<^verbatim>\<open>src/broker/ibkr_broker.py\<close>, with the snapshots of \<^verbatim>\<open>src/marketdata/chain_log.py\<close>: names of
    contracts; connection, orders, queries and message handlers; subscriptions with their eviction and
    ticker updates; runs over all of these. The library it talks to is not part of the program: its
    answers are arguments, what it is asked are \<open>ib_request\<close>s. Shown are whom an order may be sent for,
    that the order manager stays in step, what the callbacks and the bars are told in any interleaving,
    and the bound on the subscriptions.
  \<^item> \<open>Reconciliation\<close>, \<open>Manual_Control\<close>: comparing books with the broker; the operator's commands,
    of which those that cancel wait for the broker, which may change any component meanwhile.
    \<open>Operator_Views\<close>: the commands that show something, and the command line, \<^verbatim>\<open>src/app/control.py\<close>,
    that dispatches to both; shown is that every command is on record and stays in its component.
  \<^item> \<open>Entry_Window\<close>, \<open>Runner_State\<close>, \<open>Runner_Control\<close>: parts of \<^verbatim>\<open>src/app/runner.py\<close>: when a strategy
    may open, the state and lifecycle of the runner, reconciliation and its locks, strategy updates
    with their overlay file, and the processing of commands.
  \<^item> \<open>Leg_Coordination\<close>, \<open>Entry_Flow\<close>, \<open>Exit_Flow\<close>, \<open>Fill_Flow\<close>: the supervision of working orders
    (\<open>_manage_active_orders\<close>), the entry and the exit half of \<open>_process_tick\<close>, and what fills,
    commissions and the seeding after a restart do to the books. \<open>Runner_Tick\<close> composes them to the
    tick, the snapshot for the dashboard (with its table, \<^verbatim>\<open>src/storage/runtime_state.py\<close>), one
    iteration of \<open>_main_loop\<close> and \<open>start\<close>.
  \<^item> \<open>Calendar\<close>: dates and their texts. \<open>Provider_Common\<close>, \<open>Short_Straddle\<close>, \<open>Breakout\<close>, \<open>Five_EMA\<close>,
    \<open>Providers\<close>: the strategies of \<^verbatim>\<open>src/strategies\<close>. What a provider is answered is a \<open>feed\<close>; \<open>poll\<close>,
    \<open>emit_now\<close> and \<open>collect_exits\<close> are functions of the feed, the configuration, the time and the
    provider's state. Shown are the choice and the size of the straddle's legs, what a breakout signal rests
    on, the invariant of the five-minute state, its entries and exits, and what the runner may rely on
    whichever provider answers.
  \<^item> \<open>Execution_Quality\<close>, \<open>Reports\<close>, \<open>Shadow_Replay\<close>: \<^verbatim>\<open>src/analytics/execution_quality.py\<close>,
    \<^verbatim>\<open>src/analytics/reports.py\<close> and \<^verbatim>\<open>src/replay/shadow.py\<close>, which look back at a day: the metrics
    and the first-in-first-out profit computed from the events of \<open>Event_Log\<close>, their report, and the
    replay of recorded bars. Shown are that the profit is that of closing contract by contract, the
    oldest first, that fills count as often as they are logged, and what a replayed trade is.
  \<^item> \<open>Order_History\<close>, \<open>Dashboard\<close>: what the operator's screen reads from the database:
    \<^verbatim>\<open>src/dashboard/views/orders.py\<close> and \<^verbatim>\<open>src/dashboard/app.py\<close>. Shown are that the history of orders,
    rebuilt from the log, agrees with the order manager, that the total profit adds up over the
    position table and the runner's positions, and the bounds of the answers. \<open>Backfill\<close>: the repair
    scripts \<^verbatim>\<open>src/scripts/backfill_pnl.py\<close> and \<^verbatim>\<open>src/scripts/backfill_underlying.py\<close>; the repair can
    be repeated and keeps what was recorded.

  \<^bold>\<open>Interfaces.\<close> \<open>step_invariant\<close> (a property every operation of a component keeps) is interpreted for
  the order manager, the books and the tables; the locales of \<open>Broker_Interface\<close> for the two broker
  clients. \<open>change_reporter\<close> (\<open>Ibkr_Runs\<close>) is a cache of the last value that lets changes through,
  interpreted for the statuses of an order and for the prices of a symbol.
  \<open>runner_invariant\<close> (\<open>Runner_State\<close>) collects what a property of the runner must survive: its lemmas
  carry it through the order supervision, entries and exits, for \<open>locked\<close> and the well-formedness of
  the order manager. \<open>switch_invariant\<close> (\<open>Runner_Tick\<close>) extends it, as a sublocale, to properties of the
  switches, and carries them through a whole iteration of the loop and so through any number. \<open>strategy_provider\<close> and
  \<open>firing_provider\<close> (\<open>Provider_Common\<close>) are the contract of a provider, interpreted for each of the
  strategies and for their composite; they give the hypothesis \<open>answers_for\<close> of the entry flow.

  \<^bold>\<open>Conventions.\<close> An exception is \<open>Inl\<close>, a result \<open>Inr\<close>. A clock reading, a fresh identifier and the
  reply of an awaited call are arguments. In the runner an awaited call is a function of the runner
  state that returns the reply and the state found afterwards (\<open>world\<close>), so the results hold whatever
  the other tasks do meanwhile, up to the hypotheses a theorem names. Loops over lists are structural
  recursion or folds, so they terminate by definition; the two while loops of the strategies have
  termination proofs; no fuel is used. The bound 20000 of the event
  list, the batch size 100 of the writer and the limit of three database attempts are the code's.

  Where a comment or a document promises something else than what is proved, the text before the
  theorem says so and names the lemma that shows it.

  \<^bold>\<open>Not modelled.\<close> Binary floating point rounding, infinities and NaN. The text of rendered f-strings,
  JSON and YAML encoding, SQL and the file system. Of the live broker adapter, the library behind it, the
  registration of callbacks and the renumbering of two informational error codes. Of the dashboard, the
  routing, the web socket and the drawing of the pages; of the command line, the argument parser. The
  other scripts under \<^verbatim>\<open>src/scripts\<close>, which print what a live session answers. Of the runner,
  the loading of the YAML files and the wiring of the components. Of a tick it is not shown that it
  returns when commands are pending: \<open>process_tick\<close> is an option, \<open>None\<close> only if the walk along
  replacement chains does not end, which is excluded for well-formed order managers.
\<close>

end
